(* ===== verification/Prelude.thy ===== *)
theory Prelude
  imports Main "HOL-Library.AList" "HOL-Library.Multiset"
begin

text \<open>
  Shared vocabulary of the development: JavaScript values, arrays and objects as the
  administration panel uses them, the jQuery iteration helper, and the effects a handler
  has on the page, the browser and the API.

  \<^item> A JavaScript value is a \<open>js\<close>. Numbers are the integers the panel works with (ids,
    counters, status codes); the code does no fractional arithmetic on them.
  \<^item> A JavaScript array is a list. \<open>$.inArray\<close>, \<open>Array.prototype.splice\<close> and
    \<open>Array.prototype.push\<close> are \<open>inArray\<close>, \<open>splice\<close> and appending one element.
  \<^item> A JavaScript object used as a table is an association list in insertion order, the
    order in which \<open>for in\<close> and \<open>$.each\<close> walk its (non-numeric) keys. Assignment is
    \<open>AList.update\<close> (in place when the key exists, at the end otherwise), \<open>delete\<close> is
    \<open>AList.delete\<close>, a read is \<open>map_of\<close> with \<open>None\<close> for \<open>undefined\<close>.
  \<^item> What a handler does to the page or asks of the browser and of the API is a list of
    \<open>effect\<close>s, in program order.
\<close>

named_theorems js_simps \<open>evaluation of the JavaScript helpers\<close>
named_theorems inv_intros \<open>operations that keep a component's invariant\<close>

section \<open>JavaScript values\<close>

datatype js =
    Undef
  | Null
  | JBool bool
  | JNum int
  | JStr string
  | JArr "js list"
  | JObj "(string \<times> js) list"

type_synonym 'v obj = "(string \<times> 'v) list"

text \<open>The coercion of a condition: \<open>undefined\<close>, \<open>null\<close>, \<open>false\<close>, 0 and the empty
  string are false, everything else is true.\<close>

fun truthy :: "js \<Rightarrow> bool" where
  "truthy Undef = False"
| "truthy Null = False"
| "truthy (JBool b) = b"
| "truthy (JNum n) = (n \<noteq> 0)"
| "truthy (JStr s) = (s \<noteq> [])"
| "truthy (JArr xs) = True"
| "truthy (JObj ps) = True"

text \<open>The loose comparison \<open>==\<close> on the values the panel compares: \<open>undefined\<close> and \<open>null\<close> are
  equal to each other only; a boolean counts as 0 or 1; a string against a number is read as
  a number, by \<open>str_num\<close>: blanks around an optional sign and decimal digits. Strings in other
  number formats are not equal to any integer here.\<close>

definition is_digit :: "char \<Rightarrow> bool" where
  "is_digit c = (let n = (of_char c :: nat) in 48 \<le> n \<and> n \<le> 57)"

definition digit_val :: "char \<Rightarrow> int" where
  "digit_val c = int (of_char c) - 48"

definition digits_num :: "string \<Rightarrow> int option" where
  "digits_num s =
     (if s \<noteq> [] \<and> list_all is_digit s then Some (foldl (\<lambda>n c. 10 * n + digit_val c) 0 s)
      else None)"

definition trim :: "string \<Rightarrow> string" where
  "trim s = rev (dropWhile (\<lambda>c. c = CHR '' '') (rev (dropWhile (\<lambda>c. c = CHR '' '') s)))"

definition str_num :: "string \<Rightarrow> int option" where
  "str_num s =
     (case trim s of
        [] \<Rightarrow> Some 0
      | c # cs \<Rightarrow>
          if c = CHR ''-'' then map_option uminus (digits_num cs)
          else if c = CHR ''+'' then digits_num cs
          else digits_num (c # cs))"

fun js_num :: "js \<Rightarrow> int option" where
  "js_num (JBool b) = Some (if b then 1 else 0)"
| "js_num (JNum n) = Some n"
| "js_num (JStr s) = str_num s"
| "js_num _ = None"

definition nullish :: "js \<Rightarrow> bool" where
  "nullish v \<longleftrightarrow> v = Undef \<or> v = Null"

fun loose_eq :: "js \<Rightarrow> js \<Rightarrow> bool" where
  "loose_eq (JStr s) (JStr t) = (s = t)"
| "loose_eq a b =
     (if nullish a \<or> nullish b then nullish a \<and> nullish b
      else (case (js_num a, js_num b) of (Some m, Some n) \<Rightarrow> m = n | _ \<Rightarrow> False))"

text \<open>Run-time errors the modelled code can raise.\<close>

datatype js_error = TypeError | ReferenceError | SyntaxError

section \<open>Arrays\<close>

text \<open>\<open>$.inArray(x, xs)\<close>: the first index of \<open>x\<close>, or -1.\<close>

primrec inArray :: "'a \<Rightarrow> 'a list \<Rightarrow> int" where
  "inArray x [] = -1"
| "inArray x (y # ys) =
     (if x = y then 0 else if inArray x ys = -1 then -1 else inArray x ys + 1)"

text \<open>\<open>xs.splice(start, cnt)\<close>, as the array that remains: a negative start counts from the
  end, and a start beyond either end is clamped.\<close>

definition splice :: "'a list \<Rightarrow> int \<Rightarrow> nat \<Rightarrow> 'a list" where
  "splice xs start cnt =
     (let i = (if start < 0 then nat (int (length xs) + start)
               else min (nat start) (length xs))
      in take i xs @ drop (i + cnt) xs)"

text \<open>\<open>xs[i]\<close>: \<open>None\<close> (that is, \<open>undefined\<close>) out of range.\<close>

definition arr_get :: "'a list \<Rightarrow> nat \<Rightarrow> 'a option" where
  "arr_get xs i = (if i < length xs then Some (xs ! i) else None)"

lemma inArray_ge: "inArray x xs \<ge> -1"
  by (induction xs) auto

lemma inArray_eq_neg [simp, js_simps]: "inArray x xs = -1 \<longleftrightarrow> x \<notin> set xs"
proof (induction xs)
  case (Cons y ys)
  have "inArray x ys \<ge> -1" by (rule inArray_ge)
  with Cons show ?case by auto
qed simp

lemma inArray_nonneg: "x \<in> set xs \<Longrightarrow> 0 \<le> inArray x xs \<and> inArray x xs < int (length xs)"
  by (induction xs) auto

lemma inArray_nth: "x \<in> set xs \<Longrightarrow> xs ! nat (inArray x xs) = x"
proof (induction xs)
  case (Cons y ys)
  show ?case
  proof (cases "x = y")
    case False
    with Cons.prems have "x \<in> set ys" by simp
    moreover from this have "0 \<le> inArray x ys" using inArray_nonneg by fast
    ultimately show ?thesis using False Cons.IH by (simp add: nat_add_distrib)
  qed simp
qed simp

text \<open>The idiom of the whole panel: look an element up, splice it out.\<close>

lemma splice_inArray:
  "x \<in> set xs \<Longrightarrow> splice xs (inArray x xs) 1 = remove1 x xs"
proof (induction xs)
  case (Cons y ys)
  show ?case
  proof (cases "x = y")
    case True
    then show ?thesis by (simp add: splice_def)
  next
    case False
    with Cons.prems have "x \<in> set ys" by simp
    moreover from this have "0 \<le> inArray x ys" "inArray x ys < int (length ys)"
      using inArray_nonneg by fast+
    moreover from calculation have "nat (inArray x ys + 1) = Suc (nat (inArray x ys))"
      by simp
    ultimately show ?thesis using False Cons.IH
      by (simp add: splice_def Let_def min_def split: if_splits)
  qed
qed simp

lemma splice_Suc_0 [js_simps]:
  "x \<in> set xs \<Longrightarrow> splice xs (inArray x xs) (Suc 0) = remove1 x xs"
  using splice_inArray by fastforce

lemma splice_neg_one: "splice xs (-1) 1 = butlast xs"
proof (cases "xs = []")
  case False
  then have "nat (int (length xs) - 1) = length xs - 1" by simp
  with False show ?thesis by (simp add: splice_def Let_def butlast_conv_take)
qed (simp add: splice_def)

lemma splice_zero: "splice xs 0 1 = tl xs"
  by (cases xs) (simp_all add: splice_def)

lemma arr_get_Some_iff: "arr_get xs i = Some x \<longleftrightarrow> i < length xs \<and> xs ! i = x"
  by (auto simp: arr_get_def)

section \<open>Objects\<close>

text \<open>\<open>$.extend({}, a, b)\<close> on tables without undefined values: the entries of \<open>b\<close> are
  assigned over \<open>a\<close>, in order.\<close>

definition jq_extend :: "'v obj \<Rightarrow> 'v obj \<Rightarrow> 'v obj" where
  "jq_extend a b = foldl (\<lambda>acc kv. AList.update (fst kv) (snd kv) acc) a b"

definition obj_keys :: "'v obj \<Rightarrow> string list" where
  "obj_keys ob = map fst ob"

lemma jq_extend_Nil [simp]: "jq_extend a [] = a"
  by (simp add: jq_extend_def)

lemma jq_extend_Cons [simp]: "jq_extend a ((k, v) # b) = jq_extend (AList.update k v a) b"
  by (simp add: jq_extend_def)

lemma map_of_jq_extend: "distinct (map fst b) \<Longrightarrow> map_of (jq_extend a b) = map_of a ++ map_of b"
proof (induction b arbitrary: a)
  case (Cons kv b)
  obtain k v where kv: "kv = (k, v)" by (cases kv)
  from Cons.prems kv have "k \<notin> fst ` set b" "distinct (map fst b)" by simp_all
  with Cons.IH [of "AList.update k v a"] kv show ?case
    by (auto simp: update_conv' map_add_def fun_eq_iff map_of_eq_None_iff split: option.splits)
qed simp

lemma distinct_upd [simp]:
  "distinct (map fst ps) \<Longrightarrow> distinct (map fst (AList.update k v ps))"
  by (rule AList.distinct_update)

lemma distinct_jq_extend:
  "distinct (map fst a) \<Longrightarrow> distinct (map fst (jq_extend a b))"
  by (induction b arbitrary: a) (auto simp: distinct_upd)

lemma map_of_update [simp]: "map_of (AList.update k v ps) = (map_of ps)(k \<mapsto> v)"
  by (rule update_conv')

lemma map_of_delete [simp]: "map_of (AList.delete k ps) = (map_of ps)(k := None)"
  by (rule delete_conv')

lemma map_of_filter_key:
  "distinct (map fst ps) \<Longrightarrow>
   map_of (filter P ps) k =
     (case map_of ps k of None \<Rightarrow> None | Some v \<Rightarrow> if P (k, v) then Some v else None)"
  by (induction ps) (auto simp: map_of_eq_None_iff image_iff split: option.splits)

section \<open>Iteration with \<open>$.each\<close> over an array that changes\<close>

text \<open>
  jQuery 1.9.1 reads the length of an array once, before the first call, and reads the
  element of each index when it gets there:
  \<^verbatim>\<open>each: function(e,t,n){ var r, i=0, o=e.length; ... for(; o>i; i++) if (r=t.call(e[i],i,e[i]), r===!1) break; }\<close>
  A callback that removes elements of the array it is called on therefore skips elements.
  \<open>each_mut get f i n s\<close> makes the calls for the indices \<open>i, \<dots>, i + n - 1\<close>.
\<close>

fun each_mut :: "('s \<Rightarrow> nat \<Rightarrow> 'a option) \<Rightarrow> (nat \<Rightarrow> 'a option \<Rightarrow> 's \<Rightarrow> 's) \<Rightarrow>
    nat \<Rightarrow> nat \<Rightarrow> 's \<Rightarrow> 's" where
  "each_mut get f i 0 s = s"
| "each_mut get f i (Suc n) s = each_mut get f (Suc i) n (f i (get s i) s)"

lemma each_mut_invariant:
  assumes "P s" and "\<And>i x s. P s \<Longrightarrow> P (f i x s)"
  shows "P (each_mut get f i n s)"
  using assms(1) by (induction n arbitrary: i s) (auto intro: assms(2))

section \<open>Effects\<close>

text \<open>
  \<open>Dom op sel arg\<close> is one jQuery call on the elements a selector finds (\<open>show\<close>, \<open>hide\<close>,
  \<open>html\<close>, \<open>addClass\<close>, \<dots>); \<open>Call f args\<close> is a call of a rendering routine that is not
  modelled further; \<open>Api\<close> is a request queued with \<open>Wat.A.performAction\<close> or through a
  Backbone model, with the name of the function that will get the answer.
\<close>

datatype msg_type = MsgError | MsgSuccess | MsgInfo

datatype dom_op =
    DomShow | DomHide | DomRemove | DomEmpty
  | DomHtml | DomAppend | DomPrepend | DomVal | DomAddClass | DomRemoveClass
  | DomAttr string | DomRemoveAttr string | DomProp string | DomTrigger

datatype effect =
    Dom dom_op string js
  | ShowMessage js msg_type
  | SetCookie string js
  | RemoveCookie string
  | Navigate string
  | Reload
  | PushState string
  | Confirm string string bool
  | OpenDialog string
  | CloseDialog
  | Api string js js string
  | Call string "js list"

text \<open>A loop whose body changes a state, has effects and may raise an error, which ends it.\<close>

type_synonym 's outcome = "js_error + 's \<times> effect list"

fun each_err :: "('a \<Rightarrow> 's \<Rightarrow> 's outcome) \<Rightarrow> 'a list \<Rightarrow> 's \<Rightarrow> 's outcome" where
  "each_err f [] s = Inr (s, [])"
| "each_err f (x # xs) s =
     (case f x s of
        Inl e \<Rightarrow> Inl e
      | Inr (s1, es) \<Rightarrow>
          (case each_err f xs s1 of Inl e \<Rightarrow> Inl e | Inr (s2, es2) \<Rightarrow> Inr (s2, es @ es2)))"

lemma each_err_total:
  assumes "\<And>x s. x \<in> set xs \<Longrightarrow> P s \<Longrightarrow> \<exists>s' es. f x s = Inr (s', es) \<and> P s'" and "P s"
  shows "\<exists>s' es. each_err f xs s = Inr (s', es) \<and> P s'"
  using assms
proof (induction xs arbitrary: s)
  case (Cons x xs)
  from Cons.prems obtain s1 es where 1: "f x s = Inr (s1, es)" "P s1" by (meson list.set_intros(1))
  with Cons obtain s2 es2 where "each_err f xs s1 = Inr (s2, es2)" "P s2" by (meson list.set_intros(2))
  with 1 show ?case by simp
qed simp

lemma each_err_invariant:
  assumes "each_err f xs s = Inr (s', es)" and "P s"
    and "\<And>x s s' es. x \<in> set xs \<Longrightarrow> P s \<Longrightarrow> f x s = Inr (s', es) \<Longrightarrow> P s'"
  shows "P s'"
  using assms
proof (induction xs arbitrary: s es)
  case (Cons x xs)
  from Cons.prems(1) obtain s1 e1 e2 where s1: "f x s = Inr (s1, e1)" and r: "each_err f xs s1 = Inr (s', e2)"
    by (auto split: sum.splits prod.splits)
  have "P s1" using Cons.prems(3) [OF _ Cons.prems(2) s1] by simp
  then show ?case using Cons.IH [OF r] Cons.prems(3) by (meson list.set_intros(2))
qed simp

end
