(* ===== verification/Config.thy ===== *)
theory Config
  imports Prelude
begin

text \<open>
  The configuration and session object \<open>Wat.C\<close> (\<open>wat/lib/session/config.js\<close>): its state,
  the addresses of the API, the kinds of administrator, and the access control lists: the
  check of one or several ACLs, of predefined groups of ACLs, and the purge of every
  configuration table (columns, filters, actions, menus) by the ACLs of its items.

  \<open>C_x\<close> is the field \<open>Wat.C.x\<close>. A field that is not set before login is an option.
\<close>

section \<open>State\<close>

record wat_c =
  C_login :: string
  C_password :: string
  C_loggedIn :: bool
  C_apiUrl :: string
  C_apiWSUrl :: string
  C_source :: string
  C_acls :: "string list"
  C_aclGroups :: "string list obj"
  C_sid :: string
  C_tenantID :: int
  C_adminID :: int
  C_abortOldRequests :: bool
  C_routerHistoryStarted :: bool
  C_showServerClock :: bool
  C_multitenant :: "int option"
  C_tenant :: "string option"
  C_tenantName :: "string option"
  C_userTenant :: "string option"
  C_authSeparators :: "string list option"
  C_crossOrigin :: bool
  C_block :: int
  C_tenantBlock :: int
  C_language :: "string option"
  C_tenantLanguage :: "string option"
  C_digApiCode :: "string option"

text \<open>The literal of \<open>Wat.C\<close>; \<open>aclGroups\<close> is filled by \<open>settings/acl-groups.js\<close>.\<close>

definition wat_c_init :: "string list obj \<Rightarrow> wat_c" where
  "wat_c_init groups =
     \<lparr> C_login = '''', C_password = '''', C_loggedIn = False, C_apiUrl = '''',
       C_apiWSUrl = '''', C_source = ''WAT'', C_acls = [], C_aclGroups = groups,
       C_sid = '''', C_tenantID = -1, C_adminID = -1, C_abortOldRequests = True,
       C_routerHistoryStarted = False, C_showServerClock = False,
       C_multitenant = None, C_tenant = None, C_tenantName = None, C_userTenant = None,
       C_authSeparators = None, C_crossOrigin = False, C_block = 0, C_tenantBlock = 0,
       C_language = None, C_tenantLanguage = None, C_digApiCode = None \<rparr>"

text \<open>Constants of \<open>constants.js\<close>.\<close>

definition SUPERTENANT_ID :: int where "SUPERTENANT_ID = 0"
definition RECOVER_USER_ID :: int where "RECOVER_USER_ID = 0"
definition COMMON_TENANT_ID :: int where "COMMON_TENANT_ID = -1"
definition FILTER_ALL :: int where "FILTER_ALL = -10"

section \<open>Addresses of the API\<close>

text \<open>\<open>s.substr(0, n)\<close> and \<open>s.substr(n)\<close> are \<open>take n\<close> and \<open>drop n\<close>.\<close>

definition initApiAddress :: "wat_c \<Rightarrow> wat_c" where
  "initApiAddress C =
     (let url = C_apiUrl C @ ''/api/'';
          ws = (if take 5 url = ''https'' then ''wss'' @ drop 5 url else ''ws'' @ drop 4 url)
      in C\<lparr>C_apiUrl := url, C_apiWSUrl := ws\<rparr>)"

definition getApiUrl :: "wat_c \<Rightarrow> string" where
  "getApiUrl C = C_apiUrl C"

definition getUrlSid :: "wat_c \<Rightarrow> string" where
  "getUrlSid C =
     (if C_crossOrigin C \<and> C_sid C \<noteq> '''' then ''&sid='' @ C_sid C else '''')"

definition getBaseUrl :: "wat_c \<Rightarrow> string \<Rightarrow> string" where
  "getBaseUrl C endpoint =
     (if C_login C \<noteq> '''' \<and> C_password C \<noteq> '''' then
        getApiUrl C @ endpoint @ ''?login='' @ C_login C @ ''&password='' @ C_password C @
        (if (case C_multitenant C of None \<Rightarrow> False | Some m \<Rightarrow> m \<noteq> 0) then
           (case C_tenant C of None \<Rightarrow> '''' | Some t \<Rightarrow> ''&tenant='' @ t)
         else '''')
      else getApiUrl C @ endpoint @ ''?'' @ getUrlSid C)"

definition getUpdateDiUrl :: "wat_c \<Rightarrow> string" where
  "getUpdateDiUrl C = getApiUrl C @ ''di/upload?'' @ getUrlSid C"

definition getDownloadDiUrl :: "wat_c \<Rightarrow> string \<Rightarrow> string" where
  "getDownloadDiUrl C url = getApiUrl C @ ''di/download?'' @ getUrlSid C @ ''&url='' @ url"

text \<open>\<open>apiUrl.match(/^https?\:\/\/([^\/:?#]+)(?:[\/:?#]|$)/i)[1]\<close>: the host name after
  the scheme, up to the first of slash, colon, question mark or hash; indexing the failed
  match (\<open>null\<close>) raises a TypeError.\<close>

definition host_end :: "char \<Rightarrow> bool" where
  "host_end c \<longleftrightarrow> c \<in> set ''/:?#''"

definition lower_char :: "char \<Rightarrow> char" where
  "lower_char c =
     (let n = (of_char c :: nat) in if 65 \<le> n \<and> n \<le> 90 then char_of (n + 32) else c)"

definition strip_scheme :: "string \<Rightarrow> string option" where
  "strip_scheme url =
     (if map lower_char (take 7 url) = ''http://'' then Some (drop 7 url)
      else if map lower_char (take 8 url) = ''https://'' then Some (drop 8 url)
      else None)"

definition apiHostname :: "string \<Rightarrow> js_error + string" where
  "apiHostname url =
     (case strip_scheme url of
        None \<Rightarrow> Inl TypeError
      | Some rest \<Rightarrow>
          (let h = takeWhile (\<lambda>c. \<not> host_end c) rest
           in if h = '''' then Inl TypeError else Inr h))"

definition checkCrossOrigin :: "string \<Rightarrow> wat_c \<Rightarrow> js_error + wat_c" where
  "checkCrossOrigin clientHostname C =
     (case apiHostname (C_apiUrl C) of
        Inl e \<Rightarrow> Inl e
      | Inr h \<Rightarrow> Inr (C\<lparr>C_crossOrigin := (h \<noteq> clientHostname)\<rparr>))"

text \<open>\<open>setConfigToken\<close>: only two tokens of the configuration file are accepted.\<close>

definition setConfigToken :: "string \<Rightarrow> string \<Rightarrow> wat_c \<Rightarrow> wat_c" where
  "setConfigToken token v C =
     (if inArray token [''apiUrl'', ''digApiCode''] = -1 then C
      else if token = ''apiUrl'' then C\<lparr>C_apiUrl := v\<rparr>
      else C\<lparr>C_digApiCode := Some v\<rparr>)"

text \<open>The \<open>complete\<close> handler of \<open>readConfigFile\<close>, up to the call of \<open>rememberLogin\<close>:
  \<open>tokens\<close> is \<open>None\<close> when the file is not JSON; \<open>origin\<close>, \<open>port\<close> and \<open>host\<close> are those
  of \<open>window.location\<close>.\<close>

definition readConfigFile ::
  "string \<Rightarrow> string \<Rightarrow> string \<Rightarrow> (string \<times> string) list option \<Rightarrow> wat_c \<Rightarrow> js_error + wat_c" where
  "readConfigFile origin port host tokens C =
     (case tokens of
        None \<Rightarrow> Inr C
      | Some ts \<Rightarrow>
          (let C1 = foldl (\<lambda>c kv. setConfigToken (fst kv) (snd kv) c) C ts;
               C2 = (if C_apiUrl C1 = '''' then
                       C1\<lparr>C_apiUrl := origin @ (if port = '''' then '':443'' else '''')\<rparr>
                     else C1)
           in (case checkCrossOrigin host C2 of
                 Inl e \<Rightarrow> Inl e
               | Inr C3 \<Rightarrow> Inr (initApiAddress C3))))"

section \<open>Kinds of administrator\<close>

definition isSuperadmin :: "wat_c \<Rightarrow> bool" where
  "isSuperadmin C \<longleftrightarrow> C_tenantID C = SUPERTENANT_ID"

definition isRecoveradmin :: "wat_c \<Rightarrow> int option \<Rightarrow> bool" where
  "isRecoveradmin C idToCheck \<longleftrightarrow>
     (case idToCheck of None \<Rightarrow> C_adminID C | Some i \<Rightarrow> i) = RECOVER_USER_ID"

text \<open>\<open>isMultitenant\<close> returns the stored number; used as a condition it is \<open>multi C\<close>.\<close>

definition isMultitenant :: "wat_c \<Rightarrow> int option" where
  "isMultitenant C = C_multitenant C"

definition multi :: "wat_c \<Rightarrow> bool" where
  "multi C \<longleftrightarrow> (case isMultitenant C of None \<Rightarrow> False | Some m \<Rightarrow> m \<noteq> 0)"

definition knowMultitenant :: "wat_c \<Rightarrow> bool" where
  "knowMultitenant C \<longleftrightarrow> multi C \<and> (isRecoveradmin C None \<or> isSuperadmin C)"

definition setSource :: "string \<Rightarrow> wat_c \<Rightarrow> wat_c" where
  "setSource newSource C = C\<lparr>C_source := newSource\<rparr>"

definition setAbortOldRequests :: "bool \<Rightarrow> wat_c \<Rightarrow> wat_c" where
  "setAbortOldRequests newValue C = C\<lparr>C_abortOldRequests := newValue\<rparr>"

definition getDocGuides :: "wat_c \<Rightarrow> string obj" where
  "getDocGuides C =
     (let guides = [(''introduction'', ''Introduction''),
                    (''stepbystep'', ''WAT Step by step''),
                    (''user'', ''User guide'')]
      in if knowMultitenant C then AList.update ''multitenant'' ''Multitenant guide'' guides
         else guides)"

definition isValidDocGuide :: "wat_c \<Rightarrow> string \<Rightarrow> bool" where
  "isValidDocGuide C guide \<longleftrightarrow> inArray guide (obj_keys (getDocGuides C)) \<noteq> -1"

definition getBlock :: "wat_c \<Rightarrow> int" where
  "getBlock C = (if C_block C = 0 then C_tenantBlock C else C_block C)"

definition getFirstAuthSeparator :: "wat_c \<Rightarrow> string option" where
  "getFirstAuthSeparator C =
     (case C_authSeparators C of None \<Rightarrow> Some '''' | Some seps \<Rightarrow> arr_get seps 0)"

text \<open>\<open>name + separator + tenant\<close>: a missing operand is concatenated as \<open>undefined\<close>.\<close>

definition undef_str :: "string option \<Rightarrow> string" where
  "undef_str x = (case x of None \<Rightarrow> ''undefined'' | Some s \<Rightarrow> s)"

definition getLoginData :: "wat_c \<Rightarrow> string option \<Rightarrow> string option \<Rightarrow> string" where
  "getLoginData C name0 tenant0 =
     (let ten = (case tenant0 of Some t \<Rightarrow> if t = '''' then C_tenantName C else Some t
                               | None \<Rightarrow> C_tenantName C);
          name = (case name0 of Some n \<Rightarrow> if n = '''' then C_login C else n
                               | None \<Rightarrow> C_login C)
      in if \<not> multi C then name
         else name @ undef_str (getFirstAuthSeparator C) @ undef_str ten)"

text \<open>\<open>lng\<close> is the language i18next reports, as in \<open>en_US\<close>.\<close>

definition getEffectiveLan :: "string \<Rightarrow> wat_c \<Rightarrow> string" where
  "getEffectiveLan lng C =
     (let lan0 = (if C_language C = Some ''default'' then C_tenantLanguage C else C_language C);
          lan = (case lan0 of None \<Rightarrow> ''auto'' | Some l \<Rightarrow> if l = '''' then ''auto'' else l)
      in if lan = ''auto'' then take 2 lng else lan)"

section \<open>Access control lists\<close>

text \<open>The first argument of \<open>checkACL\<close>: one name, or an array. An array built from a group
  that does not exist holds \<open>undefined\<close>, here \<open>None\<close>.\<close>

datatype acl_spec = AclOne string | AclMany "string option list"

definition count_granted :: "wat_c \<Rightarrow> string option list \<Rightarrow> nat" where
  "count_granted C xs =
     foldl (\<lambda>pass a. if inArray a (map Some (C_acls C)) \<noteq> -1 then pass + 1 else pass) 0 xs"

definition checkACL :: "wat_c \<Rightarrow> acl_spec \<Rightarrow> string option \<Rightarrow> bool" where
  "checkACL C acl logic =
     (case acl of
        AclMany xs \<Rightarrow>
          (let pass = count_granted C xs
           in if logic = Some ''OR'' then pass > 0 else pass = length xs)
      | AclOne a \<Rightarrow> inArray a (C_acls C) \<noteq> -1)"

abbreviation acl1 :: "wat_c \<Rightarrow> string \<Rightarrow> bool" where
  "acl1 C a \<equiv> checkACL C (AclOne a) None"

text \<open>\<open>checkGroupACL\<close>: iterating over a group that is not defined reads the length of
  \<open>undefined\<close>. The loop over the groups stops as soon as one ACL was granted.\<close>

datatype group_arg = GOne string | GMany "string list"

fun group_list :: "group_arg \<Rightarrow> string list" where
  "group_list (GOne g) = [g]"
| "group_list (GMany gs) = gs"

primrec checkGroups :: "wat_c \<Rightarrow> string list \<Rightarrow> js_error + bool" where
  "checkGroups C [] = Inr False"
| "checkGroups C (g # gs) =
     (case map_of (C_aclGroups C) g of
        None \<Rightarrow> Inl TypeError
      | Some as \<Rightarrow> if list_ex (\<lambda>a. acl1 C a) as then Inr True else checkGroups C gs)"

definition checkGroupACL :: "wat_c \<Rightarrow> group_arg \<Rightarrow> js_error + bool" where
  "checkGroupACL C grp = checkGroups C (group_list grp)"

definition ifACL :: "wat_c \<Rightarrow> string \<Rightarrow> acl_spec \<Rightarrow> string" where
  "ifACL C s acl = (if checkACL C acl None then s else '''')"

text \<open>An item of a configuration table: the keys \<open>purgeConfigData\<close> reads. The tables of the
  panel (columns, filters, actions, buttons) extend this record with their own fields.\<close>

record conf_item =
  groupAcls :: "group_arg option"
  itemAcls :: "acl_spec option"
  aclsLogic :: "string option"

definition group_acls :: "wat_c \<Rightarrow> string list \<Rightarrow> string option list" where
  "group_acls C gs =
     concat (map (\<lambda>g. case map_of (C_aclGroups C) g of
                         None \<Rightarrow> [None] | Some as \<Rightarrow> map Some as) gs)"

definition expand_groups :: "wat_c \<Rightarrow> 'a conf_item_scheme \<Rightarrow> 'a conf_item_scheme" where
  "expand_groups C it =
     (case groupAcls it of
        None \<Rightarrow> it
      | Some g \<Rightarrow> it\<lparr>groupAcls := Some (GMany (group_list g)),
                     itemAcls := Some (AclMany (group_acls C (group_list g)))\<rparr>)"

definition item_allowed :: "wat_c \<Rightarrow> 'a conf_item_scheme \<Rightarrow> bool" where
  "item_allowed C it =
     (case itemAcls it of None \<Rightarrow> True | Some a \<Rightarrow> checkACL C a (aclsLogic it))"

primrec purgeConfigData ::
  "wat_c \<Rightarrow> 'a conf_item_scheme obj \<Rightarrow> 'a conf_item_scheme obj" where
  "purgeConfigData C [] = []"
| "purgeConfigData C (ki # data) =
     (let it = expand_groups C (snd ki)
      in if item_allowed C it then (fst ki, it) # purgeConfigData C data
         else purgeConfigData C data)"

section \<open>What the checks decide\<close>

definition granted :: "wat_c \<Rightarrow> string set" where
  "granted C = set (C_acls C)"

text \<open>The requirement of an item, stated on the set of granted ACLs: all of them, or, with
  the \<open>OR\<close> logic, at least one.\<close>

definition acls_ok :: "string option \<Rightarrow> string option set \<Rightarrow> string set \<Rightarrow> bool" where
  "acls_ok logic as G \<longleftrightarrow>
     (if logic = Some ''OR'' then as \<inter> Some ` G \<noteq> {} else as \<subseteq> Some ` G)"

definition required :: "wat_c \<Rightarrow> 'a conf_item_scheme \<Rightarrow> bool" where
  "required C it \<longleftrightarrow>
     (case groupAcls it of
        Some g \<Rightarrow> acls_ok (aclsLogic it) (set (group_acls C (group_list g))) (granted C)
      | None \<Rightarrow>
          (case itemAcls it of
             None \<Rightarrow> True
           | Some (AclOne a) \<Rightarrow> a \<in> granted C
           | Some (AclMany xs) \<Rightarrow> acls_ok (aclsLogic it) (set xs) (granted C)))"

lemma count_granted_filter:
  "count_granted C xs = length (filter (\<lambda>a. a \<in> Some ` granted C) xs)"
proof -
  have "foldl (\<lambda>pass a. if inArray a (map Some (C_acls C)) \<noteq> -1 then pass + 1 else pass) n xs
        = n + length (filter (\<lambda>a. a \<in> Some ` granted C) xs)" for n :: nat
    by (induction xs arbitrary: n) (auto simp: granted_def)
  then show ?thesis by (simp add: count_granted_def)
qed

lemma length_filter_eq: "length (filter P xs) = length xs \<longleftrightarrow> (\<forall>x \<in> set xs. P x)"
proof (induction xs)
  case (Cons x xs)
  have "length (filter P xs) \<noteq> Suc (length xs)"
    using length_filter_le [of P xs] by linarith
  with Cons show ?case by auto
qed simp

lemma checkACL_one [simp]: "checkACL C (AclOne a) l \<longleftrightarrow> a \<in> granted C"
  by (simp add: checkACL_def granted_def)

lemma checkACL_many [simp]:
  "checkACL C (AclMany xs) l \<longleftrightarrow> acls_ok l (set xs) (granted C)"
  by (auto simp: checkACL_def acls_ok_def Let_def count_granted_filter length_filter_eq
                 filter_empty_conv)

lemma item_allowed_expand: "item_allowed C (expand_groups C it) \<longleftrightarrow> required C it"
  by (simp add: item_allowed_def expand_groups_def required_def
           split: option.splits acl_spec.splits)

lemma purge_conv:
  "purgeConfigData C data =
     map (\<lambda>(k, it). (k, expand_groups C it)) (filter (\<lambda>(k, it). required C it) data)"
  by (induction data) (auto simp: item_allowed_expand Let_def)

lemma config_purge_keys:
  "set (map fst (purgeConfigData C data)) = fst ` {ki \<in> set data. required C (snd ki)}"
  by (force simp: purge_conv)

lemma expand_groups_idem: "expand_groups C (expand_groups C it) = expand_groups C it"
  by (auto simp: expand_groups_def split: option.splits)

lemma required_expand: "required C (expand_groups C it) \<longleftrightarrow> required C it"
  by (auto simp: expand_groups_def required_def split: option.splits)

lemma acls_ok_mono: "G \<subseteq> G' \<Longrightarrow> acls_ok l as G \<Longrightarrow> acls_ok l as G'"
  using image_mono [of G G' Some] by (auto simp: acls_ok_def split: if_splits)

lemma required_mono:
  assumes "granted C \<subseteq> granted C'" and "C_aclGroups C = C_aclGroups C'" and "required C it"
  shows "required C' it"
  using assms acls_ok_mono [OF assms(1)]
  by (auto simp: required_def group_acls_def split: option.splits acl_spec.splits)

section \<open>Properties\<close>

text \<open>C2. \<open>purgeConfigData\<close> removes exactly the items whose ACL requirement is not met: an
  item of the table survives (with its groups expanded) if and only if every ACL it needs is
  granted, or at least one under the OR logic, and the order of the table is kept.\<close>

theorem purgeConfigData_exact:
  "purgeConfigData C data =
     map (\<lambda>(k, it). (k, expand_groups C it)) (filter (\<lambda>(k, it). required C it) data)"
  by (rule purge_conv)

text \<open>Granting more ACLs never hides anything: with the same groups, every item that is
  shown to an administrator is also shown to one who holds at least the same ACLs.\<close>

theorem purgeConfigData_mono:
  assumes "set (C_acls C) \<subseteq> set (C_acls C')" and "C_aclGroups C = C_aclGroups C'"
  shows "set (map fst (purgeConfigData C data)) \<subseteq> set (map fst (purgeConfigData C' data))"
proof -
  have "required C it \<Longrightarrow> required C' it" for it :: "'a conf_item_scheme"
    using assms by (rule required_mono [of C C', unfolded granted_def])
  then show ?thesis by (auto simp: config_purge_keys simp del: set_map)
qed

theorem purgeConfigData_mono_witness:
  "set (map fst (purgeConfigData (wat_c_init [])
     [(''name'', \<lparr>groupAcls = None, itemAcls = None, aclsLogic = None\<rparr>)]))
   \<subseteq> set (map fst (purgeConfigData ((wat_c_init [])\<lparr>C_acls := [''vm.see.ip'']\<rparr>)
     [(''name'', \<lparr>groupAcls = None, itemAcls = None, aclsLogic = None\<rparr>)]))"
  by (rule purgeConfigData_mono) (simp_all add: wat_c_init_def)

text \<open>Purging twice changes nothing: the second pass recomputes the expanded groups.\<close>

theorem purgeConfigData_idem:
  "purgeConfigData C (purgeConfigData C data) = purgeConfigData C data"
  by (induction data) (auto simp: item_allowed_expand expand_groups_idem required_expand Let_def)

text \<open>\<open>checkGroupACL\<close> answers true exactly when some group of the list, all earlier ones
  being defined, holds a granted ACL; it raises a TypeError exactly when it meets an
  undefined group before any granted ACL, and otherwise answers false.\<close>

theorem checkGroupACL_cases:
  "checkGroupACL C g =
     (case find (\<lambda>x. case map_of (C_aclGroups C) x of
                       None \<Rightarrow> True | Some as \<Rightarrow> set as \<inter> granted C \<noteq> {}) (group_list g) of
        None \<Rightarrow> Inr False
      | Some x \<Rightarrow> (case map_of (C_aclGroups C) x of None \<Rightarrow> Inl TypeError | Some _ \<Rightarrow> Inr True))"
proof -
  have "checkGroups C gs =
     (case find (\<lambda>x. case map_of (C_aclGroups C) x of
                       None \<Rightarrow> True | Some as \<Rightarrow> set as \<inter> granted C \<noteq> {}) gs of
        None \<Rightarrow> Inr False
      | Some x \<Rightarrow> (case map_of (C_aclGroups C) x of None \<Rightarrow> Inl TypeError | Some _ \<Rightarrow> Inr True))"
    for gs
    by (induction gs) (auto simp: list_ex_iff split: option.splits)
  then show ?thesis by (simp add: checkGroupACL_def)
qed

text \<open>The websocket address is the API address with its scheme replaced: \<open>wss\<close> for
  \<open>https\<close> and \<open>ws\<close> for \<open>http\<close>, with the same host, port and path.\<close>

theorem initApiAddress_scheme:
  "C_apiUrl C = ''http'' @ sec @ ''://'' @ rest \<Longrightarrow> sec = '''' \<or> sec = ''s'' \<Longrightarrow>
   C_apiWSUrl (initApiAddress C) = ''ws'' @ sec @ ''://'' @ rest @ ''/api/'' \<and>
   C_apiUrl (initApiAddress C) = C_apiUrl C @ ''/api/''"
  by (auto simp: initApiAddress_def Let_def)

theorem initApiAddress_scheme_witness:
  "C_apiWSUrl (initApiAddress ((wat_c_init [])\<lparr>C_apiUrl := ''https://qvd:443''\<rparr>)) =
     ''wss://qvd:443/api/''"
  using initApiAddress_scheme [of "(wat_c_init [])\<lparr>C_apiUrl := ''https://qvd:443''\<rparr>" "''s''" "''qvd:443''"]
  by simp

end
