(* ===== verification/AclGroups.thy ===== *)
theory AclGroups
  imports Config "HOL-Library.Sublist"
begin

text \<open>
  The predefined groups of ACLs (\<open>wat/lib/settings/acl-groups.js\<close>), section by section of
  the file, and the ACL sections and actions of the role editor
  (\<open>wat/lib/constants/constants-acls.js\<close>). \<open>$.merge(a, b)\<close> appends \<open>b\<close> to \<open>a\<close>.
\<close>

definition aclGroups_management :: "string list obj" where
  "aclGroups_management =
    [(''administratorEdit'',
        [''administrator.update.password'', ''administrator.update.language'',
         ''administrator.update.description'']),
     (''administratorMassiveEdit'', [''administrator.update.description'']),
     (''administratorMassiveActions'',
        [''administrator.delete.''] @ [''administrator.update.description'']),
     (''roleEdit'', [''role.update.name'', ''role.update.description'']),
     (''roleMassiveEdit'', [''role.update.description'']),
     (''roleMassiveActions'', [''role.delete.''] @ [''role.update.description'']),
     (''tenantEdit'',
        [''tenant.update.name'', ''tenant.update.language'', ''tenant.update.description'']),
     (''tenantMassiveEdit'', [''tenant.update.description'']),
     (''tenantMassiveActions'', [''tenant.delete.''] @ [''tenant.update.description'']),
     (''tenantDiEmbeddedInfo'',
        [''tenant.see.di-list-default'', ''tenant.see.di-list-head'',
         ''tenant.see.di-list-tags'', ''tenant.see.di-list-block'']),
     (''tenantVmEmbeddedInfo'',
        [''tenant.see.vm-list-block'', ''tenant.see.vm-list-state'',
         ''tenant.see.vm-list-expiration'', ''tenant.see.vm-list-user-state'']),
     (''tenantUserEmbeddedInfo'', [''tenant.see.user-list-block''])]"

definition aclGroups_user_vm :: "string list obj" where
  "aclGroups_user_vm =
    [(''userEdit'',
        [''user.update.password'', ''user.update.properties'', ''user.update.description'']),
     (''userInfo'', [''user.see.block'']),
     (''userMassiveEdit'', [''user.update.properties'', ''role.update.description'']),
     (''userMassiveActions'',
        [''user.delete.'', ''user.update.block'', ''vm.update.disconnect-user''] @
        [''user.update.properties'', ''role.update.description'']),
     (''userVmEmbeddedInfo'',
        [''user.see.vm-list-block'', ''user.see.vm-list-state'',
         ''user.see.vm-list-expiration'', ''user.see.vm-list-user-state'']),
     (''vmInfo'',
        [''vm.see.block'', ''vm.see.state'', ''vm.see.expiration'', ''vm.see.user-state'']),
     (''vmEdit'',
        [''vm.update.name'', ''vm.update.di-tag'', ''vm.update.expiration'',
         ''vm.update.properties'', ''vm.update.description'']),
     (''vmMassiveEdit'',
        [''vm.update.di-tag'', ''vm.update.expiration'', ''vm.update.properties'',
         ''vm.update.description'']),
     (''vmMassiveActions'',
        [''vm.delete.'', ''vm.update.block'', ''vm.update.disconnect-user'',
         ''vm.update.state''] @
        [''vm.update.di-tag'', ''vm.update.expiration'', ''vm.update.properties'',
         ''vm.update.description'']),
     (''vmRemoteAdminDetails'',
        [''vm.see.host'', ''vm.see.next-boot-ip'', ''vm.see.port-ssh'', ''vm.see.port-vnc'',
         ''vm.see.port-serial'']),
     (''vmStateInfoDetails'',
        [''vm.see.host'', ''vm.see.ip'', ''vm.see.di'', ''vm.see.user-state'',
         ''vm.see.port-ssh'', ''vm.see.port-vnc'', ''vm.see.port-serial''])]"

definition aclGroups_host_osf :: "string list obj" where
  "aclGroups_host_osf =
    [(''hostEdit'',
        [''host.update.name'', ''host.update.address'', ''host.update.properties'',
         ''host.update.description'']),
     (''hostMassiveEdit'', [''host.update.properties'', ''host.update.description'']),
     (''hostMassiveActions'',
        [''host.delete.'', ''host.update.block''] @
        [''host.update.properties'', ''host.update.description'']),
     (''hostVmEmbeddedInfo'',
        [''host.see.vm-list-block'', ''host.see.vm-list-state'',
         ''host.see.vm-list-expiration'', ''host.see.vm-list-user-state'']),
     (''osfEdit'',
        [''osf.update.name'', ''osf.update.memory'', ''osf.update.user-storage'',
         ''osf.update.properties'', ''osf.update.description'']),
     (''osfMassiveEdit'',
        [''osf.update.memory'', ''osf.update.user-storage'', ''osf.update.properties'',
         ''osf.update.description'']),
     (''osfMassiveActions'',
        [''osf.delete.''] @
        [''osf.update.memory'', ''osf.update.user-storage'', ''osf.update.properties'',
         ''osf.update.description'']),
     (''osfDiEmbeddedInfo'',
        [''osf.see.di-list-default'', ''osf.see.di-list-head'', ''osf.see.di-list-tags'',
         ''osf.see.di-list-block'']),
     (''osfVmEmbeddedInfo'',
        [''osf.see.vm-list-block'', ''osf.see.vm-list-state'',
         ''osf.see.vm-list-expiration'', ''osf.see.vm-list-user-state''])]"

definition aclGroups_di_stats :: "string list obj" where
  "aclGroups_di_stats =
    [(''diEdit'',
        [''di.update.tags-create'', ''di.update.tags-delete'', ''di.update.properties'',
         ''di.update.description'']),
     (''diInfo'', [''di.see.block'', ''di.see.tags'']),
     (''diMassiveEdit'',
        [''di.update.tags-add'', ''di.update.tags-delete'', ''di.update.properties'',
         ''di.update.description'']),
     (''diMassiveActions'',
        [''di.delete.'', ''di.update.block''] @
        [''di.update.tags-add'', ''di.update.tags-delete'', ''di.update.properties'',
         ''di.update.description'']),
     (''diVmEmbeddedInfo'',
        [''di.see.vm-list-block'', ''di.see.vm-list-state'', ''di.see.vm-list-expiration'',
         ''di.see.vm-list-user-state'']),
     (''tenantInfo'', [''tenant.see.block'']),
     (''statisticsSummaryObjects'',
        [''user.stats.summary'', ''vm.stats.summary'', ''host.stats.summary'',
         ''osf.stats.summary'', ''di.stats.summary'']),
     (''statisticsBlockedObjects'',
        [''user.stats.blocked'', ''vm.stats.blocked'', ''host.stats.blocked'',
         ''di.stats.blocked''])]"

definition aclGroups :: "string list obj" where
  "aclGroups =
     aclGroups_management @ aclGroups_user_vm @ aclGroups_host_osf @ aclGroups_di_stats"

definition acl_group :: "string \<Rightarrow> string list" where
  "acl_group g = (case map_of aclGroups g of None \<Rightarrow> [] | Some as \<Rightarrow> as)"

definition ACL_SECTIONS_init :: "string obj" where
  "ACL_SECTIONS_init =
    [(''administrator'', ''Administrators''), (''config'', ''Configuration''),
     (''di'', ''Disk images''), (''host'', ''Nodes''), (''log'', ''Log''),
     (''osf'', ''OS Flavours''), (''role'', ''Roles''), (''tenant'', ''Tenants''),
     (''user'', ''Users''), (''views'', ''Views''), (''vm'', ''Virtual machines''),
     (''property'', ''Custom properties'')]"

definition ACL_SECTIONS_PATTERNS_init :: "string obj" where
  "ACL_SECTIONS_PATTERNS_init =
    [(''administrator'', ''administrator.%''), (''config'', ''config.%''),
     (''di'', ''di.%''), (''host'', ''host.%''), (''osf'', ''osf.%''), (''role'', ''role.%''),
     (''tenant'', ''tenant.%''), (''user'', ''user.%''), (''views'', ''views.%''),
     (''vm'', ''vm.%''), (''log'', ''log.%''), (''property'', ''property.%'')]"

definition ACL_ACTIONS :: "string obj" where
  "ACL_ACTIONS =
    [(''create'', ''Create''), (''delete'', ''Delete''), (''see'', ''See''),
     (''see-details'', ''See details view''), (''see-main'', ''See main section''),
     (''update'', ''Update''), (''stats'', ''Statistics''), (''manage'', ''Manage'')]"

definition ACL_ACTIONS_PATTERNS :: "string obj" where
  "ACL_ACTIONS_PATTERNS =
    [(''create'', ''%.create.%''), (''delete'', ''%.delete.%''), (''see'', ''%.see.%''),
     (''see-details'', ''%.see-details.%''), (''see-main'', ''%.see-main.%''),
     (''update'', ''%.update.%''), (''stats'', ''%.stats.%''), (''manage'', ''%.manage.%'')]"

lemmas aclGroups_defs = aclGroups_def aclGroups_management_def aclGroups_user_vm_def
  aclGroups_host_osf_def aclGroups_di_stats_def acl_group_def

lemma aclGroups_distinct: "distinct (map fst aclGroups)"
  by (simp add: aclGroups_defs)

section \<open>Properties\<close>

definition massive_kinds :: "string list" where
  "massive_kinds =
     [''administrator'', ''role'', ''tenant'', ''user'', ''vm'', ''host'', ''osf'', ''di'']"

lemma massive_groups_merged:
  "list_all (\<lambda>k. map_of aclGroups (k @ ''MassiveActions'') \<noteq> None \<and>
                 set (acl_group (k @ ''MassiveEdit'')) \<subseteq> set (acl_group (k @ ''MassiveActions'')))
     massive_kinds"
  by code_simp

text \<open>Wherever an administrator may edit several elements at once, the massive actions menu
  is available: for each kind of object, a granted ACL of its massive edit group makes the
  check of its massive actions group succeed.\<close>

theorem massive_actions_available:
  assumes "C_aclGroups C = aclGroups" and "k \<in> set massive_kinds"
    and "a \<in> set (acl_group (k @ ''MassiveEdit''))" and "acl1 C a"
  shows "checkGroupACL C (GOne (k @ ''MassiveActions'')) = Inr True"
proof -
  from massive_groups_merged assms(2) obtain as
    where as: "map_of aclGroups (k @ ''MassiveActions'') = Some as"
      and sub: "set (acl_group (k @ ''MassiveEdit'')) \<subseteq> set (acl_group (k @ ''MassiveActions''))"
    by (auto simp: list_all_iff)
  from as have "acl_group (k @ ''MassiveActions'') = as" by (simp add: acl_group_def)
  with sub assms(3) have "a \<in> set as" by auto
  with assms(1,4) as show ?thesis
    by (auto simp: checkGroupACL_def list_ex_iff)
qed

theorem massive_actions_available_witness:
  "checkGroupACL ((wat_c_init aclGroups)\<lparr>C_acls := [''vm.update.di-tag'']\<rparr>)
     (GOne (''vm'' @ ''MassiveActions'')) = Inr True"
proof (rule massive_actions_available [where a = "''vm.update.di-tag''"])
  show "''vm'' \<in> set massive_kinds" by (simp add: massive_kinds_def)
  show "''vm.update.di-tag'' \<in> set (acl_group (''vm'' @ ''MassiveEdit''))" by code_simp
qed (simp_all add: wat_c_init_def granted_def)

text \<open>Every ACL of an edit or massive edit group belongs to the section of the group's
  own kind of object, with one exception: the massive edit group of the users names
  \<open>role.update.description\<close> instead of \<open>user.update.description\<close>.\<close>

theorem edit_groups_own_section:
  "concat (map (\<lambda>k. filter (\<lambda>a. \<not> prefix (k @ ''.'') a)
             (acl_group (k @ ''Edit'') @ acl_group (k @ ''MassiveEdit''))) massive_kinds) =
   [''role.update.description'']"
  by code_simp

end
