(* ===== verification/Menu.thy ===== *)
theory Menu
  imports AclGroups
begin

text \<open>
  The menus of the panel (\<open>wat/lib/settings/menu.js\<close>) and \<open>configureVisibility\<close>
  (\<open>wat/lib/session/config.js\<close>), which rebuilds them from the originals and removes what the
  administrator's ACLs, the tenant mode and the kind of administrator do not allow.

  The menus are rebuilt from copies at every call; the ACL sections of the role editor and
  the documentation sections are global objects from which entries are deleted and which
  nothing rebuilds.
\<close>

section \<open>Menus\<close>

record menu_opt =
  mo_text :: string
  mo_link :: "string option"
  mo_icon :: string

record corner_opt =
  co_text :: string
  co_link :: string
  co_icon :: string
  co_textClass :: "string option"
  co_sub :: "menu_opt obj"

definition mo :: "string \<Rightarrow> string \<Rightarrow> string \<Rightarrow> menu_opt" where
  "mo text link icon = \<lparr>mo_text = text, mo_link = Some link, mo_icon = icon\<rparr>"

definition menuUserOriginal :: "menu_opt obj" where
  "menuUserOriginal =
    [(''profile'', mo ''Profile'' ''#/profile'' ''fa fa-archive''),
     (''logout'', mo ''Log-out'' ''#/logout'' ''fa fa-power-off'')]"

definition menuConfigOriginal :: "menu_opt obj" where
  "menuConfigOriginal = [(''config'', mo ''QVD Config'' ''#/config'' ''fa fa-dashboard'')]"

definition menuHelpOriginal :: "menu_opt obj" where
  "menuHelpOriginal =
    [(''documentation'', mo ''Documentation'' ''#/documentation'' ''fa fa-book''),
     (''about'', mo ''About'' ''#/about'' ''fa fa-asterisk'')]"

definition menuSetupOriginal :: "menu_opt obj" where
  "menuSetupOriginal =
    [(''watconfig'', mo ''WAT Config'' ''#/watconfig'' ''fa fa-dashboard''),
     (''administrators'', mo ''Administrators'' ''#/administrators'' ''fa fa-suitcase''),
     (''roles'', mo ''Roles'' ''#/roles'' ''fa fa-graduation-cap''),
     (''tenants'', mo ''Tenants'' ''#/tenants'' ''fa fa-building-o''),
     (''views'', mo ''Default views'' ''#/views'' ''fa fa-columns''),
     (''properties'', mo ''Properties'' ''#/properties'' ''fa fa-sticky-note-o''),
     (''logs'', mo ''Log'' ''#/logs'' ''fa fa-file-text-o'')]"

definition menuOriginal :: "menu_opt obj" where
  "menuOriginal =
    [(''users'', mo ''Users'' ''#/users'' ''fa fa-users''),
     (''vms'', mo ''Virtual machines'' ''#/vms'' ''fa fa-cloud''),
     (''hosts'', mo ''Nodes'' ''#/hosts'' ''fa fa-hdd-o''),
     (''osfs'', mo ''OS Flavours'' ''#/osfs'' ''fa fa-flask''),
     (''dis'', mo ''Disk images'' ''#/dis'' ''fa fa-dot-circle-o'')]"

definition mobileMenuOriginal :: "menu_opt obj" where
  "mobileMenuOriginal =
     AList.update ''logout''
       \<lparr>mo_text = ''Log-out'', mo_link = None, mo_icon = ''fa fa-power-off''\<rparr> menuOriginal"

definition cornerMenuOriginal :: "corner_opt obj" where
  "cornerMenuOriginal =
    [(''help'', \<lparr>co_text = ''Help'', co_link = ''#/documentation'', co_icon = ''fa fa-support'',
                 co_textClass = None, co_sub = menuHelpOriginal\<rparr>),
     (''platform'', \<lparr>co_text = ''Platform'', co_link = ''#'', co_icon = ''fa fa-bug'',
                 co_textClass = None, co_sub = menuOriginal\<rparr>),
     (''wat'', \<lparr>co_text = ''WAT Management'', co_link = ''#'', co_icon = ''fa fa-wrench'',
                 co_textClass = None, co_sub = menuSetupOriginal\<rparr>),
     (''config'', \<lparr>co_text = ''QVD Management'', co_link = ''#/config'', co_icon = ''fa fa-sliders'',
                 co_textClass = None, co_sub = menuConfigOriginal\<rparr>),
     (''user'', \<lparr>co_text = '''', co_link = ''#/profile'', co_icon = ''fa fa-user'',
                 co_textClass = Some ''js-login'', co_sub = menuUserOriginal\<rparr>)]"

section \<open>configureVisibility\<close>

record wat_menus =
  I_menu :: "menu_opt obj"
  I_userMenu :: "menu_opt obj"
  I_helpMenu :: "menu_opt obj"
  I_configMenu :: "menu_opt obj"
  I_setupMenu :: "menu_opt obj"
  I_mobileMenu :: "menu_opt obj"
  I_cornerMenu :: "corner_opt obj"
  I_docSections :: "string obj"
  ACL_SECTIONS :: "string obj"
  ACL_SECTIONS_PATTERNS :: "string obj"

text \<open>\<open>docSections\<close> is kept as the guide of each section.\<close>

definition sub_delete :: "string \<Rightarrow> string \<Rightarrow> corner_opt obj \<Rightarrow> corner_opt obj" where
  "sub_delete ck k corner =
     map (\<lambda>(c, co). if c = ck then (c, co\<lparr>co_sub := AList.delete k (co_sub co)\<rparr>) else (c, co)) corner"

text \<open>\<open>cornerMenu.x.link = cornerMenu.x.subMenu[Object.keys(cornerMenu.x.subMenu)[0]].link\<close>,
  when the entry exists and its submenu is not empty.\<close>

definition first_link :: "string \<Rightarrow> corner_opt obj \<Rightarrow> corner_opt obj" where
  "first_link ck corner =
     map (\<lambda>(c, co). if c = ck then
              (case co_sub co of
                 [] \<Rightarrow> (c, co)
               | (k, m) # _ \<Rightarrow> (case mo_link m of None \<Rightarrow> (c, co) | Some l \<Rightarrow> (c, co\<lparr>co_link := l\<rparr>)))
            else (c, co)) corner"

definition sub_empty :: "string \<Rightarrow> corner_opt obj \<Rightarrow> bool" where
  "sub_empty ck corner = (case map_of corner ck of None \<Rightarrow> False | Some co \<Rightarrow> co_sub co = [])"

definition aclMenu :: "(string \<times> string) list" where
  "aclMenu =
    [(''di.see-main.'', ''dis''), (''host.see-main.'', ''hosts''), (''osf.see-main.'', ''osfs''),
     (''user.see-main.'', ''users''), (''vm.see-main.'', ''vms'')]"

definition aclSetupMenu :: "(string \<times> string) list" where
  "aclSetupMenu =
    [(''config.wat.'', ''watconfig''), (''role.see-main.'', ''roles''),
     (''administrator.see-main.'', ''administrators''), (''tenant.see-main.'', ''tenants''),
     (''views.see-main.'', ''views''), (''property.see-main.'', ''properties''),
     (''log.see-main.'', ''logs'')]"

definition hide_platform :: "wat_c \<Rightarrow> wat_menus \<Rightarrow> string \<times> string \<Rightarrow> wat_menus" where
  "hide_platform C W am =
     (if acl1 C (fst am) then W
      else W\<lparr>I_menu := AList.delete (snd am) (I_menu W),
             I_mobileMenu := AList.delete (snd am) (I_mobileMenu W),
             I_cornerMenu := sub_delete ''platform'' (snd am) (I_cornerMenu W)\<rparr>)"

definition hide_setup :: "wat_c \<Rightarrow> wat_menus \<Rightarrow> string \<times> string \<Rightarrow> wat_menus" where
  "hide_setup C W am =
     (if acl1 C (fst am) then W
      else W\<lparr>I_setupMenu := AList.delete (snd am) (I_setupMenu W),
             I_cornerMenu := sub_delete ''wat'' (snd am) (I_cornerMenu W)\<rparr>)"

definition reset_menus :: "wat_menus \<Rightarrow> wat_menus" where
  "reset_menus W =
     W\<lparr>I_menu := menuOriginal, I_userMenu := menuUserOriginal, I_helpMenu := menuHelpOriginal,
       I_configMenu := menuConfigOriginal, I_setupMenu := menuSetupOriginal,
       I_mobileMenu := mobileMenuOriginal, I_cornerMenu := cornerMenuOriginal\<rparr>"

definition hide_profile :: "wat_c \<Rightarrow> wat_menus \<Rightarrow> wat_menus" where
  "hide_profile C W =
     (if isRecoveradmin C None then
        W\<lparr>I_userMenu := AList.delete ''profile'' (I_userMenu W),
          I_cornerMenu := sub_delete ''user'' ''profile'' (I_cornerMenu W)\<rparr>
      else W)"

definition finish_corner :: "wat_c \<Rightarrow> corner_opt obj \<Rightarrow> corner_opt obj" where
  "finish_corner C m0 =
     (let m1 = first_link ''platform'' (first_link ''user'' (first_link ''wat'' m0));
          m2 = (if C_acls C = [] then AList.delete ''help'' m1 else m1);
          m3 = (if sub_empty ''platform'' m2 then AList.delete ''platform'' m2 else m2);
          m4 = (if sub_empty ''wat'' m3 then AList.delete ''wat'' m3 else m3)
      in if \<not> acl1 C ''config.qvd.'' then AList.delete ''config'' m4 else m4)"

definition configureVisibility :: "wat_c \<Rightarrow> wat_menus \<Rightarrow> wat_menus" where
  "configureVisibility C W =
     (let W1 = reset_menus W;
          W2 = foldl (hide_platform C) W1 aclMenu;
          W3 = foldl (hide_setup C) W2 aclSetupMenu;
          W4 = hide_profile C W3;
          W5 = W4\<lparr>I_cornerMenu := finish_corner C (I_cornerMenu W4)\<rparr>;
          tenantsExist = (isSuperadmin C \<and> multi C);
          W6 = (if \<not> multi C then
                  W5\<lparr>I_docSections := filter (\<lambda>s. snd s \<noteq> ''multitenant'') (I_docSections W5)\<rparr>
                else W5)
      in if \<not> tenantsExist then
           W6\<lparr>ACL_SECTIONS := AList.delete ''tenant'' (ACL_SECTIONS W6),
              ACL_SECTIONS_PATTERNS := AList.delete ''tenant'' (ACL_SECTIONS_PATTERNS W6)\<rparr>
         else W6)"

section \<open>Lemmas\<close>

text \<open>A menu filtered by a table of ACLs: the entries whose ACL, if they have one in the
  table, is granted.\<close>

definition allowed_by :: "wat_c \<Rightarrow> (string \<times> string) list \<Rightarrow> string \<Rightarrow> bool" where
  "allowed_by C tbl k = list_all (\<lambda>(a, m). m = k \<longrightarrow> acl1 C a) tbl"

lemma delete_filter: "AList.delete k m = filter (\<lambda>kv. fst kv \<noteq> k) m"
  by (induction m) auto

lemma allowed_by_Cons:
  "allowed_by C (am # tbl) k \<longleftrightarrow> (snd am = k \<longrightarrow> acl1 C (fst am)) \<and> allowed_by C tbl k"
  by (simp add: allowed_by_def split: prod.splits)

lemma allowed_by_Nil [simp]: "allowed_by C [] k"
  by (simp add: allowed_by_def)

definition sub_filter :: "string \<Rightarrow> (string \<Rightarrow> bool) \<Rightarrow> corner_opt obj \<Rightarrow> corner_opt obj" where
  "sub_filter ck P corner =
     map (\<lambda>(c, co). if c = ck then (c, co\<lparr>co_sub := filter (\<lambda>kv. P (fst kv)) (co_sub co)\<rparr>)
                    else (c, co)) corner"

lemma sub_delete_filter: "sub_delete ck k m = sub_filter ck (\<lambda>x. x \<noteq> k) m"
  by (auto simp: sub_delete_def sub_filter_def delete_filter)

lemma sub_filter_comp: "sub_filter ck P (sub_filter ck Q m) = sub_filter ck (\<lambda>x. Q x \<and> P x) m"
  by (auto simp: sub_filter_def)

lemma sub_filter_True [simp]: "sub_filter ck (\<lambda>_. True) m = m"
  by (auto simp: sub_filter_def intro!: map_idI)

text \<open>Hiding the options of one menu by a table of ACLs, stated once: \<open>sel\<close> is the menu,
  \<open>ck\<close> the entry of the corner menu that repeats it.\<close>

locale menu_hider =
  fixes C :: wat_c
    and hide :: "wat_menus \<Rightarrow> string \<times> string \<Rightarrow> wat_menus"
    and sel :: "wat_menus \<Rightarrow> menu_opt obj"
    and ck :: string
  assumes hide_sel:
      "sel (hide W am) = (if acl1 C (fst am) then sel W else AList.delete (snd am) (sel W))"
    and hide_corner:
      "I_cornerMenu (hide W am) =
         (if acl1 C (fst am) then I_cornerMenu W else sub_delete ck (snd am) (I_cornerMenu W))"
begin

lemma hide_all_sel:
  "sel (foldl hide W tbl) = filter (\<lambda>kv. allowed_by C tbl (fst kv)) (sel W)"
  by (induction tbl arbitrary: W)
     (auto simp: hide_sel delete_filter allowed_by_Cons intro!: filter_cong)

lemma hide_all_corner:
  "I_cornerMenu (foldl hide W tbl) = sub_filter ck (allowed_by C tbl) (I_cornerMenu W)"
proof (induction tbl arbitrary: W)
  case Nil
  have "allowed_by C [] = (\<lambda>_. True)" by (simp add: fun_eq_iff)
  then show ?case by simp
next
  case (Cons am tbl)
  show ?case
  proof (cases "acl1 C (fst am)")
    case True
    then have "allowed_by C (am # tbl) = allowed_by C tbl"
      by (simp add: allowed_by_Cons fun_eq_iff)
    with True Cons.IH show ?thesis by (simp add: hide_corner)
  next
    case False
    then have "allowed_by C (am # tbl) = (\<lambda>x. x \<noteq> snd am \<and> allowed_by C tbl x)"
      by (auto simp: allowed_by_Cons fun_eq_iff)
    with False Cons.IH show ?thesis
      by (simp add: hide_corner sub_delete_filter sub_filter_comp)
  qed
qed

end

interpretation platform: menu_hider C "hide_platform C" I_menu "''platform''" for C
  by unfold_locales (simp_all add: hide_platform_def)

interpretation mobile: menu_hider C "hide_platform C" I_mobileMenu "''platform''" for C
  by unfold_locales (simp_all add: hide_platform_def)

interpretation wat_menu: menu_hider C "hide_setup C" I_setupMenu "''wat''" for C
  by unfold_locales (simp_all add: hide_setup_def)

lemma hide_platform_frame:
  "I_setupMenu (foldl (hide_platform C) W tbl) = I_setupMenu W"
  "I_userMenu (foldl (hide_platform C) W tbl) = I_userMenu W"
  "ACL_SECTIONS (foldl (hide_platform C) W tbl) = ACL_SECTIONS W"
  "I_docSections (foldl (hide_platform C) W tbl) = I_docSections W"
  by (induction tbl arbitrary: W) (simp_all add: hide_platform_def)

lemma hide_setup_frame:
  "I_menu (foldl (hide_setup C) W tbl) = I_menu W"
  "I_mobileMenu (foldl (hide_setup C) W tbl) = I_mobileMenu W"
  "I_userMenu (foldl (hide_setup C) W tbl) = I_userMenu W"
  "ACL_SECTIONS (foldl (hide_setup C) W tbl) = ACL_SECTIONS W"
  "I_docSections (foldl (hide_setup C) W tbl) = I_docSections W"
  by (induction tbl arbitrary: W) (simp_all add: hide_setup_def)

lemma hide_profile_frame:
  "I_menu (hide_profile C W) = I_menu W"
  "I_mobileMenu (hide_profile C W) = I_mobileMenu W"
  "I_setupMenu (hide_profile C W) = I_setupMenu W"
  "ACL_SECTIONS (hide_profile C W) = ACL_SECTIONS W"
  "I_docSections (hide_profile C W) = I_docSections W"
  by (simp_all add: hide_profile_def)

lemma reset_menus_sel [simp]:
  "I_menu (reset_menus W) = menuOriginal"
  "I_mobileMenu (reset_menus W) = mobileMenuOriginal"
  "I_setupMenu (reset_menus W) = menuSetupOriginal"
  "I_userMenu (reset_menus W) = menuUserOriginal"
  "I_cornerMenu (reset_menus W) = cornerMenuOriginal"
  "ACL_SECTIONS (reset_menus W) = ACL_SECTIONS W"
  "I_docSections (reset_menus W) = I_docSections W"
  by (simp_all add: reset_menus_def)

lemmas menu_frames = hide_platform_frame hide_setup_frame hide_profile_frame

lemmas menu_fields = configureVisibility_def Let_def menu_frames
  platform.hide_all_sel mobile.hide_all_sel wat_menu.hide_all_sel
  platform.hide_all_corner wat_menu.hide_all_corner

text \<open>The keys of the corner menu survive every step but the deletions of \<open>finish_corner\<close>.\<close>

lemma corner_keys [simp]:
  "map fst (sub_filter ck P m) = map fst m"
  "map fst (first_link ck m) = map fst m"
  "map fst (sub_delete ck k m) = map fst m"
  by (auto simp: sub_filter_def first_link_def sub_delete_def split: list.splits option.splits)

section \<open>Properties\<close>

text \<open>After \<open>configureVisibility\<close> each menu holds exactly the options whose section ACL is
  granted, in the original order: the platform menu, the mobile menu (with the log-out option
  besides) and the management menu. Nothing of the menus before the call remains.\<close>

theorem configureVisibility_menus:
  "I_menu (configureVisibility C W) =
     filter (\<lambda>kv. allowed_by C aclMenu (fst kv)) menuOriginal \<and>
   I_mobileMenu (configureVisibility C W) =
     filter (\<lambda>kv. allowed_by C aclMenu (fst kv)) mobileMenuOriginal \<and>
   I_setupMenu (configureVisibility C W) =
     filter (\<lambda>kv. allowed_by C aclSetupMenu (fst kv)) menuSetupOriginal"
  by (simp add: menu_fields)

lemma corner_before_finish:
  "I_cornerMenu (hide_profile C (foldl (hide_setup C) (foldl (hide_platform C) (reset_menus W) aclMenu)
      aclSetupMenu)) =
   (let m = sub_filter ''wat'' (allowed_by C aclSetupMenu)
              (sub_filter ''platform'' (allowed_by C aclMenu) cornerMenuOriginal)
    in if isRecoveradmin C None then sub_filter ''user'' (\<lambda>x. x \<noteq> ''profile'') m else m)"
  by (simp add: hide_profile_def sub_delete_filter menu_fields)

lemma sub_empty_keys:
  "sub_empty ck (first_link c m) = sub_empty ck m"
proof -
  have "map_of (first_link c m) ck = map_option (\<lambda>co. if ck = c then
      (case co_sub co of [] \<Rightarrow> co | (k, x) # _ \<Rightarrow>
         (case mo_link x of None \<Rightarrow> co | Some l \<Rightarrow> co\<lparr>co_link := l\<rparr>)) else co) (map_of m ck)"
    by (induction m) (auto simp: first_link_def split: list.splits option.splits)
  then show ?thesis
    by (auto simp: sub_empty_def split: option.splits list.splits)
qed

lemma sub_empty_delete: "k \<noteq> ck \<Longrightarrow> sub_empty ck (AList.delete k m) = sub_empty ck m"
  by (simp add: sub_empty_def)

lemma keys_delete: "map fst (AList.delete k m) = filter (\<lambda>x. x \<noteq> k) (map fst m)"
  by (induction m) auto

definition corner_visible :: "wat_c \<Rightarrow> bool \<Rightarrow> bool \<Rightarrow> string \<Rightarrow> bool" where
  "corner_visible C platform wat k \<longleftrightarrow>
     (k = ''help'' \<longrightarrow> C_acls C \<noteq> []) \<and> (k = ''platform'' \<longrightarrow> platform) \<and>
     (k = ''wat'' \<longrightarrow> wat) \<and> (k = ''config'' \<longrightarrow> acl1 C ''config.qvd.'')"

lemma finish_corner_keys:
  "map fst (finish_corner C m) =
     filter (corner_visible C (\<not> sub_empty ''platform'' m) (\<not> sub_empty ''wat'' m)) (map fst m)"
  unfolding finish_corner_def Let_def
  by (auto simp: sub_empty_keys sub_empty_delete keys_delete corner_visible_def intro!: filter_cong)

lemma map_of_sub_filter:
  "map_of (sub_filter ck P m) k =
     map_option (\<lambda>co. if k = ck then co\<lparr>co_sub := filter (\<lambda>kv. P (fst kv)) (co_sub co)\<rparr> else co)
       (map_of m k)"
  by (induction m) (auto simp: sub_filter_def)

lemma map_of_first_link:
  "map_of (first_link c m) ck = map_option (\<lambda>co. if ck = c then
      (case co_sub co of [] \<Rightarrow> co | (k, x) # _ \<Rightarrow>
         (case mo_link x of None \<Rightarrow> co | Some l \<Rightarrow> co\<lparr>co_link := l\<rparr>)) else co) (map_of m ck)"
  by (induction m) (auto simp: first_link_def split: list.splits option.splits)

text \<open>The corner menu offers the platform and the management entries exactly when the
  corresponding menu has an option left, the configuration entry exactly when its ACL is
  granted, the help entry exactly when there is any ACL (somebody is logged in), and the user
  entry always; the options keep their order.\<close>

theorem configureVisibility_corner:
  "map fst (I_cornerMenu (configureVisibility C W)) =
     filter (corner_visible C (I_menu (configureVisibility C W) \<noteq> [])
               (I_setupMenu (configureVisibility C W) \<noteq> []))
       [''help'', ''platform'', ''wat'', ''config'', ''user'']"
proof -
  define m where "m = I_cornerMenu (hide_profile C (foldl (hide_setup C)
    (foldl (hide_platform C) (reset_menus W) aclMenu) aclSetupMenu))"
  have keys: "map fst m = map fst cornerMenuOriginal"
    by (simp add: m_def corner_before_finish Let_def)
  have "sub_empty ''platform'' m \<longleftrightarrow> I_menu (configureVisibility C W) = []"
    "sub_empty ''wat'' m \<longleftrightarrow> I_setupMenu (configureVisibility C W) = []"
    by (simp_all add: m_def corner_before_finish Let_def sub_empty_def map_of_sub_filter
          cornerMenuOriginal_def menu_fields split: option.splits)
  moreover have "I_cornerMenu (configureVisibility C W) = finish_corner C m"
    by (simp add: configureVisibility_def Let_def m_def)
  ultimately show ?thesis
    by (simp add: finish_corner_keys keys) (simp add: cornerMenuOriginal_def)
qed

lemma ACL_SECTIONS_conf:
  "ACL_SECTIONS (configureVisibility C W) =
     (if isSuperadmin C \<and> multi C then ACL_SECTIONS W
      else AList.delete ''tenant'' (ACL_SECTIONS W))"
  by (simp add: configureVisibility_def Let_def menu_frames)

text \<open>Once \<open>configureVisibility\<close> has run for an administrator who is not the superadmin of a
  multitenant installation (a tenant administrator, or nobody yet), the tenant section of the
  ACL tree is gone for the rest of the page's life: it is missing for every administrator who
  logs in later without a reload, the superadmin included. The sections deleted are those of a
  global table that no call rebuilds.\<close>

theorem tenant_section_lost:
  assumes "\<not> (isSuperadmin C1 \<and> multi C1)"
  shows "map_of (ACL_SECTIONS (configureVisibility C2 (configureVisibility C1 W))) ''tenant'' = None"
  using assms by (auto simp: ACL_SECTIONS_conf)

theorem tenant_section_lost_witness:
  "map_of (ACL_SECTIONS (configureVisibility
       ((wat_c_init [])\<lparr>C_tenantID := SUPERTENANT_ID, C_multitenant := Some 1\<rparr>)
       (configureVisibility ((wat_c_init [])\<lparr>C_tenantID := 7, C_multitenant := Some 1\<rparr>)
          \<lparr>I_menu = [], I_userMenu = [], I_helpMenu = [], I_configMenu = [], I_setupMenu = [],
           I_mobileMenu = [], I_cornerMenu = [], I_docSections = [],
           ACL_SECTIONS = ACL_SECTIONS_init, ACL_SECTIONS_PATTERNS = ACL_SECTIONS_PATTERNS_init\<rparr>)))
     ''tenant'' = None"
  by (rule tenant_section_lost) (simp add: isSuperadmin_def SUPERTENANT_ID_def)

end
