(* ===== verification/ViewsConf.thy ===== *)
theory ViewsConf
  imports Config
begin

text \<open>
  The customisable columns and filters of the lists: the tables of \<open>Wat.I\<close>
  (\<open>wat/lib/interface/interface.js\<close>), the configuration the API returns at login
  (\<open>storeViewsConfiguration\<close> of \<open>wat/lib/session/config.js\<close>), and the views in which an
  administrator changes it (\<open>wat/lib/bb-views/proto-views.js\<close>, \<open>views/default.js\<close>).

  \<open>$.extend(true, {}, x)\<close> is a deep copy: in the model a value is its own copy.
\<close>

section \<open>Columns, filters and their tables\<close>

record col_conf = conf_item +
  display :: js
  col_fields :: "string list"
  col_text :: string
  col_noTranslatable :: bool
  col_property :: js
  col_property_id :: js
  col_customized :: bool

record filter_conf = conf_item +
  filterField :: string
  ftype :: string
  ftext :: string
  f_noTranslatable :: bool
  f_property :: js
  f_property_id :: js
  displayMobile :: js
  displayDesktop :: js
  transform :: "string option"
  f_customized :: bool

record wat_i =
  listFields :: "col_conf obj obj"
  listDefaultFields :: "col_conf obj obj"
  formFilters :: "filter_conf obj obj"
  formDefaultFilters :: "filter_conf obj obj"

definition getListColumns :: "wat_i \<Rightarrow> string \<Rightarrow> col_conf obj" where
  "getListColumns I q = (case map_of (listFields I) q of None \<Rightarrow> [] | Some t \<Rightarrow> t)"

definition getListDefaultColumns :: "wat_i \<Rightarrow> string \<Rightarrow> col_conf obj" where
  "getListDefaultColumns I q = (case map_of (listDefaultFields I) q of None \<Rightarrow> [] | Some t \<Rightarrow> t)"

definition restoreListColumns :: "wat_i \<Rightarrow> wat_i" where
  "restoreListColumns I = I\<lparr>listFields := listDefaultFields I\<rparr>"

definition getFormFilters :: "wat_i \<Rightarrow> string \<Rightarrow> filter_conf obj" where
  "getFormFilters I q = (case map_of (formFilters I) q of None \<Rightarrow> [] | Some t \<Rightarrow> t)"

definition getFormDefaultFilters :: "wat_i \<Rightarrow> string \<Rightarrow> filter_conf obj" where
  "getFormDefaultFilters I q = (case map_of (formDefaultFilters I) q of None \<Rightarrow> [] | Some t \<Rightarrow> t)"

definition restoreFormFilters :: "wat_i \<Rightarrow> wat_i" where
  "restoreFormFilters I = I\<lparr>formFilters := formDefaultFilters I\<rparr>"

section \<open>storeViewsConfiguration\<close>

text \<open>One row of the views configuration the API returns.\<close>

record view_row =
  view_type :: string
  device_type :: string
  qvd_object :: string
  v_field :: string
  visible :: js
  v_property :: js
  administrator_id :: "int option"

definition new_column :: "view_row \<Rightarrow> col_conf" where
  "new_column v =
     \<lparr> groupAcls = None, itemAcls = Some (AclOne (qvd_object v @ ''.see.properties'')),
       aclsLogic = None, display = visible v, col_fields = [v_field v], col_text = v_field v,
       col_noTranslatable = True, col_property = v_property v, col_property_id = Undef,
       col_customized = False \<rparr>"

definition new_filter :: "view_row \<Rightarrow> filter_conf" where
  "new_filter v =
     \<lparr> groupAcls = None, itemAcls = Some (AclOne (qvd_object v @ ''.see.properties'')),
       aclsLogic = None, filterField = v_field v, ftype = ''text'', ftext = v_field v,
       f_noTranslatable = True, f_property = v_property v, f_property_id = Undef,
       displayMobile = Undef, displayDesktop = Undef, transform = None, f_customized = False \<rparr>"

definition set_column :: "view_row \<Rightarrow> col_conf obj \<Rightarrow> col_conf obj" where
  "set_column v cols =
     (let c0 = (case map_of cols (v_field v) of None \<Rightarrow> new_column v | Some c \<Rightarrow> c);
          c1 = c0\<lparr>display := visible v\<rparr>;
          c2 = (if administrator_id v \<noteq> None then c1\<lparr>col_customized := True\<rparr> else c1)
      in AList.update (v_field v) c2 cols)"

definition set_filter :: "view_row \<Rightarrow> filter_conf obj \<Rightarrow> filter_conf obj" where
  "set_filter v fs =
     (let f0 = (case map_of fs (v_field v) of None \<Rightarrow> new_filter v | Some f \<Rightarrow> f);
          f1 = (if device_type v = ''mobile'' then f0\<lparr>displayMobile := visible v\<rparr>
                else if device_type v = ''desktop'' then f0\<lparr>displayDesktop := visible v\<rparr>
                else f0);
          f2 = (if administrator_id v \<noteq> None then f1\<lparr>f_customized := True\<rparr> else f1)
      in AList.update (v_field v) f2 fs)"

text \<open>The body of the loop. Reading a field of the table of an object that has none is a
  TypeError.\<close>

definition store_view :: "view_row \<Rightarrow> wat_i \<Rightarrow> js_error + wat_i" where
  "store_view v I =
     (if view_type v = ''list_column'' then
        (case map_of (listFields I) (qvd_object v) of
           None \<Rightarrow> Inl TypeError
         | Some cols \<Rightarrow>
             Inr (I\<lparr>listFields := AList.update (qvd_object v) (set_column v cols) (listFields I)\<rparr>))
      else if view_type v = ''filter'' then
        (case map_of (formFilters I) (qvd_object v) of
           None \<Rightarrow> Inl TypeError
         | Some fs \<Rightarrow>
             Inr (I\<lparr>formFilters := AList.update (qvd_object v) (set_filter v fs) (formFilters I)\<rparr>))
      else Inr I)"

fun storeViewsConfiguration :: "view_row list \<Rightarrow> wat_i \<Rightarrow> js_error + wat_i" where
  "storeViewsConfiguration [] I = Inr I"
| "storeViewsConfiguration (v # vs) I =
     (case store_view v I of Inl e \<Rightarrow> Inl e | Inr I' \<Rightarrow> storeViewsConfiguration vs I')"

section \<open>The views editor\<close>

record views_view =
  setActionAttribute :: string
  setActionProperty :: string
  v_viewKind :: string
  selectedSection :: string
  selectedTenant :: js
  currentFilters :: "filter_conf obj"
  currentColumns :: "col_conf obj"

text \<open>The check box that was clicked: whether it is checked, and the attributes of its cell.\<close>

record clicked =
  k_checked :: bool
  k_name :: string
  k_isProperty :: bool
  k_propertyId :: string

definition viewsView_initialize :: "wat_c \<Rightarrow> views_view \<Rightarrow> views_view" where
  "viewsView_initialize C V = (if \<not> isSuperadmin C then V\<lparr>selectedTenant := Undef\<rparr> else V)"

definition addIDToArgs :: "wat_c \<Rightarrow> views_view \<Rightarrow> js obj \<Rightarrow> js obj" where
  "addIDToArgs C V args =
     (if v_viewKind V = ''tenant'' \<and> isSuperadmin C
      then AList.update ''tenant_id'' (selectedTenant V) args else args)"

definition view_args :: "wat_c \<Rightarrow> views_view \<Rightarrow> clicked \<Rightarrow> string \<Rightarrow> string \<Rightarrow> js obj" where
  "view_args C V k vtype dtype =
     (let args = [(''view_type'', JStr vtype), (''device_type'', JStr dtype),
                  (''visible'', JBool (k_checked k))]
      in if k_isProperty k
         then AList.update ''qvd_obj_prop_id'' (JStr (k_propertyId k)) args
         else addIDToArgs C V
                (AList.update ''field'' (JStr (k_name k))
                   (AList.update ''qvd_object'' (JStr (selectedSection V)) args)))"

definition set_action :: "views_view \<Rightarrow> clicked \<Rightarrow> string" where
  "set_action V k = (if k_isProperty k then setActionProperty V else setActionAttribute V)"

definition checkDesktopFilter :: "wat_c \<Rightarrow> views_view \<Rightarrow> clicked \<Rightarrow> effect list" where
  "checkDesktopFilter C V k =
     (if (case map_of (currentFilters V) (k_name k) of
            None \<Rightarrow> True | Some f \<Rightarrow> \<not> loose_eq (displayDesktop f) (JBool (k_checked k)))
      then [Api (set_action V k) (JObj (view_args C V k ''filter'' ''desktop'')) (JObj [])
              ''processCheckDesktopFilter'']
      else [])"

definition checkMobileFilter :: "wat_c \<Rightarrow> views_view \<Rightarrow> clicked \<Rightarrow> effect list" where
  "checkMobileFilter C V k =
     (if (case map_of (currentFilters V) (k_name k) of
            None \<Rightarrow> True | Some f \<Rightarrow> \<not> loose_eq (displayMobile f) (JBool (k_checked k)))
      then [Api (set_action V k) (JObj (view_args C V k ''filter'' ''mobile'')) (JObj [])
              ''processCheckMobileFilter'']
      else [])"

definition checkListColumn :: "wat_c \<Rightarrow> views_view \<Rightarrow> clicked \<Rightarrow> effect list" where
  "checkListColumn C V k =
     (if (case map_of (currentColumns V) (k_name k) of
            None \<Rightarrow> True | Some c \<Rightarrow> \<not> loose_eq (display c) (JBool (k_checked k)))
      then [Api (set_action V k) (JObj (view_args C V k ''list_column'' ''desktop'')) (JObj [])
              ''processCheckListColumn'']
      else [])"

text \<open>The handlers of the answers. \<open>updateCurrentViews\<close> asks for the administrator setup again.
  When the update failed, the column handler restores the check box; the two filter
  handlers name a variable \<open>e\<close> that is not in scope.\<close>

definition STATUS_SUCCESS :: int where "STATUS_SUCCESS = 0"

definition updateCurrentViews :: "effect list" where
  "updateCurrentViews = [Api ''current_admin_setup'' (JObj []) (JObj []) ''storeViewsConfiguration'']"

definition default_info_effects :: "effect list" where
  "default_info_effects =
     [Dom DomHide ''.js-default-info-default'' Null, Dom DomShow ''.js-default-info-overwritten'' Null]"

definition property_filter :: "views_view \<Rightarrow> clicked \<Rightarrow> js \<Rightarrow> js \<Rightarrow> filter_conf" where
  "property_filter V k desktop mobile =
     \<lparr> groupAcls = None, itemAcls = Some (AclOne (selectedSection V @ ''.see.properties'')),
       aclsLogic = None, filterField = k_name k, ftype = ''text'', ftext = k_name k,
       f_noTranslatable = True, f_property = JBool True, f_property_id = Undef,
       displayMobile = mobile, displayDesktop = desktop, transform = None, f_customized = False \<rparr>"

definition store_filter_change ::
  "filter_conf \<Rightarrow> clicked \<Rightarrow> views_view \<Rightarrow> wat_i \<Rightarrow> js_error + views_view \<times> wat_i \<times> effect list" where
  "store_filter_change f k V I =
     (let V' = V\<lparr>currentFilters := AList.update (k_name k) f (currentFilters V)\<rparr>
      in if v_viewKind V = ''admin'' then
           (case map_of (formFilters I) (selectedSection V) of
              None \<Rightarrow> Inl TypeError
            | Some fs \<Rightarrow>
                Inr (V', I\<lparr>formFilters := AList.update (selectedSection V)
                              (AList.update (k_name k) f fs) (formFilters I)\<rparr>,
                     default_info_effects))
         else Inr (V', I, default_info_effects @ updateCurrentViews))"

definition processCheckDesktopFilter ::
  "int \<Rightarrow> clicked \<Rightarrow> views_view \<Rightarrow> wat_i \<Rightarrow> js_error + views_view \<times> wat_i \<times> effect list" where
  "processCheckDesktopFilter status k V I =
     (if status = STATUS_SUCCESS then
        store_filter_change
          (case map_of (currentFilters V) (k_name k) of
             Some f \<Rightarrow> f\<lparr>displayDesktop := JBool (k_checked k), f_customized := True\<rparr>
           | None \<Rightarrow> property_filter V k (JBool (k_checked k)) (JNum 0)) k V I
      else Inl ReferenceError)"

definition processCheckMobileFilter ::
  "int \<Rightarrow> clicked \<Rightarrow> views_view \<Rightarrow> wat_i \<Rightarrow> js_error + views_view \<times> wat_i \<times> effect list" where
  "processCheckMobileFilter status k V I =
     (if status = STATUS_SUCCESS then
        store_filter_change
          (case map_of (currentFilters V) (k_name k) of
             Some f \<Rightarrow> f\<lparr>displayMobile := JBool (k_checked k), f_customized := True\<rparr>
           | None \<Rightarrow> property_filter V k (JNum 0) (JBool (k_checked k))) k V I
      else Inl ReferenceError)"

definition property_column :: "views_view \<Rightarrow> clicked \<Rightarrow> col_conf" where
  "property_column V k =
     \<lparr> groupAcls = None, itemAcls = Some (AclOne (selectedSection V @ ''.see.properties'')),
       aclsLogic = None, display = JBool (k_checked k), col_fields = [k_name k],
       col_text = k_name k, col_noTranslatable = True, col_property = JBool True,
       col_property_id = Undef, col_customized = False \<rparr>"

definition processCheckListColumn ::
  "int \<Rightarrow> clicked \<Rightarrow> views_view \<Rightarrow> wat_i \<Rightarrow> js_error + views_view \<times> wat_i \<times> effect list" where
  "processCheckListColumn status k V I =
     (if status = STATUS_SUCCESS then
        (let c = (case map_of (currentColumns V) (k_name k) of
                    Some c \<Rightarrow> c\<lparr>display := JBool (k_checked k), col_customized := True\<rparr>
                  | None \<Rightarrow> property_column V k);
             V' = V\<lparr>currentColumns := AList.update (k_name k) c (currentColumns V)\<rparr>
         in if v_viewKind V = ''admin'' then
              (case map_of (listFields I) (selectedSection V) of
                 None \<Rightarrow> Inl TypeError
               | Some cols \<Rightarrow>
                   Inr (V', I\<lparr>listFields := AList.update (selectedSection V)
                                 (AList.update (k_name k) c cols) (listFields I)\<rparr>,
                        default_info_effects))
            else Inr (V', I, default_info_effects @ updateCurrentViews))
      else Inr (V, I, [Dom (DomProp ''checked'') ''targetClicked'' (JBool (\<not> k_checked k))]))"

section \<open>Default views of a tenant\<close>

text \<open>A custom property of the API: \<open>in_obj q\<close> is its \<open>in_<q>\<close> field, the id of the property
  for objects of kind \<open>q\<close>, or 0 when the property is not defined for them.\<close>

record prop_model =
  p_key :: string
  p_property_id :: js
  p_tenant_id :: int
  in_obj :: "string \<Rightarrow> js"

definition complete_column :: "string \<Rightarrow> col_conf obj \<Rightarrow> prop_model \<Rightarrow> col_conf obj" where
  "complete_column q cols p =
     (case map_of cols (p_key p) of
        Some c \<Rightarrow> AList.update (p_key p)
                    (c\<lparr>col_property := p_property_id p, col_property_id := in_obj p q\<rparr>) cols
      | None \<Rightarrow> AList.update (p_key p)
          \<lparr> groupAcls = None, itemAcls = Some (AclOne (q @ ''.see.properties'')), aclsLogic = None,
            display = JNum 0, col_fields = [p_key p], col_text = p_key p,
            col_noTranslatable = True, col_property = JBool True,
            col_property_id = in_obj p q, col_customized = False \<rparr> cols)"

definition completeColumnListWithProperties ::
  "col_conf obj \<Rightarrow> prop_model list \<Rightarrow> string \<Rightarrow> col_conf obj" where
  "completeColumnListWithProperties cols props q = foldl (complete_column q) cols props"

definition complete_filter :: "string \<Rightarrow> filter_conf obj \<Rightarrow> prop_model \<Rightarrow> filter_conf obj" where
  "complete_filter q fs p =
     (case map_of fs (p_key p) of
        Some f \<Rightarrow> AList.update (p_key p)
                    (f\<lparr>f_property := p_property_id p, f_property_id := in_obj p q\<rparr>) fs
      | None \<Rightarrow> AList.update (p_key p)
          \<lparr> groupAcls = None, itemAcls = Some (AclOne (q @ ''.see.properties'')), aclsLogic = None,
            filterField = p_key p, ftype = ''text'', ftext = p_key p, f_noTranslatable = True,
            f_property = JBool True, f_property_id = in_obj p q, displayMobile = Undef,
            displayDesktop = Undef, transform = None, f_customized = False \<rparr> fs)"

definition completeFilterListWithProperties ::
  "filter_conf obj \<Rightarrow> prop_model list \<Rightarrow> string \<Rightarrow> filter_conf obj" where
  "completeFilterListWithProperties fs props q = foldl (complete_filter q) fs props"

text \<open>The properties that count for a section: those of the selected tenant, if one is
  selected, that are defined for the kind of object.\<close>

definition section_props :: "js \<Rightarrow> string \<Rightarrow> prop_model list \<Rightarrow> prop_model list" where
  "section_props ten q props =
     filter (\<lambda>p. in_obj p q \<noteq> JNum 0)
       (if ten \<noteq> Undef then filter (\<lambda>p. Some (p_tenant_id p) = js_num ten) props else props)"

text \<open>A row of \<open>tenant_view_get_list\<close>.\<close>

record register =
  r_field :: string
  r_device_type :: string
  r_visible :: js

definition apply_filter_register :: "filter_conf obj \<Rightarrow> register \<Rightarrow> filter_conf obj" where
  "apply_filter_register fs r =
     (case map_of fs (r_field r) of
        None \<Rightarrow> fs
      | Some f \<Rightarrow>
          (let f1 = (if r_device_type r = ''mobile'' then f\<lparr>displayMobile := r_visible r\<rparr>
                     else if r_device_type r = ''desktop'' then f\<lparr>displayDesktop := r_visible r\<rparr>
                     else f)
           in AList.update (r_field r) (f1\<lparr>f_customized := True\<rparr>) fs))"

definition apply_column_register :: "col_conf obj \<Rightarrow> register \<Rightarrow> col_conf obj" where
  "apply_column_register cols r =
     (case map_of cols (r_field r) of
        None \<Rightarrow> cols
      | Some c \<Rightarrow> AList.update (r_field r) (c\<lparr>display := r_visible r, col_customized := True\<rparr>) cols)"

definition view_list_args :: "views_view \<Rightarrow> string \<Rightarrow> js obj" where
  "view_list_args V vtype =
     [(''view_type'', JStr vtype), (''qvd_object'', JStr (selectedSection V))] @
     (if nullish (selectedTenant V) then [] else [(''tenant_id'', selectedTenant V)])"

definition getFilters :: "views_view \<Rightarrow> effect list" where
  "getFilters V = [Api ''tenant_view_get_list'' (JObj []) (JObj (view_list_args V ''filter'')) ''storeFilters'']"

definition getColumns :: "views_view \<Rightarrow> effect list" where
  "getColumns V =
     [Api ''tenant_view_get_list'' (JObj []) (JObj (view_list_args V ''list_column'')) ''storeColumns'']"

text \<open>The answers are ignored when they report an error or were aborted.\<close>

definition storeFilters ::
  "int \<Rightarrow> string \<Rightarrow> register list \<Rightarrow> prop_model list \<Rightarrow> wat_i \<Rightarrow> views_view \<Rightarrow> views_view \<times> effect list" where
  "storeFilters status statusText rows props I V =
     (if status \<noteq> STATUS_SUCCESS \<or> statusText = ''abort'' then (V, [])
      else
        (let q = selectedSection V;
             fs0 = completeFilterListWithProperties (getFormDefaultFilters I q)
                     (section_props (selectedTenant V) q props) q;
             V' = V\<lparr>currentFilters := foldl apply_filter_register fs0 rows\<rparr>
         in (V', getColumns V')))"

definition storeColumns ::
  "int \<Rightarrow> string \<Rightarrow> register list \<Rightarrow> prop_model list \<Rightarrow> wat_i \<Rightarrow> views_view \<Rightarrow> views_view \<times> effect list" where
  "storeColumns status statusText rows props I V =
     (if status \<noteq> STATUS_SUCCESS \<or> statusText = ''abort'' then (V, [])
      else
        (let q = selectedSection V;
             cols0 = completeColumnListWithProperties (getListDefaultColumns I q)
                       (section_props (selectedTenant V) q props) q;
             V' = V\<lparr>currentColumns := foldl apply_column_register cols0 rows\<rparr>
         in (V', [Call ''renderForm'' []])))"

text \<open>Reset of the views: only the filters that were chosen are sent.\<close>

definition performResetViews :: "string \<Rightarrow> string \<Rightarrow> effect list" where
  "performResetViews sectionReset tenantReset =
     [Api ''tenant_view_reset'' (JObj [])
        (JObj ((if sectionReset = '''' then [] else [(''qvd_object'', JStr sectionReset)]) @
               (if tenantReset = '''' then [] else [(''tenant_id'', JStr tenantReset)])))
        ''showViewsMessage'']"

definition STATUS_ZERO_SELECTED :: int where "STATUS_ZERO_SELECTED = 1300"

definition showViewsMessage :: "int \<Rightarrow> effect" where
  "showViewsMessage status =
     (if status = STATUS_SUCCESS then ShowMessage (JStr ''Successfully resetted'') MsgSuccess
      else if status = STATUS_ZERO_SELECTED then ShowMessage (JStr ''Nothing to do'') MsgInfo
      else ShowMessage (JStr ''Error resetting'') MsgError)"

section \<open>Lemmas\<close>

definition column :: "wat_i \<Rightarrow> string \<Rightarrow> string \<Rightarrow> col_conf option" where
  "column I q f = (case map_of (listFields I) q of None \<Rightarrow> None | Some t \<Rightarrow> map_of t f)"

definition is_column_row :: "string \<Rightarrow> string \<Rightarrow> view_row \<Rightarrow> bool" where
  "is_column_row q f v \<longleftrightarrow> view_type v = ''list_column'' \<and> qvd_object v = q \<and> v_field v = f"

text \<open>The rows of a kind of table that the loop can store.\<close>

definition row_ok :: "wat_i \<Rightarrow> view_row \<Rightarrow> bool" where
  "row_ok I v \<longleftrightarrow>
     (view_type v = ''list_column'' \<longrightarrow> qvd_object v \<in> fst ` set (listFields I)) \<and>
     (view_type v = ''filter'' \<longrightarrow> qvd_object v \<in> fst ` set (formFilters I))"

lemma store_view_row_ok: "(\<exists>I'. store_view v I = Inr I') \<longleftrightarrow> row_ok I v"
  by (auto simp: store_view_def row_ok_def map_of_eq_None_iff weak_map_of_SomeI
           split: option.splits dest: map_of_SomeD)
     (force dest: map_of_SomeD)+

lemma store_view_error: "store_view v I = Inl e \<Longrightarrow> e = TypeError"
  by (auto simp: store_view_def split: if_splits option.splits)

lemma keys_update_same:
  "map_of t q = Some x \<Longrightarrow> fst ` set (AList.update q y t) = fst ` set t"
  by (auto simp: dom_update dest: map_of_SomeD intro: rev_image_eqI)

lemma store_view_keys:
  "store_view v I = Inr I' \<Longrightarrow>
   fst ` set (listFields I') = fst ` set (listFields I) \<and>
   fst ` set (formFilters I') = fst ` set (formFilters I)"
  unfolding store_view_def
  by (clarsimp split: if_splits option.splits) (metis keys_update_same)+

lemma store_view_row_ok_iff: "store_view v I = Inr I' \<Longrightarrow> row_ok I' r \<longleftrightarrow> row_ok I r"
  using store_view_keys by (fastforce simp: row_ok_def)

lemma store_view_column:
  "store_view v I = Inr I' \<Longrightarrow>
   map_option display (column I' q f) =
     (if is_column_row q f v then Some (visible v) else map_option display (column I q f))"
  by (auto simp: store_view_def column_def is_column_row_def set_column_def Let_def
           split: if_splits option.splits)

lemma store_view_customized:
  "store_view v I = Inr I' \<Longrightarrow>
   (\<exists>c. column I' q f = Some c \<and> col_customized c) \<longleftrightarrow>
   (\<exists>c. column I q f = Some c \<and> col_customized c) \<or>
   (is_column_row q f v \<and> administrator_id v \<noteq> None)"
  by (auto simp: store_view_def column_def is_column_row_def set_column_def new_column_def Let_def
           split: if_splits option.splits)

text \<open>The callback of \<open>updateCurrentViews\<close>: the tables go back to their default values before the
  rows are stored.\<close>

definition refreshViews :: "view_row list \<Rightarrow> wat_i \<Rightarrow> js_error + wat_i" where
  "refreshViews rows I = storeViewsConfiguration rows (restoreFormFilters (restoreListColumns I))"

lemma store_error_TypeError: "storeViewsConfiguration vs I = Inl e \<Longrightarrow> e = TypeError"
  by (induction vs arbitrary: I) (auto split: sum.splits dest: store_view_error)

lemma store_ok_iff: "(\<exists>I'. storeViewsConfiguration vs I = Inr I') \<longleftrightarrow> (\<forall>v\<in>set vs. row_ok I v)"
proof (induction vs arbitrary: I)
  case (Cons v vs)
  show ?case
  proof (cases "store_view v I")
    case (Inl e)
    then have "\<not> row_ok I v" by (metis store_view_row_ok sum.distinct(1))
    then show ?thesis using Inl by simp
  next
    case (Inr I1)
    then have "row_ok I v" by (metis store_view_row_ok)
    then show ?thesis using Inr Cons.IH [of I1] by (simp add: store_view_row_ok_iff [OF Inr])
  qed
qed simp

lemma store_column_last:
  "storeViewsConfiguration vs I = Inr I' \<Longrightarrow>
   map_option display (column I' q f) =
     (case filter (is_column_row q f) vs of
        [] \<Rightarrow> map_option display (column I q f) | r # rs \<Rightarrow> Some (visible (last (r # rs))))"
proof (induction vs arbitrary: I)
  case (Cons v vs)
  then obtain I1 where I1: "store_view v I = Inr I1" and "storeViewsConfiguration vs I1 = Inr I'"
    by (auto split: sum.splits)
  then show ?case
    using Cons.IH [of I1] store_view_column [OF I1, of q f] by (auto split: list.splits)
qed simp

lemma store_customized:
  "storeViewsConfiguration vs I = Inr I' \<Longrightarrow>
   (\<exists>c. column I' q f = Some c \<and> col_customized c) \<longleftrightarrow>
   (\<exists>c. column I q f = Some c \<and> col_customized c) \<or>
   (\<exists>v\<in>set vs. is_column_row q f v \<and> administrator_id v \<noteq> None)"
  by (induction vs arbitrary: I) (auto split: sum.splits simp: store_view_customized)

section \<open>Properties\<close>

text \<open>Storing the views configuration succeeds exactly when every row names a kind of
  object that has a table; otherwise it raises a TypeError. When it succeeds, whether a column is
  displayed is decided by the last row of the configuration that is about it, and is what
  it was before if no row is.\<close>

theorem storeViewsConfiguration_decides:
  "case storeViewsConfiguration vs I of
     Inl e \<Rightarrow> e = TypeError \<and> (\<exists>v\<in>set vs. \<not> row_ok I v)
   | Inr I' \<Rightarrow> (\<forall>v\<in>set vs. row_ok I v) \<and>
       map_option display (column I' q f) =
         (case filter (is_column_row q f) vs of
            [] \<Rightarrow> map_option display (column I q f) | r # rs \<Rightarrow> Some (visible (last (r # rs))))"
proof (cases "storeViewsConfiguration vs I")
  case (Inl e)
  then have "\<not> (\<forall>v\<in>set vs. row_ok I v)" using store_ok_iff [of vs I] by simp
  then show ?thesis using Inl store_error_TypeError [OF Inl] by auto
next
  case (Inr I')
  then have "\<forall>v\<in>set vs. row_ok I v" using store_ok_iff [of vs I] by blast
  then show ?thesis using Inr store_column_last [OF Inr] by simp
qed

definition sample_row :: "string \<Rightarrow> js \<Rightarrow> int option \<Rightarrow> view_row" where
  "sample_row f vis adm = \<lparr> view_type = ''list_column'', device_type = ''desktop'',
     qvd_object = ''vm'', v_field = f, visible = vis, v_property = Null, administrator_id = adm \<rparr>"

definition sample_tables :: wat_i where
  "sample_tables = \<lparr> listFields = [(''vm'', [])], listDefaultFields = [(''vm'', [])],
     formFilters = [(''vm'', [])], formDefaultFilters = [(''vm'', [])] \<rparr>"

theorem storeViewsConfiguration_decides_witness:
  "(\<exists>I'. storeViewsConfiguration [sample_row ''name'' (JBool True) None,
            sample_row ''name'' (JBool False) (Some 7)] sample_tables = Inr I' \<and>
     map_option display (column I' ''vm'' ''name'') = Some (JBool False))"
  using storeViewsConfiguration_decides [of "[sample_row ''name'' (JBool True) None,
            sample_row ''name'' (JBool False) (Some 7)]" sample_tables "''vm''" "''name''"]
  by (cases "storeViewsConfiguration [sample_row ''name'' (JBool True) None,
            sample_row ''name'' (JBool False) (Some 7)] sample_tables")
     (auto simp del: storeViewsConfiguration.simps
           simp add: sample_row_def sample_tables_def row_ok_def is_column_row_def)

text \<open>After a refresh of the views (\<open>updateCurrentViews\<close>) a column is marked as customized
  exactly when its default is or an administrator's row names it: nothing stays from the
  customisation that was loaded before.\<close>

theorem refreshViews_customized:
  assumes "refreshViews rows I = Inr I'"
  shows "(\<exists>c. column I' q f = Some c \<and> col_customized c) \<longleftrightarrow>
         (\<exists>c. map_of (getListDefaultColumns I q) f = Some c \<and> col_customized c) \<or>
         (\<exists>v\<in>set rows. is_column_row q f v \<and> administrator_id v \<noteq> None)"
  using store_customized [OF assms [unfolded refreshViews_def], of q f]
  by (simp add: column_def getListDefaultColumns_def restoreListColumns_def restoreFormFilters_def
           split: option.splits)

theorem refreshViews_customized_witness:
  "\<exists>I'. refreshViews [sample_row ''name'' (JBool True) None, sample_row ''ip'' (JBool True) (Some 7)]
          sample_tables = Inr I' \<and>
     \<not> (\<exists>c. column I' ''vm'' ''name'' = Some c \<and> col_customized c) \<and>
     (\<exists>c. column I' ''vm'' ''ip'' = Some c \<and> col_customized c)"
proof -
  let ?rows = "[sample_row ''name'' (JBool True) None, sample_row ''ip'' (JBool True) (Some 7)]"
  have ok: "\<exists>I'. refreshViews ?rows sample_tables = Inr I'"
    unfolding refreshViews_def
    by (subst store_ok_iff)
       (simp add: sample_row_def sample_tables_def row_ok_def restoreListColumns_def restoreFormFilters_def)
  then obtain I' where I': "refreshViews ?rows sample_tables = Inr I'" by blast
  show ?thesis
    using refreshViews_customized [OF I', of "''vm''" "''name''"]
          refreshViews_customized [OF I', of "''vm''" "''ip''"] I'
    by (simp add: sample_row_def sample_tables_def is_column_row_def getListDefaultColumns_def)
qed

text \<open>When the API refuses the change of a column, the handler leaves the tables and the view
  as they were and puts the check box back; the handlers of the two filters of the same screen
  raise a ReferenceError instead, so the check box keeps showing a value that was never stored.\<close>

theorem failed_check_handlers:
  assumes "status \<noteq> STATUS_SUCCESS"
  shows "processCheckListColumn status k V I =
           Inr (V, I, [Dom (DomProp ''checked'') ''targetClicked'' (JBool (\<not> k_checked k))]) \<and>
         processCheckDesktopFilter status k V I = Inl ReferenceError \<and>
         processCheckMobileFilter status k V I = Inl ReferenceError"
  using assms
  by (simp_all add: processCheckListColumn_def processCheckDesktopFilter_def processCheckMobileFilter_def)

theorem failed_check_handlers_witness:
  "processCheckDesktopFilter 2000
     \<lparr> k_checked = True, k_name = ''name'', k_isProperty = False, k_propertyId = '''' \<rparr>
     \<lparr> setActionAttribute = ''admin_view_set'', setActionProperty = ''admin_property_view_set'',
       v_viewKind = ''admin'', selectedSection = ''vm'', selectedTenant = Undef,
       currentFilters = [], currentColumns = [] \<rparr> sample_tables = Inl ReferenceError"
  by (rule failed_check_handlers [THEN conjunct2, THEN conjunct1]) (simp add: STATUS_SUCCESS_def)

end
