(* ===== verification/JsText.thy ===== *)
theory JsText
  imports Prelude
begin

text \<open>
  The text the panel exchanges with the API: numbers as strings, \<open>parseInt\<close>,
  \<open>JSON.stringify\<close> and \<open>encodeURI\<close>, as the language defines them on the values of the model.
  Characters are code units below 256.
\<close>

section \<open>Numbers as text\<close>

definition digit_char :: "nat \<Rightarrow> char" where
  "digit_char n = (char_of (48 + n) :: char)"

fun nat_str :: "nat \<Rightarrow> string" where
  "nat_str n = (if n < 10 then [digit_char n] else nat_str (n div 10) @ [digit_char (n mod 10)])"

declare nat_str.simps [simp del]

definition num_str :: "int \<Rightarrow> string" where
  "num_str n = (if n < 0 then CHR ''-'' # nat_str (nat (- n)) else nat_str (nat n))"

text \<open>\<open>'' + v\<close>.\<close>

fun js_str :: "js \<Rightarrow> string" and js_strs :: "js list \<Rightarrow> string" where
  "js_str Undef = ''undefined''"
| "js_str Null = ''null''"
| "js_str (JBool b) = (if b then ''true'' else ''false'')"
| "js_str (JNum n) = num_str n"
| "js_str (JStr s) = s"
| "js_str (JObj ps) = ''[object Object]''"
| "js_str (JArr xs) = js_strs xs"
| "js_strs [] = ''''"
| "js_strs [x] = (if nullish x then '''' else js_str x)"
| "js_strs (x # y # xs) = (if nullish x then '''' else js_str x) @ '','' @ js_strs (y # xs)"

text \<open>\<open>parseInt\<close>: the number the longest prefix of digits denotes, after blanks and a sign;
  \<open>None\<close> is NaN.\<close>

definition parse_digits :: "string \<Rightarrow> int option" where
  "parse_digits s = digits_num (takeWhile is_digit s)"

definition parseInt :: "js \<Rightarrow> int option" where
  "parseInt v =
     (case dropWhile (\<lambda>c. c = CHR '' '') (js_str v) of
        [] \<Rightarrow> None
      | c # cs \<Rightarrow>
          if c = CHR ''-'' then map_option uminus (parse_digits cs)
          else if c = CHR ''+'' then parse_digits cs
          else parse_digits (c # cs))"

text \<open>\<open>a < n\<close> for a number \<open>n\<close>; a comparison with NaN is false.\<close>

definition js_lt :: "js \<Rightarrow> int \<Rightarrow> bool" where
  "js_lt v n =
     (case v of Null \<Rightarrow> 0 < n
      | _ \<Rightarrow> (case js_num v of None \<Rightarrow> False | Some m \<Rightarrow> m < n))"

definition js_gt :: "js \<Rightarrow> int \<Rightarrow> bool" where
  "js_gt v n =
     (case v of Null \<Rightarrow> 0 > n
      | _ \<Rightarrow> (case js_num v of None \<Rightarrow> False | Some m \<Rightarrow> m > n))"

lemma digit_code: "n < 10 \<Longrightarrow> of_char (digit_char n) = (48 + n :: nat)"
  by (simp add: digit_char_def)

lemma digit_char_ok [simp]: "n < 10 \<Longrightarrow> is_digit (digit_char n) \<and> digit_val (digit_char n) = int n"
  by (simp add: is_digit_def digit_val_def digit_code)

lemma nat_str_ne [simp]: "nat_str n \<noteq> []"
  by (subst nat_str.simps) simp

lemma nat_str_digits: "list_all is_digit (nat_str n)"
  by (induction n rule: nat_str.induct) (subst nat_str.simps, simp)

lemma nat_str_value: "foldl (\<lambda>n c. 10 * n + digit_val c) 0 (nat_str n) = int n"
proof (induction n rule: nat_str.induct)
  case (1 n)
  show ?case
  proof (cases "n < 10")
    case False
    then have "10 * int (n div 10) + int (n mod 10) = int n"
      by (metis mult_div_mod_eq of_nat_add of_nat_mult of_nat_numeral)
    then show ?thesis using 1 False by (subst nat_str.simps) simp
  qed (subst nat_str.simps, simp)
qed

lemma digits_num_nat_str [simp]: "digits_num (nat_str n) = Some (int n)"
  by (simp add: digits_num_def nat_str_digits nat_str_value)

lemma nat_str_hd: "nat_str n = c # cs \<Longrightarrow> is_digit c"
  using nat_str_digits [of n] by simp

lemma is_digit_not_special:
  "is_digit c \<Longrightarrow> c \<noteq> CHR '' '' \<and> c \<noteq> CHR ''-'' \<and> c \<noteq> CHR ''+'' \<and> c \<noteq> CHR '','' \<and> c \<noteq> CHR ''/'' "
  by (auto simp: is_digit_def)

lemma takeWhile_nat_str [simp]: "takeWhile is_digit (nat_str n) = nat_str n"
  using nat_str_digits [of n] by (auto simp: list_all_iff takeWhile_eq_all_conv)

lemma num_str_ne [simp]: "num_str n \<noteq> []"
  by (simp add: num_str_def)

text \<open>Printing a number and reading it back.\<close>

lemma parseInt_num_str [simp]: "parseInt (JStr (num_str n)) = Some n"
proof (cases "n < 0")
  case True
  then show ?thesis by (simp add: parseInt_def num_str_def parse_digits_def)
next
  case False
  obtain c cs where c: "nat_str (nat n) = c # cs" by (cases "nat_str (nat n)") auto
  then have "is_digit c" by (rule nat_str_hd)
  with False c show ?thesis
    using is_digit_not_special [of c] digits_num_nat_str [of "nat n"] takeWhile_nat_str [of "nat n"]
    by (simp add: parseInt_def num_str_def parse_digits_def takeWhile_eq_all_conv [THEN iffD2])
qed

lemma parseInt_JNum [simp]: "parseInt (JNum n) = Some n"
  using parseInt_num_str [of n] by (simp add: parseInt_def)

section \<open>JSON\<close>

definition hex_char :: "nat \<Rightarrow> char" where
  "hex_char n = (if n < 10 then digit_char n else char_of (87 + n))"

definition HEX_char :: "nat \<Rightarrow> char" where
  "HEX_char n = (if n < 10 then digit_char n else char_of (55 + n))"

definition json_char :: "char \<Rightarrow> string" where
  "json_char c =
     (let n = (of_char c :: nat) in
      if n = 34 then [char_of (92::nat), c]
      else if n = 92 then [c, c]
      else if n = 8 then [char_of (92::nat), CHR ''b'']
      else if n = 9 then [char_of (92::nat), CHR ''t'']
      else if n = 10 then [char_of (92::nat), CHR ''n'']
      else if n = 12 then [char_of (92::nat), CHR ''f'']
      else if n = 13 then [char_of (92::nat), CHR ''r'']
      else if n < 32 then [char_of (92::nat), CHR ''u'', CHR ''0'', CHR ''0'', hex_char (n div 16), hex_char (n mod 16)]
      else [c])"

definition json_string :: "string \<Rightarrow> string" where
  "json_string s = [char_of (34::nat)] @ concat (map json_char s) @ [char_of (34::nat)]"

text \<open>\<open>JSON.stringify\<close>: an undefined value is dropped from an object and is \<open>null\<close> in an array.\<close>

fun json :: "js \<Rightarrow> string" and json_items :: "js list \<Rightarrow> string list"
  and json_fields :: "(string \<times> js) list \<Rightarrow> string list" where
  "json Undef = ''null''"
| "json Null = ''null''"
| "json (JBool b) = (if b then ''true'' else ''false'')"
| "json (JNum n) = num_str n"
| "json (JStr s) = json_string s"
| "json (JArr xs) = ''['' @ concat (case json_items xs of [] \<Rightarrow> [] | y # ys \<Rightarrow> y # map ((@) '','') ys) @ '']''"
| "json (JObj ps) = ''{'' @ concat (case json_fields ps of [] \<Rightarrow> [] | y # ys \<Rightarrow> y # map ((@) '','') ys) @ ''}''"
| "json_items [] = []"
| "json_items (x # xs) = json x # json_items xs"
| "json_fields [] = []"
| "json_fields ((k, v) # ps) =
     (if v = Undef then json_fields ps else (json_string k @ '':'' @ json v) # json_fields ps)"

section \<open>URIs\<close>

definition uri_plain :: "char \<Rightarrow> bool" where
  "uri_plain c \<longleftrightarrow>
     (let n = (of_char c :: nat) in 48 \<le> n \<and> n \<le> 57 \<or> 65 \<le> n \<and> n \<le> 90 \<or> 97 \<le> n \<and> n \<le> 122) \<or>
     c \<in> set '';,/?:@&=+$-_.!~*()#'' \<or> of_char c = (39::nat)"

definition percent :: "nat \<Rightarrow> string" where
  "percent n = [CHR ''%'', HEX_char (n div 16), HEX_char (n mod 16)]"

text \<open>The UTF-8 octets of a code unit below 256, each as \<open>%XX\<close>.\<close>

definition uri_char :: "char \<Rightarrow> string" where
  "uri_char c =
     (let n = (of_char c :: nat) in
      if uri_plain c then [c]
      else if n < 128 then percent n
      else percent (192 + n div 64) @ percent (128 + n mod 64))"

definition encodeURI :: "string \<Rightarrow> string" where
  "encodeURI s = concat (map uri_char s)"

lemma encodeURI_append [simp]: "encodeURI (s @ t) = encodeURI s @ encodeURI t"
  by (simp add: encodeURI_def)

lemma encodeURI_Nil [simp]: "encodeURI [] = []"
  by (simp add: encodeURI_def)

lemma encodeURI_plain: "list_all uri_plain s \<Longrightarrow> encodeURI s = s"
  by (induction s) (auto simp: encodeURI_def uri_char_def)

text \<open>\<open>encodeURI\<close> neither adds nor removes the characters that structure a query string.\<close>

definition query_sep :: "char \<Rightarrow> bool" where
  "query_sep c \<longleftrightarrow> c \<in> set ''?&=#''"

lemma query_sep_plain: "query_sep c \<Longrightarrow> uri_plain c"
  by (auto simp: query_sep_def uri_plain_def)

lemma HEX_char_not_sep: "n < 16 \<Longrightarrow> \<not> query_sep (HEX_char n)"
proof -
  assume "n < 16"
  then have "(of_char (HEX_char n) :: nat) = (if n < 10 then 48 + n else 55 + n)"
    by (simp add: HEX_char_def digit_code)
  then show ?thesis by (auto simp: query_sep_def split: if_splits)
qed

lemma percent_not_sep: "n < 256 \<Longrightarrow> d \<in> set (percent n) \<Longrightarrow> \<not> query_sep d"
proof -
  assume "n < 256" and d: "d \<in> set (percent n)"
  then have "n div 16 < 16" by (simp add: less_mult_imp_div_less)
  then show ?thesis
    using d HEX_char_not_sep [of "n div 16"] HEX_char_not_sep [of "n mod 16"]
    by (auto simp: percent_def) (simp add: query_sep_def)
qed

lemma of_char_less: "(of_char c :: nat) < 256"
  by simp

lemma filter_sep_uri_char: "filter query_sep (uri_char c) = filter query_sep [c]"
proof (cases "uri_plain c")
  case True
  then show ?thesis by (simp add: uri_char_def)
next
  case False
  then have "\<not> query_sep c" using query_sep_plain by blast
  moreover have "\<forall>d\<in>set (uri_char c). \<not> query_sep d"
  proof -
    have "(of_char c :: nat) < 256" by (rule of_char_less)
    then have "192 + (of_char c :: nat) div 64 < 256" "128 + (of_char c :: nat) mod 64 < 256"
      by linarith+
    then show ?thesis
      using False percent_not_sep [of "of_char c"] percent_not_sep [of "192 + of_char c div 64"]
        percent_not_sep [of "128 + of_char c mod 64"]
      by (auto simp: uri_char_def Let_def split: if_splits)
  qed
  ultimately show ?thesis by (simp add: filter_empty_conv)
qed

lemma filter_sep_encodeURI: "filter query_sep (encodeURI s) = filter query_sep s"
  by (induction s) (simp_all add: encodeURI_def filter_sep_uri_char del: filter.simps, simp)

end
