(* ===== verification/Util.thy ===== *)
theory Util
  imports JsText "HOL-Library.List_Lexorder" "HOL-Library.Char_ord"
begin

text \<open>
  The helpers of \<open>Wat.U\<close> (\<open>wat/lib/util/util.js\<close>) that compute: remaining times, durations,
  the sort of the ACL lists by translation, query parameters, conditions on a model, the view
  an element belongs to, the values of a form; and the countdown of the expiration times
  (\<open>wat/lib/interface/interface-live.js\<close>) and the texts of the messages
  (\<open>interface-messages.js\<close>).

  The translation function of i18next is the parameter \<open>t\<close>: \<open>t key count\<close> is
  \<open>i18n.t(key, {count: count})\<close>, with \<open>Undef\<close> when no count is given. Dates of the browser
  (\<open>Date\<close>) are not modelled.
\<close>

section \<open>Remaining times\<close>

record raw_time =
  rt_days :: js
  rt_months :: js
  rt_hours :: js
  rt_minutes :: js
  rt_seconds :: js
  rt_expired :: js

record processed_time =
  returnType :: string
  remainingTime :: js
  remainingTimeAttr :: string
  remainingTimeAttrObj :: "js obj"
  priorityClass :: string
  pt_expired :: js
  rawTime :: raw_time

text \<open>\<open>parseInt(v) < 10 ? '0' + parseInt(v) : v\<close>\<close>

definition pad_field :: "js \<Rightarrow> js" where
  "pad_field v =
     (case parseInt v of
        Some n \<Rightarrow> if n < 10 then JStr (''0'' @ num_str n) else v
      | None \<Rightarrow> v)"

definition padNumber :: "int \<Rightarrow> string" where
  "padNumber n = (if n < 10 then ''0'' @ num_str n else num_str n)"

definition quoted :: "string \<Rightarrow> js \<Rightarrow> string" where
  "quoted a v = a @ ''='' @ [char_of (34::nat)] @ js_str v @ [char_of (34::nat)]"

definition processRemainingTime ::
  "(string \<Rightarrow> js \<Rightarrow> string) \<Rightarrow> raw_time \<Rightarrow> processed_time" where
  "processRemainingTime t raw0 =
     (let raw = (if nullish (rt_months raw0) then raw0\<lparr>rt_months := JNum 0\<rparr> else raw0);
          exact = js_lt (rt_days raw) 1 \<and> loose_eq (rt_months raw) (JNum 0);
          raw1 = (if exact
                  then raw\<lparr>rt_hours := pad_field (rt_hours raw),
                           rt_minutes := pad_field (rt_minutes raw),
                           rt_seconds := pad_field (rt_seconds raw)\<rparr>
                  else raw);
          (prio, rem, rtype) =
            (if exact then (''error'', JStr (js_str (rt_hours raw1) @ '':'' @ js_str (rt_minutes raw1)
                                             @ '':'' @ js_str (rt_seconds raw1)), ''exact'')
             else if loose_eq (rt_months raw) (JNum 0) then (''warning'', rt_days raw, ''days'')
             else if js_lt (rt_months raw) 12 then (''ok'', rt_months raw, ''months'')
             else (''ok'', JStr ''>1'', ''>year''));
          attr = (if rtype = ''days'' then Some ''data-days''
                  else if rtype = ''months'' then Some ''data-months''
                  else if rtype = ''>year'' then Some ''data-years'' else None);
          key = (if rtype = ''days'' then ''__count__ days''
                 else if rtype = ''months'' then ''__count__ months'' else ''__count__ years'')
      in if truthy (rt_expired raw)
         then \<lparr> returnType = rtype, remainingTime = JStr (t ''Expired'' Undef),
                remainingTimeAttr = '''', remainingTimeAttrObj = [], priorityClass = prio,
                pt_expired = rt_expired raw, rawTime = raw1 \<rparr>
         else
           (case attr of
              None \<Rightarrow>
                \<lparr> returnType = rtype, remainingTime = rem, remainingTimeAttr = '''',
                  remainingTimeAttrObj = [], priorityClass = prio,
                  pt_expired = rt_expired raw, rawTime = raw1 \<rparr>
            | Some a \<Rightarrow>
                \<lparr> returnType = rtype, remainingTime = JStr (t key rem),
                  remainingTimeAttr = quoted a rem,
                  remainingTimeAttrObj = [(a, rem)], priorityClass = prio,
                  pt_expired = rt_expired raw, rawTime = raw1 \<rparr>))"

text \<open>The sum the countdown computes; \<open>None\<close> is NaN.\<close>

definition raw_seconds :: "raw_time \<Rightarrow> int option" where
  "raw_seconds r =
     (case (parseInt (rt_seconds r), parseInt (rt_minutes r), parseInt (rt_hours r), parseInt (rt_days r)) of
        (Some s, Some m, Some h, Some d) \<Rightarrow> Some (s + m * 60 + h * 60 * 60 + d * 60 * 60 * 24)
      | _ \<Rightarrow> None)"

text \<open>JavaScript's \<open>%\<close> has the sign of the dividend.\<close>

definition js_mod :: "int \<Rightarrow> int \<Rightarrow> int" where
  "js_mod a b = (if a < 0 then - ((- a) mod b) else a mod b)"

definition split_seconds :: "int option \<Rightarrow> raw_time \<Rightarrow> raw_time" where
  "split_seconds tot r =
     (case tot of
        None \<Rightarrow> r\<lparr>rt_days := JStr ''NaN'', rt_hours := JStr ''NaN'', rt_minutes := JStr ''NaN'',
                 rt_seconds := JStr ''NaN''\<rparr>
      | Some s0 \<Rightarrow>
          (let s1 = js_mod s0 (60 * 60 * 24);
               s2 = js_mod s1 (60 * 60);
               s3 = js_mod s2 60
           in r\<lparr>rt_days := JNum (s0 div (60 * 60 * 24)), rt_hours := JNum (s1 div (60 * 60)),
                rt_minutes := JNum (s2 div 60), rt_seconds := JNum s3\<rparr>))"

text \<open>One second of the countdown of one element: the data it keeps in the page, whether
  it still counts, and what is done to the page.\<close>

record countdown_el =
  cd_raw :: raw_time
  cd_counting :: bool

definition countdown ::
  "(string \<Rightarrow> js \<Rightarrow> string) \<Rightarrow> countdown_el \<Rightarrow> countdown_el \<times> effect list" where
  "countdown t el =
     (if \<not> cd_counting el then (el, [])
      else
        (if raw_seconds (cd_raw el) = Some 0
         then (el, [Dom DomHtml ''element'' (JStr (t ''Expired'' Undef))])
         else
             (let d = split_seconds (map_option (\<lambda>s. s - 1) (raw_seconds (cd_raw el))) (cd_raw el);
                  p = processRemainingTime t d
              in (el\<lparr>cd_raw := d,
                     cd_counting := \<not> truthy (pt_expired p)\<rparr>,
                  [Dom (DomRemoveAttr ''data-days data-months data-years'') ''element'' Null] @
                  map (\<lambda>(a, v). Dom (DomAttr a) ''element'' v) (remainingTimeAttrObj p) @
                  [Dom DomRemoveClass ''element'' (JStr ''ok warning error''),
                   Dom DomAddClass ''element'' (JStr (priorityClass p)),
                   Dom DomRemoveClass ''element.siblings'' (JStr ''ok warning error''),
                   Dom DomAddClass ''element.siblings'' (JStr (priorityClass p))] @
                  (if returnType p = ''exact''
                   then [Dom DomHtml ''element'' (remainingTime p)]
                   else [Call ''translateXDays'' [], Call ''translateXMonths'' [], Call ''translateXYears'' []]) @
                  (if truthy (pt_expired p)
                   then [Dom (DomRemoveAttr ''data-countdown'') ''element'' Null] else [])))))"

section \<open>Durations\<close>

datatype hms = HStr string | HObj int int int int | HUndef

definition days_of :: "int \<Rightarrow> int" where
  "days_of s = (if s > 60 * 60 * 24 then (2 * s + 60 * 60 * 24) div (2 * (60 * 60 * 24)) else 0)"

definition day_rest :: "int \<Rightarrow> int" where
  "day_rest s = (if s > 60 * 60 * 24 then js_mod s (60 * 60 * 24) else s)"

definition secondsToHms :: "(string \<Rightarrow> js \<Rightarrow> string) \<Rightarrow> int \<Rightarrow> string \<Rightarrow> hms" where
  "secondsToHms t s fmt0 =
     (let fmt = (if fmt0 = '''' then ''strShort'' else fmt0);
          days = days_of s;
          r = day_rest s;
          hours = r div (60 * 60);
          r2 = js_mod r (60 * 60);
          minutes = r2 div 60;
          seconds = js_mod r2 60
      in if fmt = ''strShort'' then
           HStr ((if days > 0 then t ''__count__ days'' (JNum days) else '''') @
                 padNumber hours @ '':'' @ padNumber minutes @ '':'' @ padNumber seconds)
         else if fmt = ''strLong'' then
           HStr ((if days > 0 then t ''__count__ days'' (JNum days) else '''') @
                 (if hours > 0 then '' '' @ t ''__count__ hours'' (JNum hours) else '''') @
                 (if minutes > 0 then '' '' @ t ''__count__ minutes'' (JNum minutes) else ''''))
         else if fmt = ''object'' then HObj days hours minutes seconds
         else HUndef)"

section \<open>Sorting ACLs by their translation\<close>

record acl_row =
  acl_name :: string
  acl_description :: string

text \<open>The inner loop pushes the first ACL with the given translation and stops.\<close>

definition sortTranslatedACLs :: "(string \<Rightarrow> js \<Rightarrow> string) \<Rightarrow> 'a acl_row_scheme list \<Rightarrow> 'a acl_row_scheme list" where
  "sortTranslatedACLs t acls =
     concat (map (\<lambda>ta. case find (\<lambda>a. t (acl_description a) Undef = ta) acls of
                         Some a \<Rightarrow> [a] | None \<Rightarrow> [])
               (sort (map (\<lambda>a. t (acl_description a) Undef) acls)))"

section \<open>Query parameters and paths\<close>

text \<open>The matches of \<open>[?&]([^=#]+)=([^&#]*)\<close> from left to right: a key is the longest run
  without \<open>=\<close> and \<open>#\<close>, and matches only if \<open>=\<close> follows; a later parameter replaces an earlier
  one of the same name.\<close>

definition key_char :: "char \<Rightarrow> bool" where "key_char c \<longleftrightarrow> c \<notin> set ''=#''"
definition val_char :: "char \<Rightarrow> bool" where "val_char c \<longleftrightarrow> c \<notin> set ''&#''"

function url_params :: "string \<Rightarrow> string obj \<Rightarrow> string obj" where
  "url_params [] acc = acc"
| "url_params (c # s) acc =
     (if c \<in> set ''?&'' \<and> takeWhile key_char s \<noteq> [] \<and>
         (case dropWhile key_char s of [] \<Rightarrow> False | d # _ \<Rightarrow> d = CHR ''='')
      then url_params (dropWhile val_char (tl (dropWhile key_char s)))
             (AList.update (takeWhile key_char s)
                (takeWhile val_char (tl (dropWhile key_char s))) acc)
      else url_params s acc)"
  by pat_completeness auto

termination
proof (relation "measure (length \<circ> fst)")
  fix c :: char and s :: string and acc :: "string obj"
  have "length (dropWhile val_char (tl (dropWhile key_char s))) \<le> length (tl (dropWhile key_char s))"
    by (rule length_dropWhile_le)
  also have "\<dots> \<le> length (dropWhile key_char s)" by simp
  also have "\<dots> \<le> length s" by (rule length_dropWhile_le)
  finally show "((dropWhile val_char (tl (dropWhile key_char s)),
       AList.update (takeWhile key_char s) (takeWhile val_char (tl (dropWhile key_char s))) acc),
     (c # s, acc)) \<in> measure (length \<circ> fst)" by simp
qed simp_all

definition getURLParameter :: "string \<Rightarrow> string \<Rightarrow> string option" where
  "getURLParameter url p = map_of (url_params url []) p"

definition objToUrl :: "js obj \<Rightarrow> string" where
  "objToUrl params = concat (map (\<lambda>(k, v). ''&'' @ k @ ''='' @ json v) params)"

text \<open>The last element of \<open>path.split(/[\\/]/)\<close>.\<close>

definition basename :: "string \<Rightarrow> string" where
  "basename path = rev (takeWhile (\<lambda>c. c \<noteq> CHR ''/'' \<and> c \<noteq> char_of (92::nat)) (rev path))"

section \<open>Conditions, names and views\<close>

definition complyConditions :: "(string \<Rightarrow> js) \<Rightarrow> js list obj \<Rightarrow> bool" where
  "complyConditions get conds =
     (let matchCounter = foldl (\<lambda>n fv. if foldl (\<lambda>m v. if loose_eq (get (fst fv)) v then True else m)
                                            False (snd fv) then n + 1 else n) (0::nat) conds
      in \<not> matchCounter < length conds)"

definition getNameFieldFromQvdObj :: "string \<Rightarrow> string" where
  "getNameFieldFromQvdObj q = (if q = ''di'' then ''disk_image'' else ''name'')"

definition getModelFromQvdObj :: "string \<Rightarrow> string option" where
  "getModelFromQvdObj q =
     (if q = ''user'' then Some ''User'' else if q = ''osf'' then Some ''OSF''
      else if q = ''vm'' then Some ''VM'' else if q = ''di'' then Some ''DI'' else None)"

record view_ref =
  v_cid :: string
  v_qvdObj :: string

record current_view =
  cur_view :: view_ref
  embeddedViews :: "view_ref obj"
  sideViews :: "view_ref obj"

definition getViewFromCid :: "current_view \<Rightarrow> string \<Rightarrow> view_ref" where
  "getViewFromCid V c =
     (case find (\<lambda>(q, e). v_cid e = c) (embeddedViews V) of
        Some (q, e) \<Rightarrow> e | None \<Rightarrow> cur_view V)"

definition getViewFromQvdObj :: "current_view \<Rightarrow> string \<Rightarrow> view_ref" where
  "getViewFromQvdObj V qs =
     (case map_of (embeddedViews V) qs of
        Some e \<Rightarrow> e
      | None \<Rightarrow>
          (case find (\<lambda>(q, e). v_qvdObj e = qs) (sideViews V) of
             Some (q, e) \<Rightarrow> e | None \<Rightarrow> cur_view V))"

section \<open>Forms\<close>

record form_control =
  fc_type :: string
  fc_name :: string
  fc_checked :: bool
  fc_val :: js

definition control_value :: "form_control \<Rightarrow> js" where
  "control_value c =
     (if fc_type c = ''checkbox'' then JNum (if fc_checked c then 1 else 0) else fc_val c)"

text \<open>The attributes set on the model: one per control, and for each list one element with its
  fields appended to the attribute of the list's name.\<close>

fun push_lists :: "(string \<times> js obj) list \<Rightarrow> js obj \<Rightarrow> js_error + js obj" where
  "push_lists [] attrs = Inr attrs"
| "push_lists ((l, fs) # ls) attrs =
     (case map_of attrs l of
        Some (JArr xs) \<Rightarrow>
          push_lists ls (AList.update l (JArr (xs @ [JObj (jq_extend [] fs)])) attrs)
      | None \<Rightarrow> push_lists ls (AList.update l (JArr [JObj (jq_extend [] fs)]) attrs)
      | Some v \<Rightarrow>
          if nullish v then push_lists ls (AList.update l (JArr [JObj (jq_extend [] fs)]) attrs)
          else Inl TypeError)"

definition setFormChangesOnModel ::
  "form_control list \<Rightarrow> (string \<times> js obj) list \<Rightarrow> js obj \<Rightarrow> js_error + js obj" where
  "setFormChangesOnModel controls flists attrs =
     (case push_lists flists
             (foldl (\<lambda>a c. AList.update (fc_name c) (control_value c) a) [] controls) of
        Inl e \<Rightarrow> Inl e | Inr new \<Rightarrow> Inr (jq_extend attrs new))"

section \<open>Lemmas\<close>

text \<open>A query string: parameters joined by separators.\<close>

definition sep_char :: "char \<Rightarrow> bool" where "sep_char c \<longleftrightarrow> c \<in> set ''?&''"

definition enc_params :: "(char \<times> string \<times> string) list \<Rightarrow> string" where
  "enc_params ps = concat (map (\<lambda>(s, k, v). s # k @ ''='' @ v) ps)"

definition param_ok :: "char \<times> string \<times> string \<Rightarrow> bool" where
  "param_ok p \<longleftrightarrow> (case p of (s, k, v) \<Rightarrow>
     sep_char s \<and> k \<noteq> [] \<and> list_all key_char k \<and> list_all val_char v)"

lemma enc_params_Nil [simp]: "enc_params [] = []"
  and enc_params_Cons [simp]: "enc_params ((s, k, v) # ps) = s # k @ ''='' @ v @ enc_params ps"
  by (simp_all add: enc_params_def)

definition amp_first :: "(char \<times> string \<times> string) list \<Rightarrow> bool" where
  "amp_first ps \<longleftrightarrow> (case ps of [] \<Rightarrow> True | p # _ \<Rightarrow> fst p = CHR ''&'')"

lemma takeWhile_split:
  "list_all P k \<Longrightarrow> (case r of [] \<Rightarrow> True | c # _ \<Rightarrow> \<not> P c) \<Longrightarrow>
   takeWhile P (k @ r) = k \<and> dropWhile P (k @ r) = r"
  by (induction k) (auto split: list.splits)

lemma enc_params_val_stop:
  "amp_first ps \<Longrightarrow> (case enc_params ps of [] \<Rightarrow> True | c # _ \<Rightarrow> \<not> val_char c)"
  by (cases ps) (auto simp: amp_first_def val_char_def)

lemma url_params_enc:
  assumes "list_all param_ok ps" and "\<And>i. 0 < i \<Longrightarrow> i < length ps \<Longrightarrow> fst (ps ! i) = CHR ''&''"
  shows "url_params (enc_params ps) acc = foldl (\<lambda>a (s, k, v). AList.update k v a) acc ps"
  using assms
proof (induction ps arbitrary: acc)
  case (Cons p ps)
  obtain s k v where p: "p = (s, k, v)" by (cases p)
  have ok: "sep_char s" "k \<noteq> []" "list_all key_char k" "list_all val_char v"
    using Cons.prems(1) p by (auto simp: param_ok_def)
  have k: "takeWhile key_char (k @ ''='' @ v @ enc_params ps) = k"
          "dropWhile key_char (k @ ''='' @ v @ enc_params ps) = ''='' @ v @ enc_params ps"
    using takeWhile_split [OF ok(3), of "''='' @ v @ enc_params ps"] by (simp_all add: key_char_def)
  have "amp_first ps" using Cons.prems(2) [of 1] by (cases ps) (auto simp: amp_first_def)
  then have v: "takeWhile val_char (v @ enc_params ps) = v"
               "dropWhile val_char (v @ enc_params ps) = enc_params ps"
    using takeWhile_split [OF ok(4) enc_params_val_stop] by auto
  have "\<And>i. 0 < i \<Longrightarrow> i < length ps \<Longrightarrow> fst (ps ! i) = CHR ''&''"
    using Cons.prems(2) by (metis Suc_less_eq length_Cons nth_Cons_Suc zero_less_Suc)
  with Cons have "url_params (enc_params ps) (AList.update k v acc) =
      foldl (\<lambda>a (s, k, v). AList.update k v a) (AList.update k v acc) ps" by simp
  then show ?case using ok(1,2) k v p by (simp add: sep_char_def)
qed simp

lemma url_params_prefix:
  "list_all (\<lambda>c. \<not> sep_char c) b \<Longrightarrow> url_params (b @ u) acc = url_params u acc"
  by (induction b) (auto simp: sep_char_def)

lemma foldl_update_map_of:
  "map_of (foldl (\<lambda>a (s, k, v). AList.update k v a) acc ps) x =
     (case map_of (map snd (rev ps)) x of Some v \<Rightarrow> Some v | None \<Rightarrow> map_of acc x)"
proof (induction ps rule: rev_induct)
  case (snoc p ps)
  then show ?case by (cases p) simp
qed simp

lemma split_seconds_total:
  "0 \<le> s \<Longrightarrow> raw_seconds (split_seconds (Some s) r) = Some s"
proof -
  assume s: "0 \<le> s"
  have "s mod 86400 mod 3600 mod 60 + s mod 86400 mod 3600 div 60 * 60 + s mod 86400 div 3600 * 3600
        + s div 86400 * 86400 = s"
    using div_mult_mod_eq [of s 86400] div_mult_mod_eq [of "s mod 86400" 3600]
      div_mult_mod_eq [of "s mod 86400 mod 3600" 60] by linarith
  with s show ?thesis
    by (simp add: raw_seconds_def split_seconds_def js_mod_def Let_def not_less [THEN iffD2])
qed

lemma days_of_exact:
  assumes "0 \<le> s"
  shows "days_of s * 86400 + day_rest s = s \<longleftrightarrow> s \<le> 86400 \<or> s mod 86400 < 43200"
proof (cases "s \<le> 86400")
  case False
  let ?q = "s div 86400" and ?m = "s mod 86400"
  have s: "s = 86400 * ?q + ?m" by simp
  have m: "0 \<le> ?m" "?m < 86400" by simp_all
  have "(2 * s + 86400) div 172800 = ?q + (2 * ?m + 86400) div 172800"
  proof -
    have "2 * s + 86400 = (2 * ?m + 86400) + ?q * 172800" using s by linarith
    then show ?thesis by simp
  qed
  moreover have "(2 * ?m + 86400) div 172800 = (if ?m < 43200 then 0 else 1)"
    using m by (cases "?m < 43200") (auto simp: div_pos_pos_trivial int_div_pos_eq)
  ultimately have "days_of s = ?q + (if ?m < 43200 then 0 else 1)"
    using False by (simp add: days_of_def)
  moreover have "day_rest s = ?m" using False assms by (simp add: day_rest_def js_mod_def)
  ultimately show ?thesis using s False by (auto split: if_splits)
qed (use assms in \<open>simp add: days_of_def day_rest_def\<close>)

section \<open>Properties\<close>

text \<open>The value read from a request's address for a parameter is the one the address was
  built with: for a prefix without \<open>?\<close> and \<open>&\<close> and a list of parameters whose keys and values
  hold no delimiters, the last parameter of the name.\<close>

theorem getURLParameter_built:
  assumes "list_all (\<lambda>c. \<not> sep_char c) base" and "list_all param_ok ps"
    and "\<And>i. 0 < i \<Longrightarrow> i < length ps \<Longrightarrow> fst (ps ! i) = CHR ''&''"
  shows "getURLParameter (base @ enc_params ps) x = map_of (map snd (rev ps)) x"
  using assms by (simp add: getURLParameter_def url_params_prefix url_params_enc foldl_update_map_of
    split: option.splits)

theorem getURLParameter_built_witness:
  "getURLParameter (''https://h/api/'' @ enc_params [(CHR ''?'', ''sid'', ''abc''),
      (CHR ''&'', ''action'', ''vm_get_list''), (CHR ''&'', ''offset'', ''1'')]) ''action'' =
   Some ''vm_get_list''"
proof -
  have "getURLParameter (''https://h/api/'' @ enc_params [(CHR ''?'', ''sid'', ''abc''),
      (CHR ''&'', ''action'', ''vm_get_list''), (CHR ''&'', ''offset'', ''1'')]) ''action'' =
    map_of (map snd (rev [(CHR ''?'', ''sid'', ''abc''),
      (CHR ''&'', ''action'', ''vm_get_list''), (CHR ''&'', ''offset'', ''1'')])) ''action''"
    by (rule getURLParameter_built)
       (auto simp: sep_char_def param_ok_def key_char_def val_char_def less_Suc_eq nth_Cons')
  then show ?thesis by simp
qed

text \<open>Durations: with a number of seconds that is not negative, minutes and seconds are
  below 60 and hours, minutes and seconds add up to what remains of the day. The days are
  rounded, not truncated, so the parts add up to the whole exactly when it is at most one day
  or less than half of the last day is left.\<close>

theorem secondsToHms_parts:
  assumes "0 \<le> s"
  shows "\<exists>d h m r. secondsToHms t s ''object'' = HObj d h m r \<and>
           0 \<le> h \<and> h \<le> 24 \<and> 0 \<le> m \<and> m < 60 \<and> 0 \<le> r \<and> r < 60 \<and>
           h * 3600 + m * 60 + r = (if s \<le> 86400 then s else s mod 86400) \<and>
           (d * 86400 + h * 3600 + m * 60 + r = s \<longleftrightarrow> s \<le> 86400 \<or> s mod 86400 < 43200)"
proof -
  let ?r = "day_rest s"
  let ?h = "?r div 3600" let ?m = "?r mod 3600 div 60" let ?x = "?r mod 3600 mod 60"
  have r: "?r = (if s \<le> 86400 then s else s mod 86400)" and r0: "0 \<le> ?r" "?r \<le> 86400"
    using assms by (auto simp: day_rest_def js_mod_def intro: order_trans [OF less_imp_le])
  have sum: "?h * 3600 + ?m * 60 + ?x = ?r"
    using div_mult_mod_eq [of ?r 3600] div_mult_mod_eq [of "?r mod 3600" 60] by linarith
  have eval: "secondsToHms t s ''object'' = HObj (days_of s) ?h ?m ?x"
    using r0(1) by (simp add: secondsToHms_def Let_def js_mod_def)
  have days: "days_of s * 86400 + ?r = s \<longleftrightarrow> s \<le> 86400 \<or> s mod 86400 < 43200"
    using assms by (rule days_of_exact)
  have "0 \<le> ?h" "0 \<le> ?m" "0 \<le> ?x" "?x < 60" using r0(1) by simp_all
  moreover have "?h \<le> 24" "?m < 60" using r0 by linarith+
  moreover have "days_of s * 86400 + ?h * 3600 + ?m * 60 + ?x = days_of s * 86400 + ?r"
    using sum by linarith
  ultimately show ?thesis using eval sum r days by metis
qed

theorem secondsToHms_parts_witness:
  "secondsToHms (\<lambda>k c. k) 129600 ''object'' = HObj 2 12 0 0 \<and>
   (\<exists>d h m r. secondsToHms (\<lambda>k c. k) 129600 ''object'' = HObj d h m r \<and>
      d * 86400 + h * 3600 + m * 60 + r \<noteq> 129600)"
  using secondsToHms_parts [of 129600 "\<lambda>k c. k"]
  by (auto simp: secondsToHms_def days_of_def day_rest_def js_mod_def)

lemma countdown_step:
  assumes "raw_seconds (cd_raw el) = Some s" and "0 \<le> s" and "cd_counting el"
    and "\<not> truthy (rt_expired (cd_raw el))"
  shows "raw_seconds (cd_raw (fst (countdown t el))) = Some (max 0 (s - 1)) \<and>
         cd_counting (fst (countdown t el)) \<and>
         \<not> truthy (rt_expired (cd_raw (fst (countdown t el))))"
proof (cases "s = 0")
  case True
  then show ?thesis using assms by (simp add: countdown_def)
next
  case False
  have e: "pt_expired (processRemainingTime t r) = rt_expired r" for r
    by (simp add: processRemainingTime_def Let_def split: prod.splits option.splits)
  have x: "rt_expired (split_seconds q r) = rt_expired r" for q r
    by (simp add: split_seconds_def Let_def split: option.splits)
  from False assms show ?thesis
    by (simp add: countdown_def Let_def split_seconds_total e x)
qed

text \<open>The countdown of an element whose data are numbers, not negative and not marked as
  expired loses exactly one second at each tick and stops at zero: after \<open>n\<close> ticks the data
  denote the initial time less \<open>n\<close> seconds, or zero. The months of the data do not count.\<close>

theorem countdown_runs:
  assumes "raw_seconds (cd_raw el) = Some s" and "0 \<le> s" and "cd_counting el"
    and "\<not> truthy (rt_expired (cd_raw el))"
  shows "raw_seconds (cd_raw (((\<lambda>e. fst (countdown t e)) ^^ n) el)) = Some (max 0 (s - int n))"
proof -
  let ?f = "\<lambda>e. fst (countdown t e)"
  have "raw_seconds (cd_raw ((?f ^^ n) el)) = Some (max 0 (s - int n)) \<and> cd_counting ((?f ^^ n) el) \<and>
        \<not> truthy (rt_expired (cd_raw ((?f ^^ n) el)))"
  proof (induction n)
    case 0
    then show ?case using assms by simp
  next
    case (Suc n)
    then show ?case
      using countdown_step [of "(?f ^^ n) el" "max 0 (s - int n)" t] by (auto simp: max_def)
  qed
  then show ?thesis by simp
qed

definition sample_el :: "int \<Rightarrow> countdown_el" where
  "sample_el mo = \<lparr> cd_raw = \<lparr> rt_days = JNum 0, rt_months = JNum mo, rt_hours = JNum 1,
     rt_minutes = JStr ''00'', rt_seconds = JNum 5, rt_expired = JBool False \<rparr>, cd_counting = True \<rparr>"

theorem countdown_runs_witness:
  "raw_seconds (cd_raw (((\<lambda>e. fst (countdown (\<lambda>k c. k) e)) ^^ 3605) (sample_el 2))) = Some 0"
proof -
  have "parseInt (JStr ''00'') = Some 0" by code_simp
  then have "raw_seconds (cd_raw (sample_el 2)) = Some 3605"
    by (simp add: sample_el_def raw_seconds_def)
  from countdown_runs [OF this, of 3605 "\<lambda>k c. k"] show ?thesis by (simp add: sample_el_def)
qed

definition tr_of :: "(string \<Rightarrow> js \<Rightarrow> string) \<Rightarrow> 'a acl_row_scheme \<Rightarrow> string" where
  "tr_of t a = t (acl_description a) Undef"

lemma find_tr:
  "x \<in> tr_of t ` set acls \<Longrightarrow>
   \<exists>a. find (\<lambda>a. tr_of t a = x) acls = Some a \<and> tr_of t a = x \<and> a \<in> set acls"
  by (induction acls) auto

lemma sortTranslatedACLs_alt:
  "sortTranslatedACLs t acls =
     map (\<lambda>x. the (find (\<lambda>a. tr_of t a = x) acls)) (sort (map (tr_of t) acls))"
proof -
  have "concat (map (\<lambda>x. case find (\<lambda>a. tr_of t a = x) acls of Some a \<Rightarrow> [a] | None \<Rightarrow> []) xs) =
        map (\<lambda>x. the (find (\<lambda>a. tr_of t a = x) acls)) xs"
    if "set xs \<subseteq> tr_of t ` set acls" for xs
    using that by (induction xs) (use find_tr [of _ t acls] in fastforce)+
  from this [of "sort (map (tr_of t) acls)"] show ?thesis
    by (simp add: sortTranslatedACLs_def tr_of_def [abs_def])
qed

lemma sort_translations: "map (tr_of t) (sortTranslatedACLs t acls) = sort (map (tr_of t) acls)"
proof -
  have "map (\<lambda>x. tr_of t (the (find (\<lambda>a. tr_of t a = x) acls))) (sort (map (tr_of t) acls)) =
        map id (sort (map (tr_of t) acls))"
    by (rule map_cong) (use find_tr [of _ t acls] in fastforce)+
  then show ?thesis by (simp add: sortTranslatedACLs_alt comp_def)
qed

lemma sort_same_elements:
  "distinct (map (tr_of t) acls) \<Longrightarrow> mset (sortTranslatedACLs t acls) = mset acls"
proof -
  assume d: "distinct (map (tr_of t) acls)"
  have inv: "the (find (\<lambda>a. tr_of t a = tr_of t b) acls) = b" if "b \<in> set acls" for b
  proof -
    from that obtain a where a: "find (\<lambda>a. tr_of t a = tr_of t b) acls = Some a"
      "tr_of t a = tr_of t b" "a \<in> set acls" using find_tr [of "tr_of t b" t acls] by blast
    have "inj_on (tr_of t) (set acls)" using d by (simp add: distinct_map)
    then have "a = b" using a(2,3) that by (rule inj_onD)
    with a(1) show ?thesis by simp
  qed
  have "mset (sortTranslatedACLs t acls) =
        image_mset (\<lambda>x. the (find (\<lambda>a. tr_of t a = x) acls)) (mset (map (tr_of t) acls))"
    by (simp add: sortTranslatedACLs_alt)
  also have "\<dots> = mset (map (\<lambda>b. the (find (\<lambda>a. tr_of t a = tr_of t b) acls)) acls)"
    by (simp only: mset_map image_mset.compositionality comp_def)
  also have "map (\<lambda>b. the (find (\<lambda>a. tr_of t a = tr_of t b) acls)) acls = map id acls"
    by (rule map_cong) (use inv in simp_all)
  finally show ?thesis by simp
qed

text \<open>When the translations of the ACLs differ, \<open>sortTranslatedACLs\<close> returns the same ACLs
  sorted by translation. In general the translations come out sorted and each is
  represented by the first ACL that has it.\<close>

theorem sortTranslatedACLs_sorts:
  "sorted (map (\<lambda>a. t (acl_description a) Undef) (sortTranslatedACLs t acls)) \<and>
   mset (map (\<lambda>a. t (acl_description a) Undef) (sortTranslatedACLs t acls)) =
     mset (map (\<lambda>a. t (acl_description a) Undef) acls) \<and>
   (distinct (map (\<lambda>a. t (acl_description a) Undef) acls) \<longrightarrow>
      mset (sortTranslatedACLs t acls) = mset acls)"
  using sort_translations [of t acls] sort_same_elements [of t acls]
  by (simp add: tr_of_def [abs_def])

theorem sortTranslatedACLs_sorts_witness:
  "mset (sortTranslatedACLs (\<lambda>k c. k)
      [\<lparr>acl_name = ''b'', acl_description = ''y''\<rparr>, \<lparr>acl_name = ''a'', acl_description = ''x''\<rparr>]) =
   mset [\<lparr>acl_name = ''b'', acl_description = ''y''\<rparr>, \<lparr>acl_name = ''a'', acl_description = ''x''\<rparr>] \<and>
   sortTranslatedACLs (\<lambda>k c. k)
      [\<lparr>acl_name = ''b'', acl_description = ''y''\<rparr>, \<lparr>acl_name = ''a'', acl_description = ''y''\<rparr>] =
      [\<lparr>acl_name = ''b'', acl_description = ''y''\<rparr>, \<lparr>acl_name = ''b'', acl_description = ''y''\<rparr>]"
  using sortTranslatedACLs_sorts [of "\<lambda>k c. k"
    "[\<lparr>acl_name = ''b'', acl_description = ''y''\<rparr>, \<lparr>acl_name = ''a'', acl_description = ''x''\<rparr>]"]
  by (simp add: sortTranslatedACLs_def)

text \<open>A condition table is met when every field has one of its values.\<close>

lemma any_match: "foldl (\<lambda>m v. if P v then True else m) b vs \<longleftrightarrow> b \<or> (\<exists>v\<in>set vs. P v)"
  by (induction vs arbitrary: b) auto

lemma count_all:
  "foldl (\<lambda>n x. if P x then n + 1 else n) n0 xs = n0 + length (filter P xs)"
  by (induction xs arbitrary: n0) auto

lemma complyConditions_iff:
  "complyConditions get conds \<longleftrightarrow> (\<forall>(f, vs)\<in>set conds. \<exists>v\<in>set vs. loose_eq (get f) v)"
proof -
  have "\<not> length (filter P xs) < length xs \<longleftrightarrow> (\<forall>x\<in>set xs. P x)" for P and xs :: "(string \<times> js list) list"
    by (metis filter_True length_filter_less linorder_neq_iff)
  then show ?thesis
    by (simp add: complyConditions_def any_match count_all Let_def split_beta)
qed

end
