(* ===== verification/Requests.thy ===== *)
theory Requests
  imports Config Util
begin

text \<open>
  The queue of ajax requests \<open>Wat.C.requests\<close>: \<open>setupJQuery\<close> stores every request in it before
  it is sent and removes it when it completes, \<open>performAction\<close>
  (\<open>wat/lib/actions/actions.js\<close>) stores it once more, and \<open>abortRequests\<close>
  (\<open>wat/lib/session/config.js\<close>) aborts what is stored, when the panel navigates or a list is
  filtered.

  jQuery: aborting or finishing a request that is still in flight calls the \<open>complete\<close> callback
  at once; both do nothing on a request that already completed. The other callbacks of an
  aborted request belong to its sender and are outside this component.
\<close>

section \<open>State and operations\<close>

text \<open>\<open>xid\<close> is the identity of the object.\<close>

record jqXHR =
  xid :: nat
  requestURL :: string

record req_st =
  requests :: "jqXHR list"
  inflight :: "nat list"

fun str_contains :: "string \<Rightarrow> string \<Rightarrow> bool" where
  "str_contains p [] \<longleftrightarrow> p = []"
| "str_contains p (c # s) \<longleftrightarrow> take (length p) (c # s) = p \<or> str_contains p s"

definition beforeSend :: "jqXHR \<Rightarrow> req_st \<Rightarrow> req_st" where
  "beforeSend x s =
     (if str_contains ''dictionaries'' (requestURL x) then s
      else s\<lparr>requests := requests s @ [x]\<rparr>)"

definition complete_request :: "jqXHR \<Rightarrow> req_st \<Rightarrow> req_st" where
  "complete_request x s =
     (let index = inArray x (requests s)
      in if index > -1 then s\<lparr>requests := splice (requests s) index 1\<rparr> else s)"

text \<open>Sending a request, and its end (an answer, an error or an abort).\<close>

definition ajax :: "jqXHR \<Rightarrow> req_st \<Rightarrow> req_st" where
  "ajax x s = (beforeSend x s)\<lparr>inflight := inflight s @ [xid x]\<rparr>"

definition finish_request :: "jqXHR \<Rightarrow> req_st \<Rightarrow> req_st" where
  "finish_request x s =
     (if xid x \<in> set (inflight s)
      then complete_request x (s\<lparr>inflight := removeAll (xid x) (inflight s)\<rparr>) else s)"

definition performAction_request :: "jqXHR \<Rightarrow> req_st \<Rightarrow> req_st" where
  "performAction_request x s =
     (let s' = ajax x s in s'\<lparr>requests := requests s' @ [x]\<rparr>)"

definition abort_matches :: "string option \<Rightarrow> jqXHR \<Rightarrow> bool" where
  "abort_matches action x \<longleftrightarrow>
     \<not> (case action of None \<Rightarrow> False
        | Some a \<Rightarrow> a \<noteq> '''' \<and> getURLParameter (requestURL x) ''action'' \<noteq> Some a)"

definition abort_one :: "string option \<Rightarrow> nat \<Rightarrow> jqXHR option \<Rightarrow> req_st \<Rightarrow> req_st" where
  "abort_one action i e s =
     (case e of
        None \<Rightarrow> s
      | Some x \<Rightarrow> if abort_matches action x then finish_request x s else s)"

definition drop_one :: "nat \<Rightarrow> jqXHR option \<Rightarrow> req_st \<Rightarrow> req_st" where
  "drop_one i e s = (case e of None \<Rightarrow> s | Some x \<Rightarrow> complete_request x s)"

definition get_request :: "req_st \<Rightarrow> nat \<Rightarrow> jqXHR option" where
  "get_request s i = arr_get (requests s) i"

definition abortRequests :: "string option \<Rightarrow> req_st \<Rightarrow> req_st" where
  "abortRequests action s =
     (let s1 = each_mut get_request (abort_one action) 0 (length (requests s)) s
      in each_mut get_request drop_one 0 (length (requests s1)) s1)"

lemma loop_None [simp]: "abort_one a i None s = s" "drop_one i None s = s"
  by (simp_all add: abort_one_def drop_one_def)

section \<open>The shape of the queue\<close>

text \<open>A request that \<open>performAction\<close> sent is stored twice while it is in flight and once after.\<close>

primrec unblocks :: "(jqXHR \<times> bool) list \<Rightarrow> jqXHR list" where
  "unblocks [] = []"
| "unblocks (b # bs) = (if snd b then [fst b, fst b] else [fst b]) @ unblocks bs"

definition ids :: "(jqXHR \<times> bool) list \<Rightarrow> nat list" where
  "ids bs = map (xid \<circ> fst) bs"

definition live :: "(jqXHR \<times> bool) list \<Rightarrow> nat list" where
  "live bs = ids (filter snd bs)"

definition shape :: "(jqXHR \<times> bool) list \<Rightarrow> req_st \<Rightarrow> bool" where
  "shape bs s \<longleftrightarrow> requests s = unblocks bs \<and> distinct (ids bs) \<and> inflight s = live bs"

text \<open>Every other element, from the second on.\<close>

fun odds :: "'a list \<Rightarrow> 'a list" where
  "odds (x # y # r) = y # odds r"
| "odds _ = []"

lemma unblocks_append [simp]: "unblocks (as @ bs) = unblocks as @ unblocks bs"
  by (induction as) simp_all

lemma set_unblocks [simp]: "set (unblocks bs) = fst ` set bs"
  by (induction bs) auto

lemma live_simps [simp]:
  "live [] = []" "live (b # bs) = (if snd b then xid (fst b) # live bs else live bs)"
  "live (as @ bs) = live as @ live bs"
  by (simp_all add: live_def ids_def)

lemma ids_simps [simp]:
  "ids [] = []" "ids (b # bs) = xid (fst b) # ids bs" "ids (as @ bs) = ids as @ ids bs"
  by (simp_all add: ids_def)

lemma set_live: "set (live bs) \<subseteq> set (ids bs)"
  by (auto simp: live_def ids_def)

lemma in_unblocks_ids: "xid x \<notin> set (ids bs) \<Longrightarrow> x \<notin> set (unblocks bs)"
  by (auto simp: ids_def)

lemma unblocks_singles: "(\<And>b. b \<in> set bs \<Longrightarrow> \<not> snd b) \<Longrightarrow> unblocks bs = map fst bs"
  by (induction bs) auto

lemma set_odds: "set (odds xs) \<subseteq> set xs"
  by (induction xs rule: odds.induct) auto

lemma distinct_odds: "distinct xs \<Longrightarrow> distinct (odds xs)"
  using set_odds by (induction xs rule: odds.induct) fastforce+

lemma map_odds: "map f (odds xs) = odds (map f xs)"
  by (induction xs rule: odds.induct) simp_all

lemma distinct_mapI_of: "distinct (map f xs) \<Longrightarrow> distinct xs"
  by (simp add: distinct_map)

lemma complete_request_eq:
  "complete_request x s = (if x \<in> set (requests s) then s\<lparr>requests := remove1 x (requests s)\<rparr> else s)"
proof (cases "x \<in> set (requests s)")
  case True
  then show ?thesis using inArray_nonneg [OF True]
    by (simp add: complete_request_def Let_def splice_Suc_0)
next
  case False
  then have "inArray x (requests s) = -1" by simp
  then show ?thesis using False by (simp add: complete_request_def del: inArray_eq_neg)
qed

lemma get_request_out: "length (requests s) \<le> i \<Longrightarrow> get_request s i = None"
  by (simp add: get_request_def arr_get_def)

lemma each_mut_out:
  assumes "\<And>i. f i None s = s" and "length (requests s) \<le> i"
  shows "each_mut get_request f i n s = s"
  using assms by (induction n arbitrary: i) (simp_all add: get_request_out)

lemma get_request_at [simp]:
  "requests s = P @ x # r \<Longrightarrow> get_request s (length P) = Some x"
  by (simp add: get_request_def arr_get_def)

section \<open>The first loop of \<open>abortRequests\<close>\<close>

definition aborted :: "string option \<Rightarrow> (jqXHR \<times> bool) list \<Rightarrow> (jqXHR \<times> bool) list" where
  "aborted action bs = map (\<lambda>(x, d). (x, d \<and> \<not> abort_matches action x)) bs"

lemma aborted_simps [simp]:
  "aborted a [] = []" "aborted a (b # bs) = (fst b, snd b \<and> \<not> abort_matches a (fst b)) # aborted a bs"
  by (simp_all add: aborted_def split_beta)

lemma ids_aborted [simp]: "ids (aborted a bs) = ids bs"
  by (induction bs) simp_all

lemma finish_front:
  assumes "requests s = P @ x # x # r" and "inflight s = L @ xid x # M"
    and "x \<notin> set P" and "xid x \<notin> set L" and "xid x \<notin> set M"
  shows "finish_request x s = s\<lparr>requests := P @ x # r, inflight := L @ M\<rparr>"
  using assms by (simp add: finish_request_def complete_request_eq remove1_append)

lemma abort_loop:
  assumes "requests s = unblocks ps @ unblocks bs" and "inflight s = live ps @ live bs"
    and "distinct (ids ps @ ids bs)" and "length (unblocks bs) \<le> n"
  shows "each_mut get_request (abort_one a) (length (unblocks ps)) n s =
         s\<lparr>requests := unblocks ps @ unblocks (aborted a bs), inflight := live ps @ live (aborted a bs)\<rparr>"
  using assms
proof (induction bs arbitrary: ps n s)
  case Nil
  then show ?case by (subst each_mut_out) simp_all
next
  case (Cons b bs)
  obtain x d where b: "b = (x, d)" by (cases b)
  have fresh: "x \<notin> set (unblocks ps)" "xid x \<notin> set (live ps)" "xid x \<notin> set (live bs)"
    using Cons.prems(3) b in_unblocks_ids [of x ps] set_live [of ps] set_live [of bs] by auto
  have g: "get_request s (length (unblocks ps)) = Some x"
    using Cons.prems(1) b by (cases d) simp_all
  obtain m where n: "n = Suc m" using Cons.prems(4) b by (cases n) (auto split: if_splits)
  consider (single) "\<not> d" | (abort) "d" "abort_matches a x" | (keep) "d" "\<not> abort_matches a x" by blast
  then show ?case
  proof cases
    case single
    then have "abort_one a (length (unblocks ps)) (Some x) s = s"
      using Cons.prems(2) b fresh by (simp add: abort_one_def finish_request_def)
    then show ?thesis using single Cons.IH [of s "ps @ [(x, False)]" m] Cons.prems b g n by simp
  next
    case abort
    let ?s = "s\<lparr>requests := unblocks ps @ x # unblocks bs, inflight := live ps @ live bs\<rparr>"
    have "abort_one a (length (unblocks ps)) (Some x) s = ?s"
      using abort Cons.prems b fresh by (simp add: abort_one_def finish_front)
    then show ?thesis using abort Cons.IH [of ?s "ps @ [(x, False)]" m] Cons.prems b g n by simp
  next
    case keep
    then obtain k where m: "m = Suc k" using Cons.prems(4) b n by (cases m) auto
    have "abort_one a i (Some x) s = s" for i using keep by (simp add: abort_one_def)
    moreover have "get_request s (Suc (length (unblocks ps))) = Some x"
      using get_request_at [of s "unblocks ps @ [x]" x "unblocks bs"] keep Cons.prems(1) b by simp
    ultimately show ?thesis
      using keep Cons.IH [of s "ps @ [(x, True)]" k] Cons.prems b g n m by simp
  qed
qed

section \<open>The second loop\<close>

lemma drop_loop:
  assumes "requests s = P @ r" and "distinct (P @ r)" and "length r \<le> n"
  shows "each_mut get_request drop_one (length P) n s = s\<lparr>requests := P @ odds r\<rparr>"
  using assms
proof (induction r arbitrary: P n s rule: odds.induct [case_names 1 none single])
  case (1 x y r)
  obtain k where n: "n = Suc (Suc k)" using 1(4) by (cases n; cases "n - 1") auto
  let ?s1 = "s\<lparr>requests := P @ y # r\<rparr>"
  have "drop_one (length P) (Some x) s = ?s1"
    using 1(2,3) by (simp add: drop_one_def complete_request_eq remove1_append)
  moreover have "get_request s (length P) = Some x" using 1(2) by simp
  moreover have "each_mut get_request drop_one (length P) n s =
      each_mut get_request drop_one (Suc (length P)) (Suc k)
        (drop_one (length P) (get_request s (length P)) s)" using n by simp
  ultimately have "each_mut get_request drop_one (length P) n s =
      each_mut get_request drop_one (length (P @ [y])) (Suc k) ?s1" by simp
  also have "\<dots> = ?s1\<lparr>requests := (P @ [y]) @ odds r\<rparr>"
    using 1(3,4) n by (intro 1(1)) auto
  finally show ?case by simp
next
  case none
  then show ?case by (subst each_mut_out) simp_all
next
  case (single x)
  then obtain k where n: "n = Suc k" by (cases n) auto
  have "drop_one (length P) (Some x) s = s\<lparr>requests := P\<rparr>"
    using single by (simp add: drop_one_def complete_request_eq remove1_append)
  moreover have "get_request s (length P) = Some x" using single(1) by simp
  ultimately show ?case using n each_mut_out [of drop_one "s\<lparr>requests := P\<rparr>" "Suc (length P)" k]
    by simp
qed

section \<open>Requests of the API actions\<close>

text \<open>The states reached by sending API actions, by their completions in any order and by
  aborting everything, as navigation does.\<close>

definition req_init :: req_st where
  "req_init = \<lparr> requests = [], inflight = [] \<rparr>"

inductive req_reach :: "req_st \<Rightarrow> bool" where
  start: "req_reach req_init"
| send: "\<lbrakk> req_reach s; xid x \<notin> xid ` set (requests s);
           \<not> str_contains ''dictionaries'' (requestURL x) \<rbrakk> \<Longrightarrow> req_reach (performAction_request x s)"
| finish: "\<lbrakk> req_reach s; x \<in> set (requests s) \<rbrakk> \<Longrightarrow> req_reach (finish_request x s)"
| abort: "req_reach s \<Longrightarrow> req_reach (abortRequests None s)"

lemma performAction_request_eq:
  "\<not> str_contains ''dictionaries'' (requestURL x) \<Longrightarrow>
   performAction_request x s =
     s\<lparr>requests := requests s @ [x, x], inflight := inflight s @ [xid x]\<rparr>"
  by (simp add: performAction_request_def ajax_def beforeSend_def)

lemma xid_requests: "shape bs s \<Longrightarrow> xid ` set (requests s) = set (ids bs)"
  by (auto simp: shape_def ids_def)

lemma shape_inj:
  assumes "shape bs s" "(x, d) \<in> set bs" "(y, e) \<in> set bs" "xid x = xid y"
  shows "x = y \<and> d = e"
proof -
  have "inj_on (xid \<circ> fst) (set bs)" using assms(1) by (simp add: shape_def ids_def distinct_map)
  then have "(x, d) = (y, e)" by (rule inj_onD) (use assms(2-4) in simp_all)
  then show ?thesis by simp
qed

lemma shape_send:
  "shape bs s \<Longrightarrow> xid x \<notin> xid ` set (requests s) \<Longrightarrow>
   \<not> str_contains ''dictionaries'' (requestURL x) \<Longrightarrow>
   shape (bs @ [(x, True)]) (performAction_request x s)"
  using xid_requests [of bs s] by (simp add: shape_def performAction_request_eq)

lemma shape_finish_live:
  assumes "shape (as @ (x, True) # cs) s"
  shows "shape (as @ (x, False) # cs) (finish_request x s)"
proof -
  have fresh: "x \<notin> set (unblocks as)" "xid x \<notin> set (live as)" "xid x \<notin> set (live cs)"
    using assms in_unblocks_ids [of x as] set_live [of as] set_live [of cs]
    by (auto simp: shape_def)
  then have "finish_request x s =
      s\<lparr>requests := unblocks as @ x # unblocks cs, inflight := live as @ live cs\<rparr>"
    using assms by (intro finish_front) (auto simp: shape_def)
  then show ?thesis using assms by (simp add: shape_def)
qed

lemma shape_finish:
  assumes "shape bs s" and "x \<in> set (requests s)"
  shows "\<exists>bs'. shape bs' (finish_request x s)"
proof (cases "xid x \<in> set (inflight s)")
  case True
  obtain d where xd: "(x, d) \<in> set bs" using assms by (auto simp: shape_def)
  have "d"
  proof (rule ccontr)
    assume "\<not> d"
    obtain y where y: "(y, True) \<in> set bs" "xid y = xid x"
      using True assms(1) by (auto simp: shape_def live_def ids_def)
    with xd \<open>\<not> d\<close> show False using shape_inj [OF assms(1) y(1) xd] by simp
  qed
  then obtain as cs where "bs = as @ (x, True) # cs" using xd by (auto dest: split_list)
  then show ?thesis using assms(1) shape_finish_live by blast
qed (use assms in \<open>auto simp: finish_request_def\<close>)

lemma abort_first_loop:
  assumes "shape bs s"
  shows "each_mut get_request (abort_one a) 0 (length (requests s)) s =
         s\<lparr>requests := unblocks (aborted a bs), inflight := live (aborted a bs)\<rparr>"
  using abort_loop [of s "[]" bs "length (requests s)" a] assms by (simp add: shape_def)

lemma drop_keeps_inflight [simp]:
  "inflight (each_mut get_request drop_one i n s) = inflight s"
  by (rule each_mut_invariant [where P = "\<lambda>s'. inflight s' = inflight s"])
     (auto simp: drop_one_def complete_request_eq split: option.splits)

lemma abort_inflight: "shape bs s \<Longrightarrow> inflight (abortRequests a s) = live (aborted a bs)"
  by (simp add: abortRequests_def abort_first_loop)

lemma live_set: "set (live bs) = {xid x |x. (x, True) \<in> set bs}"
  by (induction bs) auto

lemma aborted_True: "(x, True) \<in> set (aborted a bs) \<longleftrightarrow> (x, True) \<in> set bs \<and> \<not> abort_matches a x"
  by (induction bs) auto

lemma aborted_None: "aborted None bs = map (\<lambda>b. (fst b, False)) bs"
  by (induction bs) (simp_all add: abort_matches_def)

lemma live_singles [simp]: "live (map (\<lambda>x. (f x, False)) xs) = []"
  by (induction xs) simp_all

lemma unblocks_map_single [simp]: "unblocks (map (\<lambda>x. (f x, False)) xs) = map f xs"
  by (induction xs) simp_all

lemma shape_abort_all: "shape bs s \<Longrightarrow> \<exists>bs'. shape bs' (abortRequests None s)"
proof -
  assume sh: "shape bs s"
  let ?s1 = "s\<lparr>requests := map fst bs, inflight := []\<rparr>"
  have "distinct (map xid (map fst bs))" using sh by (simp add: shape_def ids_def)
  then have d: "distinct (map fst bs)" by (rule distinct_mapI_of)
  have "abortRequests None s = ?s1\<lparr>requests := odds (map fst bs)\<rparr>"
    using drop_loop [of ?s1 "[]" "map fst bs" "length (map fst bs)"] d sh
    by (simp add: abortRequests_def abort_first_loop aborted_None)
  moreover have "distinct (map xid (odds (map fst bs)))"
    using sh by (simp add: map_odds distinct_odds shape_def ids_def)
  ultimately have "shape (map (\<lambda>x. (x, False)) (odds (map fst bs))) (abortRequests None s)"
    by (simp add: shape_def ids_def comp_def)
  then show ?thesis by blast
qed

lemma reach_shape: "req_reach s \<Longrightarrow> \<exists>bs. shape bs s"
proof (induction rule: req_reach.induct)
  case start
  then show ?case by (auto simp: shape_def req_init_def intro: exI [of _ "[]"])
qed (use shape_send shape_finish shape_abort_all in blast)+

section \<open>Properties\<close>


definition sample_request :: "nat \<Rightarrow> string \<Rightarrow> jqXHR" where
  "sample_request n a = \<lparr> xid = n, requestURL = ''/api/?sid=1&action='' @ a \<rparr>"


text \<open>A request sent through \<open>performAction\<close> leaves the queue one entry longer: it is stored
  twice and its completion removes one of the two.\<close>

theorem performAction_leaves_entry:
  assumes "xid x \<notin> set (inflight s)" and "x \<notin> set (requests s)"
    and "\<not> str_contains ''dictionaries'' (requestURL x)"
  shows "requests (finish_request x (performAction_request x s)) = requests s @ [x]"
  using assms
  by (simp add: performAction_request_eq finish_request_def complete_request_eq remove1_append)

theorem performAction_leaves_entry_witness:
  "requests (finish_request (sample_request 1 ''di_get_list'')
     (performAction_request (sample_request 1 ''di_get_list'') req_init)) =
   [sample_request 1 ''di_get_list'']"
  using performAction_leaves_entry [of "sample_request 1 ''di_get_list''" req_init]
  by (simp add: req_init_def sample_request_def)


lemma finish_single:
  assumes "requests s = P @ x # r" and "inflight s = L @ xid x # M"
    and "x \<notin> set P" and "xid x \<notin> set L" and "xid x \<notin> set M"
  shows "finish_request x s = s\<lparr>requests := P @ r, inflight := L @ M\<rparr>"
  using assms by (simp add: finish_request_def complete_request_eq remove1_append)

lemma abort_single_loop:
  assumes "requests s = P @ r" and "inflight s = map xid P @ map xid r"
    and "distinct (map xid (P @ r))" and "length r \<le> n"
  shows "each_mut get_request (abort_one None) (length P) n s =
         s\<lparr>requests := P @ odds r, inflight := map xid P @ map xid (odds r)\<rparr>"
  using assms
proof (induction r arbitrary: P n s rule: odds.induct [case_names 1 none single])
  case (1 x y r)
  obtain k where n: "n = Suc (Suc k)" using 1(5) by (cases n; cases "n - 1") auto
  let ?s1 = "s\<lparr>requests := P @ y # r, inflight := map xid P @ map xid (y # r)\<rparr>"
  have "abort_one None (length P) (Some x) s = ?s1"
    using 1(2-4) by (auto simp: abort_one_def abort_matches_def intro: finish_single)
  moreover have "get_request s (length P) = Some x" using 1(2) by simp
  moreover have "each_mut get_request (abort_one None) (length P) n s =
      each_mut get_request (abort_one None) (Suc (length P)) (Suc k)
        (abort_one None (length P) (get_request s (length P)) s)" using n by simp
  ultimately have "each_mut get_request (abort_one None) (length P) n s =
      each_mut get_request (abort_one None) (length (P @ [y])) (Suc k) ?s1" by simp
  also have "\<dots> = ?s1\<lparr>requests := (P @ [y]) @ odds r,
      inflight := map xid (P @ [y]) @ map xid (odds r)\<rparr>"
    using 1(4,5) n by (intro 1(1)) auto
  finally show ?case by simp
next
  case none
  then show ?case by (subst each_mut_out) simp_all
next
  case (single x)
  then obtain k where n: "n = Suc k" by (cases n) auto
  have "abort_one None (length P) (Some x) s = s\<lparr>requests := P, inflight := map xid P\<rparr>"
    using single finish_single [of s P x "[]" "map xid P" "[]"]
    by (auto simp: abort_one_def abort_matches_def)
  moreover have "get_request s (length P) = Some x" using single(1) by simp
  ultimately show ?case
    using n each_mut_out [of "abort_one None" "s\<lparr>requests := P, inflight := map xid P\<rparr>" "Suc (length P)" k]
    by simp
qed

text \<open>Requests that are stored only once, as those of the Backbone collections and models are,
  are aborted by halves: the loop skips the request after each one it aborts, because the
  abort removes it from the array the loop runs over. Those at odd positions stay in flight,
  and half of them are dropped from the queue all the same.\<close>

theorem abortRequests_by_halves:
  assumes "inflight s = map xid (requests s)" and "distinct (map xid (requests s))"
  shows "inflight (abortRequests None s) = map xid (odds (requests s)) \<and>
         requests (abortRequests None s) = odds (odds (requests s))"
proof -
  let ?s1 = "s\<lparr>requests := odds (requests s), inflight := map xid (odds (requests s))\<rparr>"
  have "each_mut get_request (abort_one None) 0 (length (requests s)) s = ?s1"
    using abort_single_loop [of s "[]" "requests s" "length (requests s)"] assms by simp
  moreover have "distinct (odds (requests s))"
    using assms(2) by (simp add: distinct_odds distinct_mapI_of)
  then have "each_mut get_request drop_one 0 (length (odds (requests s))) ?s1 =
      ?s1\<lparr>requests := odds (odds (requests s))\<rparr>"
    using drop_loop [of ?s1 "[]" "odds (requests s)" "length (odds (requests s))"] by simp
  ultimately show ?thesis by (simp add: abortRequests_def)
qed

theorem abortRequests_by_halves_witness:
  "inflight (abortRequests None
      (ajax (sample_request 3 ''vm_get_list'') (ajax (sample_request 2 ''di_get_list'')
        (ajax (sample_request 1 ''osf_get_list'') req_init)))) = [2]"
proof -
  let ?s = "ajax (sample_request 3 ''vm_get_list'') (ajax (sample_request 2 ''di_get_list'')
        (ajax (sample_request 1 ''osf_get_list'') req_init))"
  have "requests ?s = [sample_request 1 ''osf_get_list'', sample_request 2 ''di_get_list'',
                       sample_request 3 ''vm_get_list'']" and "inflight ?s = [1, 2, 3]"
    by (simp_all add: ajax_def beforeSend_def sample_request_def req_init_def)
  then show ?thesis using abortRequests_by_halves [of ?s] by (simp add: sample_request_def)
qed

end
