(* ===== verification/Router.thy ===== *)
theory Router
  imports Menu ViewsConf Requests
begin

text \<open>
  The router (\<open>wat/lib/bb-router/router.js\<close>): the table of routes, the handler of each route,
  and the state of a browser page on which the session (\<open>Wat.L\<close>, theory \<open>Login\<close>) and the
  navigation act.

  Backbone matches the fragment of the address against the routes in the order of the table;
  \<open>:x\<close> stands for a segment that is not empty. \<open>dec\<close> is \<open>Wat.U.base64.decodeObj\<close>, the decoder
  of the filters in an address.
\<close>

section \<open>Routes\<close>

datatype seg = Lit string | Par

definition routes :: "(seg list \<times> string) list" where
  "routes =
     [([Lit ''logout''], ''logout''),
      ([Lit ''dis''], ''listDI''), ([Lit ''dis'', Par], ''listDI''), ([Lit ''di'', Par], ''detailsDI''),
      ([Lit ''osfs''], ''listOSF''), ([Lit ''osfs'', Par], ''listOSF''), ([Lit ''osf'', Par], ''detailsOSF''),
      ([Lit ''hosts''], ''listHost''), ([Lit ''hosts'', Par], ''listHost''), ([Lit ''host'', Par], ''detailsHost''),
      ([Lit ''vms''], ''listVM''), ([Lit ''vms'', Par], ''listVM''), ([Lit ''vm'', Par], ''detailsVM''),
      ([Lit ''vm'', Par, Lit ''spy''], ''spyVM''),
      ([Lit ''users''], ''listUser''), ([Lit ''users'', Par], ''listUser''), ([Lit ''user'', Par], ''detailsUser''),
      ([Lit ''views''], ''viewCustomize''), ([Lit ''myviews''], ''myviews''),
      ([Lit ''tenants''], ''listTenant''), ([Lit ''tenants'', Par], ''listTenant''),
      ([Lit ''tenant'', Par], ''detailsTenant''),
      ([Lit ''properties''], ''property''),
      ([Lit ''administrators''], ''listAdmin''), ([Lit ''administrators'', Par], ''listAdmin''),
      ([Lit ''administrator'', Par], ''detailsAdmin''),
      ([Lit ''roles''], ''listRole''), ([Lit ''roles'', Par], ''listRole''), ([Lit ''role'', Par], ''detailsRole''),
      ([Lit ''config''], ''setupConfig''), ([Lit ''config'', Par], ''setupConfig''),
      ([Lit ''watconfig''], ''watConfig''), ([Lit ''about''], ''about''),
      ([Lit ''documentation''], ''documentation''),
      ([Lit ''documentation'', Lit ''search'', Par], ''documentationSearch''),
      ([Lit ''documentation'', Par], ''documentationGuide''),
      ([Lit ''documentation'', Par, Par], ''documentationGuide''),
      ([Lit ''profile''], ''profile''),
      ([Lit ''logs''], ''listLog''), ([Lit ''logs'', Par], ''listLog''), ([Lit ''log'', Par], ''detailsLog'')]"

fun split_slash :: "string \<Rightarrow> string list" where
  "split_slash [] = [[]]"
| "split_slash (c # s) =
     (if c = CHR ''/'' then [] # split_slash s
      else (case split_slash s of [] \<Rightarrow> [[c]] | w # ws \<Rightarrow> (c # w) # ws))"

fun match_route :: "seg list \<Rightarrow> string list \<Rightarrow> string list option" where
  "match_route [] [] = Some []"
| "match_route (Lit l # p) (w # ws) = (if l = w then match_route p ws else None)"
| "match_route (Par # p) (w # ws) = (if w = '''' then None else map_option ((#) w) (match_route p ws))"
| "match_route _ _ = None"

text \<open>The fragment after \<open>#\<close>, without one leading slash.\<close>

definition fragment_of :: "string \<Rightarrow> string" where
  "fragment_of h =
     (let f = (case h of c # cs \<Rightarrow> if c = CHR ''#'' then cs else h | [] \<Rightarrow> [])
      in case f of c # cs \<Rightarrow> if c = CHR ''/'' then cs else f | [] \<Rightarrow> [])"

fun find_route :: "(seg list \<times> string) list \<Rightarrow> string list \<Rightarrow> string \<times> string list" where
  "find_route [] ws = (''defaultRoute'', [])"
| "find_route ((p, n) # rs) ws =
     (case match_route p ws of Some args \<Rightarrow> (n, args) | None \<Rightarrow> find_route rs ws)"

datatype route_action =
    RouteTo string string js
  | RouteLogout

definition list_params :: "(string \<Rightarrow> js) \<Rightarrow> string list \<Rightarrow> js" where
  "list_params dec args = (case args of [] \<Rightarrow> JObj [] | h # _ \<Rightarrow> dec h)"

definition id_params :: "string list \<Rightarrow> js" where
  "id_params args = JObj [(''id'', case args of [] \<Rightarrow> Null | i # _ \<Rightarrow> JStr i)]"

text \<open>The handlers that \<open>initialize\<close> registers.\<close>

definition handlers_list :: "(string \<times> string \<times> string) list" where
  "handlers_list =
     [(''listVM'', ''vms'', ''VMListView''), (''listUser'', ''users'', ''UserListView''),
      (''listHost'', ''hosts'', ''HostListView''), (''listOSF'', ''osfs'', ''OSFListView''),
      (''listDI'', ''dis'', ''DIListView''), (''listTenant'', ''tenants'', ''TenantListView''),
      (''property'', ''properties'', ''PropertyView''), (''listAdmin'', ''administrators'', ''AdminListView''),
      (''listRole'', ''roles'', ''RoleListView''), (''listLog'', ''logs'', ''LogListView'')]"

definition handlers_details :: "(string \<times> string \<times> string) list" where
  "handlers_details =
     [(''detailsUser'', ''users'', ''UserDetailsView''), (''detailsVM'', ''vms'', ''VMDetailsView''),
      (''spyVM'', ''vms'', ''VMSpyView''), (''detailsHost'', ''hosts'', ''HostDetailsView''),
      (''detailsOSF'', ''osfs'', ''OSFDetailsView''), (''detailsDI'', ''dis'', ''DIDetailsView''),
      (''detailsTenant'', ''tenants'', ''TenantDetailsView''),
      (''detailsAdmin'', ''administrators'', ''AdminDetailsView''),
      (''detailsRole'', ''roles'', ''RoleDetailsView''), (''detailsLog'', ''logs'', ''LogDetailsView'')]"

definition handlers_plain :: "(string \<times> string \<times> string) list" where
  "handlers_plain =
     [(''viewCustomize'', ''views'', ''SetupCustomizeView''), (''watConfig'', ''watconfig'', ''ConfigWatView''),
      (''about'', ''about'', ''AboutView''), (''documentation'', ''documentation'', ''DocView''),
      (''profile'', ''profile'', ''ProfileView''), (''myviews'', ''profile'', ''MyViewsView''),
      (''defaultRoute'', '''', ''HomeView'')]"

definition route_handler :: "(string \<Rightarrow> js) \<Rightarrow> string \<Rightarrow> string list \<Rightarrow> route_action option" where
  "route_handler dec name args =
     (if name = ''logout'' then Some RouteLogout
      else if name = ''setupConfig'' then
        Some (RouteTo ''config'' ''ConfigQvdView''
          (JObj (case args of [] \<Rightarrow> [] | t # _ \<Rightarrow> [(''currentTokensPrefix'', JStr t)])))
      else if name = ''documentationGuide'' then
        Some (RouteTo ''documentation'' ''DocView''
          (JObj (case args of
                   [g] \<Rightarrow> [(''guide'', JStr g), (''section'', Null)]
                 | g # s # _ \<Rightarrow> [(''guide'', JStr g), (''section'', JStr s)]
                 | [] \<Rightarrow> [])))
      else if name = ''documentationSearch'' then
        Some (RouteTo ''documentation'' ''DocView''
          (JObj (case args of t # _ \<Rightarrow> [(''searchKey'', JStr t)] | [] \<Rightarrow> [])))
      else
        (case map_of handlers_list name of
           Some (m, v) \<Rightarrow> Some (RouteTo m v (list_params dec args))
         | None \<Rightarrow>
             (case map_of handlers_details name of
                Some (m, v) \<Rightarrow> Some (RouteTo m v (id_params args))
              | None \<Rightarrow>
                  (case map_of handlers_plain name of
                     Some (m, v) \<Rightarrow> Some (RouteTo m v (JObj []))
                   | None \<Rightarrow> None))))"

definition route_of :: "(string \<Rightarrow> js) \<Rightarrow> string \<Rightarrow> route_action option" where
  "route_of dec h =
     (let (name, args) = find_route routes (split_slash (fragment_of h))
      in route_handler dec name args)"

section \<open>The page\<close>

text \<open>\<open>cookie_sid\<close> is the cookie \<open>sid\<close>; \<open>cur_view\<close> the class of \<open>Wat.CurrentView\<close> (empty before the
  first view); \<open>has_router\<close> tells that \<open>Wat.Router.watRouter\<close> is defined.\<close>

record page =
  sC :: wat_c
  sI :: wat_i
  sM :: wat_menus
  sQ :: req_st
  cookie_sid :: "string option"
  customizer_cookie :: bool
  location_hash :: string
  cur_class :: string
  menu_opt_sel :: string
  has_router :: bool
  serverDatetime :: js
  hypervisor :: js
  publicConfig :: js
  serverClientTimeLag :: int

text \<open>\<open>Wat.L.logOut\<close> and \<open>Wat.L.isLogged\<close>, on which the navigation relies.\<close>

definition logOut :: "page \<Rightarrow> page \<times> effect list" where
  "logOut w =
     (w\<lparr>cookie_sid := (if C_crossOrigin (sC w) then None else cookie_sid w),
        sC := (sC w)\<lparr>C_loggedIn := False, C_sid := '''', C_login := '''', C_acls := []\<rparr>\<rparr>,
      (if C_crossOrigin (sC w) then [RemoveCookie ''sid''] else []) @
      [Call ''hideCustomizer'' [], Call ''stopServerClock'' []])"

definition logged :: "page \<Rightarrow> bool" where
  "logged w \<longleftrightarrow>
     C_loggedIn (sC w) \<and> C_sid (sC w) \<noteq> '''' \<and> C_login (sC w) \<noteq> '''' \<and>
     \<not> (C_crossOrigin (sC w) \<and>
        (case cookie_sid w of None \<Rightarrow> True | Some c \<Rightarrow> c = '''' \<or> c \<noteq> C_sid (sC w)))"

definition isLogged :: "page \<Rightarrow> bool \<times> page \<times> effect list" where
  "isLogged w = (if logged w then (True, w, []) else (False, logOut w))"

text \<open>Instantiating a view: \<open>LoginView\<close> also resets the language.\<close>

definition new_view :: "string \<Rightarrow> js \<Rightarrow> page \<Rightarrow> page \<times> effect list" where
  "new_view v params w =
     (if v = ''LoginView''
      then w\<lparr>cur_class := v, sC := (sC w)\<lparr>C_language := Some ''auto''\<rparr>\<rparr>
      else w\<lparr>cur_class := v\<rparr>,
      [Call ''new'' [JStr v, params]])"

text \<open>\<open>performRoute\<close>; a \<open>view\<close> that is not given is \<open>None\<close>, and to instantiate it is a TypeError.\<close>

definition performRoute ::
  "string \<Rightarrow> string option \<Rightarrow> js \<Rightarrow> page \<Rightarrow> js_error + page \<times> effect list" where
  "performRoute menuOpt view params w0 =
     (let (ok, w1, e1) = isLogged w0;
          v = (if ok then view else Some ''LoginView'');
          e2 = [Dom DomHide ''.js-filter-notes'' Null] @ e1 @ (if ok then [] else [Call ''renderMain'' []]) @
               [Call ''showLoading'' [], Call ''setMenuOpt'' [JStr menuOpt]] @
               (if cur_class w1 = '''' then []
                else [Call ''undelegateEvents'' [], Call ''closeAllWebsockets'' [], Call ''clearIntervals'' []]);
          w2 = w1\<lparr>menu_opt_sel := menuOpt,
                  sQ := (if C_abortOldRequests (sC w1) then abortRequests None (sQ w1) else sQ w1)\<rparr>
      in case v of
           None \<Rightarrow> Inl TypeError
         | Some c \<Rightarrow> (let (w3, e3) = new_view c params w2 in Inr (w3, e2 @ e3)))"

text \<open>\<open>apiLogOut\<close> is a request; the answer runs \<open>after_apiLogOut\<close>, or shows a message and then
  names a variable \<open>err\<close> that does not exist.\<close>

definition apiLogOut :: "page \<Rightarrow> effect list" where
  "apiLogOut w =
     [Call ''ajax'' [JStr (encodeURI (getApiUrl (sC w) @ ''logout'' @
        (if C_crossOrigin (sC w) then ''?sid='' @ C_sid (sC w) else '''')))]]"

definition after_apiLogOut :: "bool \<Rightarrow> page \<Rightarrow> js_error + page \<times> effect list" where
  "after_apiLogOut success w =
     (if success then
        (let (w1, e1) = logOut w;
             w2 = w1\<lparr>sM := configureVisibility (sC w1) (sM w1)\<rparr>
         in case performRoute ''undefined'' None (JObj []) w2 of
              Inl e \<Rightarrow> Inl e
            | Inr (w3, e3) \<Rightarrow> Inr (w3, e1 @ [Call ''renderMain'' []] @ e3))
      else Inl ReferenceError)"

definition dispatch :: "(string \<Rightarrow> js) \<Rightarrow> page \<Rightarrow> js_error + page \<times> effect list" where
  "dispatch dec w =
     (case route_of dec (location_hash w) of
        None \<Rightarrow> Inr (w, [])
      | Some RouteLogout \<Rightarrow> Inr (w, apiLogOut w)
      | Some (RouteTo m v p) \<Rightarrow> performRoute m (Some v) p w)"

section \<open>Properties\<close>

text \<open>Every link of the menus is a route of its own menu option: following it opens a
  view with that option selected (the log out option is the logout route), never the default
  route.\<close>

theorem menu_links_routed:
  "list_all (\<lambda>(k, opt). case route_of (\<lambda>s. JObj []) (case mo_link opt of Some l \<Rightarrow> l | None \<Rightarrow> '''') of
                          Some (RouteTo m v p) \<Rightarrow> m = k | Some RouteLogout \<Rightarrow> k = ''logout'' | None \<Rightarrow> False)
     (menuUserOriginal @ menuConfigOriginal @ menuHelpOriginal @ menuSetupOriginal @ menuOriginal)"
  by code_simp

end
