(* ===== verification/Login.thy ===== *)
theory Login
  imports Router
begin

text \<open>
  The session of an administrator, \<open>Wat.L\<close> (\<open>wat/lib/session/login.js\<close>): remembering a session,
  the login form, the answers of the API (\<open>getApiInfo\<close>, \<open>checkLogin\<close>), what follows a login,
  and the detection of an expired session (\<open>sessionExpired\<close> of \<open>config.js\<close>). The page with
  its session and its navigation is a state machine (\<open>page_reach\<close>); its invariant ties the ACLs in
  force to a session that is logged in.
\<close>

section \<open>Operations\<close>

definition STATUS_CREDENTIALS_FAIL :: int where "STATUS_CREDENTIALS_FAIL = 3100"
definition STATUS_NOT_LOGIN :: int where "STATUS_NOT_LOGIN = 3200"
definition STATUS_SESSION_EXPIRED :: int where "STATUS_SESSION_EXPIRED = 3300"
definition STATUS_TENANT_RESTRICTED :: int where "STATUS_TENANT_RESTRICTED = 3500"
definition ERROR_INTERNAL :: int where "ERROR_INTERNAL = 500"

definition logIn :: "string \<Rightarrow> page \<Rightarrow> page \<times> effect list" where
  "logIn sid w =
     (let C1 = (sC w)\<lparr>C_loggedIn := True\<rparr>;
          w1 = w\<lparr>sC := C1, cookie_sid := (if C_crossOrigin C1 then Some sid else cookie_sid w)\<rparr>;
          e1 = (if C_crossOrigin C1 then [SetCookie ''sid'' (JStr sid)] else [])
      in if location_hash w = ''#/login'' \<or> location_hash w = ''#/logout''
         then (w1\<lparr>location_hash := ''#''\<rparr>, e1 @ [Navigate ''#''])
         else (w1, e1 @ [Reload]))"

text \<open>What \<open>afterLogin\<close> does: instantiating the router dispatches the current address.\<close>

definition afterLogin_effects :: "page \<Rightarrow> effect list" where
  "afterLogin_effects w =
     [Call ''initTranslate'' [], Call ''renderMain'' [], Call ''hideCustomizer'' []] @
     (if (isSuperadmin (sC w) \<or> isMultitenant (sC w) = Some 0) \<and> customizer_cookie w
      then [Call ''initCustomizer'' []] else []) @
     (if C_showServerClock (sC w) then [Call ''startServerClock'' []] else []) @
     [Call ''bindCommonEvents'' []]"

definition afterLogin :: "(string \<Rightarrow> js) \<Rightarrow> page \<Rightarrow> js_error + page \<times> effect list" where
  "afterLogin dec w =
     (let e1 = afterLogin_effects w;
          (ok, w1, e2) = isLogged w;
          e3 = (if ok then [Call ''setCustomizationFields'' []] else [])
      in if has_router w1 then Inr (w1, e1 @ e2 @ e3)
         else
           (case dispatch dec (w1\<lparr>has_router := True\<rparr>) of
              Inl e \<Rightarrow> Inl e
            | Inr (w2, e4) \<Rightarrow>
                Inr (w2\<lparr>sC := (sC w2)\<lparr>C_routerHistoryStarted := True\<rparr>\<rparr>, e1 @ e2 @ e3 @ e4)))"

definition apiInfo :: "string \<Rightarrow> page \<Rightarrow> effect" where
  "apiInfo callback w = Call ''apiInfo'' [JStr (encodeURI (getApiUrl (sC w) @ ''info'')), JStr callback]"

definition rememberLogin :: "(string \<Rightarrow> js) \<Rightarrow> page \<Rightarrow> js_error + page \<times> effect list" where
  "rememberLogin dec w =
     (let C = sC w;
          C1 = (if C_crossOrigin C then
                  (case cookie_sid w of
                     Some c \<Rightarrow> if c \<noteq> '''' then C\<lparr>C_loggedIn := True, C_sid := c\<rparr>
                               else C\<lparr>C_loggedIn := False, C_sid := '''', C_login := ''''\<rparr>
                   | None \<Rightarrow> C\<lparr>C_loggedIn := False, C_sid := '''', C_login := ''''\<rparr>)
                else C\<lparr>C_loggedIn := True\<rparr>);
          w1 = w\<lparr>sC := C1\<rparr>
      in if C_sid C1 \<noteq> '''' \<or> \<not> C_crossOrigin C1 then Inr (w1, [apiInfo ''getApiInfo'' w1])
         else afterLogin dec w1)"

text \<open>The user name of a multitenant installation: the first separator that occurs in it splits it
  into the name and the tenant. A separator is a plain string, without the special
  characters of regular expressions.\<close>

fun split_first :: "string \<Rightarrow> string \<Rightarrow> (string \<times> string) option" where
  "split_first p [] = (if p = [] then Some ([], []) else None)"
| "split_first p (c # s) =
     (if take (length p) (c # s) = p then Some ([], drop (length p) (c # s))
      else map_option (\<lambda>(a, b). (c # a, b)) (split_first p s))"

fun split_user :: "string list \<Rightarrow> string \<Rightarrow> string option \<Rightarrow> string \<times> string option \<times> bool" where
  "split_user [] user tenant = (user, tenant, False)"
| "split_user (p # ps) user tenant =
     (if user = '''' then split_user ps user tenant
      else
        (case split_first p user of
           None \<Rightarrow> split_user ps user tenant
         | Some (a, b) \<Rightarrow> (a, Some (case split_first p b of None \<Rightarrow> b | Some (b1, _) \<Rightarrow> b1), True)))"

definition tryLogin ::
  "string \<Rightarrow> string \<Rightarrow> string \<Rightarrow> string \<Rightarrow> string option \<Rightarrow> page \<Rightarrow> js_error + page \<times> effect list" where
  "tryLogin formUser formPassword user0 password0 tenant0 w =
     (let C = sC w;
          user = (if formUser \<noteq> '''' then formUser else user0);
          password = (if formPassword \<noteq> '''' then formPassword else password0);
          cont = (\<lambda>C1 u ten.
            if u = '''' then (w\<lparr>sC := C1\<rparr>, [ShowMessage (JStr ''Empty user'') MsgError])
            else (let w1 = w\<lparr>sC := C1\<lparr>C_login := u, C_password := password, C_tenant := ten\<rparr>\<rparr>
                  in (w1, [apiInfo ''getApiInfo'' w1])))
      in if multi C then
           (case C_authSeparators C of
              None \<Rightarrow> Inl TypeError
            | Some seps \<Rightarrow>
                (let (u, ten, found) = split_user seps user tenant0
                 in Inr (cont (if found then C\<lparr>C_userTenant := Some user\<rparr> else C) u ten)))
         else Inr (cont C user tenant0))"

text \<open>The answer of the API with its public information; \<open>ai_separators\<close> is \<open>auth.separators\<close>, and
  an answer without \<open>auth\<close> raises a TypeError.\<close>

record api_info =
  ai_status :: int
  ai_readyState :: int
  ai_datetime :: js
  ai_multitenant :: js
  ai_hypervisor :: js
  ai_public :: js
  ai_separators :: "string list option"

definition getApiInfo :: "api_info \<Rightarrow> page \<Rightarrow> js_error + page \<times> effect list" where
  "getApiInfo r w =
     (case ai_separators r of
        None \<Rightarrow> Inl TypeError
      | Some seps \<Rightarrow>
          Inr (w\<lparr>serverDatetime := ai_datetime r, hypervisor := ai_hypervisor r,
                 publicConfig := (if truthy (ai_public r) then ai_public r else JObj []),
                 sC := (sC w)\<lparr>C_multitenant := parseInt (ai_multitenant r),
                              C_authSeparators := Some seps\<rparr>\<rparr>,
               [Api ''current_admin_setup'' (JObj []) (JObj []) ''checkLogin'']))"

text \<open>The answer with the setup of the administrator.\<close>

record admin_setup =
  as_status :: int
  as_statusText :: string
  as_message :: string
  as_sid :: string
  as_acls :: "string list"
  as_admin_name :: string
  as_admin_language :: string
  as_tenant_language :: string
  as_admin_block :: int
  as_tenant_block :: int
  as_views :: "view_row list"
  as_tenant_id :: int
  as_tenant_name :: string
  as_admin_id :: int

text \<open>What \<open>performAction\<close> does with any answer before its callback: the session identifier of the
  answer is stored.\<close>

definition store_sid :: "string \<Rightarrow> page \<Rightarrow> page" where
  "store_sid sid w = (if sid \<noteq> '''' then w\<lparr>sC := (sC w)\<lparr>C_sid := sid\<rparr>\<rparr> else w)"

definition login_refused :: "int \<Rightarrow> bool" where
  "login_refused st \<longleftrightarrow>
     st = STATUS_SESSION_EXPIRED \<or> st = STATUS_CREDENTIALS_FAIL \<or> st = STATUS_NOT_LOGIN \<or>
     st = STATUS_TENANT_RESTRICTED"

definition store_setup :: "int \<Rightarrow> admin_setup \<Rightarrow> page \<Rightarrow> js_error + page" where
  "store_setup lag r w =
     (let C1 = (sC w)\<lparr>C_acls := as_acls r, C_login := as_admin_name r,
                      C_language := Some (as_admin_language r),
                      C_tenantLanguage := Some (as_tenant_language r),
                      C_block := as_admin_block r, C_tenantBlock := as_tenant_block r\<rparr>
      in case storeViewsConfiguration (as_views r) (restoreFormFilters (restoreListColumns (sI w))) of
           Inl e \<Rightarrow> Inl e
         | Inr I' \<Rightarrow>
             (let C2 = C1\<lparr>C_tenantID := as_tenant_id r, C_tenantName := Some (as_tenant_name r),
                          C_adminID := as_admin_id r\<rparr>
              in Inr (w\<lparr>sI := I', sC := C2, serverClientTimeLag := lag,
                        sM := configureVisibility C2 (sM w)\<rparr>)))"

definition accept_login ::
  "(string \<Rightarrow> js) \<Rightarrow> int \<Rightarrow> admin_setup \<Rightarrow> page \<Rightarrow> js_error + page \<times> effect list" where
  "accept_login dec lag r w =
     (case store_setup lag r w of
        Inl e \<Rightarrow> Inl e
      | Inr w1 \<Rightarrow>
          (if cur_class w1 = ''LoginView'' then
             (let (w2, e2) = logIn (C_sid (sC w1)) w1
              in case performRoute '''' (Some ''HomeView'') (JObj []) w2 of
                   Inl e \<Rightarrow> Inl e
                 | Inr (w3, e3) \<Rightarrow>
                     (case afterLogin dec w3 of
                        Inl e \<Rightarrow> Inl e
                      | Inr (w4, e4) \<Rightarrow> Inr (w4, e2 @ [Call ''renderMain'' []] @ e3 @ e4)))
           else afterLogin dec w1))"

definition checkLogin ::
  "(string \<Rightarrow> js) \<Rightarrow> int \<Rightarrow> admin_setup \<Rightarrow> page \<Rightarrow> js_error + page \<times> effect list" where
  "checkLogin dec lag r w0 =
     (let w = w0\<lparr>sC := (sC w0)\<lparr>C_password := ''''\<rparr>\<rparr>;
          msg = [ShowMessage (JStr (as_message r)) MsgError]
      in if as_status r = STATUS_SUCCESS \<and> as_statusText r = ''error'' then
           (if C_sid (sC w) \<noteq> '''' then (let (w1, e1) = logOut w in Inr (w1, e1 @ [Reload]))
            else Inr (w, []))
         else if as_status r = ERROR_INTERNAL then
           Inr (w, [ShowMessage (JStr (as_statusText r)) MsgError])
         else if C_login (sC w) = '''' \<and> as_status r = STATUS_NOT_LOGIN then
           (case afterLogin dec (w\<lparr>sM := configureVisibility (sC w) (sM w)\<rparr>) of
              Inl e \<Rightarrow> Inl e | Inr (w1, e1) \<Rightarrow> Inr (w1, msg @ e1))
         else if login_refused (as_status r) then
           (if C_sid (sC w) \<noteq> ''''
            then (let (w1, e1) = logOut w
                  in Inr (w1, e1 @ [SetCookie ''messageToShow'' (JStr (as_message r)), Reload]))
            else Inr (w, msg))
         else if as_acls r = [] then
           (let (w1, e1) = logOut w
            in Inr (w1, e1 @ [ShowMessage (JStr ''Wrong credentials'') MsgError]))
         else accept_login dec lag r w)"

text \<open>The render of the login form stores what the API says of itself.\<close>

definition loginView_render :: "api_info \<Rightarrow> page \<Rightarrow> js_error + page" where
  "loginView_render r w =
     (if ai_status r = STATUS_SUCCESS then
        (case ai_separators r of
           None \<Rightarrow> Inl TypeError
         | Some seps \<Rightarrow>
             Inr (w\<lparr>hypervisor := ai_hypervisor r,
                    publicConfig := (if truthy (ai_public r) then ai_public r else JObj []),
                    sC := (sC w)\<lparr>C_multitenant := js_num (ai_multitenant r),
                                 C_authSeparators := Some seps\<rparr>\<rparr>))
      else Inr (w\<lparr>publicConfig := (if truthy (ai_public r) then ai_public r else JObj [])\<rparr>))"

text \<open>An answer to any other request may tell that the session ended.\<close>

definition sessionExpired :: "int \<Rightarrow> page \<Rightarrow> bool \<times> page \<times> effect list" where
  "sessionExpired status w =
     (if \<not> has_router w then (False, w, [])
      else if status = STATUS_TENANT_RESTRICTED \<and> C_sid (sC w) = '''' then (False, w, [])
      else if login_refused status then
        (True, w\<lparr>location_hash := ''#/logout''\<rparr>,
         [Dom DomRemove ''.js-dialog-container'' Null, Dom (DomAttr ''style'') ''html, body'' (JStr ''''),
          SetCookie ''messageToShow'' (JNum status), Navigate ''#/logout''])
      else (False, w, []))"

section \<open>Lemmas\<close>

lemma logOut_facts [simp]:
  "C_acls (sC (fst (logOut w))) = []" "C_sid (sC (fst (logOut w))) = ''''"
  "C_login (sC (fst (logOut w))) = ''''" "C_loggedIn (sC (fst (logOut w))) = False"
  "cur_class (fst (logOut w)) = cur_class w" "has_router (fst (logOut w)) = has_router w"
  "C_crossOrigin (sC (fst (logOut w))) = C_crossOrigin (sC w)"
  "C_password (sC (fst (logOut w))) = C_password (sC w)"
  "location_hash (fst (logOut w)) = location_hash w"
  by (simp_all add: logOut_def)

lemma logOut_cookie: "C_crossOrigin (sC w) \<Longrightarrow> cookie_sid (fst (logOut w)) = None"
  by (simp add: logOut_def)

lemma logged_not_logOut [simp]: "\<not> logged (fst (logOut w))"
  by (simp add: logged_def)

definition in_session :: "page \<Rightarrow> bool" where
  "in_session w \<longleftrightarrow> C_loggedIn (sC w) \<and> C_sid (sC w) \<noteq> '''' \<and> C_login (sC w) \<noteq> ''''"

definition session_ok :: "page \<Rightarrow> bool" where
  "session_ok w \<longleftrightarrow>
     (C_acls (sC w) \<noteq> [] \<longrightarrow> in_session w) \<and> (cur_class w = ''LoginView'' \<longrightarrow> C_acls (sC w) = [])"

definition login_view_ok :: "page \<Rightarrow> bool" where
  "login_view_ok w \<longleftrightarrow> (cur_class w = ''LoginView'' \<longrightarrow> C_acls (sC w) = [])"

lemma logged_in_session: "logged w \<Longrightarrow> in_session w"
  by (simp add: logged_def in_session_def)

lemma session_ok_logOut [inv_intros]: "session_ok (fst (logOut w))"
  by (simp add: session_ok_def)

lemma isLogged_cases:
  obtains (yes) "logged w" "isLogged w = (True, w, [])"
        | (no) "\<not> logged w" "isLogged w = (False, logOut w)"
  by (cases "logged w") (auto simp: isLogged_def)


lemma performRoute_result:
  "performRoute m v p w = Inr (w', es) \<Longrightarrow>
   (if logged w then v = Some (cur_class w') else cur_class w' = ''LoginView'') \<and>
   has_router w' = has_router w \<and>
   C_acls (sC w') = (if logged w then C_acls (sC w) else []) \<and>
   C_loggedIn (sC w') = (logged w \<and> C_loggedIn (sC w)) \<and>
   C_sid (sC w') = (if logged w then C_sid (sC w) else '''') \<and>
   C_login (sC w') = (if logged w then C_login (sC w) else '''') \<and>
   C_crossOrigin (sC w') = C_crossOrigin (sC w) \<and>
   C_password (sC w') = C_password (sC w) \<and>
   (logged w \<longrightarrow> cookie_sid w' = cookie_sid w)"
  by (cases w rule: isLogged_cases; cases v)
     (auto simp: performRoute_def Let_def new_view_def logOut_def split: if_splits prod.splits)

lemma performRoute_total: "\<not> logged w \<or> v \<noteq> None \<Longrightarrow> \<exists>w' es. performRoute m v p w = Inr (w', es)"
  by (cases w rule: isLogged_cases; cases v)
     (auto simp: performRoute_def Let_def split: prod.splits)

lemma performRoute_ok [inv_intros]:
  "performRoute m v p w = Inr (w', es) \<Longrightarrow> v \<noteq> Some ''LoginView'' \<Longrightarrow> session_ok w'"
  using performRoute_result [of m v p w w' es] logged_in_session [of w]
  by (auto simp: session_ok_def in_session_def split: if_splits)

lemma handlers_not_login: "route_handler dec n args = Some (RouteTo m v p) \<Longrightarrow> v \<noteq> ''LoginView''"
  by (auto simp: route_handler_def handlers_list_def handlers_details_def handlers_plain_def
           split: if_splits option.splits prod.splits)

lemma dispatch_ok [inv_intros]:
  "session_ok w \<Longrightarrow> dispatch dec w = Inr (w', es) \<Longrightarrow> session_ok w'"
  by (auto simp: dispatch_def route_of_def split: option.splits route_action.splits prod.splits
           dest: handlers_not_login intro: performRoute_ok)

lemma session_ok_router [simp]:
  "session_ok (w\<lparr>has_router := b\<rparr>) = session_ok w"
  "session_ok (w\<lparr>sC := (sC w)\<lparr>C_routerHistoryStarted := b\<rparr>\<rparr>) = session_ok w"
  "session_ok (w\<lparr>location_hash := h\<rparr>) = session_ok w"
  by (simp_all add: session_ok_def in_session_def)

definition after_check :: "page \<Rightarrow> page" where
  "after_check w = (if logged w then w else fst (logOut w))"

lemma afterLogin_result:
  assumes "afterLogin dec w = Inr (w', es)"
  obtains (router) "has_router w" "w' = after_check w"
  | (started) w2 e where "\<not> has_router w" "dispatch dec ((after_check w)\<lparr>has_router := True\<rparr>) = Inr (w2, e)"
      "w' = w2\<lparr>sC := (sC w2)\<lparr>C_routerHistoryStarted := True\<rparr>\<rparr>"
  using assms
  by (cases w rule: isLogged_cases)
     (auto simp: afterLogin_def after_check_def Let_def case_prod_beta split: if_splits sum.splits)

lemma after_check_ok: "login_view_ok w \<Longrightarrow> session_ok (after_check w)"
  using logged_in_session [of w] session_ok_logOut [of w]
  by (auto simp: after_check_def session_ok_def login_view_ok_def)

lemma afterLogin_ok [inv_intros]:
  assumes "login_view_ok w" and "afterLogin dec w = Inr (w', es)"
  shows "session_ok w'"
  using assms(2)
proof (cases rule: afterLogin_result)
  case router
  then show ?thesis using after_check_ok [OF assms(1)] by simp
next
  case (started w2 e)
  then show ?thesis using dispatch_ok [OF _ started(2)] after_check_ok [OF assms(1)] by simp
qed

lemma accept_login_ok [inv_intros]:
  assumes "accept_login dec lag r w = Inr (w', es)"
  shows "session_ok w'"
proof -
  obtain w1 where w1: "store_setup lag r w = Inr w1"
    using assms by (auto simp: accept_login_def split: sum.splits)
  show ?thesis
  proof (cases "cur_class w1 = ''LoginView''")
    case True
    then obtain w2 e2 w3 e3 e4
      where 3: "performRoute '''' (Some ''HomeView'') (JObj []) w2 = Inr (w3, e3)"
        and 4: "afterLogin dec w3 = Inr (w', e4)"
      using assms w1 by (auto simp: accept_login_def Let_def split: sum.splits prod.splits)
    from performRoute_ok [OF 3] have "session_ok w3" by simp
    then show ?thesis using afterLogin_ok [OF _ 4] by (simp add: session_ok_def login_view_ok_def)
  next
    case False
    then show ?thesis
      using assms w1 afterLogin_ok [of w1] by (auto simp: accept_login_def login_view_ok_def)
  qed
qed

lemma checkLogin_ok [inv_intros]:
  assumes "session_ok w" and "checkLogin dec lag r w = Inr (w', es)"
  shows "session_ok w'"
proof -
  let ?w = "w\<lparr>sC := (sC w)\<lparr>C_password := ''''\<rparr>\<rparr>"
  have "session_ok ?w" using assms(1) by (simp add: session_ok_def in_session_def)
  moreover have "login_view_ok (?w\<lparr>sM := m\<rparr>)" for m
    using assms(1) by (simp add: session_ok_def login_view_ok_def)
  ultimately show ?thesis
    using assms(2) session_ok_logOut [of ?w]
    by (auto simp: checkLogin_def Let_def split: if_splits sum.splits prod.splits
             intro: afterLogin_ok accept_login_ok)
qed

lemma tryLogin_ok [inv_intros]:
  "session_ok w \<Longrightarrow> tryLogin fu fp u p ten w = Inr (w', es) \<Longrightarrow> session_ok w'"
  by (auto simp: tryLogin_def Let_def session_ok_def in_session_def
           split: if_splits option.splits prod.splits)

lemma getApiInfo_ok [inv_intros]:
  "session_ok w \<Longrightarrow> getApiInfo r w = Inr (w', es) \<Longrightarrow> session_ok w'"
  by (auto simp: getApiInfo_def session_ok_def in_session_def split: option.splits)

lemma loginView_render_ok [inv_intros]:
  "session_ok w \<Longrightarrow> loginView_render r w = Inr w' \<Longrightarrow> session_ok w'"
  by (auto simp: loginView_render_def session_ok_def in_session_def split: if_splits option.splits)

lemma store_sid_ok [inv_intros]: "session_ok w \<Longrightarrow> session_ok (store_sid sid w)"
  by (auto simp: store_sid_def session_ok_def in_session_def)

lemma sessionExpired_ok [inv_intros]:
  "session_ok w \<Longrightarrow> sessionExpired st w = (b, w', es) \<Longrightarrow> session_ok w'"
  by (auto simp: sessionExpired_def session_ok_def in_session_def split: if_splits)

lemma after_apiLogOut_ok [inv_intros]:
  "after_apiLogOut b w = Inr (w', es) \<Longrightarrow> session_ok w'"
  by (auto simp: after_apiLogOut_def Let_def split: if_splits sum.splits prod.splits
           intro: performRoute_ok)

section \<open>The page as a state machine\<close>

text \<open>The page is loaded without ACLs and without a view, and remembers the session of its
  cookies; from then on answers, the login form and navigation come in any order. A handler
  that raises an error does not lead to a state of this relation.\<close>

inductive page_reach :: "(string \<Rightarrow> js) \<Rightarrow> page \<Rightarrow> bool" for dec where
  load: "\<lbrakk> C_acls (sC w) = []; cur_class w = ''''; rememberLogin dec w = Inr (w', es) \<rbrakk>
         \<Longrightarrow> page_reach dec w'"
| info: "\<lbrakk> page_reach dec w; getApiInfo r w = Inr (w', es) \<rbrakk> \<Longrightarrow> page_reach dec w'"
| answer: "\<lbrakk> page_reach dec w; checkLogin dec lag s (store_sid (as_sid s) w) = Inr (w', es) \<rbrakk>
           \<Longrightarrow> page_reach dec w'"
| form: "\<lbrakk> page_reach dec w; tryLogin fu fp u p ten w = Inr (w', es) \<rbrakk> \<Longrightarrow> page_reach dec w'"
| form_info: "\<lbrakk> page_reach dec w; loginView_render r w = Inr w' \<rbrakk> \<Longrightarrow> page_reach dec w'"
| navigate: "\<lbrakk> page_reach dec w; has_router w; dispatch dec (w\<lparr>location_hash := h\<rparr>) = Inr (w', es) \<rbrakk>
             \<Longrightarrow> page_reach dec w'"
| logout: "\<lbrakk> page_reach dec w; after_apiLogOut b w = Inr (w', es) \<rbrakk> \<Longrightarrow> page_reach dec w'"
| other_answer: "page_reach dec w \<Longrightarrow> page_reach dec (store_sid sid w)"
| expired: "\<lbrakk> page_reach dec w; sessionExpired st w = (b, w', es) \<rbrakk> \<Longrightarrow> page_reach dec w'"

lemma rememberLogin_ok:
  assumes "C_acls (sC w) = []" "cur_class w = ''''" "rememberLogin dec w = Inr (w', es)"
  shows "session_ok w'"
  using assms
  by (auto simp: rememberLogin_def Let_def session_ok_def login_view_ok_def in_session_def
           split: if_splits option.splits dest!: afterLogin_ok [rotated])

lemma page_reach_ok: "page_reach dec w \<Longrightarrow> session_ok w"
proof (induction rule: page_reach.induct)
  case load
  then show ?case by (rule rememberLogin_ok)
next
  case (navigate w h w' es)
  show ?case by (rule dispatch_ok [OF _ navigate(3)]) (simp add: navigate(4))
next
  case info
  then show ?case by (metis getApiInfo_ok)
next
  case answer
  then show ?case by (metis checkLogin_ok store_sid_ok)
next
  case form
  then show ?case by (metis tryLogin_ok)
next
  case form_info
  then show ?case by (metis loginView_render_ok)
next
  case logout
  then show ?case by (metis after_apiLogOut_ok)
next
  case other_answer
  then show ?case by (metis store_sid_ok)
next
  case expired
  then show ?case by (metis sessionExpired_ok)
qed

section \<open>Properties\<close>

lemma store_setup_facts:
  assumes "store_setup lag r w = Inr w1"
  shows "C_acls (sC w1) = as_acls r \<and> C_login (sC w1) = as_admin_name r \<and>
         C_sid (sC w1) = C_sid (sC w) \<and> C_loggedIn (sC w1) = C_loggedIn (sC w) \<and>
         C_crossOrigin (sC w1) = C_crossOrigin (sC w) \<and> cookie_sid w1 = cookie_sid w \<and>
         cur_class w1 = cur_class w \<and> has_router w1 = has_router w \<and>
         C_password (sC w1) = C_password (sC w) \<and> location_hash w1 = location_hash w"
  using assms by (auto simp: store_setup_def Let_def split: sum.splits)

lemma store_setup_total:
  assumes "\<And>v. v \<in> set (as_views r) \<Longrightarrow> row_ok (restoreFormFilters (restoreListColumns (sI w))) v"
  shows "\<exists>w1. store_setup lag r w = Inr w1"
  using store_ok_iff [of "as_views r" "restoreFormFilters (restoreListColumns (sI w))"] assms
  by (auto simp: store_setup_def Let_def)

lemma logIn_facts:
  "C_acls (sC (fst (logIn sid w))) = C_acls (sC w) \<and> C_login (sC (fst (logIn sid w))) = C_login (sC w) \<and>
   C_sid (sC (fst (logIn sid w))) = C_sid (sC w) \<and> C_loggedIn (sC (fst (logIn sid w))) \<and>
   C_crossOrigin (sC (fst (logIn sid w))) = C_crossOrigin (sC w) \<and>
   (C_crossOrigin (sC w) \<longrightarrow> cookie_sid (fst (logIn sid w)) = Some sid) \<and>
   has_router (fst (logIn sid w)) = has_router w \<and>
   C_password (sC (fst (logIn sid w))) = C_password (sC w)"
  by (simp add: logIn_def Let_def)

text \<open>C1. In every state of the page, an ACL check succeeds only within a session: some
  administrator is logged in, with a session identifier and a name, and the login form is not
  what is shown.\<close>

theorem acls_only_in_session:
  assumes "page_reach dec w" and "acl1 (sC w) a"
  shows "C_loggedIn (sC w) \<and> C_sid (sC w) \<noteq> '''' \<and> C_login (sC w) \<noteq> '''' \<and>
         cur_class w \<noteq> ''LoginView''"
proof -
  from assms(2) have "C_acls (sC w) \<noteq> []" by (auto simp: granted_def)
  then show ?thesis
    using page_reach_ok [OF assms(1)] by (auto simp: session_ok_def in_session_def)
qed

text \<open>C7. Navigation is guarded: the requested view is shown exactly when the session is valid,
  and otherwise the login form is, with the ACLs, the identifier and the name of the session
  dropped. It fails only for a route without a view in a valid session.\<close>

theorem performRoute_guarded:
  "case performRoute m v p w of
     Inl e \<Rightarrow> e = TypeError \<and> logged w \<and> v = None
   | Inr (w', es) \<Rightarrow>
       (if logged w then v = Some (cur_class w') \<and> C_acls (sC w') = C_acls (sC w)
        else cur_class w' = ''LoginView'' \<and> C_acls (sC w') = [] \<and> C_sid (sC w') = '''' \<and>
             C_login (sC w') = '''')"
proof (cases "performRoute m v p w")
  case (Inl e)
  then show ?thesis
    by (cases w rule: isLogged_cases; cases v) (auto simp: performRoute_def Let_def split: prod.splits)
next
  case (Inr r)
  obtain w' es where r: "r = (w', es)" by (cases r)
  show ?thesis using performRoute_result [of m v p w w' es] Inr r by (simp split: if_splits)
qed

text \<open>C8. When the API accepts the credentials given in the login form, the panel enters the
  session: for an answer with ACLs and a name, with a session identifier and views of known
  kinds of objects, \<open>checkLogin\<close> ends in the home view with the session valid and the ACLs of
  the answer in force.\<close>

theorem login_succeeds:
  assumes "cur_class w = ''LoginView''" and "has_router w" and "C_sid (sC w) \<noteq> ''''"
    and "as_status r = STATUS_SUCCESS" and "as_statusText r \<noteq> ''error''"
    and "as_acls r \<noteq> []" and "as_admin_name r \<noteq> ''''"
    and "\<And>v. v \<in> set (as_views r) \<Longrightarrow> row_ok (restoreFormFilters (restoreListColumns (sI w))) v"
  shows "\<exists>w' es. checkLogin dec lag r w = Inr (w', es) \<and> cur_class w' = ''HomeView'' \<and> logged w' \<and>
           C_acls (sC w') = as_acls r \<and> C_login (sC w') = as_admin_name r"
proof -
  let ?w = "w\<lparr>sC := (sC w)\<lparr>C_password := ''''\<rparr>\<rparr>"
  obtain w1 where w1: "store_setup lag r ?w = Inr w1"
    using store_setup_total [of r ?w lag] assms(8) by auto
  note f1 = store_setup_facts [OF w1]
  obtain w2 e2 where w2: "logIn (C_sid (sC w1)) w1 = (w2, e2)" by (cases "logIn (C_sid (sC w1)) w1")
  have f2: "C_acls (sC w2) = as_acls r" "C_login (sC w2) = as_admin_name r" "has_router w2" and l2: "logged w2"
    using logIn_facts [of "C_sid (sC w1)" w1] w2 f1 assms by (auto simp: logged_def)
  obtain w3 e3 where w3: "performRoute '''' (Some ''HomeView'') (JObj []) w2 = Inr (w3, e3)"
    using performRoute_total [of w2 "Some ''HomeView''"] by blast
  note f3 = performRoute_result [OF w3]
  have l3: "logged w3" using f3 l2 by (auto simp: logged_def split: option.splits)
  then have w4: "afterLogin dec w3 = Inr (w3, afterLogin_effects w3 @ [Call ''setCustomizationFields'' []])"
    using f3 f2 by (simp add: afterLogin_def isLogged_def)
  have "checkLogin dec lag r w = accept_login dec lag r ?w"
    using assms by (simp add: checkLogin_def Let_def login_refused_def STATUS_SUCCESS_def ERROR_INTERNAL_def
      STATUS_NOT_LOGIN_def STATUS_SESSION_EXPIRED_def STATUS_CREDENTIALS_FAIL_def STATUS_TENANT_RESTRICTED_def)
  then show ?thesis
    using w1 w2 w3 w4 f1 f2 f3 l2 l3 assms(1) by (simp add: accept_login_def)
qed

definition sample_page :: page where
  "sample_page =
     \<lparr> sC = wat_c_init [], sI = sample_tables,
       sM = \<lparr>I_menu = [], I_userMenu = [], I_helpMenu = [], I_configMenu = [], I_setupMenu = [],
             I_mobileMenu = [], I_cornerMenu = [], I_docSections = [],
             ACL_SECTIONS = ACL_SECTIONS_init, ACL_SECTIONS_PATTERNS = ACL_SECTIONS_PATTERNS_init\<rparr>,
       sQ = req_init, cookie_sid = None, customizer_cookie = False, location_hash = ''#'',
       cur_class = '''', menu_opt_sel = '''', has_router = False, serverDatetime = Null,
       hypervisor = Null, publicConfig = Null, serverClientTimeLag = 0 \<rparr>"

definition sample_setup :: admin_setup where
  "sample_setup =
     \<lparr> as_status = 0, as_statusText = '''', as_message = '''', as_sid = ''s1'',
       as_acls = [''vm.see.id''], as_admin_name = ''ana'', as_admin_language = ''en'',
       as_tenant_language = ''en'', as_admin_block = 10, as_tenant_block = 10,
       as_views = [sample_row ''name'' (JBool True) None], as_tenant_id = 1, as_tenant_name = ''t'',
       as_admin_id = 7 \<rparr>"

lemma sample_views_ok:
  "v \<in> set (as_views sample_setup) \<Longrightarrow>
   row_ok (restoreFormFilters (restoreListColumns sample_tables)) v"
  by (simp add: sample_setup_def sample_row_def row_ok_def sample_tables_def restoreListColumns_def
      restoreFormFilters_def)

theorem login_succeeds_witness:
  "\<exists>w' es. checkLogin (\<lambda>s. JObj []) 0 sample_setup
       (sample_page\<lparr>cur_class := ''LoginView'', has_router := True,
          sC := (wat_c_init [])\<lparr>C_sid := ''s1''\<rparr>\<rparr>) = Inr (w', es) \<and>
     cur_class w' = ''HomeView'' \<and> logged w' \<and> C_acls (sC w') = [''vm.see.id''] \<and>
     C_login (sC w') = ''ana''"
  using login_succeeds [of "sample_page\<lparr>cur_class := ''LoginView'', has_router := True,
          sC := (wat_c_init [])\<lparr>C_sid := ''s1''\<rparr>\<rparr>" sample_setup "\<lambda>s. JObj []" 0] sample_views_ok
  by (simp add: sample_page_def) (simp add: sample_setup_def STATUS_SUCCESS_def)

lemma home_route: "route_of dec ''#'' = Some (RouteTo '''' ''HomeView'' (JObj []))"
  by (simp add: route_of_def routes_def fragment_of_def route_handler_def handlers_list_def
      handlers_details_def handlers_plain_def)

lemma reload_accepted:
  assumes "\<not> C_crossOrigin (sC w)" "C_loggedIn (sC w)" "cur_class w = ''''" "\<not> has_router w"
    and "location_hash w = ''#''" and "sI w = sample_tables"
  shows "\<exists>w' es. checkLogin dec 0 sample_setup (store_sid ''s1'' w) = Inr (w', es) \<and>
           C_acls (sC w') = [''vm.see.id'']"
proof -
  let ?w = "(store_sid ''s1'' w)\<lparr>sC := (sC (store_sid ''s1'' w))\<lparr>C_password := ''''\<rparr>\<rparr>"
  have w: "sI ?w = sample_tables" "cur_class ?w = ''''" "C_sid (sC ?w) = ''s1''" "C_loggedIn (sC ?w)"
    "\<not> C_crossOrigin (sC ?w)" "location_hash ?w = ''#''" "\<not> has_router ?w"
    using assms by (simp_all add: store_sid_def)
  then obtain w1 where w1: "store_setup 0 sample_setup ?w = Inr w1"
    using store_setup_total [of sample_setup ?w 0] sample_views_ok by (metis (no_types, lifting))
  note f1 = store_setup_facts [OF w1]
  have l1: "logged w1" "C_acls (sC w1) = [''vm.see.id'']" "location_hash w1 = ''#''" "cur_class w1 = ''''"
    "\<not> has_router w1"
    using f1 w by (simp_all add: logged_def) (simp_all add: sample_setup_def)
  have "logged (w1\<lparr>has_router := True\<rparr>)" using l1(1) by (simp add: logged_def split: option.splits)
  moreover obtain w2 e2 where w2:
    "performRoute '''' (Some ''HomeView'') (JObj []) (w1\<lparr>has_router := True\<rparr>) = Inr (w2, e2)"
    using performRoute_total [of "w1\<lparr>has_router := True\<rparr>" "Some ''HomeView''"] by blast
  ultimately have "C_acls (sC w2) = [''vm.see.id'']"
    using performRoute_result [OF w2] l1(2) by simp
  moreover have "checkLogin dec 0 sample_setup (store_sid ''s1'' w) = accept_login dec 0 sample_setup ?w"
    by (simp add: checkLogin_def Let_def login_refused_def STATUS_SUCCESS_def ERROR_INTERNAL_def
      STATUS_NOT_LOGIN_def STATUS_SESSION_EXPIRED_def STATUS_CREDENTIALS_FAIL_def
      STATUS_TENANT_RESTRICTED_def) (simp add: sample_setup_def)
  ultimately show ?thesis
    using w1 w2 l1 by (simp add: accept_login_def afterLogin_def isLogged_def dispatch_def home_route)
qed

lemma sample_page_loaded:
  "page_reach (\<lambda>s. JObj []) (sample_page\<lparr>sC := (wat_c_init [])\<lparr>C_loggedIn := True\<rparr>\<rparr>)"
proof -
  let ?w0 = "sample_page\<lparr>sC := (wat_c_init [])\<lparr>C_loggedIn := True\<rparr>\<rparr>"
  have "rememberLogin (\<lambda>s. JObj []) sample_page = Inr (?w0, [apiInfo ''getApiInfo'' ?w0])"
    by (simp add: rememberLogin_def Let_def sample_page_def wat_c_init_def)
  then show ?thesis
    by (rule page_reach.load [rotated 2]) (simp_all add: sample_page_def wat_c_init_def)
qed

theorem acls_only_in_session_witness:
  "\<exists>w. page_reach (\<lambda>s. JObj []) w \<and> acl1 (sC w) ''vm.see.id'' \<and> C_loggedIn (sC w) \<and>
     C_sid (sC w) \<noteq> '''' \<and> C_login (sC w) \<noteq> '''' \<and> cur_class w \<noteq> ''LoginView''"
proof -
  let ?dec = "\<lambda>s :: string. JObj []"
  let ?w0 = "sample_page\<lparr>sC := (wat_c_init [])\<lparr>C_loggedIn := True\<rparr>\<rparr>"
  note r0 = sample_page_loaded
  obtain w' es where w': "checkLogin ?dec 0 sample_setup (store_sid ''s1'' ?w0) = Inr (w', es)"
    "C_acls (sC w') = [''vm.see.id'']"
    using reload_accepted [of ?w0 ?dec] by (auto simp: sample_page_def wat_c_init_def)
  have "as_sid sample_setup = ''s1''" by (simp add: sample_setup_def)
  then have r: "page_reach ?dec w'" using page_reach.answer [OF r0] w'(1) by metis
  have a: "acl1 (sC w') ''vm.see.id''" using w'(2) by (simp add: granted_def)
  show ?thesis using r a acls_only_in_session [OF r a] by blast
qed

lemma after_apiLogOut_shown:
  "\<exists>w' es. after_apiLogOut True w = Inr (w', es) \<and> cur_class w' = ''LoginView'' \<and> \<not> logged w' \<and>
     C_acls (sC w') = [] \<and> C_sid (sC w') = '''' \<and> C_login (sC w') = ''''"
proof -
  let ?w2 = "(fst (logOut w))\<lparr>sM := configureVisibility (sC (fst (logOut w))) (sM (fst (logOut w)))\<rparr>"
  have n: "\<not> logged ?w2" by (simp add: logged_def)
  then obtain w3 e3 where w3: "performRoute ''undefined'' None (JObj []) ?w2 = Inr (w3, e3)"
    using performRoute_total [of ?w2 None] by blast
  have "after_apiLogOut True w = Inr (w3, snd (logOut w) @ [Call ''renderMain'' []] @ e3)"
    using w3 by (simp add: after_apiLogOut_def Let_def case_prod_beta)
  then show ?thesis using performRoute_result [OF w3] n by (simp add: logged_def)
qed

text \<open>Logging out: when the API confirms it, the panel shows the login form and keeps nothing
  that identifies the session; when the API refuses, the handler raises a ReferenceError.\<close>

theorem logout_clears:
  "\<exists>w' es. after_apiLogOut True w = Inr (w', es) \<and> cur_class w' = ''LoginView'' \<and> \<not> logged w' \<and>
     C_acls (sC w') = [] \<and> C_sid (sC w') = '''' \<and> C_login (sC w') = '''' \<and>
     (\<forall>a. \<not> acl1 (sC w') a) \<and> after_apiLogOut False w = Inl ReferenceError"
proof -
  have "after_apiLogOut False w = Inl ReferenceError" by (simp add: after_apiLogOut_def)
  with after_apiLogOut_shown [of w] show ?thesis by (fastforce simp: granted_def)
qed

lemma dispatch_password: "dispatch dec w = Inr (w', es) \<Longrightarrow> C_password (sC w') = C_password (sC w)"
  by (auto simp: dispatch_def split: option.splits route_action.splits dest: performRoute_result)

lemma afterLogin_password:
  assumes "afterLogin dec w = Inr (w', es)"
  shows "C_password (sC w') = C_password (sC w)"
  using assms by (cases rule: afterLogin_result) (auto simp: after_check_def dest: dispatch_password split: if_splits)

lemma accept_password:
  assumes "accept_login dec lag r w = Inr (w', es)"
  shows "C_password (sC w') = C_password (sC w)"
  using assms logIn_facts
  by (auto simp: accept_login_def Let_def case_prod_beta split: sum.splits if_splits
           dest!: store_setup_facts performRoute_result afterLogin_password)

text \<open>The password of the login form does not outlive the check of the credentials: whatever
  the API answers, \<open>checkLogin\<close> leaves none, so later addresses carry the session identifier
  and not the credentials.\<close>

theorem checkLogin_forgets_password:
  assumes "checkLogin dec lag r w = Inr (w', es)"
  shows "C_password (sC w') = ''''"
  using assms
  by (auto simp: checkLogin_def Let_def case_prod_beta split: if_splits sum.splits
           dest: afterLogin_password accept_password)

theorem checkLogin_forgets_password_witness:
  "\<exists>w' es. checkLogin (\<lambda>s. JObj []) 0 (sample_setup\<lparr>as_status := 3100\<rparr>)
       (sample_page\<lparr>sC := (wat_c_init [])\<lparr>C_login := [CHR 0x61], C_password := [CHR 0x70]\<rparr>\<rparr>) = Inr (w', es) \<and>
     C_password (sC w') = []"
proof -
  let ?w = "sample_page\<lparr>sC := (wat_c_init [])\<lparr>C_login := [CHR 0x61], C_password := [CHR 0x70]\<rparr>\<rparr>"
  have "\<exists>w' es. checkLogin (\<lambda>s. JObj []) 0 (sample_setup\<lparr>as_status := 3100\<rparr>) ?w = Inr (w', es)"
    by (simp add: checkLogin_def login_refused_def STATUS_SUCCESS_def ERROR_INTERNAL_def
      STATUS_NOT_LOGIN_def STATUS_CREDENTIALS_FAIL_def wat_c_init_def)
  then obtain w' es where "checkLogin (\<lambda>s. JObj []) 0 (sample_setup\<lparr>as_status := 3100\<rparr>) ?w = Inr (w', es)"
    by blast
  with checkLogin_forgets_password [OF this] show ?thesis by blast
qed

end
