(* ===== verification/Pending.thy ===== *)
theory Pending
  imports Prelude
begin

text \<open>
  Interfaces of the editors that collect changes before sending them to the API.

  \<^item> \<open>pending_queues\<close>: two queues of names (to edit, to delete); each operation moves a name
    to one queue or out of both. Its clients see one table from names to the pending change.
  \<^item> \<open>assignment_editor\<close>: two lists of identifiers (to assign, to unassign) and the set of the
    identifiers that the editor shows as assigned. Its clients rely on the two lists being the
    difference between what was assigned at the start and what is shown.
\<close>

section \<open>Queues of names\<close>

text \<open>The two idioms of the code: push unless present, splice if present.\<close>

definition push_new :: "'a \<Rightarrow> 'a list \<Rightarrow> 'a list" where
  "push_new x q = (if inArray x q = -1 then q @ [x] else q)"

definition splice_out :: "'a \<Rightarrow> 'a list \<Rightarrow> 'a list" where
  "splice_out x q = (let index = inArray x q in if index \<noteq> -1 then splice q index 1 else q)"

lemma set_push_new [simp]: "set (push_new x q) = insert x (set q)"
  by (auto simp: push_new_def)

lemma distinct_push_new [simp]: "distinct (push_new x q) = distinct q"
  by (auto simp: push_new_def)

lemma splice_out_eq: "splice_out x q = remove1 x q"
  by (auto simp: splice_out_def Let_def splice_Suc_0 remove1_idem)

lemma set_splice_out [simp]: "distinct q \<Longrightarrow> set (splice_out x q) = set q - {x}"
  by (simp add: splice_out_eq)

lemma distinct_splice_out [simp]: "distinct q \<Longrightarrow> distinct (splice_out x q)"
  by (simp add: splice_out_eq)

locale pending_queues =
  fixes edits deletes :: "'s \<Rightarrow> 'a list"
    and to_edit to_delete clear :: "'a \<Rightarrow> 's \<Rightarrow> 's"
  assumes to_edit_law: "edits (to_edit x s) = push_new x (edits s)"
                       "deletes (to_edit x s) = splice_out x (deletes s)"
    and to_delete_law: "edits (to_delete x s) = splice_out x (edits s)"
                       "deletes (to_delete x s) = push_new x (deletes s)"
    and clear_law: "edits (clear x s) = splice_out x (edits s)"
                   "deletes (clear x s) = splice_out x (deletes s)"
begin

definition wf :: "'s \<Rightarrow> bool" where
  "wf s \<longleftrightarrow> distinct (edits s) \<and> distinct (deletes s) \<and> set (edits s) \<inter> set (deletes s) = {}"

text \<open>The table of pending changes: \<open>Some True\<close> is an edition, \<open>Some False\<close> a deletion.\<close>

definition pend :: "'s \<Rightarrow> 'a \<Rightarrow> bool option" where
  "pend s x = (if x \<in> set (edits s) then Some True else if x \<in> set (deletes s) then Some False else None)"

lemma wf_to_edit: "wf s \<Longrightarrow> wf (to_edit x s)"
  by (auto simp: wf_def to_edit_law)

lemma wf_to_delete: "wf s \<Longrightarrow> wf (to_delete x s)"
  by (auto simp: wf_def to_delete_law)

lemma wf_clear: "wf s \<Longrightarrow> wf (clear x s)"
  by (auto simp: wf_def clear_law)

lemma pend_to_edit: "wf s \<Longrightarrow> pend (to_edit x s) = (pend s)(x \<mapsto> True)"
  by (auto simp: wf_def pend_def to_edit_law fun_eq_iff)

lemma pend_to_delete: "wf s \<Longrightarrow> pend (to_delete x s) = (pend s)(x \<mapsto> False)"
  by (auto simp: wf_def pend_def to_delete_law fun_eq_iff)

lemma pend_clear: "wf s \<Longrightarrow> pend (clear x s) = (pend s)(x := None)"
  by (auto simp: wf_def pend_def clear_law fun_eq_iff)

text \<open>Clearing every name that may be pending leaves the queues empty.\<close>

lemma wf_clear_all: "wf s \<Longrightarrow> wf (foldl (\<lambda>s x. clear x s) s xs)"
  by (induction xs arbitrary: s) (auto intro: wf_clear)

lemma pend_clear_all:
  "wf s \<Longrightarrow> pend (foldl (\<lambda>s x. clear x s) s xs) y = (if y \<in> set xs then None else pend s y)"
proof (induction xs arbitrary: s)
  case (Cons x xs)
  then show ?case by (simp add: wf_clear pend_clear)
qed simp

lemma clear_all_empty:
  assumes "wf s" and "set (edits s) \<union> set (deletes s) \<subseteq> set xs"
  shows "edits (foldl (\<lambda>s x. clear x s) s xs) = [] \<and> deletes (foldl (\<lambda>s x. clear x s) s xs) = []"
proof -
  let ?s = "foldl (\<lambda>s x. clear x s) s xs"
  have "pend ?s y = None" for y
    using pend_clear_all [OF assms(1), of xs y] assms(2) by (auto simp: pend_def)
  then have "set (edits ?s) = {} \<and> set (deletes ?s) = {}"
    by (metis all_not_in_conv option.distinct(1) pend_def)
  then show ?thesis by simp
qed

end

section \<open>Assigning and unassigning\<close>

locale assignment_editor =
  fixes assigned unassigned :: "'s \<Rightarrow> 'a list"
    and shown known :: "'s \<Rightarrow> 'a set"
    and assign delete :: "'a \<Rightarrow> 's \<Rightarrow> 's"
  assumes assign_law:
      "assigned (assign x s) = (if x \<in> set (unassigned s) then assigned s else assigned s @ [x])"
      "unassigned (assign x s) = (if x \<in> set (unassigned s) then remove1 x (unassigned s) else unassigned s)"
    and delete_law:
      "unassigned (delete x s) = (if x \<in> set (assigned s) then unassigned s else unassigned s @ [x])"
      "assigned (delete x s) = (if x \<in> set (assigned s) then remove1 x (assigned s) else assigned s)"
    and shown_law:
      "shown (assign x s) = shown s \<union> ({x} \<inter> known s)" "shown (delete x s) = shown s - {x}"
    and known_law: "known (assign x s) = known s" "known (delete x s) = known s"
begin

text \<open>\<open>R\<close> is what was assigned when the editor opened.\<close>

definition consistent :: "'a set \<Rightarrow> 's \<Rightarrow> bool" where
  "consistent R s \<longleftrightarrow>
     distinct (assigned s) \<and> distinct (unassigned s) \<and>
     set (assigned s) = shown s - R \<and> set (unassigned s) = R - shown s \<and> shown s \<subseteq> known s"

lemma consistent_assign:
  assumes "consistent R s" and "x \<in> known s" and "x \<notin> shown s"
  shows "consistent R (assign x s)"
  using assms by (auto simp: consistent_def assign_law shown_law known_law)

lemma consistent_delete:
  assumes "consistent R s" and "x \<in> shown s"
  shows "consistent R (delete x s)"
  using assms by (auto simp: consistent_def delete_law shown_law known_law)

text \<open>Applying the two lists to what was assigned gives what is shown.\<close>

lemma sent_gives_shown:
  "consistent R s \<Longrightarrow> (R \<union> set (assigned s)) - set (unassigned s) = shown s"
  by (auto simp: consistent_def)

lemma assign_delete_cancel:
  assumes "consistent R s" and "x \<in> known s" and "x \<notin> shown s"
  shows "set (assigned (delete x (assign x s))) = set (assigned s) \<and>
         set (unassigned (delete x (assign x s))) = set (unassigned s) \<and>
         shown (delete x (assign x s)) = shown s"
proof -
  have "consistent R (delete x (assign x s))"
    using assms by (intro consistent_delete consistent_assign) (auto simp: shown_law)
  then show ?thesis using assms by (auto simp: consistent_def shown_law known_law)
qed

end

end
