(* ===== verification/ConfigTokens.thy ===== *)
theory ConfigTokens
  imports Pending Util Config
begin

text \<open>
  The QVD configuration view (\<open>wat/lib/bb-views/qvd-management/config-qvd.js\<close>): the
  configuration tokens of a tenant grouped by prefix, the two queues of pending changes
  (\<open>tokensQueue\<close>), and the sequence of API calls that stores them.
\<close>

section \<open>State\<close>

definition UNCLASSIFIED_CONFIG_CATEGORY :: string where
  "UNCLASSIFIED_CONFIG_CATEGORY = ''unclassified''"

text \<open>A row of \<open>config_get\<close>.\<close>

record config_row =
  cr_key :: string
  cr_value :: string

record config_view =
  q_edit :: "string list"
  q_delete :: "string list"
  cv_tenant :: js
  prefixes :: "string list"
  currentTokensPrefix :: string
  currentSearch :: string
  configTokens :: "config_row list"

definition config_initialize :: "wat_c \<Rightarrow> string option \<Rightarrow> config_view \<Rightarrow> config_view \<times> effect list" where
  "config_initialize C prefix V =
     (let V1 = V\<lparr>q_edit := [], q_delete := []\<rparr>
      in if \<not> acl1 C ''config.qvd.'' then (V1, [Call ''trigger'' [JStr ''route:defaultRoute'']])
         else (case prefix of None \<Rightarrow> V1 | Some p \<Rightarrow> V1\<lparr>currentTokensPrefix := p\<rparr>,
               [Call ''getTemplates'' [JStr ''qvdConfig'', JStr ''getPrefixes'']]))"

definition tenant_filter :: "wat_c \<Rightarrow> config_view \<Rightarrow> js obj" where
  "tenant_filter C V = (if isSuperadmin C then [(''tenant_id'', cv_tenant V)] else [])"

definition prefix_filter :: "config_view \<Rightarrow> js obj" where
  "prefix_filter V =
     (if currentTokensPrefix V = UNCLASSIFIED_CONFIG_CATEGORY
      then [(''-not'', JObj [(''key'', JObj [(''~'', JStr ''%.%'')])])]
      else [(''key'', JObj [(''~'', JStr (currentTokensPrefix V @ ''.%''))])])"

definition search_filter :: "string \<Rightarrow> js obj" where
  "search_filter s =
     [(''-or'', JArr [JStr ''key'', JObj [(''~'', JStr (''%'' @ s @ ''%''))],
                      JStr ''operative_value'', JObj [(''~'', JStr (''%'' @ s @ ''%''))]])]"

definition getPrefixes :: "wat_c \<Rightarrow> config_view \<Rightarrow> effect list" where
  "getPrefixes C V = [Api ''config_get'' (JObj []) (JObj (tenant_filter C V)) ''processPrefixes'']"

section \<open>Prefixes\<close>

text \<open>The part of a key before its first dot; \<open>None\<close> for a key without a dot.\<close>

definition key_prefix :: "string \<Rightarrow> string option" where
  "key_prefix k = (if CHR ''.'' \<in> set k then Some (takeWhile (\<lambda>c. c \<noteq> CHR ''.'') k) else None)"

definition add_prefix :: "string list \<times> nat \<Rightarrow> config_row \<Rightarrow> string list \<times> nat" where
  "add_prefix acc row =
     (case key_prefix (cr_key row) of
        Some p \<Rightarrow> (push_new p (fst acc), snd acc)
      | None \<Rightarrow> (fst acc, snd acc + 1))"

definition collect_prefixes :: "config_row list \<Rightarrow> string list" where
  "collect_prefixes rows =
     (let (ps, unclassified) = foldl add_prefix ([], 0) rows
      in sort ps @ (if unclassified > 0 then [UNCLASSIFIED_CONFIG_CATEGORY] else []))"

text \<open>\<open>that.prefixes[0]\<close> is \<open>undefined\<close> when there is no prefix at all.\<close>

definition processPrefixes ::
  "wat_c \<Rightarrow> string \<Rightarrow> config_row list \<Rightarrow> config_view \<Rightarrow> config_view \<times> effect list" where
  "processPrefixes C statusText rows V =
     (if statusText = ''abort'' then (V, [])
      else
        (let ps = collect_prefixes rows;
             cur = (if inArray (currentTokensPrefix V) ps = -1
                    then (case ps of [] \<Rightarrow> ''undefined'' | p # _ \<Rightarrow> p) else currentTokensPrefix V);
             V1 = V\<lparr>prefixes := ps, currentTokensPrefix := cur\<rparr>
         in (V1, [Api ''config_get'' (JObj []) (JObj (tenant_filter C V1 @ prefix_filter V1))
                    ''processBeforeRender''])))"

text \<open>\<open>sortObjectByField(rows, 'key')\<close>\<close>

definition sort_rows :: "config_row list \<Rightarrow> config_row list" where
  "sort_rows rows = sort_key cr_key rows"

definition renderList :: "config_view \<Rightarrow> effect list" where
  "renderList V = [Call ''renderList'' [], PushState (''#/config/'' @ currentTokensPrefix V)]"

definition processBeforeRender :: "config_row list \<Rightarrow> config_view \<Rightarrow> config_view \<times> effect list" where
  "processBeforeRender rows V =
     (let V1 = V\<lparr>configTokens := sort_rows rows\<rparr> in (V1, [Call ''render'' []] @ renderList V1))"

definition processBeforeRenderList ::
  "wat_c \<Rightarrow> config_row list \<Rightarrow> string \<Rightarrow> config_view \<Rightarrow> config_view \<times> effect list" where
  "processBeforeRenderList C rows searchBox V =
     (let V1 = V\<lparr>configTokens := sort_rows rows\<rparr>
      in if configTokens V1 = [] \<and> searchBox = ''''
         then (let V2 = V1\<lparr>currentTokensPrefix := ''''\<rparr> in (V2, getPrefixes C V2))
         else (V1, renderList V1))"

section \<open>Events of the form\<close>

definition has_pending :: "config_view \<Rightarrow> bool" where
  "has_pending V \<longleftrightarrow> length (q_edit V) > 0 \<or> length (q_delete V) > 0"

definition token_sel :: "string \<Rightarrow> string \<Rightarrow> string" where
  "token_sel s token = s @ ''[data-token='' @ token @ '']''"

definition restoreTokenDefault :: "string \<Rightarrow> js \<Rightarrow> config_view \<Rightarrow> config_view \<times> effect list" where
  "restoreTokenDefault token defaultValue V =
     (V\<lparr>q_edit := splice_out token (q_edit V), q_delete := push_new token (q_delete V)\<rparr>,
      [Dom DomVal (token_sel ''input.js-token-value'' token) defaultValue,
       Dom DomShow (token_sel ''div.js-not-saved'' token) Null,
       Dom DomHide (token_sel ''.js-restore-token-default'' token) Null,
       Dom DomShow (token_sel ''div.js-default-value'' token) Null])"

definition resetToken :: "string \<Rightarrow> js \<Rightarrow> js \<Rightarrow> js \<Rightarrow> config_view \<Rightarrow> config_view \<times> effect list" where
  "resetToken token val isDefault isCreated V =
     (let flag = (\<lambda>v. case parseInt v of Some n \<Rightarrow> n \<noteq> 0 | None \<Rightarrow> False)
      in (V\<lparr>q_edit := splice_out token (q_edit V), q_delete := splice_out token (q_delete V)\<rparr>,
          [Dom DomVal (token_sel ''input.js-token-value'' token) val,
           Dom DomHide (token_sel ''div.js-not-saved'' token) Null] @
          (if flag isDefault then [Dom DomShow (token_sel ''div.js-default-value'' token) Null]
           else [Dom DomShow (token_sel ''.js-restore-token-default'' token) Null,
                 Dom DomHide (token_sel ''div.js-default-value'' token) Null]) @
          (if flag isCreated
           then [Dom DomHide (token_sel ''div.js-will-delete'' token) Null,
                 Dom DomShow (token_sel ''.js-delete-token'' token) Null,
                 Dom (DomRemoveAttr ''disabled'') (token_sel ''input.js-token-value'' token) Null]
           else [])))"

definition editToken :: "string \<Rightarrow> js \<Rightarrow> config_view \<Rightarrow> config_view \<times> effect list" where
  "editToken token isDefault V =
     (V\<lparr>q_delete := splice_out token (q_delete V), q_edit := push_new token (q_edit V)\<rparr>,
      [Dom DomShow (token_sel ''div.js-not-saved'' token) Null,
       Dom DomHide (token_sel ''div.js-default-value'' token) Null] @
      (if (case parseInt isDefault of Some n \<Rightarrow> n \<noteq> 0 | None \<Rightarrow> False) then []
       else [Dom DomShow (token_sel ''.js-restore-token-default'' token) Null]))"

definition clickDeleteToken :: "string \<Rightarrow> config_view \<Rightarrow> config_view \<times> effect list" where
  "clickDeleteToken token V =
     (V\<lparr>q_edit := splice_out token (q_edit V), q_delete := push_new token (q_delete V)\<rparr>,
      [Dom DomShow (token_sel ''div.js-will-delete'' token) Null,
       Dom DomHide (token_sel ''.js-delete-token'' token) Null,
       Dom (DomAttr ''disabled'') (token_sel ''input.js-token-value'' token) (JStr ''disabled'')])"

text \<open>The events that leave the shown tokens (tenant select, search, creation, prefix menu)
  ask for confirmation first while something is pending. \<open>noSavedWarning\<close> resets every shown
  token, given with its saved value and flags, and then repeats the event.\<close>

record shown_token =
  sh_token :: string
  sh_value :: js
  sh_default :: js
  sh_created :: js

definition reset_all :: "shown_token list \<Rightarrow> config_view \<Rightarrow> config_view \<times> effect list" where
  "reset_all toks V =
     foldl (\<lambda>acc s. let (V1, e1) = resetToken (sh_token s) (sh_value s) (sh_default s) (sh_created s) (fst acc)
                    in (V1, snd acc @ e1)) (V, []) toks"

definition noSavedWarning ::
  "bool \<Rightarrow> shown_token list \<Rightarrow> (config_view \<Rightarrow> config_view \<times> effect list) \<Rightarrow> config_view \<Rightarrow>
   config_view \<times> effect list" where
  "noSavedWarning accepted toks callback V =
     (if accepted
      then (let (V1, e1) = reset_all toks V; (V2, e2) = callback V1
            in (V2, [Confirm ''dialog/config-no-saved'' ''callback'' True] @ e1 @ e2))
      else (V, [Confirm ''dialog/config-no-saved'' ''callback'' False]))"

definition clickOpenTenantSelect :: "config_view \<Rightarrow> effect list" where
  "clickOpenTenantSelect V =
     (if has_pending V
      then [Confirm ''dialog/config-no-saved'' ''chosen:open'' False, Call ''chosen:close'' []] else [])"

definition changeTenant :: "wat_c \<Rightarrow> js \<Rightarrow> config_view \<Rightarrow> config_view \<times> effect list" where
  "changeTenant C val V =
     (let V1 = V\<lparr>cv_tenant := val\<rparr> in (V1, [Dom DomHtml ''.bb-config-tokens'' Null] @ getPrefixes C V1))"

text \<open>The repeated event finds the queues empty, unless a pending token is not shown: then it asks
  again.\<close>

definition guarded ::
  "bool \<Rightarrow> shown_token list \<Rightarrow> (config_view \<Rightarrow> config_view \<times> effect list) \<Rightarrow> config_view \<Rightarrow>
   config_view \<times> effect list" where
  "guarded accepted toks act V =
     (if has_pending V
      then noSavedWarning accepted toks
             (\<lambda>V1. if has_pending V1 then (V1, [Confirm ''dialog/config-no-saved'' ''callback'' False])
                   else act V1) V
      else act V)"

definition search_tokens :: "wat_c \<Rightarrow> string \<Rightarrow> config_view \<Rightarrow> config_view \<times> effect list" where
  "search_tokens C search V =
     (let V1 = V\<lparr>currentSearch := search\<rparr>
      in if search = '''' then (V1, [Dom DomTrigger ''.lateral-menu-option:eq(0)'' (JStr ''click'')])
         else (V1, [PushState ''#/config'',
                    Api ''config_get'' (JObj []) (JObj (tenant_filter C V1 @ search_filter search))
                      ''processBeforeRenderList'']))"

definition clickOnSearch ::
  "wat_c \<Rightarrow> bool \<Rightarrow> shown_token list \<Rightarrow> int \<Rightarrow> string \<Rightarrow> config_view \<Rightarrow> config_view \<times> effect list" where
  "clickOnSearch C accepted toks keyCode search V =
     (if keyCode = 13 then guarded accepted toks (search_tokens C search) V else (V, []))"

definition openNewTokenDialog ::
  "bool \<Rightarrow> shown_token list \<Rightarrow> config_view \<Rightarrow> config_view \<times> effect list" where
  "openNewTokenDialog accepted toks V =
     guarded accepted toks
       (\<lambda>V1. (V1, [OpenDialog ''New configuration token'',
                   Dom DomVal ''[name=key]'' (JStr (currentTokensPrefix V1 @ ''.''))])) V"

definition select_prefix :: "wat_c \<Rightarrow> string \<Rightarrow> config_view \<Rightarrow> config_view \<times> effect list" where
  "select_prefix C p V =
     (let V1 = V\<lparr>currentSearch := '''', currentTokensPrefix := p\<rparr>
      in (V1, [PushState (''#/config/'' @ p), Call ''selectPrefixMenu'' [JStr p],
               Api ''config_get'' (JObj []) (JObj (tenant_filter C V1 @ prefix_filter V1))
                 ''processBeforeRenderList'']))"

definition clickPrefixOption ::
  "wat_c \<Rightarrow> bool \<Rightarrow> shown_token list \<Rightarrow> string \<Rightarrow> config_view \<Rightarrow> config_view \<times> effect list" where
  "clickPrefixOption C accepted toks p V =
     guarded accepted toks (select_prefix C p) V"

section \<open>Storing the changes\<close>

definition saveToken :: "wat_c \<Rightarrow> (string \<Rightarrow> js) \<Rightarrow> string \<Rightarrow> config_view \<Rightarrow> effect" where
  "saveToken C val token V =
     Api ''config_set'' (JObj ([(''key'', JStr token), (''value'', val token)] @ tenant_filter C V))
       (JObj []) ''processTokenQueue''"

definition deleteToken :: "wat_c \<Rightarrow> string list \<Rightarrow> config_view \<Rightarrow> effect" where
  "deleteToken C tokens V =
     Api ''config_delete'' (JObj [])
       (JObj ([(''key'', JArr (map JStr tokens))] @ tenant_filter C V)) ''processTokenQueue''"

text \<open>The refresh after all changes; \<open>unclassified_shown\<close> tells whether the side menu has the
  unclassified option; \<open>last_rows\<close> are the rows of the last answer, if it has any.\<close>

definition afterChangeToken ::
  "wat_c \<Rightarrow> bool \<Rightarrow> config_row list option \<Rightarrow> config_view \<Rightarrow> effect list" where
  "afterChangeToken C unclassified_shown last_rows V =
     (let base = tenant_filter C V;
          unclassified = (currentTokensPrefix V = UNCLASSIFIED_CONFIG_CATEGORY)
      in (if unclassified \<and> unclassified_shown then
            [Api ''config_get'' (JObj []) (JObj (base @ prefix_filter V)) ''processBeforeRenderList'']
          else if unclassified then
            [Api ''config_get'' (JObj []) (JObj base) ''processPrefixes'']
          else if inArray (currentTokensPrefix V) (prefixes V) \<noteq> -1 then
            [Api ''config_get'' (JObj [])
               (JObj (base @ (if currentSearch V \<noteq> '''' then search_filter (currentSearch V)
                              else prefix_filter V))) ''processBeforeRenderList'']
          else [Api ''config_get'' (JObj []) (JObj base) ''processPrefixes'']) @
         (case last_rows of
            None \<Rightarrow> []
          | Some rows \<Rightarrow>
              (let k = (case rows of [] \<Rightarrow> None | r # _ \<Rightarrow> Some (cr_key r))
               in (if k = None \<or> (\<exists>s. k = Some s \<and> take 11 s = ''api.public.'')
                   then [Call ''apiInfo'' [JStr ''publicConfig'']] else []) @
                  (if k = None \<or> k = Some ''vm.hypervisor''
                   then [Call ''apiInfo'' [JStr ''hypervisor'']] else []))))"

definition clickSaveTokens :: "config_view \<Rightarrow> effect list" where
  "clickSaveTokens V =
     (if has_pending V then [Confirm ''dialog/config-change'' ''processTokenQueue'' True]
      else [ShowMessage (JStr ''No tokens were updated - Nothing to do'') MsgInfo])"

text \<open>One call of \<open>processTokenQueue\<close>: the state it leaves and the API call it makes, whose answer
  calls it again. \<open>None\<close> is the end: the hook \<open>afterChangeToken\<close> runs.\<close>

definition processTokenQueue ::
  "wat_c \<Rightarrow> (string \<Rightarrow> js) \<Rightarrow> config_view \<Rightarrow> config_view \<times> effect option" where
  "processTokenQueue C val V =
     (if length (q_edit V) > 0 then
        (let t = hd (q_edit V);
             V1 = V\<lparr>q_edit := splice (q_edit V) 0 1\<rparr>
         in (V1, Some (saveToken C val t V1)))
      else if length (q_delete V) > 0 then
        (let ts = q_delete V;
             V1 = V\<lparr>q_delete := []\<rparr>
         in (V1, Some (deleteToken C ts V1)))
      else (V, None))"

text \<open>The whole chain of answers.\<close>

function run_queue :: "wat_c \<Rightarrow> (string \<Rightarrow> js) \<Rightarrow> config_view \<Rightarrow> config_view \<times> effect list" where
  "run_queue C val V =
     (case processTokenQueue C val V of
        (V1, None) \<Rightarrow> (V1, [])
      | (V1, Some e) \<Rightarrow> (let (V2, es) = run_queue C val V1 in (V2, e # es)))"
  by pat_completeness auto

termination
  by (relation "measure (\<lambda>(C, val, V). length (q_edit V) + length (q_delete V))")
     (auto simp: processTokenQueue_def Let_def splice_zero [simplified] split: if_splits)

declare run_queue.simps [simp del]

section \<open>The queues\<close>

interpretation edit_delete: pending_queues q_edit q_delete
  "\<lambda>t V. fst (editToken t d V)" "\<lambda>t V. fst (clickDeleteToken t V)" "\<lambda>t V. fst (resetToken t v d c V)"
  for d v c
  by unfold_locales (simp_all add: editToken_def clickDeleteToken_def resetToken_def Let_def)

interpretation edit_restore: pending_queues q_edit q_delete
  "\<lambda>t V. fst (editToken t d V)" "\<lambda>t V. fst (restoreTokenDefault t w V)" "\<lambda>t V. fst (resetToken t v d c V)"
  for d w v c
  by unfold_locales (simp_all add: editToken_def restoreTokenDefault_def resetToken_def Let_def)

text \<open>What is pending for each token, and the queues that can occur.\<close>

definition pending_change :: "config_view \<Rightarrow> string \<Rightarrow> bool option" where
  "pending_change V t =
     (if t \<in> set (q_edit V) then Some True else if t \<in> set (q_delete V) then Some False else None)"

definition queues_ok :: "config_view \<Rightarrow> bool" where
  "queues_ok V \<longleftrightarrow>
     distinct (q_edit V) \<and> distinct (q_delete V) \<and> set (q_edit V) \<inter> set (q_delete V) = {}"

lemma pending_change_pend: "pending_change = edit_delete.pend"
  by (simp add: fun_eq_iff pending_change_def edit_delete.pend_def)

lemma queues_ok_wf: "queues_ok = edit_delete.wf"
  by (simp add: fun_eq_iff queues_ok_def edit_delete.wf_def)

text \<open>The events on a token, and the runs of the form.\<close>

inductive token_event :: "config_view \<Rightarrow> config_view \<Rightarrow> bool" where
  edit: "token_event V (fst (editToken t d V))"
| delete: "token_event V (fst (clickDeleteToken t V))"
| restore: "token_event V (fst (restoreTokenDefault t w V))"
| reset: "token_event V (fst (resetToken t v d c V))"

inductive_cases token_eventE: "token_event V V'"

lemma token_event_ok: "token_event V V' \<Longrightarrow> queues_ok V \<Longrightarrow> queues_ok V'"
  unfolding queues_ok_wf
  by (auto elim!: token_eventE intro: edit_delete.wf_to_edit edit_delete.wf_to_delete
      edit_restore.wf_to_delete edit_delete.wf_clear)

lemma token_events_ok: "token_event\<^sup>*\<^sup>* V V' \<Longrightarrow> queues_ok V \<Longrightarrow> queues_ok V'"
  by (induction rule: rtranclp_induct) (auto intro: token_event_ok)

lemma reset_all_fst:
  "fst (reset_all toks V) = foldl (\<lambda>V s. fst (resetToken (sh_token s) (sh_value s) (sh_default s) (sh_created s) V)) V toks"
proof -
  have "fst (foldl (\<lambda>acc s. let (V1, e1) = resetToken (sh_token s) (sh_value s) (sh_default s) (sh_created s) (fst acc)
                    in (V1, snd acc @ e1)) (V, es) toks) =
        foldl (\<lambda>V s. fst (resetToken (sh_token s) (sh_value s) (sh_default s) (sh_created s) V)) V toks" for es
    by (induction toks arbitrary: V es) (simp_all add: case_prod_beta Let_def)
  then show ?thesis by (simp add: reset_all_def)
qed

text \<open>Resetting does not look at the saved value or flags as far as the queues go.\<close>

lemma reset_queues:
  "q_edit (fst (resetToken t v d c V)) = splice_out t (q_edit V) \<and>
   q_delete (fst (resetToken t v d c V)) = splice_out t (q_delete V)"
  by (simp add: resetToken_def Let_def)

lemma reset_all_queues:
  "q_edit (fst (reset_all toks V)) = fold splice_out (map sh_token toks) (q_edit V) \<and>
   q_delete (fst (reset_all toks V)) = fold splice_out (map sh_token toks) (q_delete V)"
  unfolding reset_all_fst
  by (induction toks arbitrary: V) (simp_all add: reset_queues)

lemma fold_splice_out:
  "distinct q \<Longrightarrow> set (fold splice_out ts q) = set q - set ts"
  by (induction ts arbitrary: q) auto

section \<open>Properties\<close>

text \<open>C9. The two queues behave as one table of pending changes: from any state with consistent
  queues, editing a token records an edition, deleting it or restoring its default a deletion,
  and resetting it nothing, whatever was pending for it before, and no other token is
  affected.\<close>

theorem token_queues_refine:
  assumes "queues_ok V"
  shows "pending_change (fst (editToken t d V)) = (pending_change V)(t \<mapsto> True) \<and>
         pending_change (fst (clickDeleteToken t V)) = (pending_change V)(t \<mapsto> False) \<and>
         pending_change (fst (restoreTokenDefault t w V)) = (pending_change V)(t \<mapsto> False) \<and>
         pending_change (fst (resetToken t v d c V)) = (pending_change V)(t := None)"
  using assms unfolding queues_ok_wf pending_change_pend
  by (simp add: edit_delete.pend_to_edit edit_delete.pend_to_delete edit_restore.pend_to_delete
      edit_delete.pend_clear)

definition sample_view :: config_view where
  "sample_view = \<lparr> q_edit = [''a.b''], q_delete = [''c''], cv_tenant = JNum (-1), prefixes = [''a''],
     currentTokensPrefix = ''a'', currentSearch = '''', configTokens = [] \<rparr>"

theorem token_queues_refine_witness:
  "pending_change (fst (editToken ''c'' (JNum 0) sample_view)) ''c'' = Some True"
  using token_queues_refine [of sample_view "''c''" "JNum 0" Null Null Null]
  by (simp add: sample_view_def queues_ok_def)

definition run_calls :: "wat_c \<Rightarrow> (string \<Rightarrow> js) \<Rightarrow> config_view \<Rightarrow> effect list" where
  "run_calls C val V =
     map (\<lambda>t. saveToken C val t V) (q_edit V) @
     (if q_delete V = [] then [] else [deleteToken C (q_delete V) V])"

lemma tenant_filter_frame [simp]: "tenant_filter C (V\<lparr>q_edit := e\<rparr>) = tenant_filter C V"
  "tenant_filter C (V\<lparr>q_delete := e\<rparr>) = tenant_filter C V"
  by (simp_all add: tenant_filter_def)

lemma run_queue_calls:
  "run_queue C val V = (V\<lparr>q_edit := [], q_delete := []\<rparr>, run_calls C val V)"
proof (induction C val V rule: run_queue.induct)
  case (1 C val V)
  show ?case
  proof (cases "q_edit V")
    case (Cons t ts)
    let ?V1 = "V\<lparr>q_edit := ts\<rparr>"
    have p: "processTokenQueue C val V = (?V1, Some (saveToken C val t ?V1))"
      using Cons by (simp add: processTokenQueue_def Let_def splice_zero [simplified])
    from 1 [OF p [symmetric] refl] p Cons show ?thesis
      by (subst run_queue.simps) (simp add: run_calls_def saveToken_def deleteToken_def)
  next
    case Nil
    show ?thesis
    proof (cases "q_delete V = []")
      case True
      then have "processTokenQueue C val V = (V, None)" using Nil by (simp add: processTokenQueue_def)
      then show ?thesis using Nil True by (subst run_queue.simps) (simp add: run_calls_def)
    next
      case False
      let ?V1 = "V\<lparr>q_delete := []\<rparr>"
      have p: "processTokenQueue C val V = (?V1, Some (deleteToken C (q_delete V) ?V1))"
        using Nil False by (simp add: processTokenQueue_def Let_def)
      from 1 [OF p [symmetric] refl] p Nil False show ?thesis
        by (subst run_queue.simps) (simp add: run_calls_def deleteToken_def)
    qed
  qed
qed

text \<open>C5. Saving: from every state the form reaches, the chain of API calls ends with both queues
  empty; it sets each edited token once, in the order of the queue, and then deletes all tokens
  to delete in one call. A token is never both set and deleted.\<close>

theorem run_queue_stores_all:
  assumes "token_event\<^sup>*\<^sup>* V0 V" and "q_edit V0 = []" and "q_delete V0 = []"
  shows "run_queue C val V =
           (V\<lparr>q_edit := [], q_delete := []\<rparr>,
            map (\<lambda>t. saveToken C val t V) (q_edit V) @
            (if q_delete V = [] then [] else [deleteToken C (q_delete V) V])) \<and>
         distinct (q_edit V) \<and> distinct (q_delete V) \<and> set (q_edit V) \<inter> set (q_delete V) = {}"
  using token_events_ok [OF assms(1)] assms(2,3)
  by (simp add: run_queue_calls run_calls_def queues_ok_def)

theorem run_queue_stores_all_witness:
  "run_queue (wat_c_init []) (\<lambda>t. JStr ''1'')
      (fst (clickDeleteToken ''c'' (fst (editToken ''a.b'' (JNum 0) (sample_view\<lparr>q_edit := [], q_delete := []\<rparr>))))) =
   (sample_view\<lparr>q_edit := [], q_delete := []\<rparr>,
    [Api ''config_set'' (JObj [(''key'', JStr ''a.b''), (''value'', JStr ''1'')]) (JObj []) ''processTokenQueue'',
     Api ''config_delete'' (JObj []) (JObj [(''key'', JArr [JStr ''c''])]) ''processTokenQueue''])"
proof -
  let ?A = "sample_view\<lparr>q_edit := [], q_delete := []\<rparr>"
  let ?V = "fst (clickDeleteToken ''c'' (fst (editToken ''a.b'' (JNum 0) ?A)))"
  let ?B = "fst (editToken ''a.b'' (JNum 0) ?A)"
  have e1: "token_event ?A ?B" by (rule token_event.edit)
  have e2: "token_event ?B ?V" by (rule token_event.delete)
  have "token_event\<^sup>*\<^sup>* ?A ?V"
    using rtranclp_trans [OF r_into_rtranclp [of token_event, OF e1] r_into_rtranclp [of token_event, OF e2]] .
  from run_queue_stores_all [OF this, of "wat_c_init []" "\<lambda>t. JStr ''1''"]
  have "run_queue (wat_c_init []) (\<lambda>t. JStr ''1'') ?V =
       (?V\<lparr>q_edit := [], q_delete := []\<rparr>, map (\<lambda>t. saveToken (wat_c_init []) (\<lambda>t. JStr ''1'') t ?V) (q_edit ?V) @
            (if q_delete ?V = [] then [] else [deleteToken (wat_c_init []) (q_delete ?V) ?V]))" by simp
  moreover have "q_edit ?V = [''a.b'']" "q_delete ?V = [''c'']"
    by (simp_all add: sample_view_def editToken_def clickDeleteToken_def push_new_def splice_out_def)
  moreover have "?V\<lparr>q_edit := [], q_delete := []\<rparr> = ?A"
    by (simp add: sample_view_def editToken_def clickDeleteToken_def)
  moreover have "\<not> isSuperadmin (wat_c_init [])"
    by (simp add: isSuperadmin_def wat_c_init_def SUPERTENANT_ID_def)
  ultimately show ?thesis by (simp add: saveToken_def deleteToken_def tenant_filter_def)
qed

text \<open>Leaving with unsaved changes: when every pending token is shown and the administrator
  accepts to lose the changes, the queues are empty before the prefix changes; when the
  administrator does not, nothing changes.\<close>

theorem clickPrefixOption_guarded:
  assumes "queues_ok V" and "has_pending V" and "set (q_edit V) \<union> set (q_delete V) \<subseteq> sh_token ` set toks"
  shows "fst (clickPrefixOption C False toks p V) = V \<and>
         q_edit (fst (clickPrefixOption C True toks p V)) = [] \<and>
         q_delete (fst (clickPrefixOption C True toks p V)) = [] \<and>
         currentTokensPrefix (fst (clickPrefixOption C True toks p V)) = p"
proof -
  let ?V1 = "fst (reset_all toks V)"
  have "set (q_edit ?V1) = {}" "set (q_delete ?V1) = {}"
    using assms by (auto simp: reset_all_queues fold_splice_out queues_ok_def)
  then have e: "q_edit ?V1 = []" "q_delete ?V1 = []" by simp_all
  then have "\<not> has_pending ?V1" by (simp add: has_pending_def)
  then show ?thesis using assms(2) e
    by (simp add: clickPrefixOption_def guarded_def noSavedWarning_def select_prefix_def case_prod_beta Let_def)
qed

theorem clickPrefixOption_guarded_witness:
  "q_edit (fst (clickPrefixOption (wat_c_init []) True
      [\<lparr>sh_token = ''a.b'', sh_value = Null, sh_default = Null, sh_created = Null\<rparr>,
       \<lparr>sh_token = ''c'', sh_value = Null, sh_default = Null, sh_created = Null\<rparr>] ''x'' sample_view)) = []"
  by (rule clickPrefixOption_guarded [THEN conjunct2, THEN conjunct1])
     (simp_all add: sample_view_def queues_ok_def has_pending_def)

lemma add_prefix_fold:
  "fst (foldl add_prefix acc rows) =
     foldl (\<lambda>q p. push_new p q) (fst acc) (List.map_filter (\<lambda>r. key_prefix (cr_key r)) rows) \<and>
   snd (foldl add_prefix acc rows) = snd acc + length (filter (\<lambda>r. key_prefix (cr_key r) = None) rows)"
  by (induction rows arbitrary: acc) (auto simp: add_prefix_def List.map_filter_def split: option.splits)

lemma push_new_fold:
  "set (foldl (\<lambda>q p. push_new p q) q ps) = set q \<union> set ps \<and>
   (distinct (foldl (\<lambda>q p. push_new p q) q ps) \<longleftrightarrow> distinct q)"
  by (induction ps arbitrary: q) auto

text \<open>The side menu: the prefixes of the keys, each once and sorted, and the unclassified
  option exactly when some key has no dot.\<close>

theorem collect_prefixes_spec:
  "\<exists>ps. collect_prefixes rows =
          ps @ (if \<exists>r\<in>set rows. CHR ''.'' \<notin> set (cr_key r) then [UNCLASSIFIED_CONFIG_CATEGORY] else []) \<and>
        sorted ps \<and> distinct ps \<and>
        set ps = {takeWhile (\<lambda>c. c \<noteq> CHR ''.'') (cr_key r) |r. r \<in> set rows \<and> CHR ''.'' \<in> set (cr_key r)}"
proof -
  let ?f = "foldl add_prefix ([], 0) rows"
  let ?ks = "List.map_filter (\<lambda>r. key_prefix (cr_key r)) rows"
  have f: "fst ?f = foldl (\<lambda>q p. push_new p q) [] ?ks" "snd ?f = length (filter (\<lambda>r. key_prefix (cr_key r) = None) rows)"
    using add_prefix_fold [of "([], 0)" rows] by simp_all
  have d: "distinct (fst ?f)" and s: "set (fst ?f) = set ?ks"
    using push_new_fold [of "[]" ?ks] f(1) by simp_all
  have ks: "set ?ks = {takeWhile (\<lambda>c. c \<noteq> CHR ''.'') (cr_key r) |r. r \<in> set rows \<and> CHR ''.'' \<in> set (cr_key r)}"
    by (induction rows) (auto simp: List.map_filter_def key_prefix_def)
  have u: "snd ?f > 0 \<longleftrightarrow> (\<exists>r\<in>set rows. CHR ''.'' \<notin> set (cr_key r))"
    unfolding f(2) by (auto simp: filter_empty_conv key_prefix_def)
  show ?thesis
    by (rule exI [of _ "sort (fst ?f)"])
       (simp add: collect_prefixes_def case_prod_beta u d s ks del: add_prefix_fold)
qed

end
