(* ===== verification/RoleEditor.thy ===== *)
theory RoleEditor
  imports Pending JsText Config
begin

text \<open>
  The editors of the roles of an administrator and of the roles and templates of a role:
  \<open>wat/lib/bb-views/wat-management/administrator-role-editor.js\<close> (shared),
  \<open>role-editor.js\<close> and \<open>administrator-editor.js\<close>. The editor keeps the roles it offers with a
  flag \<open>inherited\<close>, and collects what to assign and what to unassign; the arguments of the API
  call are built from these lists when the form is accepted.

  Identifiers are kept in the form the page gives them, as strings.
\<close>

section \<open>State\<close>

record editor_role =
  er_id :: string
  er_name :: string
  inherited :: bool

record role_editor =
  editorRoles :: "editor_role list"
  assignRoles :: "string list"
  unassignRoles :: "string list"
  countInheritedRoles :: "nat option"
  editorTemplates :: "editor_role obj"
  assignTemplates :: "string list"
  unassignTemplates :: "string list"
  countInheritedTemplates :: "nat option"

section \<open>Fetching what can be assigned\<close>

text \<open>Which tenants' roles are offered.\<close>

datatype view_kind = ListKind | DetailsKind | OtherKind

fun push_tenants :: "js list \<Rightarrow> js list \<Rightarrow> js list" where
  "push_tenants [] acc = acc"
| "push_tenants (t # ts) acc = push_tenants ts (push_new t acc)"

definition role_conditions :: "js option \<Rightarrow> view_kind \<Rightarrow> js list \<Rightarrow> js \<Rightarrow> js list" where
  "role_conditions forcedTenantId kind selected_tenants model_tenant =
     (let both = (\<lambda>t. [JStr ''tenant_id'', t, JStr ''tenant_id'', JNum COMMON_TENANT_ID])
      in case forcedTenantId of
           Some t \<Rightarrow> both t
         | None \<Rightarrow>
             (if kind = ListKind then
                (case push_tenants selected_tenants [] of
                   [t] \<Rightarrow> both t
                 | _ \<Rightarrow> [JStr ''tenant_id'', JNum COMMON_TENANT_ID])
              else both model_tenant))"

definition fetchAndRenderRoles ::
  "wat_c \<Rightarrow> js option \<Rightarrow> view_kind \<Rightarrow> js list \<Rightarrow> js \<Rightarrow> effect list" where
  "fetchAndRenderRoles C forcedTenantId kind selected_tenants model_tenant =
     [Dom DomHtml ''.bb-assign-roles'' Null,
      Api ''role_get_list'' (JObj [])
        (JObj ([(''internal'', JStr ''0'')] @
               (if isSuperadmin C
                then [(''-or'', JArr (role_conditions forcedTenantId kind selected_tenants model_tenant))]
                else []))) ''storeRoles'']"

text \<open>The answer: the role being edited itself is left out, and the roles it has are flagged.\<close>

definition drop_role :: "string option \<Rightarrow> (string \<times> string) list \<Rightarrow> (string \<times> string) list" where
  "drop_role avoid rows =
     (case avoid of
        None \<Rightarrow> rows
      | Some a \<Rightarrow> (case find (\<lambda>r. fst r = a) rows of None \<Rightarrow> rows | Some r \<Rightarrow> remove1 r rows))"

definition storeRoles ::
  "string option \<Rightarrow> string list \<Rightarrow> (string \<times> string) list \<Rightarrow> role_editor \<Rightarrow> role_editor" where
  "storeRoles avoidRoleId currentRoles rows E =
     E\<lparr>editorRoles := map (\<lambda>(i, n). \<lparr> er_id = i, er_name = n, inherited = (i \<in> set currentRoles) \<rparr>)
                        (drop_role avoidRoleId rows),
       assignRoles := [], unassignRoles := []\<rparr>"

definition storeTemplates ::
  "string list \<Rightarrow> (string \<times> string) list \<Rightarrow> role_editor \<Rightarrow> role_editor" where
  "storeTemplates currentTemplates rows E =
     E\<lparr>editorTemplates := foldl (\<lambda>t (i, n). AList.update n
            \<lparr> er_id = i, er_name = n, inherited = (i \<in> set currentTemplates) \<rparr> t) [] rows,
       assignTemplates := [], unassignTemplates := []\<rparr>"

section \<open>Assigning and deleting\<close>

definition set_flag :: "string \<Rightarrow> bool \<Rightarrow> editor_role \<Rightarrow> editor_role" where
  "set_flag i b r = (if er_id r = i then r\<lparr>inherited := b\<rparr> else r)"

definition count_flags :: "editor_role list \<Rightarrow> nat" where
  "count_flags rs = length (filter inherited rs)"

definition editorAssignRole :: "string \<Rightarrow> role_editor \<Rightarrow> role_editor" where
  "editorAssignRole roleId E =
     (let unassignPos = inArray roleId (unassignRoles E);
          E1 = (if unassignPos \<noteq> -1
                then E\<lparr>unassignRoles := splice (unassignRoles E) unassignPos 1\<rparr>
                else E\<lparr>assignRoles := assignRoles E @ [roleId]\<rparr>);
          rs = map (set_flag roleId True) (editorRoles E1)
      in E1\<lparr>editorRoles := rs, countInheritedRoles := Some (count_flags rs)\<rparr>)"

definition editorDeleteRole :: "string \<Rightarrow> role_editor \<Rightarrow> role_editor" where
  "editorDeleteRole roleId E =
     (let assignPos = inArray roleId (assignRoles E);
          E1 = (if assignPos \<noteq> -1
                then E\<lparr>assignRoles := splice (assignRoles E) assignPos 1\<rparr>
                else E\<lparr>unassignRoles := unassignRoles E @ [roleId]\<rparr>);
          rs = map (set_flag roleId False) (editorRoles E1)
      in E1\<lparr>editorRoles := rs, countInheritedRoles := Some (count_flags rs)\<rparr>)"

definition editorAssignTemplate :: "string \<Rightarrow> role_editor \<Rightarrow> role_editor" where
  "editorAssignTemplate templateId E =
     (let unassignPos = inArray templateId (unassignTemplates E);
          E1 = (if unassignPos \<noteq> -1
                then E\<lparr>unassignTemplates := splice (unassignTemplates E) unassignPos 1\<rparr>
                else E\<lparr>assignTemplates := assignTemplates E @ [templateId]\<rparr>);
          ts = map (\<lambda>(n, t). (n, set_flag templateId True t)) (editorTemplates E1)
      in E1\<lparr>editorTemplates := ts, countInheritedTemplates := Some (count_flags (map snd ts))\<rparr>)"

definition editorDeleteTemplate :: "string \<Rightarrow> role_editor \<Rightarrow> role_editor" where
  "editorDeleteTemplate templateId E =
     (let assignPos = inArray templateId (assignTemplates E);
          E1 = (if assignPos \<noteq> -1
                then E\<lparr>assignTemplates := splice (assignTemplates E) assignPos 1\<rparr>
                else E\<lparr>unassignTemplates := unassignTemplates E @ [templateId]\<rparr>);
          ts = map (\<lambda>(n, t). (n, set_flag templateId False t)) (editorTemplates E1)
      in E1\<lparr>editorTemplates := ts, countInheritedTemplates := Some (count_flags (map snd ts))\<rparr>)"

text \<open>The control that adds a role is hidden when every role is assigned already.\<close>

definition renderRoles :: "role_editor \<Rightarrow> effect list" where
  "renderRoles E =
     [Call ''inheritanceToolsRoles'' [],
      Dom (if Some (length (editorRoles E)) = countInheritedRoles E then DomHide else DomShow)
        ''.js-assign-role-control'' Null]"

definition renderTemplates :: "role_editor \<Rightarrow> effect list" where
  "renderTemplates E =
     [Call ''inheritanceToolsTemplates'' [],
      Dom (if Some (length (editorTemplates E)) = countInheritedTemplates E then DomHide else DomShow)
        ''.js-assign-template-control'' Null]"

section \<open>The arguments of the API calls\<close>

definition ids_js :: "string list \<Rightarrow> js" where
  "ids_js xs = JArr (map JStr xs)"

definition role_changes :: "string list \<Rightarrow> string list \<Rightarrow> js obj" where
  "role_changes assign unassign =
     (if assign = [] \<and> unassign = [] then []
      else [(''__roles_changes__'',
             JObj ((if assign = [] then [] else [(''assign_roles'', ids_js assign)]) @
                   (if unassign = [] then [] else [(''unassign_roles'', ids_js unassign)])))])"

record role_form =
  rf_name :: string
  rf_description :: string
  rf_tenant :: js

definition role_createElement :: "wat_c \<Rightarrow> role_form \<Rightarrow> role_editor \<Rightarrow> js obj" where
  "role_createElement C f E =
     (let assignTotal = assignRoles E @ assignTemplates E
      in [(''name'', JStr (rf_name f))] @
         (if rf_description f \<noteq> '''' then [(''description'', JStr (rf_description f))] else []) @
         (if isSuperadmin C then [(''tenant_id'', rf_tenant f)] else []) @
         (if acl1 C ''role.update.assign-role'' \<and> assignTotal \<noteq> []
          then [(''__roles__'', ids_js assignTotal)] else []))"

definition role_updateElement :: "wat_c \<Rightarrow> role_form \<Rightarrow> role_editor \<Rightarrow> js obj" where
  "role_updateElement C f E =
     (if acl1 C ''role.update.name'' then [(''name'', JStr (rf_name f))] else []) @
     (if acl1 C ''role.update.description'' then [(''description'', JStr (rf_description f))] else []) @
     (if acl1 C ''role.update.assign-role''
      then role_changes (assignRoles E @ assignTemplates E) (unassignRoles E @ unassignTemplates E)
      else [])"

text \<open>The massive update compares the array itself with 0: the array is turned into the string of
  its elements joined by commas, and that into a number.\<close>

definition array_gt_0 :: "string list \<Rightarrow> bool" where
  "array_gt_0 xs = js_gt (JStr (js_strs (map JStr xs))) 0"

definition role_updateMassiveElement :: "wat_c \<Rightarrow> role_form \<Rightarrow> role_editor \<Rightarrow> js obj" where
  "role_updateMassiveElement C f E =
     (if acl1 C ''role.update.description'' then [(''description'', JStr (rf_description f))] else []) @
     (if acl1 C ''role.update.assign-role'' \<and> array_gt_0 (assignRoles E @ assignTemplates E)
      then [(''__roles_changes__'', JObj [(''assign_roles'', ids_js (assignRoles E @ assignTemplates E))])]
      else [])"

record admin_form =
  af_name :: string
  af_password :: string
  af_password2 :: string
  af_change_password :: bool
  af_description :: string
  af_language :: js
  af_tenant :: js

definition admin_createElement :: "wat_c \<Rightarrow> admin_form \<Rightarrow> role_editor \<Rightarrow> js obj" where
  "admin_createElement C f E =
     [(''name'', JStr (af_name f)), (''password'', JStr (af_password f))] @
     (if af_description f \<noteq> '''' then [(''description'', JStr (af_description f))] else []) @
     (if acl1 C ''administrator.create.language'' then [(''language'', af_language f)] else []) @
     (if isSuperadmin C then [(''tenant_id'', af_tenant f)] else []) @
     (if acl1 C ''administrator.update.assign-role'' \<and> assignRoles E \<noteq> []
      then [(''__roles__'', ids_js (assignRoles E))] else [])"

definition admin_updateElement :: "wat_c \<Rightarrow> admin_form \<Rightarrow> role_editor \<Rightarrow> js obj" where
  "admin_updateElement C f E =
     (if acl1 C ''administrator.update.password'' \<and> af_change_password f \<and>
         af_password f \<noteq> '''' \<and> af_password2 f \<noteq> '''' \<and> af_password f = af_password2 f
      then [(''password'', JStr (af_password f))] else []) @
     (if acl1 C ''administrator.update.language'' then [(''language'', af_language f)] else []) @
     (if acl1 C ''administrator.update.description'' then [(''description'', JStr (af_description f))] else []) @
     (if acl1 C ''administrator.update.assign-role''
      then role_changes (assignRoles E) (unassignRoles E) else [])"

definition admin_updateMassiveElement :: "wat_c \<Rightarrow> bool \<Rightarrow> admin_form \<Rightarrow> role_editor \<Rightarrow> js obj" where
  "admin_updateMassiveElement C changing_description f E =
     (if changing_description \<and> acl1 C ''administrator.update.description''
      then [(''description'', JStr (af_description f))] else []) @
     (if truthy (af_language f) \<and> acl1 C ''administrator.update.language''
      then [(''language'', af_language f)] else []) @
     (if acl1 C ''administrator.update.assign-role''
      then role_changes (assignRoles E) (unassignRoles E) else [])"

section \<open>The editor as an assignment editor\<close>

definition shown_roles :: "role_editor \<Rightarrow> string set" where
  "shown_roles E = er_id ` {r \<in> set (editorRoles E). inherited r}"

definition known_roles :: "role_editor \<Rightarrow> string set" where
  "known_roles E = er_id ` set (editorRoles E)"

definition shown_templates :: "role_editor \<Rightarrow> string set" where
  "shown_templates E = er_id ` {r \<in> snd ` set (editorTemplates E). inherited r}"

definition known_templates :: "role_editor \<Rightarrow> string set" where
  "known_templates E = er_id ` snd ` set (editorTemplates E)"

lemma set_flag_simps [simp]:
  "er_id (set_flag i b r) = er_id r" "inherited (set_flag i b r) = (if er_id r = i then b else inherited r)"
  by (simp_all add: set_flag_def)

lemma flag_on: "er_id ` {r \<in> set_flag i True ` R. inherited r} =
    er_id ` {r \<in> R. inherited r} \<union> ({i} \<inter> er_id ` R)"
  by (auto simp: image_iff split: if_splits) (metis set_flag_simps)+

lemma flag_off: "er_id ` {r \<in> set_flag i False ` R. inherited r} =
    er_id ` {r \<in> R. inherited r} - {i}"
  by (auto simp: image_iff split: if_splits) (metis set_flag_simps)+

lemma snd_flags: "snd ` (\<lambda>(n, t). (n, set_flag i b t)) ` T = set_flag i b ` snd ` T"
  by force

lemma id_flags [simp]: "er_id ` set_flag i b ` R = er_id ` R"
  by (simp add: image_comp)

interpretation roles: assignment_editor assignRoles unassignRoles shown_roles known_roles
  editorAssignRole editorDeleteRole
  by unfold_locales
     (simp_all add: editorAssignRole_def editorDeleteRole_def Let_def splice_Suc_0 shown_roles_def
        known_roles_def flag_on flag_off)

interpretation templates: assignment_editor assignTemplates unassignTemplates shown_templates
  known_templates editorAssignTemplate editorDeleteTemplate
  by unfold_locales
     (simp_all add: editorAssignTemplate_def editorDeleteTemplate_def Let_def splice_Suc_0
        shown_templates_def known_templates_def snd_flags flag_on flag_off)

section \<open>Editing sessions\<close>

text \<open>The select offers the roles that are not inherited, and the delete buttons belong to the
  inherited ones. Roles and templates may be changed in any order.\<close>

inductive role_event :: "role_editor \<Rightarrow> role_editor \<Rightarrow> bool" where
  add_role: "i \<in> known_roles E \<Longrightarrow> i \<notin> shown_roles E \<Longrightarrow> role_event E (editorAssignRole i E)"
| del_role: "i \<in> shown_roles E \<Longrightarrow> role_event E (editorDeleteRole i E)"
| add_template: "i \<in> known_templates E \<Longrightarrow> i \<notin> shown_templates E \<Longrightarrow> role_event E (editorAssignTemplate i E)"
| del_template: "i \<in> shown_templates E \<Longrightarrow> role_event E (editorDeleteTemplate i E)"

inductive_cases role_eventE: "role_event E E'"

lemma frames [simp]:
  "roles.consistent R (editorAssignTemplate i E) = roles.consistent R E"
  "roles.consistent R (editorDeleteTemplate i E) = roles.consistent R E"
  "templates.consistent R (editorAssignRole i E) = templates.consistent R E"
  "templates.consistent R (editorDeleteRole i E) = templates.consistent R E"
  by (simp_all add: roles.consistent_def templates.consistent_def editorAssignTemplate_def
      editorDeleteTemplate_def editorAssignRole_def editorDeleteRole_def Let_def shown_roles_def
      known_roles_def shown_templates_def known_templates_def)

lemma role_event_consistent:
  "role_event E E' \<Longrightarrow> roles.consistent R E \<and> templates.consistent T E \<Longrightarrow>
   roles.consistent R E' \<and> templates.consistent T E'"
  by (auto elim!: role_eventE intro: roles.consistent_assign roles.consistent_delete
      templates.consistent_assign templates.consistent_delete)

lemma role_events_consistent:
  "role_event\<^sup>*\<^sup>* E E' \<Longrightarrow> roles.consistent R E \<and> templates.consistent T E \<Longrightarrow>
   roles.consistent R E' \<and> templates.consistent T E'"
  by (induction rule: rtranclp_induct) (blast dest: role_event_consistent)+

text \<open>The editor as it opens.\<close>

definition opened ::
  "string option \<Rightarrow> string list \<Rightarrow> (string \<times> string) list \<Rightarrow> (string \<times> string) list \<Rightarrow> role_editor \<Rightarrow> role_editor" where
  "opened avoid current rows tmpls E = storeTemplates current tmpls (storeRoles avoid current rows E)"

lemma opened_consistent:
  "roles.consistent (shown_roles (opened a c r t E)) (opened a c r t E) \<and>
   templates.consistent (shown_templates (opened a c r t E)) (opened a c r t E)"
  by (auto simp: roles.consistent_def templates.consistent_def opened_def storeTemplates_def
      storeRoles_def shown_roles_def known_roles_def shown_templates_def known_templates_def)

lemma comma_not_number:
  assumes "CHR '','' \<in> set s"
  shows "str_num s = None"
proof -
  have nd: "digits_num u = None" if "CHR '','' \<in> set u" for u
  proof -
    have "\<not> is_digit (CHR '','')" by (simp add: is_digit_def)
    then have "\<not> list_all is_digit u" using that by (auto simp: list_all_iff)
    then show ?thesis by (simp add: digits_num_def)
  qed
  let ?d = "dropWhile (\<lambda>c. c = CHR '' '')"
  have dw: "CHR '','' \<in> set (?d u)" if "CHR '','' \<in> set u" for u
    using that by (induction u) auto
  have "CHR '','' \<in> set (trim s)"
    using dw [of "rev (?d s)"] dw [OF assms] by (simp add: trim_def)
  then show ?thesis
    using nd by (cases "trim s") (auto simp: str_num_def)
qed

lemma two_ids_not_gt: "length xs \<ge> 2 \<Longrightarrow> \<not> array_gt_0 xs"
proof -
  assume "length xs \<ge> 2"
  then obtain a b r where "xs = a # b # r" by (cases xs; cases "tl xs") auto
  then have "CHR '','' \<in> set (js_strs (map JStr xs))" by (simp add: nullish_def)
  then show ?thesis by (simp add: array_gt_0_def js_gt_def comma_not_number)
qed

section \<open>Properties\<close>

text \<open>C4. What the editor sends is what it shows: after any sequence of assignments and deletions
  in an editor opened on a role, the two lists of the update, applied to the roles that were
  inherited at the start, give exactly the roles shown as inherited; no role is both assigned
  and unassigned, and none is named twice. The same holds of the templates.\<close>

theorem role_editor_sends_shown:
  assumes "role_event\<^sup>*\<^sup>* (opened avoid current rows tmpls E0) E"
  shows "(shown_roles (opened avoid current rows tmpls E0) \<union> set (assignRoles E)) - set (unassignRoles E) =
           shown_roles E \<and>
         (shown_templates (opened avoid current rows tmpls E0) \<union> set (assignTemplates E)) - set (unassignTemplates E) =
           shown_templates E \<and>
         distinct (assignRoles E) \<and> distinct (unassignRoles E) \<and>
         set (assignRoles E) \<inter> set (unassignRoles E) = {} \<and>
         distinct (assignTemplates E) \<and> distinct (unassignTemplates E) \<and>
         set (assignTemplates E) \<inter> set (unassignTemplates E) = {}"
proof -
  from role_events_consistent [OF assms opened_consistent]
  have r: "roles.consistent (shown_roles (opened avoid current rows tmpls E0)) E"
    and t: "templates.consistent (shown_templates (opened avoid current rows tmpls E0)) E" by blast+
  show ?thesis
    using roles.sent_gives_shown [OF r] templates.sent_gives_shown [OF t] r t
    by (auto simp: roles.consistent_def templates.consistent_def)
qed

definition sample_editor :: role_editor where
  "sample_editor = \<lparr> editorRoles = [], assignRoles = [], unassignRoles = [], countInheritedRoles = None,
     editorTemplates = [], assignTemplates = [], unassignTemplates = [], countInheritedTemplates = None \<rparr>"

theorem role_editor_sends_shown_witness:
  "set (assignRoles (editorAssignRole ''2'' (opened None [''1''] [(''1'', ''a''), (''2'', ''b'')] [] sample_editor))) = {''2''} \<and>
   shown_roles (editorAssignRole ''2'' (opened None [''1''] [(''1'', ''a''), (''2'', ''b'')] [] sample_editor)) = {''1'', ''2''}"
proof -
  let ?O = "opened None [''1''] [(''1'', ''a''), (''2'', ''b'')] [] sample_editor"
  have o: "known_roles ?O = {''1'', ''2''}" "shown_roles ?O = {''1''}"
    by (auto simp: opened_def storeTemplates_def storeRoles_def drop_role_def known_roles_def
        shown_roles_def image_iff intro!: exI [of _ "\<lparr>er_id = ''1'', er_name = ''a'', inherited = True\<rparr>"])
  then have "role_event ?O (editorAssignRole ''2'' ?O)" by (intro role_event.add_role) simp_all
  from role_editor_sends_shown [of None "[''1'']" "[(''1'', ''a''), (''2'', ''b'')]" "[]" sample_editor,
      OF r_into_rtranclp [of role_event, OF this]]
  show ?thesis using o
    by (auto simp: editorAssignRole_def opened_def storeTemplates_def storeRoles_def Let_def)
qed

text \<open>A massive update of roles loses the assignments when there are several: with two or
  more roles or templates to assign the arguments hold no change of roles at all, while the
  update of a single role sends them.\<close>

theorem massive_roles_lost:
  assumes "acl1 C ''role.update.assign-role''" and "length (assignRoles E @ assignTemplates E) \<ge> 2"
  shows "''__roles_changes__'' \<notin> fst ` set (role_updateMassiveElement C f E) \<and>
         ''__roles_changes__'' \<in> fst ` set (role_updateElement C f E)"
proof -
  have "\<not> array_gt_0 (assignRoles E @ assignTemplates E)" using assms(2) by (rule two_ids_not_gt)
  moreover have "assignRoles E @ assignTemplates E \<noteq> []" using assms(2) by auto
  ultimately show ?thesis using assms(1)
    by (auto simp: role_updateMassiveElement_def role_updateElement_def role_changes_def)
qed

theorem massive_roles_lost_witness:
  "''__roles_changes__'' \<notin> fst ` set (role_updateMassiveElement
      ((wat_c_init [])\<lparr>C_acls := [''role.update.assign-role'']\<rparr>)
      \<lparr> rf_name = '''', rf_description = '''', rf_tenant = Null \<rparr> (sample_editor\<lparr>assignRoles := [''3'', ''4'']\<rparr>))"
  by (rule massive_roles_lost [THEN conjunct1]) (simp_all add: granted_def sample_editor_def)

end
