(* ===== verification/ListView.thy ===== *)
theory ListView
  imports ViewsConf Requests
begin

text \<open>
  The lists of the panel, \<open>Wat.Views.ListView\<close> (\<open>wat/lib/bb-views/proto-list.js\<close>) with its
  collection (\<open>wat/lib/bb-collections/proto-collection.js\<close>): pages, order, the selected items and
  the actions on them. \<open>ListFilter\<close> adds the filters.

  \<open>srv\<close> stands for the API: \<open>srv off\<close> is the page of ids at the offset \<open>off\<close> (pages count from 1)
  and the total of elements, for the filters and the order of the collection.
\<close>

section \<open>State\<close>

record list_view =
  l_qvdObj :: string
  l_cid :: string
  c_action :: string
  c_offset :: int
  c_block :: int
  c_total :: int
  c_models :: "int list"
  c_filters :: "js obj"
  c_sort :: "string \<times> string"
  sortedBy :: string
  sortedOrder :: string
  selectedItems :: "int list"
  selectedAll :: bool
  l_filters :: "js obj"
  l_initFilters :: "js obj"

type_synonym server = "int \<Rightarrow> int list \<times> int"

definition parse_rows :: "int list \<times> int \<Rightarrow> list_view \<Rightarrow> list_view" where
  "parse_rows resp V = V\<lparr>c_models := fst resp, c_total := snd resp\<rparr>"

text \<open>The address of a page of the list.\<close>

definition getListUrl :: "wat_c \<Rightarrow> list_view \<Rightarrow> string" where
  "getListUrl C V =
     getBaseUrl C '''' @ ''&action='' @ c_action V @ ''&offset='' @ num_str (c_offset V) @
     ''&block='' @ num_str (c_block V) @ ''&filters='' @ json (JObj (c_filters V)) @
     ''&order_by='' @ json (JObj [(''field'', JStr (fst (c_sort V))), (''order'', JStr (snd (c_sort V)))])"

section \<open>Pages\<close>

text \<open>\<open>fetchList\<close>: an empty page other than the first one sends the list to the page before.\<close>

function fetchList :: "server \<Rightarrow> list_view \<Rightarrow> list_view" where
  "fetchList srv V =
     (let V1 = parse_rows (srv (c_offset V)) V
      in if c_offset V1 > 1 \<and> length (c_models V1) = 0
         then fetchList srv (V1\<lparr>c_offset := c_offset V1 - 1\<rparr>) else V1)"
  by pat_completeness auto

termination
  by (relation "measure (\<lambda>(srv, V). nat (c_offset V))") (auto simp: parse_rows_def)

declare fetchList.simps [simp del]

definition totalPages :: "list_view \<Rightarrow> int" where
  "totalPages V = - ((- c_total V) div c_block V)"

text \<open>The buttons that \<open>paginationUpdate\<close> disables, and the texts it writes.\<close>

definition disabled_buttons :: "list_view \<Rightarrow> string list" where
  "disabled_buttons V =
     (if totalPages V \<le> 1 then [''first'', ''prev'', ''next'', ''last'']
      else if c_offset V = 1 then [''first'', ''prev'']
      else if c_offset V = totalPages V then [''next'', ''last''] else [])"

definition shown_pages :: "list_view \<Rightarrow> int" where
  "shown_pages V = (if totalPages V = 0 then 1 else totalPages V)"

definition paginationUpdate :: "list_view \<Rightarrow> effect list" where
  "paginationUpdate V =
     [Dom DomVal ''.js-current-page'' (JNum (if c_offset V = 0 then 1 else c_offset V)),
      Dom DomHtml ''.pagination_total_pages'' (JNum (shown_pages V)),
      Dom DomRemoveClass ''.pagination a'' (JStr ''disabled'')] @
     map (\<lambda>b. Dom DomAddClass (''.pagination a.'' @ b) (JStr ''disabled'')) (disabled_buttons V)"

definition paginationMove :: "server \<Rightarrow> string list \<Rightarrow> string \<Rightarrow> list_view \<Rightarrow> list_view" where
  "paginationMove srv disabled dir V =
     (if dir \<in> set disabled then V
      else if dir \<in> set [''first'', ''prev''] \<and> c_offset V = 1 then V
      else if dir \<in> set [''next'', ''last''] \<and> c_offset V = totalPages V then V
      else
        (let off = (if dir = ''first'' then 1
                    else if dir = ''prev'' then c_offset V - 1
                    else if dir = ''next'' then c_offset V + 1
                    else if dir = ''last'' then totalPages V else c_offset V)
         in fetchList srv (V\<lparr>c_offset := off\<rparr>)))"

definition paginationFirst :: "server \<Rightarrow> string list \<Rightarrow> list_view \<Rightarrow> list_view" where
  "paginationFirst srv dis V = paginationMove srv dis ''first'' V"
definition paginationPrev :: "server \<Rightarrow> string list \<Rightarrow> list_view \<Rightarrow> list_view" where
  "paginationPrev srv dis V = paginationMove srv dis ''prev'' V"
definition paginationNext :: "server \<Rightarrow> string list \<Rightarrow> list_view \<Rightarrow> list_view" where
  "paginationNext srv dis V = paginationMove srv dis ''next'' V"
definition paginationLast :: "server \<Rightarrow> string list \<Rightarrow> list_view \<Rightarrow> list_view" where
  "paginationLast srv dis V = paginationMove srv dis ''last'' V"

text \<open>The page number box: what is typed, and the enter key. \<open>None\<close> is a text that is not a number.\<close>

definition typePage :: "string \<Rightarrow> list_view \<Rightarrow> js option" where
  "typePage txt V =
     (if txt = '''' then None
      else (case parseInt (JStr txt) of
              Some n \<Rightarrow> if n \<noteq> 0 then Some (JNum n) else None
            | None \<Rightarrow> Some (JNum (c_offset V))))"

definition pressPage :: "server \<Rightarrow> int \<Rightarrow> string \<Rightarrow> int \<Rightarrow> list_view \<Rightarrow> list_view" where
  "pressPage srv keyCode txt shown V =
     (let n = map_option (\<lambda>n. if n > shown then shown else if n \<le> 1 then 1 else n) (parseInt (JStr txt))
      in if keyCode = 13
         then (case n of
                 Some m \<Rightarrow> if m \<noteq> 0 \<and> c_offset V \<noteq> m then fetchList srv (V\<lparr>c_offset := m\<rparr>) else V
               | None \<Rightarrow> V)
         else V)"

section \<open>Order\<close>

definition sort_list :: "server \<Rightarrow> string list \<Rightarrow> string \<Rightarrow> list_view \<Rightarrow> list_view" where
  "sort_list srv dis field V =
     (let order = (if field \<noteq> sortedBy V \<or> sortedOrder V = ''-desc'' then ''-asc'' else ''-desc'');
          V1 = V\<lparr>sortedOrder := order, sortedBy := field, c_sort := (field, order)\<rparr>
      in if c_offset V1 \<noteq> 1 then paginationFirst srv dis V1 else fetchList srv V1)"

section \<open>Selection\<close>

definition resetSelectedItems :: "list_view \<Rightarrow> list_view \<times> effect list" where
  "resetSelectedItems V =
     (V\<lparr>selectedAll := False, selectedItems := []\<rparr>,
      (if length (selectedItems V) > 0 then [Call ''hideSelectedItemsMenu'' []] else []) @
      [Dom (DomProp ''checked'') ''.js-check-it'' (JBool False), Dom (DomProp ''checked'') ''.check_all'' (JBool False)])"

definition checkOne :: "int \<Rightarrow> bool \<Rightarrow> list_view \<Rightarrow> list_view" where
  "checkOne item checked V =
     (let V1 = (if checked then V\<lparr>selectedItems := selectedItems V @ [item]\<rparr>
                else V\<lparr>selectedItems := splice (selectedItems V) (inArray item (selectedItems V)) 1\<rparr>)
      in V1\<lparr>selectedAll := (int (length (selectedItems V1)) = c_total V1)\<rparr>)"

text \<open>\<open>checkAll\<close>: the rows of the page are \<open>c_models\<close>; when there are more elements than rows a dialog
  asks which to take, and the answer \<open>Select all\<close> asks the API for every id.\<close>

datatype check_choice = OnlyVisible | SelectEvery | NoChoice

definition checkAll :: "bool \<Rightarrow> check_choice \<Rightarrow> list_view \<Rightarrow> list_view \<times> effect list" where
  "checkAll checked choice V =
     (if checked then
        (if c_total V > int (length (c_models V)) then
           (case choice of
              OnlyVisible \<Rightarrow> (V\<lparr>selectedItems := c_models V\<rparr>, [CloseDialog])
            | SelectEvery \<Rightarrow> (V, [Api (l_qvdObj V @ ''_get_list'') (JObj []) (JObj (c_filters V)) ''storeAllSelectedIds''])
            | NoChoice \<Rightarrow> (V, [OpenDialog ''selectChecks'']))
         else (V\<lparr>selectedItems := c_models V\<rparr>, []))
      else resetSelectedItems V)"

definition maxSelectableItems :: nat where "maxSelectableItems = 2000"

definition storeAllSelectedIds :: "int list \<Rightarrow> list_view \<Rightarrow> list_view" where
  "storeAllSelectedIds rows V =
     V\<lparr>selectedItems := (if length rows > maxSelectableItems then take maxSelectableItems rows else rows),
       selectedAll := True\<rparr>"

section \<open>Actions on the selected items\<close>

definition ids_filter :: "int list \<Rightarrow> js" where
  "ids_filter xs = JObj [(''id'', JArr (map JNum xs))]"

definition applyDelete :: "js \<Rightarrow> list_view \<Rightarrow> list_view \<times> effect list" where
  "applyDelete filters V =
     (let (V1, e) = resetSelectedItems V in (V1, e @ [Api (l_qvdObj V @ ''_delete'') (JObj []) filters ''fetchList'']))"

definition applyBlock :: "js \<Rightarrow> list_view \<Rightarrow> list_view \<times> effect list" where
  "applyBlock filters V =
     (let (V1, e) = resetSelectedItems V
      in (V1, e @ [Api (l_qvdObj V @ ''_update'') (JObj [(''blocked'', JNum 1)]) filters ''fetchList'']))"

definition applyUnblock :: "js \<Rightarrow> list_view \<Rightarrow> list_view \<times> effect list" where
  "applyUnblock filters V =
     (let (V1, e) = resetSelectedItems V
      in (V1, e @ [Api (l_qvdObj V @ ''_update'') (JObj [(''blocked'', JNum 0)]) filters ''fetchList'']))"

definition out_of_view :: "list_view \<Rightarrow> bool" where
  "out_of_view V \<longleftrightarrow>
     c_block V < int (length (selectedItems V)) \<or> (\<exists>i\<in>set (selectedItems V). i \<notin> set (c_models V))"

text \<open>The actions that belong to one kind of list (start, stop, disconnect and the like) are calls of
  the view. \<open>act\<close> is the function an action runs.\<close>

definition action_call :: "string \<Rightarrow> js \<Rightarrow> list_view \<Rightarrow> list_view \<times> effect list" where
  "action_call act filters V =
     (if act = ''applyDelete'' then applyDelete filters V
      else if act = ''applyBlock'' then applyBlock filters V
      else if act = ''applyUnblock'' then applyUnblock filters V
      else (V, [Call act [filters]]))"

definition guarded_actions :: "(string \<times> string) list" where
  "guarded_actions =
     [(''block'', ''applyBlock''), (''unblock'', ''applyUnblock''),
      (''massive_changes'', ''openMassiveChangesDialog''), (''changes'', ''openMassiveChangesDialog''),
      (''start'', ''applyStart''), (''stop'', ''applyStop''), (''disconnect'', ''applyDisconnect''),
      (''stop_all'', ''applyStopAll''), (''disconnect_all'', ''applyDisconnectAll'')]"

definition direct_actions :: "(string \<times> string) list" where
  "direct_actions =
     [(''default'', ''applyDefault''), (''publish'', ''applyPublish''), (''spy'', ''spyVM''),
      (''new_osf_di'', ''openNewElementDialog'')]"

definition undone_actions :: "(string \<times> string) list" where
  "undone_actions = [(''delete'', ''applyDelete''), (''delete_acl'', ''applyDeleteACL'')]"

text \<open>\<open>applySelectedAction\<close> on the view the action belongs to; \<open>accept\<close> is the answer to a
  confirmation dialog.\<close>

definition applySelectedAction :: "bool \<Rightarrow> string \<Rightarrow> list_view \<Rightarrow> list_view \<times> effect list" where
  "applySelectedAction accept action V =
     (if length (selectedItems V) = 0
      then (V, [ShowMessage (JStr ''No items were selected - Nothing to do'') MsgInfo])
      else
        (let filters = ids_filter (selectedItems V);
             outOfView = out_of_view V;
             big = length (selectedItems V) > 100;
             e0 = (if big \<and> \<not> outOfView then [Call ''loadingBlock'' []] else []);
             ask = (\<lambda>tpl f. if accept
                            then (let (V1, e) = action_call f filters V
                                  in (V1, e0 @ [Confirm tpl f True] @ (if big then [Call ''loadingBlock'' []] else []) @ e))
                            else (V, e0 @ [Confirm tpl f False]));
             now = (\<lambda>f. let (V1, e) = action_call f filters V in (V1, e0 @ e))
         in case map_of undone_actions action of
              Some f \<Rightarrow> ask ''dialog/confirm-undone'' f
            | None \<Rightarrow>
                (case map_of guarded_actions action of
                   Some f \<Rightarrow> if outOfView then ask ''dialog/confirm-out-of-view'' f else now f
                 | None \<Rightarrow>
                     (case map_of direct_actions action of
                        Some f \<Rightarrow> now f
                      | None \<Rightarrow> (V, e0)))))"

text \<open>Which action buttons are shown for a selection. A condition is a field compared
  (\<open>eq\<close> or \<open>ne\<close>) with values, of which one or all have to match.\<close>

record vis_cond =
  vc_ne :: bool
  vc_field :: string
  vc_values :: "string list"
  vc_all :: bool

definition vis_matches :: "(string \<Rightarrow> js) \<Rightarrow> vis_cond \<Rightarrow> bool" where
  "vis_matches m c =
     (let matches = length (filter (\<lambda>v. loose_eq (m (vc_field c)) (JStr v) \<noteq> vc_ne c) (vc_values c))
      in matches \<ge> (if vc_all c then length (vc_values c) else 1))"

fun vis_loop :: "(int \<Rightarrow> (string \<Rightarrow> js) option) \<Rightarrow> vis_cond \<Rightarrow> int list \<Rightarrow> bool \<Rightarrow> bool" where
  "vis_loop model c [] positive = positive"
| "vis_loop model c (i # is) positive =
     (case model i of
        None \<Rightarrow> True
      | Some m \<Rightarrow> vis_loop model c is (positive \<or> vis_matches m c))"

definition button_visible :: "(int \<Rightarrow> (string \<Rightarrow> js) option) \<Rightarrow> vis_cond \<Rightarrow> list_view \<Rightarrow> bool" where
  "button_visible model c V = vis_loop model c (selectedItems V) False"

definition updateSelectedItemsMenu :: "list_view \<Rightarrow> effect list" where
  "updateSelectedItemsMenu V =
     (if length (selectedItems V) = 0 then [Call ''hideSelectedItemsMenu'' []]
      else [Call ''showSelectedItemsMenu'' [], Call ''applyVisibilityConditions'' []] @
           [Dom DomHide (if length (selectedItems V) = 1 then ''.js-only-massive'' else ''.js-only-one'') Null]) @
     [Dom DomHtml ''.elements-selected'' (JNum (int (length (selectedItems V))))]"

section \<open>Lemmas on pages\<close>

text \<open>A server that pages a list of ids.\<close>

definition paged :: "int \<Rightarrow> int list \<Rightarrow> server \<Rightarrow> bool" where
  "paged block items srv \<longleftrightarrow>
     (\<forall>off\<ge>1. srv off = (take (nat block) (drop (nat ((off - 1) * block)) items), int (length items)))"

definition pages_of :: "int \<Rightarrow> int list \<Rightarrow> int" where
  "pages_of block items = - ((- int (length items)) div block)"

lemma le_div_iff:
  assumes "0 < (b::int)"
  shows "c \<le> a div b \<longleftrightarrow> c * b \<le> a"
proof
  assume "c \<le> a div b"
  then have "c * b \<le> (a div b) * b" using assms by simp
  also have "\<dots> \<le> a" using div_mult_mod_eq [of a b] assms pos_mod_sign [of b a] by linarith
  finally show "c * b \<le> a" .
next
  assume "c * b \<le> a"
  from zdiv_mono1 [OF this assms] show "c \<le> a div b" using assms by simp
qed

lemma page_nonempty_iff:
  assumes "0 < b"
  shows "off \<le> pages_of b items \<longleftrightarrow> (off - 1) * b < int (length items)"
proof -
  have "off \<le> pages_of b items \<longleftrightarrow> \<not> 1 - off \<le> (- int (length items)) div b"
    by (auto simp: pages_of_def)
  also have "\<dots> \<longleftrightarrow> \<not> (1 - off) * b \<le> - int (length items)" using assms by (simp add: le_div_iff)
  also have "\<dots> \<longleftrightarrow> (off - 1) * b < int (length items)" by (auto simp: algebra_simps)
  finally show ?thesis .
qed

lemma page_empty:
  assumes "0 < b" and "1 \<le> off"
  shows "take (nat b) (drop (nat ((off - 1) * b)) items) = [] \<longleftrightarrow> pages_of b items < off"
proof -
  define n where "n = nat ((off - 1) * b)"
  have n: "int n = (off - 1) * b" using assms by (simp add: n_def)
  have "take (nat b) (drop n items) = [] \<longleftrightarrow> \<not> int n < int (length items)" using assms(1) by auto
  also have "\<dots> \<longleftrightarrow> \<not> off \<le> pages_of b items" using page_nonempty_iff [OF assms(1), of off items] n by simp
  finally show ?thesis unfolding n_def by (simp add: not_le)
qed

lemma pages_of_Nil [simp]: "pages_of b [] = 0"
  by (simp add: pages_of_def)

lemma fetchList_page:
  assumes "paged (c_block V) items srv" and "0 < c_block V" and "1 \<le> c_offset V"
  shows "fetchList srv V =
           (let off = min (c_offset V) (max 1 (pages_of (c_block V) items))
            in V\<lparr>c_offset := off, c_models := fst (srv off), c_total := int (length items)\<rparr>)"
  using assms
proof (induction srv V rule: fetchList.induct)
  case (1 srv V)
  let ?p = "pages_of (c_block V) items"
  have s: "srv (c_offset V) = (take (nat (c_block V)) (drop (nat ((c_offset V - 1) * c_block V)) items), int (length items))"
    using 1(2,4) by (simp add: paged_def)
  have e: "fst (srv (c_offset V)) = [] \<longleftrightarrow> ?p < c_offset V"
    using page_empty [OF 1(3,4), of items] s by simp
  show ?case
  proof (cases "1 < c_offset V \<and> ?p < c_offset V")
    case True
    let ?W = "(parse_rows (srv (c_offset V)) V)\<lparr>c_offset := c_offset V - 1\<rparr>"
    have "fetchList srv V = fetchList srv ?W"
      using True e by (subst fetchList.simps) (simp add: parse_rows_def)
    also have "\<dots> = (let off = min (c_offset ?W) (max 1 (pages_of (c_block ?W) items))
            in ?W\<lparr>c_offset := off, c_models := fst (srv off), c_total := int (length items)\<rparr>)"
      using 1 True e by (simp add: parse_rows_def)
    also have "min (c_offset ?W) (max 1 (pages_of (c_block ?W) items)) = min (c_offset V) (max 1 ?p)"
      using True by (simp add: parse_rows_def min_def max_def)
    finally show ?thesis using s by (simp add: parse_rows_def Let_def)
  next
    case False
    then have m: "min (c_offset V) (max 1 ?p) = c_offset V" using 1(4) by (auto simp: min_def max_def)
    show ?thesis using False e s by (subst fetchList.simps) (auto simp: parse_rows_def Let_def m)
  qed
qed

text \<open>The page the view is on exists.\<close>

definition page_ok :: "list_view \<Rightarrow> bool" where
  "page_ok V \<longleftrightarrow> 0 < c_block V \<and> 1 \<le> c_offset V \<and> c_offset V \<le> max 1 (totalPages V) \<and>
                 0 \<le> c_total V \<and> (c_models V = [] \<longrightarrow> c_total V = 0)"

lemma fetchList_ok:
  assumes "paged (c_block V) items srv" and "0 < c_block V" and "1 \<le> c_offset V"
  shows "page_ok (fetchList srv V)"
proof -
  let ?p = "pages_of (c_block V) items"
  let ?off = "min (c_offset V) (max 1 ?p)"
  have o: "1 \<le> ?off" using assms(3) by simp
  have "fst (srv ?off) = [] \<Longrightarrow> items = []"
  proof (rule ccontr)
    assume e: "fst (srv ?off) = []" and "items \<noteq> []"
    then have "1 \<le> ?p" using page_nonempty_iff [OF assms(2), of 1 items] by simp
    then have "?off \<le> ?p" by simp
    then show False using e page_empty [OF assms(2) o, of items] assms(1) o by (simp add: paged_def)
  qed
  moreover have "totalPages (fetchList srv V) = ?p"
    by (simp add: fetchList_page [OF assms] Let_def totalPages_def pages_of_def)
  moreover have "?off \<le> max 1 ?p" by simp
  moreover have "fetchList srv V = V\<lparr>c_offset := ?off, c_models := fst (srv ?off), c_total := int (length items)\<rparr>"
    by (simp add: fetchList_page [OF assms] Let_def)
  ultimately show ?thesis using assms(2) o unfolding page_ok_def by simp
qed

text \<open>The events of the pagination bar and of the column headers. The elements of the list may
  change between two events.\<close>

inductive page_event :: "list_view \<Rightarrow> list_view \<Rightarrow> bool" where
  move: "paged (c_block V) items srv \<Longrightarrow> dir \<in> {''first'', ''prev'', ''next'', ''last''} \<Longrightarrow>
         page_event V (paginationMove srv (disabled_buttons V) dir V)"
| press: "paged (c_block V) items srv \<Longrightarrow> page_event V (pressPage srv key txt (shown_pages V) V)"
| header: "paged (c_block V) items srv \<Longrightarrow> page_event V (sort_list srv (disabled_buttons V) field V)"

inductive_cases page_eventE: "page_event V V'"

lemma move_ok:
  assumes "page_ok V" and "paged (c_block V) items srv" and "dir \<in> {''first'', ''prev'', ''next'', ''last''}"
  shows "page_ok (paginationMove srv (disabled_buttons V) dir V)"
proof (cases "paginationMove srv (disabled_buttons V) dir V = V")
  case False
  then have t: "totalPages V > 1" using assms(3)
    by (auto simp: paginationMove_def disabled_buttons_def split: if_splits)
  have f: "page_ok (fetchList srv (V\<lparr>c_offset := n\<rparr>))" if "1 \<le> n" for n
    using fetchList_ok [of "V\<lparr>c_offset := n\<rparr>" items srv] assms(1,2) that by (simp add: page_ok_def)
  show ?thesis
    using assms False t
    by (auto simp: paginationMove_def Let_def page_ok_def [of V] intro!: f split: if_splits)
qed (use assms in simp)


lemma totalPages_nonneg: "page_ok V \<Longrightarrow> 0 \<le> totalPages V"
  by (auto simp: page_ok_def totalPages_def div_nonpos_pos_le0)

lemma press_ok:
  assumes "page_ok V" and "paged (c_block V) items srv"
  shows "page_ok (pressPage srv key txt (shown_pages V) V)"
proof -
  have s: "1 \<le> shown_pages V" using totalPages_nonneg [OF assms(1)] by (auto simp: shown_pages_def)
  have f: "page_ok (fetchList srv (V\<lparr>c_offset := n\<rparr>))" if "1 \<le> n" for n
    using fetchList_ok [of "V\<lparr>c_offset := n\<rparr>" items srv] assms that by (simp add: page_ok_def)
  show ?thesis using assms(1) s
    by (auto simp: pressPage_def Let_def intro!: f split: option.splits)
qed

lemma sort_ok:
  assumes "page_ok V" and "paged (c_block V) items srv"
  shows "page_ok (sort_list srv (disabled_buttons V) field V)"
proof -
  define order where "order = (if field \<noteq> sortedBy V \<or> sortedOrder V = ''-desc'' then ''-asc'' else ''-desc'')"
  let ?W = "V\<lparr>sortedOrder := order, sortedBy := field, c_sort := (field, order)\<rparr>"
  have d: "disabled_buttons ?W = disabled_buttons V" by (simp add: disabled_buttons_def totalPages_def)
  have w: "page_ok ?W" using assms(1) by (simp add: page_ok_def totalPages_def)
  then have "page_ok (fetchList srv ?W)"
    using fetchList_ok [of ?W items srv] assms(2) by (simp add: page_ok_def)
  moreover have "page_ok (paginationMove srv (disabled_buttons V) ''first'' ?W)"
    using move_ok [OF w, of items srv "''first''"] assms(2) d by simp
  moreover have "sort_list srv (disabled_buttons V) field V =
      (if c_offset V \<noteq> 1 then paginationMove srv (disabled_buttons V) ''first'' ?W else fetchList srv ?W)"
    unfolding sort_list_def Let_def paginationFirst_def order_def [symmetric] by simp
  ultimately show ?thesis by simp
qed

lemma page_event_ok: "page_event V V' \<Longrightarrow> page_ok V \<Longrightarrow> page_ok V'"
  by (auto elim!: page_eventE intro: move_ok press_ok sort_ok)

section \<open>Properties\<close>

text \<open>C12. Fetching a page ends on a page that exists: with a server that pages a list of elements,
  \<open>fetchList\<close> from page \<open>n\<close> ends on page \<open>n\<close> or, when there are fewer pages, on the last one (the
  first one for an empty list), with the elements of that page.\<close>

theorem fetchList_lands:
  assumes "paged (c_block V) items srv" and "0 < c_block V" and "1 \<le> c_offset V"
  shows "c_offset (fetchList srv V) = min (c_offset V) (max 1 (totalPages (fetchList srv V))) \<and>
         c_models (fetchList srv V) =
           take (nat (c_block V)) (drop (nat ((c_offset (fetchList srv V) - 1) * c_block V)) items) \<and>
         (items \<noteq> [] \<longrightarrow> c_models (fetchList srv V) \<noteq> [])"
proof -
  have "page_ok (fetchList srv V)" by (rule fetchList_ok [OF assms])
  moreover have "totalPages (fetchList srv V) = pages_of (c_block V) items"
    by (simp add: fetchList_page [OF assms] Let_def totalPages_def pages_of_def)
  moreover have "1 \<le> min (c_offset V) (max 1 (pages_of (c_block V) items))" using assms(3) by simp
  ultimately show ?thesis using assms(1)
    by (auto simp: fetchList_page [OF assms] Let_def page_ok_def paged_def)
qed

definition sample_list :: list_view where
  "sample_list = \<lparr> l_qvdObj = ''vm'', l_cid = ''v1'', c_action = ''vm_get_list'', c_offset = 1, c_block = 2,
     c_total = 0, c_models = [], c_filters = [], c_sort = (''id'', ''-desc''), sortedBy = '''',
     sortedOrder = '''', selectedItems = [], selectedAll = False, l_filters = [], l_initFilters = [] \<rparr>"

definition sample_server :: "int list \<Rightarrow> server" where
  "sample_server items off = (take 2 (drop (nat ((off - 1) * 2)) items), int (length items))"

lemma sample_server_paged: "paged 2 items (sample_server items)"
  by (simp add: paged_def sample_server_def)

theorem fetchList_lands_witness:
  "c_offset (fetchList (sample_server [5, 6, 7]) (sample_list\<lparr>c_offset := 9\<rparr>)) = 2 \<and>
   c_models (fetchList (sample_server [5, 6, 7]) (sample_list\<lparr>c_offset := 9\<rparr>)) = [7]"
proof -
  let ?V = "sample_list\<lparr>c_offset := 9\<rparr>"
  have p: "paged (c_block ?V) [5, 6, 7] (sample_server [5, 6, 7])"
    using sample_server_paged by (simp add: sample_list_def)
  have "totalPages (fetchList (sample_server [5, 6, 7]) ?V) = 2"
    using fetchList_page [OF p] by (simp add: sample_list_def totalPages_def Let_def)
  then show ?thesis using fetchList_lands [OF p] by (simp add: sample_list_def)
qed

text \<open>C3. Whatever the administrator does with the pagination bar, the page box and the column
  headers, and however the list changes meanwhile, the view is on an existing page: between 1
  and the number of pages, with rows unless the list is empty.\<close>

theorem pagination_in_range:
  assumes "page_event\<^sup>*\<^sup>* V0 V" and "page_ok V0"
  shows "1 \<le> c_offset V \<and> c_offset V \<le> max 1 (totalPages V) \<and> (c_models V = [] \<longrightarrow> c_total V = 0)"
proof -
  from assms have "page_ok V" by (induction rule: rtranclp_induct) (auto intro: page_event_ok)
  then show ?thesis by (simp add: page_ok_def)
qed

theorem pagination_in_range_witness:
  "c_offset (paginationMove (sample_server [5, 6, 7]) [] ''next''
      (sample_list\<lparr>c_models := [5, 6], c_total := 3\<rparr>)) = 2 \<and>
   1 \<le> c_offset (paginationMove (sample_server [5, 6, 7]) [''first'', ''prev''] ''next''
      (sample_list\<lparr>c_models := [5, 6], c_total := 3\<rparr>))"
proof -
  let ?W = "sample_list\<lparr>c_models := [5, 6], c_total := 3\<rparr>"
  have d: "disabled_buttons ?W = [''first'', ''prev'']" by (simp add: disabled_buttons_def totalPages_def sample_list_def)
  have p: "paged (c_block ?W) [5, 6, 7] (sample_server [5, 6, 7])"
    using sample_server_paged by (simp add: sample_list_def)
  have "page_event ?W (paginationMove (sample_server [5, 6, 7]) (disabled_buttons ?W) ''next'' ?W)"
    by (rule page_event.move [OF p]) simp
  from pagination_in_range [OF r_into_rtranclp [of page_event, OF this]]
  have "1 \<le> c_offset (paginationMove (sample_server [5, 6, 7]) [''first'', ''prev''] ''next'' ?W)"
    unfolding d by (simp add: page_ok_def sample_list_def totalPages_def)
  moreover have "c_offset (paginationMove (sample_server [5, 6, 7]) [] ''next'' ?W) = 2"
    using fetchList_page [of "?W\<lparr>c_offset := 2\<rparr>" "[5, 6, 7]" "sample_server [5, 6, 7]"] p
    by (simp add: paginationMove_def sample_list_def totalPages_def pages_of_def Let_def)
  ultimately show ?thesis by blast
qed

text \<open>A row can be unchecked although it is not among the selected items: selecting every
  element of a list with more than 2000 elements keeps the first 2000. Unchecking a selected row
  removes exactly that row; unchecking another one removes the last selected item instead.\<close>

theorem checkOne_uncheck:
  assumes "distinct (selectedItems V)"
  shows "selectedItems (checkOne i False V) =
           (if i \<in> set (selectedItems V) then filter (\<lambda>j. j \<noteq> i) (selectedItems V)
            else butlast (selectedItems V)) \<and>
         selectedAll (checkOne i False V) =
           (int (length (selectedItems (checkOne i False V))) = c_total V)"
proof (cases "i \<in> set (selectedItems V)")
  case True
  then show ?thesis using assms
    by (simp add: checkOne_def Let_def splice_Suc_0 distinct_remove1_removeAll removeAll_filter_not_eq)
      (metis (mono_tags, lifting) filter_cong)
next
  case False
  then have "inArray i (selectedItems V) = -1" by simp
  then show ?thesis using False splice_neg_one [of "selectedItems V"]
    by (simp add: checkOne_def Let_def del: inArray_eq_neg)
qed

theorem checkOne_uncheck_witness:
  "selectedItems (checkOne 2001 False (storeAllSelectedIds (map int [1..<2003]) sample_list)) =
   map int [1..<2000]"
proof -
  let ?V = "storeAllSelectedIds (map int [1..<2003]) sample_list"
  have s: "selectedItems ?V = map int [1..<2001]"
    by (simp add: storeAllSelectedIds_def maxSelectableItems_def take_map)
  have "distinct (selectedItems ?V)" unfolding s by (simp add: distinct_map)
  from checkOne_uncheck [OF this, of 2001]
  have "selectedItems (checkOne 2001 False ?V) = butlast (map int [1..<2001])"
    unfolding s by (auto simp: image_iff)
  also have "[1..<2001::nat] = [1..<2000] @ [2000]" using upt_Suc_append [of 1 2000] by simp
  also have "butlast (map int ([1..<2000] @ [2000])) = map int [1..<2000]" by simp
  finally show ?thesis .
qed

lemma action_call_api:
  "Api a args f cb \<in> set (snd (action_call act filters V)) \<Longrightarrow>
   f = filters \<and> selectedItems (fst (action_call act filters V)) = []"
  by (auto simp: action_call_def applyDelete_def applyBlock_def applyUnblock_def resetSelectedItems_def
           split: if_splits)

lemma direct_no_api:
  "map_of direct_actions action = Some g \<Longrightarrow> Api a args f cb \<notin> set (snd (action_call g filters V))"
  by (auto simp: direct_actions_def action_call_def split: if_splits)



end
