(* ===== verification/ListFilter.thy ===== *)
theory ListFilter
  imports ListView
begin

text \<open>
  The filters and the columns of a list (\<open>wat/lib/bb-views/proto-list.js\<close>): which ones an
  administrator gets (\<open>setFilters\<close>, \<open>setColumns\<close>), and how the values of the filter controls become
  the filters of the collection (\<open>filter\<close>).

  \<open>rel\<close> is \<open>Wat.U.getRelativeDate\<close>, the date that is a number of seconds away from now; \<open>None\<close>
  is a text that is not a number.
\<close>

section \<open>Filters and columns of the administrator\<close>

definition QVD_OBJS_CLASSIFIED_BY_TENANT :: "string list" where
  "QVD_OBJS_CLASSIFIED_BY_TENANT =
     [''user'', ''vm'', ''osf'', ''di'', ''administrator'', ''log'', ''role'', ''property'']"

definition tenant_filter_conf :: filter_conf where
  "tenant_filter_conf =
     \<lparr> groupAcls = None, itemAcls = None, aclsLogic = None, filterField = ''tenant_id'', ftype = ''select'',
       ftext = ''Tenant'', f_noTranslatable = False, f_property = Undef, f_property_id = Undef,
       displayMobile = JBool True, displayDesktop = JBool True, transform = None, f_customized = False \<rparr>"

definition tenant_column_conf :: col_conf where
  "tenant_column_conf =
     \<lparr> groupAcls = None, itemAcls = None, aclsLogic = None, display = Undef, col_fields = [],
       col_text = ''Tenant'', col_noTranslatable = True, col_property = Undef, col_property_id = Undef,
       col_customized = False \<rparr>"

definition shows_tenant :: "wat_c \<Rightarrow> string \<Rightarrow> bool" where
  "shows_tenant C q \<longleftrightarrow> isSuperadmin C \<and> inArray q QVD_OBJS_CLASSIFIED_BY_TENANT \<noteq> -1"

definition setFilters :: "wat_c \<Rightarrow> wat_i \<Rightarrow> string \<Rightarrow> filter_conf obj" where
  "setFilters C I q =
     (let fs = purgeConfigData C (getFormFilters I q)
      in if shows_tenant C q then jq_extend [(''tenant'', tenant_filter_conf)] fs else fs)"

definition setColumns :: "wat_c \<Rightarrow> wat_i \<Rightarrow> string \<Rightarrow> col_conf obj" where
  "setColumns C I q =
     (let cs = purgeConfigData C (getListColumns I q)
      in if shows_tenant C q then AList.update ''tenant'' tenant_column_conf cs else cs)"

section \<open>From the controls to the filters\<close>

text \<open>A filter control: the field of the API it filters on, its value, and whether the selected
  option is a negated one.\<close>

record filter_ctl =
  ct_field :: string
  ct_val :: js
  ct_not :: bool

definition is_blank :: "filter_conf \<Rightarrow> filter_ctl \<Rightarrow> bool" where
  "is_blank f c =
     (if ftype f = ''select'' then loose_eq (ct_val c) (JNum FILTER_ALL) \<or> nullish (ct_val c)
      else loose_eq (ct_val c) (JStr '''') \<or> nullish (ct_val c))"

definition select_filter :: "(int option \<Rightarrow> js) \<Rightarrow> filter_conf \<Rightarrow> filter_ctl \<Rightarrow> js option" where
  "select_filter rel f c =
     (if ct_not c then Some (JObj [(''!='', ct_val c)])
      else
        (case transform f of
           None \<Rightarrow> Some (ct_val c)
         | Some t \<Rightarrow>
             (if t = ''dateLessThanPast'' then Some (JObj [(''<'', rel (map_option uminus (js_num (ct_val c))))])
              else if t = ''dateGreatThanPast'' then Some (JObj [(''>'', rel (map_option uminus (js_num (ct_val c))))])
              else if t = ''dateLessThanFuture'' then Some (JObj [(''<'', rel (js_num (ct_val c)))])
              else if t = ''dateGreatThanFuture'' then Some (JObj [(''>'', rel (js_num (ct_val c)))])
              else None)))"

text \<open>A bound of a date range, and the merge of two bounds into \<open>-between\<close>. A value that is not
  an object takes no properties.\<close>

definition merge_between :: "js obj \<Rightarrow> js obj" where
  "merge_between ob =
     (case (map_of ob ''<='', map_of ob ''>='') of
        (Some hi, Some lo) \<Rightarrow>
          AList.delete ''<='' (AList.delete ''>='' (AList.update ''-between'' (JArr [lo, hi]) ob))
      | _ \<Rightarrow> ob)"

definition date_bound :: "string \<Rightarrow> string \<Rightarrow> js \<Rightarrow> js option \<Rightarrow> js" where
  "date_bound op_name suffix v old =
     (case old of
        Some (JObj ob) \<Rightarrow> JObj (merge_between (AList.update op_name (JStr (js_str v @ suffix)) ob))
      | None \<Rightarrow> JObj (merge_between [(op_name, JStr (js_str v @ suffix))])
      | Some w \<Rightarrow> if nullish w then JObj (merge_between [(op_name, JStr (js_str v @ suffix))]) else w)"

definition add_filter :: "(int option \<Rightarrow> js) \<Rightarrow> filter_conf \<Rightarrow> filter_ctl \<Rightarrow> js obj \<Rightarrow> js obj" where
  "add_filter rel f c fs =
     (if is_blank f c then fs
      else if ftype f = ''select'' then
        (case select_filter rel f c of Some v \<Rightarrow> AList.update (ct_field c) v fs | None \<Rightarrow> fs)
      else if ftype f = ''text'' then
        (case transform f of
           None \<Rightarrow> AList.update (ct_field c) (JObj [(''~'', JStr (''%'' @ js_str (ct_val c) @ ''%''))]) fs
         | Some t \<Rightarrow>
             (if t = ''dateMin''
              then AList.update (ct_field c) (date_bound ''>='' '' 00:00:00'' (ct_val c) (map_of fs (ct_field c))) fs
              else if t = ''dateMax''
              then AList.update (ct_field c) (date_bound ''<='' '' 23:59:59'' (ct_val c) (map_of fs (ct_field c))) fs
              else fs))
      else fs)"

text \<open>The loop: a field with a control is taken out of the initial filters, whatever its value.\<close>

definition drop_init :: "string \<Rightarrow> js obj \<Rightarrow> js obj" where
  "drop_init field init =
     (case map_of init field of Some v \<Rightarrow> if truthy v then AList.delete field init else init | None \<Rightarrow> init)"

fun collect_filters ::
  "(int option \<Rightarrow> js) \<Rightarrow> (string \<Rightarrow> filter_ctl option) \<Rightarrow> filter_conf obj \<Rightarrow> js obj \<times> js obj \<Rightarrow> js obj \<times> js obj" where
  "collect_filters rel ctl [] acc = acc"
| "collect_filters rel ctl ((name, f) # rest) (init, fs) =
     (case ctl name of
        None \<Rightarrow> collect_filters rel ctl rest (init, fs)
      | Some c \<Rightarrow> collect_filters rel ctl rest (drop_init (ct_field c) init, add_filter rel f c fs))"

definition filter_list ::
  "(int option \<Rightarrow> js) \<Rightarrow> server \<Rightarrow> bool \<Rightarrow> filter_conf obj \<Rightarrow> (string \<Rightarrow> filter_ctl option) \<Rightarrow>
   req_st \<Rightarrow> list_view \<Rightarrow> req_st \<times> list_view" where
  "filter_list rel srv existsPagination form ctl Q V =
     (let Q1 = abortRequests (Some (c_action V)) Q;
          (init, fs) = collect_filters rel ctl form (l_initFilters V, []);
          V1 = V\<lparr>l_initFilters := init, c_filters := jq_extend init fs\<rparr>;
          V2 = fst (resetSelectedItems V1)
      in (Q1, if c_offset V2 \<noteq> 1 \<and> existsPagination
              then paginationFirst srv (disabled_buttons V2) V2 else fetchList srv V2))"

definition cleanFilter :: "string \<Rightarrow> list_view \<Rightarrow> list_view" where
  "cleanFilter k V =
     V\<lparr>l_filters := AList.delete k (l_filters V), l_initFilters := AList.delete k (l_initFilters V),
       c_filters := AList.delete k (c_filters V)\<rparr>"

section \<open>Lemmas\<close>

lemma add_filter_other: "ct_field c \<noteq> x \<Longrightarrow> map_of (add_filter rel f c fs) x = map_of fs x"
  by (simp add: add_filter_def split: option.splits)

lemma add_filter_blank [simp]: "is_blank f c \<Longrightarrow> add_filter rel f c fs = fs"
  by (simp add: add_filter_def)

lemma drop_init_other: "k \<noteq> x \<Longrightarrow> map_of (drop_init k init) x = map_of init x"
  by (simp add: drop_init_def split: option.splits)

lemma drop_init_None: "map_of init x = None \<Longrightarrow> map_of (drop_init k init) x = None"
  by (simp add: drop_init_def split: option.splits)

text \<open>Fields whose controls are all blank get no filter.\<close>

lemma collect_blank_fs:
  assumes "\<And>n f c. (n, f) \<in> set form \<Longrightarrow> ctl n = Some c \<Longrightarrow> ct_field c = x \<Longrightarrow> is_blank f c"
  shows "map_of (snd (collect_filters rel ctl form (init, fs))) x = map_of fs x"
  using assms
proof (induction form arbitrary: init fs)
  case (Cons p form)
  obtain n f where p: "p = (n, f)" by (cases p)
  have IH: "map_of (snd (collect_filters rel ctl form (i, g))) x = map_of g x" for i g
    using Cons.prems by (intro Cons.IH) auto
  show ?case
  proof (cases "ctl n")
    case (Some c)
    then have "map_of (add_filter rel f c fs) x = map_of fs x"
      using Cons.prems [of n f c] p by (cases "ct_field c = x") (auto simp: add_filter_other)
    then show ?thesis using IH Some p by simp
  qed (use IH p in simp)
qed simp

lemma collect_init_None:
  "map_of init x = None \<Longrightarrow> map_of (fst (collect_filters rel ctl form (init, fs))) x = None"
  by (induction rel ctl form "(init, fs)" arbitrary: init fs rule: collect_filters.induct)
     (auto simp: drop_init_None split: option.splits)

lemma collect_init_dropped:
  assumes "(n, f) \<in> set form" and "ctl n = Some c" and "ct_field c = x"
    and "\<And>v. map_of init x = Some v \<Longrightarrow> truthy v"
  shows "map_of (fst (collect_filters rel ctl form (init, fs))) x = None"
  using assms(1,4)
proof (induction form arbitrary: init fs)
  case (Cons p form)
  obtain m g where p: "p = (m, g)" by (cases p)
  show ?case
  proof (cases "ctl m")
    case None
    then show ?thesis using Cons assms(2) p by (cases "m = n") auto
  next
    case (Some d)
    show ?thesis
    proof (cases "ct_field d = x")
      case True
      then have "map_of (drop_init x init) x = None"
        using Cons.prems(2) by (auto simp: drop_init_def split: option.splits)
      then show ?thesis using Some True p collect_init_None by simp
    next
      case False
      then have "map_of (drop_init (ct_field d) init) x = map_of init x" by (rule drop_init_other)
      moreover have "(n, f) \<in> set form" using Cons.prems(1) p Some False assms(2,3) by auto
      ultimately show ?thesis using Cons.IH [of "drop_init (ct_field d) init"] Cons.prems(2) Some p by simp
    qed
  qed
qed simp

lemma distinct_add_filter: "distinct (map fst fs) \<Longrightarrow> distinct (map fst (add_filter rel f c fs))"
  by (simp add: add_filter_def split: option.splits)

lemma distinct_collect:
  "distinct (map fst fs) \<Longrightarrow> distinct (map fst (snd (collect_filters rel ctl form (init, fs))))"
  by (induction rel ctl form "(init, fs)" arbitrary: init fs rule: collect_filters.induct)
     (auto simp: distinct_add_filter split: option.splits)

lemma fetch_keeps_filters [simp]: "c_filters (fetchList srv V) = c_filters V"
  by (induction srv V rule: fetchList.induct) (subst fetchList.simps, auto simp: parse_rows_def Let_def)

lemma move_keeps_filters [simp]: "c_filters (paginationMove srv dis d V) = c_filters V"
  by (simp add: paginationMove_def Let_def)

lemma filter_list_filters:
  "c_filters (snd (filter_list rel srv ex form ctl Q V)) =
   (let (init, fs) = collect_filters rel ctl form (l_initFilters V, []) in jq_extend init fs)"
  by (simp add: filter_list_def Let_def case_prod_beta paginationFirst_def resetSelectedItems_def)

section \<open>Properties\<close>

text \<open>Choosing All (or emptying a text box) removes the filter: when every control of a field is
  blank, the list is not filtered by that field after \<open>filter\<close>, even if the view was opened
  with a filter on it.\<close>

theorem blank_control_unfilters:
  assumes "(n, f) \<in> set form" and "ctl n = Some c" and "ct_field c = x"
    and "\<And>m g d. (m, g) \<in> set form \<Longrightarrow> ctl m = Some d \<Longrightarrow> ct_field d = x \<Longrightarrow> is_blank g d"
    and "\<And>v. map_of (l_initFilters V) x = Some v \<Longrightarrow> truthy v"
  shows "map_of (c_filters (snd (filter_list rel srv ex form ctl Q V))) x = None"
proof -
  let ?r = "collect_filters rel ctl form (l_initFilters V, [])"
  have "map_of (snd ?r) x = None" using collect_blank_fs [of form ctl x rel "l_initFilters V" "[]"] assms(4) by auto
  moreover have "map_of (fst ?r) x = None"
    by (rule collect_init_dropped [of n f form ctl c x]) (use assms in auto)
  moreover have "distinct (map fst (snd ?r))" by (rule distinct_collect) simp
  ultimately show ?thesis
    by (simp add: filter_list_filters case_prod_beta map_of_jq_extend map_add_def)
qed

definition sample_filter :: "string \<Rightarrow> string option \<Rightarrow> filter_conf" where
  "sample_filter t tr = tenant_filter_conf\<lparr>ftype := t, transform := tr\<rparr>"

theorem blank_control_unfilters_witness:
  "map_of (c_filters (snd (filter_list (\<lambda>n. Null) (sample_server [5]) True
      [(''host'', sample_filter ''select'' None)]
      (\<lambda>n. Some \<lparr> ct_field = ''host_id'', ct_val = JStr ''-10'', ct_not = False \<rparr>) req_init
      (sample_list\<lparr>l_initFilters := [(''host_id'', JStr ''7'')]\<rparr>)))) ''host_id'' = None"
proof -
  have "str_num ''-10'' = Some (-10)" by code_simp
  then have "is_blank (sample_filter ''select'' None)
      \<lparr> ct_field = ''host_id'', ct_val = JStr ''-10'', ct_not = False \<rparr>"
    by (simp add: is_blank_def sample_filter_def FILTER_ALL_def nullish_def)
  then show ?thesis
    by (intro blank_control_unfilters [where n = "''host''" and f = "sample_filter ''select'' None"
          and c = "\<lparr> ct_field = ''host_id'', ct_val = JStr ''-10'', ct_not = False \<rparr>"])
       (auto simp: sample_list_def)
qed

text \<open>Date ranges: with both dates given, in whichever order their controls come, the field is
  filtered by one \<open>-between\<close> of the first instant of the one and the last instant of the other;
  with one of them by its bound alone.\<close>

theorem date_range_merged:
  assumes "ftype fmin = ''text''" "transform fmin = Some ''dateMin''" "ct_val cmin = JStr a" "a \<noteq> ''''"
    and "ftype fmax = ''text''" "transform fmax = Some ''dateMax''" "ct_val cmax = JStr b" "b \<noteq> ''''"
    and "ct_field cmin = x" "ct_field cmax = x" and "map_of fs x = None"
  shows "map_of (add_filter rel fmax cmax (add_filter rel fmin cmin fs)) x =
           Some (JObj [(''-between'', JArr [JStr (a @ '' 00:00:00''), JStr (b @ '' 23:59:59'')])]) \<and>
         map_of (add_filter rel fmin cmin (add_filter rel fmax cmax fs)) x =
           Some (JObj [(''-between'', JArr [JStr (a @ '' 00:00:00''), JStr (b @ '' 23:59:59'')])]) \<and>
         map_of (add_filter rel fmin cmin fs) x = Some (JObj [(''>='', JStr (a @ '' 00:00:00''))]) \<and>
         map_of (add_filter rel fmax cmax fs) x = Some (JObj [(''<='', JStr (b @ '' 23:59:59''))])"
  using assms
  by (simp add: add_filter_def is_blank_def date_bound_def merge_between_def nullish_def AList.delete_eq)

theorem date_range_merged_witness:
  "map_of (add_filter (\<lambda>n. Null) (sample_filter ''text'' (Some ''dateMax''))
        \<lparr> ct_field = ''time'', ct_val = JStr ''2015-02-01'', ct_not = False \<rparr>
      (add_filter (\<lambda>n. Null) (sample_filter ''text'' (Some ''dateMin''))
        \<lparr> ct_field = ''time'', ct_val = JStr ''2015-01-01'', ct_not = False \<rparr> [])) ''time'' =
   Some (JObj [(''-between'', JArr [JStr (''2015-01-01'' @ '' 00:00:00''), JStr (''2015-02-01'' @ '' 23:59:59'')])])"
  by (rule date_range_merged [THEN conjunct1]) (simp_all add: sample_filter_def)

lemma purge_keys:
  "distinct (map fst ob) \<Longrightarrow>
   map_of (purgeConfigData C ob) k =
     (case map_of ob k of Some it \<Rightarrow> if required C it then Some (expand_groups C it) else None | None \<Rightarrow> None)"
  unfolding purge_conv
  by (induction ob) (auto simp: map_of_eq_None_iff image_iff split: option.splits)

lemma purge_distinct: "distinct (map fst ob) \<Longrightarrow> distinct (map fst (purgeConfigData C ob))"
  unfolding purge_conv by (simp add: comp_def case_prod_beta distinct_map_filter)

text \<open>What a list offers to filter by: the filters of the configuration whose ACLs the
  administrator has, and the tenant filter exactly for a superadmin on the lists whose elements
  belong to a tenant.\<close>

theorem setFilters_offered:
  assumes "distinct (map fst (getFormFilters I q))" and "map_of (getFormFilters I q) ''tenant'' = None"
  shows "k \<in> fst ` set (setFilters C I q) \<longleftrightarrow>
           (\<exists>it. map_of (getFormFilters I q) k = Some it \<and> required C it) \<or>
           (k = ''tenant'' \<and> isSuperadmin C \<and> q \<in> set QVD_OBJS_CLASSIFIED_BY_TENANT)"
proof -
  let ?p = "purgeConfigData C (getFormFilters I q)"
  have "map_of (setFilters C I q) k =
      (if shows_tenant C q then ((Map.empty(''tenant'' \<mapsto> tenant_filter_conf)) ++ map_of ?p) k else map_of ?p k)"
    using purge_distinct [OF assms(1), of C] by (simp add: setFilters_def Let_def map_of_jq_extend)
  then have "map_of (setFilters C I q) k \<noteq> None \<longleftrightarrow>
      (\<exists>it. map_of (getFormFilters I q) k = Some it \<and> required C it) \<or> (k = ''tenant'' \<and> shows_tenant C q)"
    using assms(2) purge_keys [OF assms(1), of C k]
    by (cases "map_of (getFormFilters I q) k") (auto simp: map_add_def)
  then show ?thesis by (simp add: map_of_eq_None_iff shows_tenant_def)
qed

theorem setFilters_offered_witness:
  "''tenant'' \<in> fst ` set (setFilters ((wat_c_init [])\<lparr>C_tenantID := 0\<rparr>) sample_tables ''vm'') \<and>
   ''tenant'' \<notin> fst ` set (setFilters ((wat_c_init [])\<lparr>C_tenantID := 3\<rparr>) sample_tables ''vm'')"
  using setFilters_offered [of sample_tables "''vm''" "''tenant''" "(wat_c_init [])\<lparr>C_tenantID := 0\<rparr>"]
        setFilters_offered [of sample_tables "''vm''" "''tenant''" "(wat_c_init [])\<lparr>C_tenantID := 3\<rparr>"]
  by (simp add: sample_tables_def getFormFilters_def isSuperadmin_def SUPERTENANT_ID_def
      QVD_OBJS_CLASSIFIED_BY_TENANT_def)

end
