(* ===== verification/Editors.thy ===== *)
theory Editors
  imports RoleEditor Util
begin

text \<open>
  The editors of users, virtual machines, nodes, OS flavours, disk images, tenants and custom
  properties (\<open>wat/lib/bb-views/platform/*-editor.js\<close>, \<open>wat-management/*-editor.js\<close> and
  \<open>proto-editor.js\<close>): the arguments of the API calls that create and update an element, built from
  the controls of the form and the ACLs of the administrator. \<open>acl_fields\<close> is the contract that a
  field is sent only with its ACL.

  \<open>todb\<close> is \<open>Wat.U.stringDateToDatabase\<close>.
\<close>

section \<open>Forms\<close>

text \<open>The value of each control (\<open>Undef\<close> when the form has no such control), the state of check boxes,
  which fields of a massive form are being changed, and the visible rows of properties.\<close>

record form =
  fval :: "string \<Rightarrow> js"
  fchecked :: "string \<Rightarrow> bool"
  fchanging :: "string \<Rightarrow> bool"
  frows :: "(string \<times> js) list"

definition given :: "string \<Rightarrow> js \<Rightarrow> js obj" where
  "given k v = (if truthy v then [(k, v)] else [])"

definition with_acl :: "wat_c \<Rightarrow> string \<Rightarrow> js obj \<Rightarrow> js obj" where
  "with_acl C acl ps = (if acl1 C acl then ps else [])"

text \<open>\<open>parseProperties\<close>: the ACL it names is never looked up; it returns nothing only when an update is
  made from a view that is neither a list nor a details view.\<close>

definition set_props :: "form \<Rightarrow> js obj" where
  "set_props f = foldl (\<lambda>ps (k, v). if fchanging f k then AList.update k v ps else ps) [] (frows f)"

definition parseProperties :: "bool \<Rightarrow> view_kind \<Rightarrow> form \<Rightarrow> js obj option" where
  "parseProperties create kind f = (if create \<or> kind \<noteq> OtherKind then Some (set_props f) else None)"

definition properties_changes :: "js obj \<Rightarrow> js obj" where
  "properties_changes ps =
     (if ps = [] then [] else [(''__properties_changes__'', JObj [(''set'', JObj ps)])])"

definition new_properties :: "js obj \<Rightarrow> js obj" where
  "new_properties ps = (if ps = [] then [] else [(''__properties__'', JObj ps)])"

text \<open>Reading \<open>properties.set\<close> of nothing is a TypeError.\<close>

definition update_with ::
  "view_kind \<Rightarrow> form \<Rightarrow> (js obj \<Rightarrow> js obj) \<Rightarrow> js_error + js obj" where
  "update_with kind f args =
     (case parseProperties False kind f of None \<Rightarrow> Inl TypeError | Some ps \<Rightarrow> Inr (args ps))"

definition password_change :: "form \<Rightarrow> js obj" where
  "password_change f =
     (if truthy (fval f ''password'') \<and> truthy (fval f ''password2'') \<and>
         loose_eq (fval f ''password'') (fval f ''password2'')
      then [(''password'', fval f ''password'')] else [])"

definition blocked_arg :: "form \<Rightarrow> js obj" where
  "blocked_arg f = [(''blocked'', JNum (if fchecked f ''blocked'' then 1 else 0))]"

definition tenant_arg :: "wat_c \<Rightarrow> form \<Rightarrow> js obj" where
  "tenant_arg C f = (if isSuperadmin C then [(''tenant_id'', fval f ''tenant_id'')] else [])"

section \<open>Users\<close>

definition user_createElement :: "wat_c \<Rightarrow> form \<Rightarrow> js obj" where
  "user_createElement C f =
     blocked_arg f @ with_acl C ''user.create.properties'' (new_properties (set_props f)) @
     given ''name'' (fval f ''name'') @ given ''description'' (fval f ''description'') @
     password_change f @ tenant_arg C f"

definition user_update_args :: "wat_c \<Rightarrow> form \<Rightarrow> js obj \<Rightarrow> js obj" where
  "user_update_args C f ps =
     with_acl C ''user.update.properties'' (properties_changes ps) @
     with_acl C ''user.update.password'' (if fchecked f ''change_password'' then password_change f else []) @
     with_acl C ''user.update.description'' [(''description'', fval f ''description'')]"

definition user_updateElement :: "wat_c \<Rightarrow> view_kind \<Rightarrow> form \<Rightarrow> js_error + js obj" where
  "user_updateElement C kind f = update_with kind f (user_update_args C f)"

section \<open>Virtual machines\<close>

definition vm_createElement :: "wat_c \<Rightarrow> form \<Rightarrow> js obj" where
  "vm_createElement C f =
     [(''user_id'', fval f ''user_id''), (''osf_id'', fval f ''osf_id'')] @
     with_acl C ''vm.create.properties'' (new_properties (set_props f)) @
     with_acl C ''vm.create.di-tag'' (given ''di_tag'' (fval f ''di_tag'')) @
     given ''name'' (fval f ''name'') @ given ''description'' (fval f ''description'')"

definition defined_arg :: "string \<Rightarrow> js \<Rightarrow> js \<Rightarrow> js obj" where
  "defined_arg k control v = (if nullish control then [] else [(k, v)])"

definition vm_update_args :: "(js \<Rightarrow> js) \<Rightarrow> wat_c \<Rightarrow> form \<Rightarrow> js obj \<Rightarrow> js obj" where
  "vm_update_args todb C f ps =
     (let soft = fval f ''expiration_soft''; hard = fval f ''expiration_hard'';
          first = with_acl C ''vm.update.properties'' (properties_changes ps) @
                  with_acl C ''vm.update.name'' [(''name'', fval f ''name'')] @
                  with_acl C ''vm.update.di-tag'' [(''di_tag'', fval f ''di_tag'')]
      in jq_extend first
           (with_acl C ''vmvm.update.properties'' (properties_changes ps) @
            with_acl C ''vm.update.expiration''
              (defined_arg ''expiration_soft'' soft (todb soft) @ defined_arg ''expiration_hard'' hard (todb hard)) @
            with_acl C ''vm.update.description'' [(''description'', fval f ''description'')]))"

definition vm_updateElement :: "(js \<Rightarrow> js) \<Rightarrow> wat_c \<Rightarrow> view_kind \<Rightarrow> form \<Rightarrow> js_error + js obj" where
  "vm_updateElement todb C kind f = update_with kind f (vm_update_args todb C f)"

definition changing_arg :: "form \<Rightarrow> string \<Rightarrow> js obj" where
  "changing_arg f k = (if fchanging f k then [(k, fval f k)] else [])"

definition vm_massive_args :: "wat_c \<Rightarrow> form \<Rightarrow> js obj \<Rightarrow> js obj" where
  "vm_massive_args C f ps =
     with_acl C ''vm.update.properties'' (properties_changes ps) @
     with_acl C ''vm.update.description'' (changing_arg f ''description'') @
     with_acl C ''vm.update.di-tag'' (changing_arg f ''di_tag'') @
     with_acl C ''vm.update.expiration''
       ((if nullish (fval f ''expiration_soft'') then [] else changing_arg f ''expiration_soft'') @
        (if nullish (fval f ''expiration_hard'') then [] else changing_arg f ''expiration_hard''))"

definition vm_updateMassiveElement :: "wat_c \<Rightarrow> view_kind \<Rightarrow> form \<Rightarrow> js_error + js obj" where
  "vm_updateMassiveElement C kind f = update_with kind f (vm_massive_args C f)"

section \<open>Nodes\<close>

text \<open>The address is sent when a name is given.\<close>

definition host_createElement :: "wat_c \<Rightarrow> form \<Rightarrow> js obj" where
  "host_createElement C f =
     blocked_arg f @ with_acl C ''host.create.properties'' (new_properties (set_props f)) @
     given ''name'' (fval f ''name'') @ given ''description'' (fval f ''description'') @
     (if truthy (fval f ''name'') then [(''address'', fval f ''address'')] else [])"

definition host_update_args :: "wat_c \<Rightarrow> form \<Rightarrow> js obj \<Rightarrow> js obj" where
  "host_update_args C f ps =
     with_acl C ''host.update.name'' [(''name'', fval f ''name'')] @
     with_acl C ''host.update.address'' [(''address'', fval f ''address'')] @
     with_acl C ''host.update.properties'' (properties_changes ps) @
     with_acl C ''host.update.description'' [(''description'', fval f ''description'')]"

definition host_updateElement :: "wat_c \<Rightarrow> view_kind \<Rightarrow> form \<Rightarrow> js_error + js obj" where
  "host_updateElement C kind f = update_with kind f (host_update_args C f)"

section \<open>OS flavours\<close>

definition DEFAULT_OSF_MEMORY :: int where "DEFAULT_OSF_MEMORY = 256"
definition OSF_DISTRO_COMMON_ID :: int where "OSF_DISTRO_COMMON_ID = -1"

text \<open>A distribution other than the common one needs the view's \<open>OSDmodel\<close>: \<open>osd\<close> is its identifier,
  nothing when the view has no such model.\<close>

definition osf_createElement :: "wat_c \<Rightarrow> js option \<Rightarrow> form \<Rightarrow> js_error + js obj" where
  "osf_createElement C osd f =
     (let args = jq_extend [(''name'', fval f ''name''), (''memory'', JNum DEFAULT_OSF_MEMORY)]
           (with_acl C ''osf.create.memory'' (given ''memory'' (fval f ''memory'')) @
            with_acl C ''osf.create.user-storage'' [(''user_storage'', fval f ''user_storage'')] @
            with_acl C ''osf.create.properties'' (new_properties (set_props f)) @
            given ''name'' (fval f ''name'') @ given ''description'' (fval f ''description'') @
            tenant_arg C f)
      in if loose_eq (fval f ''os_distro_select'') (JNum OSF_DISTRO_COMMON_ID) then Inr args
         else (case osd of None \<Rightarrow> Inl TypeError | Some i \<Rightarrow> Inr (args @ [(''osd_id'', i)])))"

definition osf_update_args :: "wat_c \<Rightarrow> form \<Rightarrow> js obj \<Rightarrow> js obj" where
  "osf_update_args C f ps =
     with_acl C ''osf.update.name'' [(''name'', fval f ''name'')] @
     with_acl C ''osf.update.memory'' [(''memory'', fval f ''memory'')] @
     with_acl C ''osf.update.user-storage'' [(''user_storage'', fval f ''user_storage'')] @
     with_acl C ''osf.update.properties'' (properties_changes ps) @
     with_acl C ''osf.update.description'' [(''description'', fval f ''description'')]"

definition osf_updateElement :: "wat_c \<Rightarrow> view_kind \<Rightarrow> form \<Rightarrow> js obj" where
  "osf_updateElement C kind f =
     osf_update_args C f (case parseProperties False kind f of None \<Rightarrow> [] | Some ps \<Rightarrow> ps)"

definition osf_massive_args :: "wat_c \<Rightarrow> form \<Rightarrow> js obj \<Rightarrow> js obj" where
  "osf_massive_args C f ps =
     with_acl C ''osf.update.properties'' (properties_changes ps) @
     with_acl C ''osf.update.description'' (changing_arg f ''description'') @
     with_acl C ''osf.update.memory'' (changing_arg f ''memory'') @
     with_acl C ''osf.update.user-storage'' (changing_arg f ''user_storage'')"

definition osf_updateMassiveElement :: "wat_c \<Rightarrow> view_kind \<Rightarrow> form \<Rightarrow> js_error + js obj" where
  "osf_updateMassiveElement C kind f = update_with kind f (osf_massive_args C f)"

section \<open>Tenants, properties and the panel's own configuration\<close>

definition tenant_createElement :: "form \<Rightarrow> js obj" where
  "tenant_createElement f =
     [(''name'', fval f ''name''), (''block'', fval f ''block''), (''language'', fval f ''language'')] @
     given ''description'' (fval f ''description'')"

definition tenant_updateElement :: "wat_c \<Rightarrow> form \<Rightarrow> js obj" where
  "tenant_updateElement C f =
     with_acl C ''tenant.update.name'' [(''name'', fval f ''name'')] @
     with_acl C ''tenant.update.blocksize'' [(''block'', fval f ''block'')] @
     with_acl C ''tenant.update.language'' [(''language'', fval f ''language'')] @
     with_acl C ''role.update.description'' [(''description'', fval f ''description'')]"

definition tenant_afterUpdate :: "int \<Rightarrow> int \<Rightarrow> string \<Rightarrow> string \<Rightarrow> int \<Rightarrow> int \<Rightarrow> wat_c \<Rightarrow> wat_c \<times> effect list" where
  "tenant_afterUpdate status model_id oldLang newLang oldBlock newBlock C =
     (if status = 0 \<and> C_tenantID C = model_id then
        (let tr = (oldLang \<noteq> newLang \<and> C_language C = Some ''default'');
             C1 = (if tr then C\<lparr>C_tenantLanguage := Some newLang\<rparr> else C);
             C2 = (if oldBlock \<noteq> newBlock then C1\<lparr>C_tenantBlock := newBlock\<rparr> else C1)
         in (C2, Call ''fetchAny'' [] # (if tr then [Call ''initTranslate'' []] else [])))
      else (C, [Call ''fetchAny'' []]))"

definition QVD_OBJS_WITH_PROPERTIES :: "string list" where
  "QVD_OBJS_WITH_PROPERTIES = [''user'', ''vm'', ''host'', ''osf'', ''di'']"

definition property_createElement :: "wat_c \<Rightarrow> form \<Rightarrow> js obj" where
  "property_createElement C f =
     [(''key'', fval f ''key''), (''description'', fval f ''description''),
      (''__property_assign__'',
       JArr (map JStr (filter (\<lambda>q. fchecked f (''in_'' @ q)) QVD_OBJS_WITH_PROPERTIES))),
      (''tenant_id'', if isSuperadmin C then fval f ''tenant_id'' else JNum (C_tenantID C))]"

definition property_updateElement :: "form \<Rightarrow> js obj" where
  "property_updateElement f = [(''key'', fval f ''key''), (''description'', fval f ''description'')]"

definition configwat_updateElement :: "wat_c \<Rightarrow> form \<Rightarrow> js obj \<times> effect list" where
  "configwat_updateElement C f =
     (with_acl C ''config.wat.'' [(''language'', fval f ''language''), (''block'', fval f ''block'')],
      (if isSuperadmin C \<or> \<not> multi C then
         (if fchecked f ''style-customizer''
          then [SetCookie ''styleCustomizer'' (JBool True), Call ''initCustomizer'' []]
          else [RemoveCookie ''styleCustomizer'', Call ''hideCustomizer'' []])
       else []))"

text \<open>The earlier values are read from the view, where nothing stores them: they are \<open>Undef\<close> unless the
  view has such fields.\<close>

definition configwat_afterUpdate ::
  "int \<Rightarrow> js \<Rightarrow> string \<Rightarrow> js \<Rightarrow> int \<Rightarrow> wat_c \<Rightarrow> wat_c \<times> effect list" where
  "configwat_afterUpdate status oldLang newLang oldBlock newBlock C =
     (if status = 0 then
        (let lang = \<not> loose_eq oldLang (JStr newLang);
             C1 = (if lang then C\<lparr>C_tenantLanguage := Some newLang\<rparr> else C);
             C2 = (if \<not> loose_eq oldBlock (JNum newBlock) \<and> C_block C1 = 0
                   then C1\<lparr>C_tenantBlock := newBlock\<rparr> else C1)
         in (C2, [Call ''fetchDetails'' []] @
                 (if lang \<and> C_language C = Some ''default'' then [Call ''initTranslate'' []] else []) @
                 [Call ''renderFooter'' []]))
      else (C, [Call ''fetchDetails'' []]))"

section \<open>The massive editor of the other kinds\<close>

definition editor_massive_args :: "string \<Rightarrow> wat_c \<Rightarrow> form \<Rightarrow> js obj \<Rightarrow> js obj" where
  "editor_massive_args q C f ps =
     with_acl C (q @ ''.update.properties'') (properties_changes ps) @
     with_acl C (q @ ''.update.description'') (changing_arg f ''description'')"

definition updateMassiveElement :: "string \<Rightarrow> wat_c \<Rightarrow> view_kind \<Rightarrow> form \<Rightarrow> js_error + js obj" where
  "updateMassiveElement q C kind f = update_with kind f (editor_massive_args q C f)"

section \<open>Disk images\<close>

fun split_comma :: "string \<Rightarrow> string list" where
  "split_comma [] = [[]]"
| "split_comma (c # s) =
     (if c = CHR '','' then [] # split_comma s
      else (case split_comma s of [] \<Rightarrow> [[c]] | w # ws \<Rightarrow> (c # w) # ws))"

definition tag_list :: "js \<Rightarrow> string list" where
  "tag_list v = (if truthy v then split_comma (js_str v) else [])"

text \<open>\<open>_.intersection\<close> and \<open>_.difference\<close> of underscore.\<close>

definition intersection :: "string list \<Rightarrow> string list \<Rightarrow> string list" where
  "intersection xs ys = filter (\<lambda>x. x \<in> set ys) (rev (remdups (rev xs)))"

definition difference :: "string list \<Rightarrow> string list \<Rightarrow> string list" where
  "difference xs ys = filter (\<lambda>x. x \<notin> set ys) xs"

text \<open>The model of an image keeps its own tags apart from the two special ones and from the one that
  repeats the version.\<close>

record di_attrs =
  di_tags :: string
  di_default :: int
  di_head :: int

definition di_parse :: "string \<Rightarrow> string list \<Rightarrow> di_attrs" where
  "di_parse version tags =
     \<lparr> di_tags = js_strs (map JStr (filter (\<lambda>t. t \<noteq> ''head'' \<and> t \<noteq> ''default'' \<and> t \<noteq> version) tags)),
       di_default = (if ''default'' \<in> set tags then 1 else 0),
       di_head = (if ''head'' \<in> set tags then 1 else 0) \<rparr>"

definition hard_expiration :: "form \<Rightarrow> js" where
  "hard_expiration f =
     (case (parseInt (fval f ''expire_vms_hours''), parseInt (fval f ''expire_vms_minutes'')) of
        (Some h, Some m) \<Rightarrow> JNum ((h * 60 + m) * 60) | _ \<Rightarrow> Null)"

definition di_create_tags :: "wat_c \<Rightarrow> form \<Rightarrow> string list" where
  "di_create_tags C f =
     (if acl1 C ''di.create.tags'' then tag_list (fval f ''tags'') else []) @
     (if fchecked f ''default'' \<and> acl1 C ''di.create.default'' then [''default''] else [])"

definition di_create_args :: "wat_c \<Rightarrow> form \<Rightarrow> js obj" where
  "di_create_args C f =
     blocked_arg f @ [(''osf_id'', fval f ''osf_id'')] @
     with_acl C ''di.create.properties'' (new_properties (set_props f)) @
     with_acl C ''di.create.version'' (given ''version'' (fval f ''version'')) @
     [(''__tags__'', JArr (map JStr (di_create_tags C f)))] @
     given ''description'' (fval f ''description'')"

text \<open>An image of a generated distribution goes to the generator; the others to the endpoint of
  their source.\<close>

definition di_createElement :: "wat_c \<Rightarrow> form \<Rightarrow> (string \<times> js obj) option" where
  "di_createElement C f =
     (let args = di_create_args C f;
          src = fval f ''images_source''; expire = fval f ''expire_vms''
      in if truthy (fval f ''osd_id'') then
           Some (''dig'', args @ [(''auto_publish'', JBool (fval f ''publish'' = JStr ''when_finish''))] @
             (if expire = JStr ''when_finish''
              then [(''expiration_time_soft'', JNum 0), (''expiration_time_hard'', JNum 0)]
              else if expire = JStr ''after_finish''
              then [(''expiration_time_soft'', JNum 0), (''expiration_time_hard'', hard_expiration f)]
              else []) @ [(''disk_image'', fval f ''os-name'')])
         else if src = JStr ''staging'' then Some (''di/staging'', args @ given ''disk_image'' (fval f ''disk_image''))
         else if src = JStr ''computer'' then Some (''file'', args)
         else if src = JStr ''url''
         then Some (''di/download'', args @ [(''disk_image'', JStr (basename (js_str (fval f ''disk_image_url''))))])
         else if src = JStr ''docker'' then Some (''di/docker'', args @ [(''disk_image'', fval f ''docker_url'')])
         else None)"

definition di_new_tags :: "wat_c \<Rightarrow> bool \<Rightarrow> form \<Rightarrow> string list" where
  "di_new_tags C was_default f =
     (if acl1 C ''di.update.tags'' then tag_list (fval f ''tags'') else []) @
     (if fchecked f ''default'' \<and> \<not> was_default \<and> acl1 C ''di.update.default'' then [''default''] else [])"

definition tags_changes :: "string list \<Rightarrow> string list \<Rightarrow> string list \<times> string list" where
  "tags_changes baseTags newTags =
     (let keeped = intersection baseTags newTags in (difference newTags keeped, difference baseTags keeped))"

definition di_update_args :: "wat_c \<Rightarrow> bool \<Rightarrow> js \<Rightarrow> form \<Rightarrow> js obj \<Rightarrow> js obj" where
  "di_update_args C was_default base_tags f ps =
     (let (created, deleted) = tags_changes (tag_list base_tags) (di_new_tags C was_default f);
          publish = fval f ''publish''; expire = fval f ''expire_vms''
      in (if acl1 C ''di.update.tags'' \<or> acl1 C ''di.update.default''
          then [(''__tags_changes__'', JObj [(''create'', JArr (map JStr created)), (''delete'', JArr (map JStr deleted))])]
          else []) @
         with_acl C ''di.update.properties'' (properties_changes ps) @
         with_acl C ''di.update.description'' [(''description'', fval f ''description'')] @
         (if truthy (fval f ''osd_id'') then
            with_acl C ''di.update.auto-publish''
              (if publish = JStr ''no'' then [(''auto_publish'', JBool False)]
               else if publish = JStr ''when_finish'' then [(''auto_publish'', JBool True)] else []) @
            with_acl C ''di.update.vms-expiration''
              (if expire = JStr ''no'' then [(''expiration_time_soft'', Null), (''expiration_time_hard'', Null)]
               else if expire = JStr ''when_finish''
               then [(''expiration_time_soft'', JNum 0), (''expiration_time_hard'', JNum 0)]
               else if expire = JStr ''after_finish''
               then [(''expiration_time_soft'', JNum 0), (''expiration_time_hard'', hard_expiration f)]
               else [])
          else []))"

definition di_updateElement :: "wat_c \<Rightarrow> view_kind \<Rightarrow> bool \<Rightarrow> js \<Rightarrow> form \<Rightarrow> js_error + js obj" where
  "di_updateElement C kind was_default base_tags f =
     update_with kind f (di_update_args C was_default base_tags f)"

section \<open>Fields and their ACLs\<close>

text \<open>The ACLs that allow changing a field: its own under \<open>update\<close>, with the spelling of the ACL
  catalogue; the tags of an image need one of two.\<close>

definition update_acls :: "string \<Rightarrow> string \<Rightarrow> string list" where
  "update_acls q k =
     map (\<lambda>x. q @ ''.update.'' @ x)
       (if k = ''__properties_changes__'' then [''properties'']
        else if k = ''__tags_changes__'' then [''tags'', ''default'']
        else if k = ''__roles_changes__'' then [''assign-role'']
        else if k = ''di_tag'' then [''di-tag'']
        else if k = ''user_storage'' then [''user-storage'']
        else if k = ''expiration_soft'' \<or> k = ''expiration_hard'' then [''expiration'']
        else if k = ''expiration_time_soft'' \<or> k = ''expiration_time_hard'' then [''vms-expiration'']
        else if k = ''auto_publish'' then [''auto-publish'']
        else if k = ''block'' then [''blocksize'']
        else [k])"

definition sent :: "js_error + js obj \<Rightarrow> js obj" where
  "sent r = (case r of Inl e \<Rightarrow> [] | Inr args \<Rightarrow> args)"

text \<open>The contract of an editor: \<open>args C x\<close> are the arguments it sends for the form \<open>x\<close>, \<open>acls k\<close> the
  ACLs of which one is needed for the argument \<open>k\<close>.\<close>

locale acl_fields =
  fixes args :: "wat_c \<Rightarrow> 'x \<Rightarrow> js obj" and acls :: "string \<Rightarrow> string list"
  assumes guarded: "(k, v) \<in> set (args C x) \<Longrightarrow> list_ex (acl1 C) (acls k)"
begin

lemma args_granted: "k \<in> fst ` set (args C x) \<Longrightarrow> list_ex (acl1 C) (acls k)"
  using guarded by fastforce

lemma nothing_granted: "(\<And>a. \<not> acl1 C a) \<Longrightarrow> args C x = []"
proof (cases "args C x")
  case (Cons kv rest)
  assume "\<And>a. \<not> acl1 C a"
  moreover from Cons have "(fst kv, snd kv) \<in> set (args C x)" by simp
  then have "list_ex (acl1 C) (acls (fst kv))" by (rule guarded)
  ultimately show ?thesis by (simp add: list_ex_iff)
qed simp

lemma refused_field: "\<not> list_ex (acl1 C) (acls k) \<Longrightarrow> map_of (args C x) k = None"
  using args_granted by (auto simp: map_of_eq_None_iff)

end

lemma in_with_acl: "kv \<in> set (with_acl C a ps) \<longleftrightarrow> acl1 C a \<and> kv \<in> set ps"
  by (simp add: with_acl_def)

lemma in_properties_changes:
  "(k, v) \<in> set (properties_changes ps) \<longleftrightarrow>
     ps \<noteq> [] \<and> k = ''__properties_changes__'' \<and> v = JObj [(''set'', JObj ps)]"
  by (auto simp: properties_changes_def)

lemma in_changing_arg: "(j, v) \<in> set (changing_arg f k) \<longleftrightarrow> fchanging f k \<and> j = k \<and> v = fval f k"
  by (auto simp: changing_arg_def)

lemma in_defined_arg: "(j, v) \<in> set (defined_arg k c w) \<longleftrightarrow> \<not> nullish c \<and> j = k \<and> v = w"
  by (auto simp: defined_arg_def)

lemma in_given: "(j, v) \<in> set (given k w) \<longleftrightarrow> truthy w \<and> j = k \<and> v = w"
  by (auto simp: given_def)

lemma in_if: "kv \<in> set (if b then xs else ys) \<longleftrightarrow> (if b then kv \<in> set xs else kv \<in> set ys)"
  by simp

lemma in_password_change:
  "(k, v) \<in> set (password_change f) \<longleftrightarrow>
     k = ''password'' \<and> v = fval f ''password'' \<and> truthy (fval f ''password'') \<and>
     truthy (fval f ''password2'') \<and> loose_eq (fval f ''password'') (fval f ''password2'')"
  by (auto simp: password_change_def)

lemma update_acls_eval:
  "update_acls q ''__properties_changes__'' = [q @ ''.update.properties'']"
  "update_acls q ''__tags_changes__'' = [q @ ''.update.tags'', q @ ''.update.default'']"
  "update_acls q ''__roles_changes__'' = [q @ ''.update.assign-role'']"
  "update_acls q ''name'' = [q @ ''.update.name'']"
  "update_acls q ''description'' = [q @ ''.update.description'']"
  "update_acls q ''password'' = [q @ ''.update.password'']"
  "update_acls q ''address'' = [q @ ''.update.address'']"
  "update_acls q ''memory'' = [q @ ''.update.memory'']"
  "update_acls q ''language'' = [q @ ''.update.language'']"
  "update_acls q ''di_tag'' = [q @ ''.update.di-tag'']"
  "update_acls q ''user_storage'' = [q @ ''.update.user-storage'']"
  "update_acls q ''expiration_soft'' = [q @ ''.update.expiration'']"
  "update_acls q ''expiration_hard'' = [q @ ''.update.expiration'']"
  "update_acls q ''expiration_time_soft'' = [q @ ''.update.vms-expiration'']"
  "update_acls q ''expiration_time_hard'' = [q @ ''.update.vms-expiration'']"
  "update_acls q ''auto_publish'' = [q @ ''.update.auto-publish'']"
  "update_acls q ''block'' = [q @ ''.update.blocksize'']"
  by (simp_all add: update_acls_def)

lemma in_sent_update_with:
  "kv \<in> set (sent (update_with kind f args)) \<longleftrightarrow>
     (\<exists>ps. parseProperties False kind f = Some ps \<and> kv \<in> set (args ps))"
  by (auto simp: sent_def update_with_def split: option.splits)

lemma in_jq_extend: "kv \<in> set (jq_extend a b) \<Longrightarrow> kv \<in> set a \<or> kv \<in> set b"
proof (induction b arbitrary: a)
  case (Cons x b)
  obtain k v where x: "x = (k, v)" by (cases x)
  from Cons.prems x have "kv \<in> set (jq_extend (AList.update k v a) b)" by simp
  with Cons.IH have "kv \<in> set (AList.update k v a) \<or> kv \<in> set b" by blast
  moreover have "set (AList.update k v a) \<subseteq> insert (k, v) (set a)" by (induction a) auto
  ultimately show ?case using x by auto
qed simp

lemmas in_args = in_with_acl in_properties_changes in_changing_arg in_defined_arg in_given
  in_password_change in_sent_update_with

interpretation user_fields: acl_fields
  "\<lambda>C (kind, f). sent (user_updateElement C kind f)" "update_acls ''user''"
  by unfold_locales
     (auto simp: user_updateElement_def user_update_args_def in_args in_if update_acls_eval
       split: if_splits)

interpretation host_fields: acl_fields
  "\<lambda>C (kind, f). sent (host_updateElement C kind f)" "update_acls ''host''"
  by unfold_locales (auto simp: host_updateElement_def host_update_args_def in_args update_acls_eval)

interpretation osf_fields: acl_fields
  "\<lambda>C (kind, f). osf_updateElement C kind f" "update_acls ''osf''"
  by unfold_locales (auto simp: osf_updateElement_def osf_update_args_def in_args update_acls_eval)

interpretation osf_massive_fields: acl_fields
  "\<lambda>C (kind, f). sent (osf_updateMassiveElement C kind f)" "update_acls ''osf''"
  by unfold_locales (auto simp: osf_updateMassiveElement_def osf_massive_args_def in_args update_acls_eval)

interpretation vm_massive_fields: acl_fields
  "\<lambda>C (kind, f). sent (vm_updateMassiveElement C kind f)" "update_acls ''vm''"
  by unfold_locales
     (auto simp: vm_updateMassiveElement_def vm_massive_args_def in_args in_if update_acls_eval split: if_splits)

interpretation massive_fields: acl_fields
  "\<lambda>C (kind, f). sent (updateMassiveElement q C kind f)" "update_acls q" for q
  by unfold_locales (auto simp: updateMassiveElement_def editor_massive_args_def in_args update_acls_eval)

text \<open>The editor of a machine also accepts an ACL that the catalogue does not have, and the editor of
  a tenant asks for the ACL of roles before it sends the description.\<close>

definition vm_acls :: "string \<Rightarrow> string list" where
  "vm_acls k = update_acls ''vm'' k @ (if k = ''__properties_changes__'' then [''vmvm.update.properties''] else [])"

definition tenant_acls :: "string \<Rightarrow> string list" where
  "tenant_acls k = (if k = ''description'' then [''role.update.description''] else update_acls ''tenant'' k)"

interpretation vm_fields: acl_fields
  "\<lambda>C (kind, f). sent (vm_updateElement todb C kind f)" vm_acls for todb
  by unfold_locales
     (auto simp: vm_updateElement_def vm_update_args_def in_args vm_acls_def update_acls_eval Let_def
       dest!: in_jq_extend)

interpretation tenant_fields: acl_fields tenant_updateElement tenant_acls
  by unfold_locales (auto simp: tenant_updateElement_def in_args tenant_acls_def update_acls_eval)

interpretation di_fields: acl_fields
  "\<lambda>C (kind, was_default, tags, f). sent (di_updateElement C kind was_default tags f)" "update_acls ''di''"
  by unfold_locales
     (auto simp: di_updateElement_def di_update_args_def in_args in_if update_acls_eval Let_def
       split: if_splits)

interpretation role_fields: acl_fields "\<lambda>C (f, E). role_updateElement C f E" "update_acls ''role''"
  by unfold_locales (auto simp: role_updateElement_def role_changes_def update_acls_eval split: if_splits)

interpretation role_massive_fields: acl_fields
  "\<lambda>C (f, E). role_updateMassiveElement C f E" "update_acls ''role''"
  by unfold_locales (auto simp: role_updateMassiveElement_def update_acls_eval split: if_splits)

interpretation admin_fields: acl_fields
  "\<lambda>C (f, E). admin_updateElement C f E" "update_acls ''administrator''"
  by unfold_locales (auto simp: admin_updateElement_def role_changes_def update_acls_eval split: if_splits)

interpretation admin_massive_fields: acl_fields
  "\<lambda>C (ch, f, E). admin_updateMassiveElement C ch f E" "update_acls ''administrator''"
  by unfold_locales
     (auto simp: admin_updateMassiveElement_def role_changes_def update_acls_eval split: if_splits)

definition granted_only :: "wat_c \<Rightarrow> string \<Rightarrow> js obj \<Rightarrow> bool" where
  "granted_only C q args = list_all (\<lambda>(k, v). list_ex (acl1 C) (update_acls q k)) args"

lemma granted_onlyI:
  "(\<And>k v. (k, v) \<in> set args \<Longrightarrow> list_ex (acl1 C) (update_acls q k)) \<Longrightarrow> granted_only C q args"
  by (auto simp: granted_only_def list_all_iff)

lemma granted_only_vm:
  assumes "\<not> acl1 C ''vmvm.update.properties''"
  shows "granted_only C ''vm'' (sent (vm_updateElement todb C kind f))"
proof (rule granted_onlyI)
  fix k v assume "(k, v) \<in> set (sent (vm_updateElement todb C kind f))"
  then have "list_ex (acl1 C) (vm_acls k)" using vm_fields.guarded [of k v todb C "(kind, f)"] by simp
  with assms show "list_ex (acl1 C) (update_acls ''vm'' k)" by (auto simp: vm_acls_def split: if_splits)
qed

lemma granted_only_tenant:
  "granted_only C ''tenant'' (AList.delete ''description'' (tenant_updateElement C f))"
proof (rule granted_onlyI)
  fix k v assume "(k, v) \<in> set (AList.delete ''description'' (tenant_updateElement C f))"
  then have "k \<noteq> ''description''" "(k, v) \<in> set (tenant_updateElement C f)"
    by (auto simp: AList.delete_eq)
  with tenant_fields.guarded [OF this(2)] show "list_ex (acl1 C) (update_acls ''tenant'' k)"
    by (simp add: tenant_acls_def)
qed


section \<open>Tags of a disk image\<close>

lemma split_comma_no_comma: "CHR '','' \<notin> set s \<Longrightarrow> split_comma s = [s]"
  by (induction s) auto

lemma split_comma_append:
  "CHR '','' \<notin> set s \<Longrightarrow> split_comma (s @ CHR '','' # t) = s # split_comma t"
  by (induction s) auto

lemma split_comma_joined:
  "ts \<noteq> [] \<Longrightarrow> \<forall>t\<in>set ts. CHR '','' \<notin> set t \<Longrightarrow> split_comma (js_strs (map JStr ts)) = ts"
  by (induction ts rule: induct_list012)
     (simp_all add: split_comma_no_comma split_comma_append nullish_def)

lemma js_strs_nonempty: "ts \<noteq> [] \<Longrightarrow> \<forall>t\<in>set ts. t \<noteq> '''' \<Longrightarrow> js_strs (map JStr ts) \<noteq> ''''"
  by (induction ts rule: induct_list012) (simp_all add: nullish_def)

lemma tag_list_joined:
  "\<forall>t\<in>set ts. t \<noteq> '''' \<and> CHR '','' \<notin> set t \<Longrightarrow> tag_list (JStr (js_strs (map JStr ts))) = ts"
  using js_strs_nonempty [of ts] split_comma_joined [of ts]
  by (cases "ts = []") (simp_all add: tag_list_def)

lemma tags_changes_sets:
  "tags_changes base new = (created, deleted) \<Longrightarrow>
     set created = set new - set base \<and> set deleted = set base - set new"
  by (auto simp: tags_changes_def Let_def intersection_def difference_def)

lemma set_di_new_tags:
  "set (di_new_tags C d f) =
     (if acl1 C ''di.update.tags'' then set (tag_list (fval f ''tags'')) else {}) \<union>
     (if fchecked f ''default'' \<and> \<not> d \<and> acl1 C ''di.update.default'' then {''default''} else {})"
  by (auto simp: di_new_tags_def)


definition demo_form :: form where
  "demo_form = \<lparr> fval = (\<lambda>k. if k = ''tags'' then JStr ''beta,stable'' else JStr ''x''),
     fchecked = (\<lambda>k. k = ''default''), fchanging = (\<lambda>k. True), frows = [(''room'', JStr ''12'')] \<rparr>"

definition demo_c :: "string list \<Rightarrow> wat_c" where
  "demo_c acls = (wat_c_init [])\<lparr>C_acls := acls\<rparr>"

lemma granted_demo_c [simp]: "granted (demo_c acls) = set acls"
  by (simp add: granted_def demo_c_def)



lemma map_of_with_acl: "map_of (with_acl C a ps) k = (if acl1 C a then map_of ps k else None)"
  by (simp add: with_acl_def)


lemma map_of_properties_changes:
  "map_of (properties_changes ps) k =
     (if k = ''__properties_changes__'' \<and> ps \<noteq> [] then Some (JObj [(''set'', JObj ps)]) else None)"
  by (simp add: properties_changes_def)

lemma map_of_defined_arg:
  "map_of (defined_arg j c v) k = (if k = j \<and> \<not> nullish c then Some v else None)"
  by (simp add: defined_arg_def)

lemma six_cases:
  assumes "k = a1 \<Longrightarrow> P" "k = a2 \<Longrightarrow> P" "k = a3 \<Longrightarrow> P" "k = a4 \<Longrightarrow> P" "k = a5 \<Longrightarrow> P"
    "k = a6 \<Longrightarrow> P" "k \<notin> {a1, a2, a3, a4, a5, a6} \<Longrightarrow> P"
  shows P
  using assms by blast

lemma map_of_vm_update_args:
  "map_of (vm_update_args todb C f ps) k =
     (if k = ''name'' \<and> acl1 C ''vm.update.name'' then Some (fval f ''name'')
      else if k = ''di_tag'' \<and> acl1 C ''vm.update.di-tag'' then Some (fval f ''di_tag'')
      else if k = ''description'' \<and> acl1 C ''vm.update.description'' then Some (fval f ''description'')
      else if k = ''__properties_changes__'' \<and> ps \<noteq> [] \<and>
              (acl1 C ''vm.update.properties'' \<or> acl1 C ''vmvm.update.properties'')
      then Some (JObj [(''set'', JObj ps)])
      else if k = ''expiration_soft'' \<and> acl1 C ''vm.update.expiration'' \<and> \<not> nullish (fval f ''expiration_soft'')
      then Some (todb (fval f ''expiration_soft''))
      else if k = ''expiration_hard'' \<and> acl1 C ''vm.update.expiration'' \<and> \<not> nullish (fval f ''expiration_hard'')
      then Some (todb (fval f ''expiration_hard''))
      else None)"
proof -
  let ?second = "with_acl C ''vmvm.update.properties'' (properties_changes ps) @
      with_acl C ''vm.update.expiration''
        (defined_arg ''expiration_soft'' (fval f ''expiration_soft'') (todb (fval f ''expiration_soft'')) @
         defined_arg ''expiration_hard'' (fval f ''expiration_hard'') (todb (fval f ''expiration_hard''))) @
      with_acl C ''vm.update.description'' [(''description'', fval f ''description'')]"
  have "distinct (map fst ?second)"
    by (auto simp: with_acl_def properties_changes_def defined_arg_def)
  from map_of_jq_extend [OF this]
  have eq: "map_of (vm_update_args todb C f ps) k =
      (case map_of ?second k of Some v \<Rightarrow> Some v
       | None \<Rightarrow> map_of (with_acl C ''vm.update.properties'' (properties_changes ps) @
                  with_acl C ''vm.update.name'' [(''name'', fval f ''name'')] @
                  with_acl C ''vm.update.di-tag'' [(''di_tag'', fval f ''di_tag'')]) k)" for k
    unfolding vm_update_args_def Let_def by (simp only: map_add_def)
  note eval = map_add_def map_of_with_acl map_of_properties_changes map_of_defined_arg
  consider "k = ''name''" | "k = ''di_tag''" | "k = ''description''" | "k = ''__properties_changes__''"
    | "k = ''expiration_soft''" | "k = ''expiration_hard''"
    | "k \<notin> {''name'', ''di_tag'', ''description'', ''__properties_changes__'', ''expiration_soft'', ''expiration_hard''}"
    by (rule six_cases)
  then show ?thesis
  proof cases
    case 7
    then show ?thesis unfolding eq by (simp add: eval)
  qed (simp_all add: eq eval)
qed

text \<open>From a list or a details view the editor of a machine always sends its update, and in it every
  field that the ACLs allow with the value of its control: the properties only when some were
  changed, the expiration dates converted for the database and only when the form has them. From
  any other view it raises a TypeError.\<close>

theorem vm_update_complete:
  "vm_updateElement todb C OtherKind f = Inl TypeError \<and>
   (kind \<noteq> OtherKind \<longrightarrow> (\<exists>args. vm_updateElement todb C kind f = Inr args \<and> (\<forall>k.
     map_of args k =
       (if k = ''name'' \<and> acl1 C ''vm.update.name'' then Some (fval f ''name'')
        else if k = ''di_tag'' \<and> acl1 C ''vm.update.di-tag'' then Some (fval f ''di_tag'')
        else if k = ''description'' \<and> acl1 C ''vm.update.description'' then Some (fval f ''description'')
        else if k = ''__properties_changes__'' \<and> set_props f \<noteq> [] \<and>
                (acl1 C ''vm.update.properties'' \<or> acl1 C ''vmvm.update.properties'')
        then Some (JObj [(''set'', JObj (set_props f))])
        else if k = ''expiration_soft'' \<and> acl1 C ''vm.update.expiration'' \<and> \<not> nullish (fval f ''expiration_soft'')
        then Some (todb (fval f ''expiration_soft''))
        else if k = ''expiration_hard'' \<and> acl1 C ''vm.update.expiration'' \<and> \<not> nullish (fval f ''expiration_hard'')
        then Some (todb (fval f ''expiration_hard''))
        else None))))"
proof (intro conjI impI)
  show "vm_updateElement todb C OtherKind f = Inl TypeError"
    by (simp add: vm_updateElement_def update_with_def parseProperties_def)
next
  assume "kind \<noteq> OtherKind"
  then have "vm_updateElement todb C kind f = Inr (vm_update_args todb C f (set_props f))"
    by (simp add: vm_updateElement_def update_with_def parseProperties_def)
  then show "\<exists>args. vm_updateElement todb C kind f = Inr args \<and> (\<forall>k. map_of args k =
       (if k = ''name'' \<and> acl1 C ''vm.update.name'' then Some (fval f ''name'')
        else if k = ''di_tag'' \<and> acl1 C ''vm.update.di-tag'' then Some (fval f ''di_tag'')
        else if k = ''description'' \<and> acl1 C ''vm.update.description'' then Some (fval f ''description'')
        else if k = ''__properties_changes__'' \<and> set_props f \<noteq> [] \<and>
                (acl1 C ''vm.update.properties'' \<or> acl1 C ''vmvm.update.properties'')
        then Some (JObj [(''set'', JObj (set_props f))])
        else if k = ''expiration_soft'' \<and> acl1 C ''vm.update.expiration'' \<and> \<not> nullish (fval f ''expiration_soft'')
        then Some (todb (fval f ''expiration_soft''))
        else if k = ''expiration_hard'' \<and> acl1 C ''vm.update.expiration'' \<and> \<not> nullish (fval f ''expiration_hard'')
        then Some (todb (fval f ''expiration_hard''))
        else None))"
    using map_of_vm_update_args [of todb C f "set_props f"] by (intro exI conjI allI)
qed

theorem vm_update_complete_witness:
  "\<exists>args. vm_updateElement id (demo_c [''vm.update.name'']) DetailsKind demo_form = Inr args \<and>
     map_of args ''name'' = Some (JStr ''x'') \<and> map_of args ''description'' = None"
proof -
  have "fval demo_form ''name'' = JStr ''x''" by (simp add: demo_form_def)
  with vm_update_complete [of id "demo_c [''vm.update.name'']" demo_form DetailsKind] show ?thesis
    by (elim conjE impE exE) (simp, intro exI conjI, assumption, simp_all)
qed

end
