(* ===== verification/WsChannels.thy ===== *)
theory WsChannels
  imports Config Util
begin

text \<open>
  The channels of live data (\<open>wat/lib/websockets/websockets.js\<close>): sockets opened by the views, kept
  by view in \<open>Wat.WS.websockets\<close>, and closed when a view is left or a list is read again. A socket
  can be closed only once it is open, so the code starts an interval per socket that tries again
  every second.

  The sockets of a page are a list; a socket is known by its position. \<open>ctor uri\<close> tells whether the
  browser's constructor accepts the address (it raises an exception otherwise, which is caught).
\<close>

section \<open>State\<close>

datatype ready_state = WS_CONNECTING | WS_OPEN | WS_CLOSING | WS_CLOSED

record socket =
  so_uri :: string
  so_obj :: string
  so_rowid :: js
  so_kind :: string
  so_ready :: ready_state
  so_sent :: "string list"

text \<open>\<open>registered\<close> is \<open>Wat.WS.websockets\<close>, \<open>closing\<close> the running intervals \<open>closeTry\<close>, \<open>akn\<close> the pending
  timeouts that acknowledge a message.\<close>

record ws_st =
  sockets :: "socket list"
  registered :: "nat list obj"
  closing :: "nat list"
  akn :: "nat list"
  ws_cid :: string

definition ws_init :: ws_st where
  "ws_init = \<lparr> sockets = [], registered = [], closing = [], akn = [], ws_cid = '''' \<rparr>"

section \<open>Opening\<close>

definition ws_uri :: "wat_c \<Rightarrow> string \<Rightarrow> string \<Rightarrow> js obj \<Rightarrow> string" where
  "ws_uri C action stream params =
     encodeURI (C_apiWSUrl C @ stream @ ''?'' @ getUrlSid C @ ''&action='' @ action @ objToUrl params @
       ''&parameters='' @ json (JObj [(''source'', JStr (C_source C))]))"

definition filter_id :: "js obj \<Rightarrow> js" where
  "filter_id params =
     (case map_of params ''filters'' of
        Some (JObj ps) \<Rightarrow> (case map_of ps ''id'' of Some v \<Rightarrow> v | None \<Rightarrow> Undef)
      | _ \<Rightarrow> Undef)"

definition ws_register :: "nat \<Rightarrow> ws_st \<Rightarrow> ws_st" where
  "ws_register i S =
     S\<lparr>registered :=
        (case map_of (registered S) (ws_cid S) of
           None \<Rightarrow> AList.update (ws_cid S) [i] (registered S)
         | Some ws \<Rightarrow> AList.update (ws_cid S) (ws @ [i]) (registered S))\<rparr>"

definition openWebsocket ::
  "wat_c \<Rightarrow> bool \<Rightarrow> (string \<Rightarrow> bool) \<Rightarrow> string \<Rightarrow> string \<Rightarrow> js obj \<Rightarrow> string \<Rightarrow> string \<Rightarrow> ws_st \<Rightarrow> ws_st" where
  "openWebsocket C supported ctor qvdObj action params stream viewType S =
     (let uri = ws_uri C action stream params
      in if supported \<and> ctor uri then
           ws_register (length (sockets S))
             (S\<lparr>sockets := sockets S @
                [\<lparr> so_uri = uri, so_obj = qvdObj, so_rowid = filter_id params, so_kind = viewType,
                   so_ready = WS_CONNECTING, so_sent = [] \<rparr>]\<rparr>)
         else S)"

definition strs_js :: "string list \<Rightarrow> js" where
  "strs_js xs = JArr (map JStr xs)"

definition openStatsWebsockets ::
  "wat_c \<Rightarrow> bool \<Rightarrow> (string \<Rightarrow> bool) \<Rightarrow> string \<Rightarrow> string list \<Rightarrow> string \<Rightarrow> ws_st \<Rightarrow> ws_st" where
  "openStatsWebsockets C supported ctor qvdObj flds cid S =
     openWebsocket C supported ctor qvdObj ''qvd_objects_statistics'' [(''fields'', strs_js flds)] ''ws'' ''stats''
       (S\<lparr>ws_cid := cid\<rparr>)"

definition openDetailsWebsockets ::
  "wat_c \<Rightarrow> bool \<Rightarrow> (string \<Rightarrow> bool) \<Rightarrow> string \<Rightarrow> js \<Rightarrow> string list \<Rightarrow> string \<Rightarrow> string \<Rightarrow> ws_st \<Rightarrow> ws_st" where
  "openDetailsWebsockets C supported ctor qvdObj model_id flds cid viewType S =
     openWebsocket C supported ctor qvdObj (qvdObj @ ''_get_list'')
       [(''filters'', JObj [(''id'', model_id)]), (''fields'', strs_js flds)] ''ws''
       (if viewType = '''' then ''details'' else viewType) (S\<lparr>ws_cid := cid\<rparr>)"

section \<open>Closing\<close>

definition closeViewWebsockets :: "string \<Rightarrow> ws_st \<Rightarrow> ws_st" where
  "closeViewWebsockets view S =
     (case map_of (registered S) view of
        None \<Rightarrow> S
      | Some ws \<Rightarrow> S\<lparr>closing := closing S @ ws, registered := AList.delete view (registered S)\<rparr>)"

definition closeAllWebsockets :: "ws_st \<Rightarrow> ws_st" where
  "closeAllWebsockets S = foldl (\<lambda>S (view, ws). closeViewWebsockets view S) S (registered S)"

text \<open>A list first closes what it had. \<open>fields\<close> is the array of the caller, which gets another
  \<open>id\<close> at every call: the array after the call is the second result.\<close>

definition openListWebsockets ::
  "wat_c \<Rightarrow> bool \<Rightarrow> (string \<Rightarrow> bool) \<Rightarrow> string \<Rightarrow> int list \<Rightarrow> string list \<Rightarrow> string \<Rightarrow> ws_st \<Rightarrow>
    ws_st \<times> string list" where
  "openListWebsockets C supported ctor qvdObj ids flds cid S =
     (let S1 = closeViewWebsockets cid S;
          or_filter = JArr (concat (map (\<lambda>i. [JStr ''id'', JNum i]) ids));
          flds1 = flds @ [''id'']
      in (openWebsocket C supported ctor qvdObj (qvdObj @ ''_get_list'')
            [(''filters'', JObj [(''-or'', or_filter)]), (''fields'', strs_js flds1)] ''ws'' ''list''
            (S1\<lparr>ws_cid := cid\<rparr>), flds1))"

section \<open>Events\<close>

definition set_ready :: "ready_state \<Rightarrow> nat \<Rightarrow> ws_st \<Rightarrow> ws_st" where
  "set_ready r i S = S\<lparr>sockets := (sockets S)[i := (sockets S ! i)\<lparr>so_ready := r\<rparr>]\<rparr>"

definition ws_send :: "string \<Rightarrow> nat \<Rightarrow> ws_st \<Rightarrow> ws_st" where
  "ws_send m i S = S\<lparr>sockets := (sockets S)[i := (sockets S ! i)\<lparr>so_sent := so_sent (sockets S ! i) @ [m]\<rparr>]\<rparr>"

definition ready_of :: "ws_st \<Rightarrow> nat \<Rightarrow> ready_state" where
  "ready_of S i = so_ready (sockets S ! i)"

text \<open>One firing of the interval of socket \<open>i\<close>.\<close>

definition closeTry :: "nat \<Rightarrow> ws_st \<Rightarrow> ws_st" where
  "closeTry i S =
     (if ready_of S i = WS_OPEN
      then (set_ready WS_CLOSING i S)\<lparr>closing := remove1 i (closing S)\<rparr> else S)"

definition onopen :: "nat \<Rightarrow> ws_st \<Rightarrow> ws_st" where
  "onopen i S = ws_send ''HI'' i (set_ready WS_OPEN i S)"

text \<open>\<open>onmessage\<close>: a message other than the acknowledgement goes to the callback (the theory
  \<open>WsUpdates\<close>); every message is acknowledged half a second later, if the socket is open then.\<close>

definition onmessage :: "string \<Rightarrow> nat \<Rightarrow> ws_st \<Rightarrow> ws_st \<times> string option" where
  "onmessage msg i S = (S\<lparr>akn := akn S @ [i]\<rparr>, if msg = ''AKN'' then None else Some msg)"

definition aknTimeout :: "nat \<Rightarrow> ws_st \<Rightarrow> ws_st" where
  "aknTimeout i S =
     (let S1 = S\<lparr>akn := remove1 i (akn S)\<rparr>
      in if ready_of S1 i = WS_OPEN then ws_send ''AKN'' i S1 else S1)"

text \<open>What the views and the browser do with the channels, in any order. The life of a socket is the
  browser's: it opens once, and it ends from any state.\<close>

inductive ws_step :: "ws_st \<Rightarrow> ws_st \<Rightarrow> bool" where
  stats: "ws_step S (openStatsWebsockets C supported ctor q fs cid S)"
| details: "ws_step S (openDetailsWebsockets C supported ctor q m fs cid vt S)"
| list: "ws_step S (fst (openListWebsockets C supported ctor q is fs cid S))"
| close_view: "ws_step S (closeViewWebsockets v S)"
| close_all: "ws_step S (closeAllWebsockets S)"
| tick: "i \<in> set (closing S) \<Longrightarrow> ws_step S (closeTry i S)"
| opened: "i < length (sockets S) \<Longrightarrow> ready_of S i = WS_CONNECTING \<Longrightarrow> ws_step S (onopen i S)"
| closed: "i < length (sockets S) \<Longrightarrow> ws_step S (set_ready WS_CLOSED i S)"
| message: "i < length (sockets S) \<Longrightarrow> ready_of S i = WS_OPEN \<Longrightarrow> ws_step S (fst (onmessage m i S))"
| acknowledge: "i \<in> set (akn S) \<Longrightarrow> ws_step S (aknTimeout i S)"

section \<open>Who answers for a socket\<close>

text \<open>The sockets that a view keeps or that an interval is closing, with multiplicity.\<close>

definition kept :: "nat list obj \<Rightarrow> nat multiset" where
  "kept ps = mset (concat (map snd ps))"

definition owned :: "ws_st \<Rightarrow> nat multiset" where
  "owned S = kept (registered S) + mset (closing S)"

lemma kept_update_new: "k \<notin> fst ` set ps \<Longrightarrow> kept (AList.update k v ps) = kept ps + mset v"
  by (induction ps) (auto simp: kept_def)

lemma kept_update:
  "distinct (map fst ps) \<Longrightarrow> map_of ps k = Some w \<Longrightarrow>
     kept (AList.update k v ps) + mset w = kept ps + mset v"
  by (induction ps) (auto simp: kept_def ac_simps split: if_splits)

lemma kept_delete:
  "distinct (map fst ps) \<Longrightarrow> map_of ps k = Some w \<Longrightarrow> kept (AList.delete k ps) + mset w = kept ps"
  by (induction ps) (auto simp: kept_def ac_simps AList.delete_idem split: if_splits)

definition sent_shape :: "socket \<Rightarrow> bool" where
  "sent_shape s \<longleftrightarrow>
     (case so_sent s of [] \<Rightarrow> so_ready s \<noteq> WS_OPEN | m # ms \<Rightarrow> m = ''HI'' \<and> (\<forall>x\<in>set ms. x = ''AKN''))"

definition ws_ok :: "ws_st \<Rightarrow> bool" where
  "ws_ok S \<longleftrightarrow>
     distinct (map fst (registered S)) \<and> (\<forall>i. count (owned S) i \<le> 1) \<and>
     (\<forall>i \<in># owned S. i < length (sockets S)) \<and> (\<forall>i\<in>set (akn S). i < length (sockets S)) \<and>
     (\<forall>i < length (sockets S). ready_of S i \<in> {WS_CONNECTING, WS_OPEN} \<longrightarrow> i \<in># owned S) \<and>
     (\<forall>i < length (sockets S). so_ready (sockets S ! i) = WS_CONNECTING \<longrightarrow> so_sent (sockets S ! i) = []) \<and>
     (\<forall>s\<in>set (sockets S). sent_shape s)"

lemma ws_ok_owned:
  "ws_ok S \<Longrightarrow> i < length (sockets S) \<Longrightarrow> ready_of S i \<in> {WS_CONNECTING, WS_OPEN} \<Longrightarrow> i \<in># owned S"
  unfolding ws_ok_def by blast

lemma ws_ok_parts:
  assumes "ws_ok S"
  shows "distinct (map fst (registered S))" "count (owned S) i \<le> 1"
    "\<And>i. i \<in># owned S \<Longrightarrow> i < length (sockets S)" "\<And>i. i \<in> set (akn S) \<Longrightarrow> i < length (sockets S)"
    "\<And>i. i < length (sockets S) \<Longrightarrow> so_ready (sockets S ! i) = WS_CONNECTING \<Longrightarrow> so_sent (sockets S ! i) = []"
    "\<And>s. s \<in> set (sockets S) \<Longrightarrow> sent_shape s"
  using assms unfolding ws_ok_def by blast+

lemma owned_register: "distinct (map fst (registered S)) \<Longrightarrow> owned (ws_register i S) = add_mset i (owned S)"
proof (cases "map_of (registered S) (ws_cid S)")
  case None
  then have "ws_cid S \<notin> fst ` set (registered S)" by (simp add: map_of_eq_None_iff)
  with None show ?thesis by (simp add: owned_def ws_register_def kept_update_new)
next
  case (Some ws)
  assume "distinct (map fst (registered S))"
  from kept_update [OF this Some, of "ws @ [i]"] Some show ?thesis
    by (simp add: owned_def ws_register_def ac_simps)
qed

lemma owned_closeView:
  "distinct (map fst (registered S)) \<Longrightarrow> owned (closeViewWebsockets v S) = owned S"
  using kept_delete [of "registered S" v]
  by (auto simp: owned_def closeViewWebsockets_def ac_simps split: option.splits)

lemma closeView_frame [simp]:
  "sockets (closeViewWebsockets v S) = sockets S" "akn (closeViewWebsockets v S) = akn S"
  "ready_of (closeViewWebsockets v S) i = ready_of S i"
  by (simp_all add: closeViewWebsockets_def ready_of_def split: option.splits)

lemma distinct_closeView:
  "distinct (map fst (registered S)) \<Longrightarrow> distinct (map fst (registered (closeViewWebsockets v S)))"
  by (auto simp: closeViewWebsockets_def distinct_delete split: option.splits)

lemma closeView_ok [inv_intros]:
  assumes "ws_ok S" shows "ws_ok (closeViewWebsockets v S)"
proof -
  from assms have d: "distinct (map fst (registered S))" by (simp add: ws_ok_def)
  show ?thesis
    using assms distinct_closeView [OF d]
    unfolding ws_ok_def owned_closeView [OF d] closeView_frame by blast
qed

lemma closeAll_ok [inv_intros]: "ws_ok S \<Longrightarrow> ws_ok (closeAllWebsockets S)"
proof -
  have "ws_ok S \<Longrightarrow> ws_ok (foldl (\<lambda>S (view, ws). closeViewWebsockets view S) S vs)" for vs :: "nat list obj" and S
    by (induction vs arbitrary: S) (auto intro: closeView_ok)
  then show "ws_ok S \<Longrightarrow> ws_ok (closeAllWebsockets S)" by (simp add: closeAllWebsockets_def)
qed

lemma cid_ok [simp]: "ws_ok (S\<lparr>ws_cid := c\<rparr>) = ws_ok S"
  by (simp add: ws_ok_def owned_def ready_of_def)

lemma openWebsocket_ok [inv_intros]:
  assumes "ws_ok S" shows "ws_ok (openWebsocket C supported ctor q a ps st vt S)"
proof (cases "supported \<and> ctor (ws_uri C a st ps)")
  case True
  define n where "n = length (sockets S)"
  define s where "s = \<lparr> so_uri = ws_uri C a st ps, so_obj = q, so_rowid = filter_id ps, so_kind = vt,
                   so_ready = WS_CONNECTING, so_sent = [] \<rparr>"
  define S1 where "S1 = S\<lparr>sockets := sockets S @ [s]\<rparr>"
  have new: "openWebsocket C supported ctor q a ps st vt S = ws_register n S1"
    using True by (simp add: openWebsocket_def Let_def n_def s_def S1_def)
  have d: "distinct (map fst (registered S))" using assms by (simp add: ws_ok_def)
  then have d1: "distinct (map fst (registered S1))" by (simp add: S1_def)
  have o: "owned (ws_register n S1) = add_mset n (owned S)"
    using owned_register [OF d1] by (simp add: S1_def owned_def)
  have f: "sockets (ws_register n S1) = sockets S @ [s]" "akn (ws_register n S1) = akn S"
    by (simp_all add: ws_register_def S1_def)
  note parts = ws_ok_parts [OF assms]
  have "count (owned S) n = 0" using parts(3) by (auto simp: n_def count_eq_zero_iff)
  then have "\<forall>i. count (owned (ws_register n S1)) i \<le> 1" using parts(2) o by simp
  moreover have "distinct (map fst (registered (ws_register n S1)))"
    using d by (auto simp: ws_register_def S1_def distinct_upd split: option.splits)
  moreover have "\<forall>i \<in># add_mset n (owned S). i < length (sockets S @ [s])"
    using parts(3) by (auto simp: n_def intro: less_SucI)
  moreover have "\<forall>i\<in>set (akn S). i < length (sockets S @ [s])"
    using parts(4) by (auto intro: less_SucI)
  moreover have "\<forall>i < length (sockets S @ [s]).
      ready_of (ws_register n S1) i \<in> {WS_CONNECTING, WS_OPEN} \<longrightarrow> i \<in># add_mset n (owned S)"
  proof (intro allI impI)
    fix i assume i: "i < length (sockets S @ [s])" "ready_of (ws_register n S1) i \<in> {WS_CONNECTING, WS_OPEN}"
    show "i \<in># add_mset n (owned S)"
    proof (cases "i = n")
      case False
      with i(1) have "i < length (sockets S)" by (simp add: n_def)
      moreover from this i(2) have "ready_of S i \<in> {WS_CONNECTING, WS_OPEN}"
        by (simp add: ready_of_def f nth_append)
      ultimately show ?thesis using assms by (auto dest: ws_ok_owned)
    qed simp
  qed
  moreover have "\<forall>i < length (sockets S @ [s]). so_ready ((sockets S @ [s]) ! i) = WS_CONNECTING \<longrightarrow>
      so_sent ((sockets S @ [s]) ! i) = []"
    using parts(5) by (simp add: nth_append less_Suc_eq s_def)
  moreover have "\<forall>x\<in>set (sockets S @ [s]). sent_shape x"
    using parts(6) by (simp add: s_def sent_shape_def)
  ultimately show ?thesis unfolding new ws_ok_def o f by blast
qed (use assms in \<open>auto simp: openWebsocket_def Let_def\<close>)

text \<open>An event changes one socket and the intervals; it may take the socket out of \<open>owned\<close> when it
  leaves the states that need an owner.\<close>

lemma socket_event_ok:
  assumes ok: "ws_ok S" and i: "i < length (sockets S)"
    and S': "sockets S' = (sockets S)[i := s]" "registered S' = registered S"
            "mset (closing S') \<subseteq># mset (closing S)" "set (akn S') \<subseteq> set (akn S)"
    and s: "sent_shape s" "so_ready s = WS_CONNECTING \<Longrightarrow> so_sent s = []"
    and others: "\<And>j. j \<noteq> i \<Longrightarrow> count (mset (closing S')) j = count (mset (closing S)) j"
    and own: "so_ready s \<in> {WS_CONNECTING, WS_OPEN} \<Longrightarrow> i \<in># owned S'"
  shows "ws_ok S'"
proof -
  note parts = ws_ok_parts [OF ok]
  have sub: "owned S' \<subseteq># owned S" using S'(2,3) by (simp add: owned_def)
  have "\<forall>j. count (owned S') j \<le> 1"
    using parts(2) mset_subset_eq_count [OF sub] order_trans by blast
  moreover have "\<forall>j \<in># owned S'. j < length (sockets S')"
    using parts(3) sub S'(1) by (auto dest: mset_subset_eqD)
  moreover have "\<forall>j\<in>set (akn S'). j < length (sockets S')" using parts(4) S'(1,4) by auto
  moreover have "\<forall>j < length (sockets S'). ready_of S' j \<in> {WS_CONNECTING, WS_OPEN} \<longrightarrow> j \<in># owned S'"
  proof (intro allI impI)
    fix j assume j: "j < length (sockets S')" "ready_of S' j \<in> {WS_CONNECTING, WS_OPEN}"
    show "j \<in># owned S'"
    proof (cases "j = i")
      case True then show ?thesis using j own i S'(1) by (simp add: ready_of_def)
    next
      case False
      then have "ready_of S' j = ready_of S j" by (simp add: ready_of_def S'(1))
      then have "j \<in># owned S" using j ok S'(1) by (intro ws_ok_owned) simp_all
      moreover have "count (owned S') j = count (owned S) j"
        using others [OF False] S'(2) by (simp add: owned_def)
      ultimately show ?thesis by (simp flip: count_greater_zero_iff)
    qed
  qed
  moreover have "\<forall>j < length (sockets S'). so_ready (sockets S' ! j) = WS_CONNECTING \<longrightarrow> so_sent (sockets S' ! j) = []"
    using parts(5) s(2) i by (auto simp: S'(1) nth_list_update)
  moreover have "\<forall>x\<in>set (sockets S'). sent_shape x"
    using parts(6) s(1) set_update_subset_insert [of "sockets S" i s] by (auto simp: S'(1))
  moreover have "distinct (map fst (registered S'))" using parts(1) S'(2) by simp
  ultimately show ?thesis unfolding ws_ok_def by blast
qed

lemma owned_in_closing: "i \<in> set (closing S) \<Longrightarrow> i \<in># owned S"
  by (simp add: owned_def)

lemma closeTry_ok [inv_intros]:
  assumes "ws_ok S" and "i \<in> set (closing S)"
  shows "ws_ok (closeTry i S)"
proof (cases "ready_of S i = WS_OPEN")
  case True
  have i: "i < length (sockets S)" using assms ws_ok_parts(3) owned_in_closing by blast
  have "sent_shape (sockets S ! i)" using ws_ok_parts(6) [OF assms(1)] i by simp
  then have "sent_shape ((sockets S ! i)\<lparr>so_ready := WS_CLOSING\<rparr>)"
    by (auto simp: sent_shape_def split: list.splits)
  then show ?thesis
    using True by (intro socket_event_ok [OF assms(1) i, where s = "(sockets S ! i)\<lparr>so_ready := WS_CLOSING\<rparr>"])
      (auto simp: closeTry_def set_ready_def)
qed (use assms in \<open>simp add: closeTry_def\<close>)

lemma onopen_ok [inv_intros]:
  assumes "ws_ok S" and "i < length (sockets S)" and "ready_of S i = WS_CONNECTING"
  shows "ws_ok (onopen i S)"
proof (rule socket_event_ok [OF assms(1,2), where s = "(sockets S ! i)\<lparr>so_ready := WS_OPEN, so_sent := [''HI'']\<rparr>"])
  have "so_sent (sockets S ! i) = []" using ws_ok_parts(5) [OF assms(1,2)] assms(3) by (simp add: ready_of_def)
  then show "sockets (onopen i S) = (sockets S)[i := (sockets S ! i)\<lparr>so_ready := WS_OPEN, so_sent := [''HI'']\<rparr>]"
    using assms(2) by (simp add: onopen_def ws_send_def set_ready_def)
  have "i \<in># owned S" using assms by (intro ws_ok_owned) simp_all
  then show "i \<in># owned (onopen i S)" by (simp add: onopen_def ws_send_def set_ready_def owned_def)
qed (simp_all add: onopen_def ws_send_def set_ready_def sent_shape_def)

lemma closed_ok [inv_intros]:
  assumes "ws_ok S" and "i < length (sockets S)"
  shows "ws_ok (set_ready WS_CLOSED i S)"
proof (rule socket_event_ok [OF assms, where s = "(sockets S ! i)\<lparr>so_ready := WS_CLOSED\<rparr>"])
  have "sent_shape (sockets S ! i)" using ws_ok_parts(6) [OF assms(1)] assms(2) by simp
  then show "sent_shape ((sockets S ! i)\<lparr>so_ready := WS_CLOSED\<rparr>)"
    by (auto simp: sent_shape_def split: list.splits)
qed (simp_all add: set_ready_def)

lemma onmessage_ok [inv_intros]:
  assumes "ws_ok S" and "i < length (sockets S)"
  shows "ws_ok (fst (onmessage m i S))"
proof -
  have frame: "owned (fst (onmessage m i S)) = owned S" "ready_of (fst (onmessage m i S)) j = ready_of S j"
    "sockets (fst (onmessage m i S)) = sockets S" "registered (fst (onmessage m i S)) = registered S" for j
    by (simp_all add: onmessage_def owned_def ready_of_def)
  have "\<forall>j\<in>set (akn (fst (onmessage m i S))). j < length (sockets S)"
    using ws_ok_parts(4) [OF assms(1)] assms(2) by (auto simp: onmessage_def)
  then show ?thesis using assms(1) unfolding ws_ok_def frame by blast
qed

lemma aknTimeout_ok [inv_intros]:
  assumes "ws_ok S" and "i \<in> set (akn S)"
  shows "ws_ok (aknTimeout i S)"
proof -
  have i: "i < length (sockets S)" using ws_ok_parts(4) [OF assms] .
  have sh: "sent_shape (sockets S ! i)" using ws_ok_parts(6) [OF assms(1)] i by simp
  let ?s = "if ready_of S i = WS_OPEN then (sockets S ! i)\<lparr>so_sent := so_sent (sockets S ! i) @ [''AKN'']\<rparr> else sockets S ! i"
  show ?thesis
  proof (rule socket_event_ok [OF assms(1) i, where s = ?s])
    show "sockets (aknTimeout i S) = (sockets S)[i := ?s]"
      by (simp add: aknTimeout_def ws_send_def ready_of_def Let_def)
    show "sent_shape ?s"
      using sh by (auto simp: sent_shape_def ready_of_def split: list.splits)
    show "so_ready ?s = WS_CONNECTING \<Longrightarrow> so_sent ?s = []"
      using ws_ok_parts(5) [OF assms(1) i] by (auto simp: ready_of_def split: if_splits)
    assume "so_ready ?s \<in> {WS_CONNECTING, WS_OPEN}"
    then have "i \<in># owned S" using ws_ok_owned [OF assms(1) i] by (auto simp: ready_of_def split: if_splits)
    then show "i \<in># owned (aknTimeout i S)" by (simp add: aknTimeout_def ws_send_def owned_def Let_def)
  qed (use set_remove1_subset [of i "akn S"] in \<open>simp_all add: aknTimeout_def ws_send_def Let_def\<close>)
qed

lemma ws_step_ok: "ws_step S T \<Longrightarrow> ws_ok S \<Longrightarrow> ws_ok T"
  by (induction rule: ws_step.induct)
     (auto simp: openStatsWebsockets_def openDetailsWebsockets_def openListWebsockets_def Let_def
       intro!: inv_intros)

lemma ws_reach_ok: "ws_step\<^sup>*\<^sup>* ws_init S \<Longrightarrow> ws_ok S"
proof (induction rule: rtranclp_induct)
  case base
  show ?case by (simp add: ws_ok_def ws_init_def owned_def kept_def)
qed (rule ws_step_ok)

section \<open>Properties\<close>

text \<open>C15. No channel is lost: in every reachable state a socket that is connecting or open is kept by
  one view or is being closed by one interval, never both. An open socket has sent its greeting,
  followed by acknowledgements only.\<close>

theorem ws_no_leak:
  assumes "ws_step\<^sup>*\<^sup>* ws_init S" and "i < length (sockets S)" and "ready_of S i \<in> {WS_CONNECTING, WS_OPEN}"
  shows "(i \<in> set (closing S)) \<noteq> (\<exists>(view, ws) \<in> set (registered S). i \<in> set ws) \<and>
    (ready_of S i = WS_OPEN \<longrightarrow>
       (\<exists>n. so_sent (sockets S ! i) = ''HI'' # replicate n ''AKN''))"
proof
  have ok: "ws_ok S" using assms(1) by (rule ws_reach_ok)
  have "i \<in># owned S" using ok assms(2,3) by (rule ws_ok_owned)
  with ws_ok_parts(2) [OF ok, of i] have "count (owned S) i = 1" by (simp flip: count_greater_zero_iff)
  then have "(count (mset (closing S)) i = 0) = (count (kept (registered S)) i \<noteq> 0)"
    unfolding owned_def count_union by arith
  moreover have "(\<exists>(view, ws) \<in> set (registered S). i \<in> set ws) \<longleftrightarrow> count (kept (registered S)) i \<noteq> 0"
    by (force simp: kept_def)
  moreover have "i \<in> set (closing S) \<longleftrightarrow> count (mset (closing S)) i \<noteq> 0" by simp
  ultimately show "(i \<in> set (closing S)) \<noteq> (\<exists>(view, ws) \<in> set (registered S). i \<in> set ws)"
    by blast
  have "sent_shape (sockets S ! i)" using ws_ok_parts(6) [OF ok] assms(2) by simp
  then show "ready_of S i = WS_OPEN \<longrightarrow> (\<exists>n. so_sent (sockets S ! i) = ''HI'' # replicate n ''AKN'')"
    by (auto simp: sent_shape_def ready_of_def replicate_length_same split: list.splits)
       (metis replicate_length_same)
qed

lemma closeAll_facts:
  assumes "ws_ok S"
  shows "registered (closeAllWebsockets S) = []" "sockets (closeAllWebsockets S) = sockets S"
    "mset (closing (closeAllWebsockets S)) = owned S"
proof -
  let ?all = "foldl (\<lambda>S (view, ws). closeViewWebsockets view S)"
  have keys: "fst ` set (registered (closeViewWebsockets v S)) = fst ` set (registered S) - {v}" for v S
    by (auto simp: closeViewWebsockets_def delete_keys map_of_eq_None_iff split: option.splits
        simp flip: set_map)
  have "fst ` set (registered (?all S vs)) = fst ` set (registered S) - fst ` set vs" for vs :: "nat list obj" and S
  proof (induction vs arbitrary: S)
    case (Cons p vs)
    show ?case
      using Cons [of "closeViewWebsockets (fst p) S"] Diff_insert2 [of _ "fst p" "fst ` set vs"]
      by (simp add: keys split_beta)
  qed simp
  then have "fst ` set (registered (?all S (registered S))) = {}" by simp
  then show r: "registered (closeAllWebsockets S) = []" by (simp add: closeAllWebsockets_def)
  have "sockets (?all S vs) = sockets S" for vs :: "nat list obj" and S
    by (induction vs arbitrary: S) auto
  then show "sockets (closeAllWebsockets S) = sockets S" by (simp add: closeAllWebsockets_def)
  have "distinct (map fst (registered S)) \<Longrightarrow> owned (?all S vs) = owned S" for vs :: "nat list obj" and S
    by (induction vs arbitrary: S) (auto simp: owned_closeView distinct_closeView)
  then have "owned (closeAllWebsockets S) = owned S"
    using ws_ok_parts(1) [OF assms] by (simp add: closeAllWebsockets_def)
  with r show "mset (closing (closeAllWebsockets S)) = owned S" by (simp add: owned_def kept_def)
qed

text \<open>C16. Leaving a page ends its channels: after \<open>closeAllWebsockets\<close> no view keeps a socket and every
  socket that is not ended has an interval; the first firing of the interval after the socket is
  open closes it and stops the interval.\<close>

theorem closeAll_ends_channels:
  assumes "ws_step\<^sup>*\<^sup>* ws_init S" and "i < length (sockets S)" and "ready_of S i \<in> {WS_CONNECTING, WS_OPEN}"
  shows "registered (closeAllWebsockets S) = [] \<and> i \<in> set (closing (closeAllWebsockets S)) \<and>
    (let S1 = closeAllWebsockets S; S2 = (if ready_of S i = WS_CONNECTING then onopen i S1 else S1);
         S3 = closeTry i S2
     in ready_of S3 i = WS_CLOSING \<and> i \<notin> set (closing S3))"
proof -
  have ok: "ws_ok S" using assms(1) by (rule ws_reach_ok)
  note facts = closeAll_facts [OF ok]
  have "i \<in># owned S" using ok assms(2,3) by (rule ws_ok_owned)
  with ws_ok_parts(2) [OF ok, of i] have "count (mset (closing (closeAllWebsockets S))) i = 1"
    by (simp only: facts(3) count_greater_zero_iff [symmetric])
  then have c: "i \<in> set (closing (closeAllWebsockets S))" "i \<notin> set (remove1 i (closing (closeAllWebsockets S)))"
    by (metis count_eq_zero_iff set_mset_mset zero_neq_one,
        metis count_eq_zero_iff set_mset_mset mset_remove1 count_diff count_single diff_self_eq_0)
  then show ?thesis
    using assms(2,3) facts
    by (auto simp: Let_def closeTry_def onopen_def ws_send_def set_ready_def ready_of_def)
qed

lemma closeAll_closing: "set (closing S) \<subseteq> set (closing (foldl (\<lambda>S (view, ws). closeViewWebsockets view S) S vs))"
proof (induction vs arbitrary: S)
  case (Cons p vs)
  have "set (closing S) \<subseteq> set (closing (closeViewWebsockets (fst p) S))"
    by (auto simp: closeViewWebsockets_def split: option.splits)
  with Cons [of "closeViewWebsockets (fst p) S"] show ?case by (cases p) auto
qed simp

lemma closeAll_sockets: "sockets (foldl (\<lambda>S (view, ws). closeViewWebsockets view S) S vs) = sockets S"
  by (induction vs arbitrary: S) auto

lemma openWebsocket_frame:
  "closing (openWebsocket C supported ctor q a ps st vt S) = closing S"
  "i < length (sockets S) \<Longrightarrow> i < length (sockets (openWebsocket C supported ctor q a ps st vt S))"
  "i < length (sockets S) \<Longrightarrow> ready_of (openWebsocket C supported ctor q a ps st vt S) i = ready_of S i"
  by (auto simp: openWebsocket_def Let_def ws_register_def ready_of_def nth_append)

lemma closeView_closing: "i \<in> set (closing S) \<Longrightarrow> i \<in> set (closing (closeViewWebsockets v S))"
  by (auto simp: closeViewWebsockets_def split: option.splits)

lemma ended_stays:
  "ws_step T U \<Longrightarrow> i \<in> set (closing T) \<Longrightarrow> i < length (sockets T) \<Longrightarrow> ready_of T i \<in> {WS_CLOSING, WS_CLOSED} \<Longrightarrow>
   i \<in> set (closing U) \<and> i < length (sockets U) \<and> ready_of U i \<in> {WS_CLOSING, WS_CLOSED}"
proof (induction rule: ws_step.induct)
  case (close_all S)
  then show ?case
    using closeAll_closing [of S "registered S"] closeAll_sockets [of S "registered S"]
    by (auto simp: closeAllWebsockets_def ready_of_def)
next
  case (tick j S)
  then show ?case
    by (cases "i = j") (auto simp: closeTry_def set_ready_def ready_of_def)
next
  case (opened j S)
  then show ?case by (cases "i = j") (auto simp: onopen_def ws_send_def set_ready_def ready_of_def)
next
  case (closed j S)
  then show ?case by (cases "i = j") (auto simp: set_ready_def ready_of_def)
next
  case (acknowledge j S)
  then show ?case by (cases "i = j") (auto simp: aknTimeout_def ws_send_def ready_of_def Let_def)
qed (auto simp: openStatsWebsockets_def openDetailsWebsockets_def openListWebsockets_def Let_def
      openWebsocket_frame closeView_closing onmessage_def ready_of_def [of "_\<lparr>ws_cid := _\<rparr>"]
      ready_of_def [of "_\<lparr>akn := _\<rparr>"] simp flip: ready_of_def)

text \<open>An interval whose socket ended by itself (the server closed it, or it never connected) never
  stops: it fires for ever, because it only looks for an open socket.\<close>

theorem closeTry_never_stops:
  assumes "ws_step\<^sup>*\<^sup>* S T" and "i \<in> set (closing S)" and "i < length (sockets S)"
    and "ready_of S i \<in> {WS_CLOSING, WS_CLOSED}"
  shows "i \<in> set (closing T) \<and> closeTry i T = T"
proof -
  have "i \<in> set (closing T) \<and> i < length (sockets T) \<and> ready_of T i \<in> {WS_CLOSING, WS_CLOSED}"
    using assms
  proof (induction rule: rtranclp_induct)
    case (step T U)
    then have "i \<in> set (closing T)" "i < length (sockets T)" "ready_of T i \<in> {WS_CLOSING, WS_CLOSED}" by auto
    with step.hyps(2) show ?case by (rule ended_stays)
  qed simp
  then show ?thesis by (auto simp: closeTry_def)
qed

text \<open>Reading a list again replaces its channel: the view keeps exactly the new socket, which asks for
  the rows shown now, the earlier sockets of the view go to their intervals, and the other views
  keep theirs. The array of live fields of the view, which all the views of its class share, grows
  by one \<open>id\<close> each time: after \<open>n\<close> readings it has \<open>n\<close> of them.\<close>

theorem openList_replaces:
  assumes "ctor (ws_uri C (q @ ''_get_list'') ''ws''
      [(''filters'', JObj [(''-or'', JArr (concat (map (\<lambda>i. [JStr ''id'', JNum i]) is)))]),
       (''fields'', strs_js (fs @ [''id'']))])"
    and "S' = fst (openListWebsockets C True ctor q is fs cid S)"
  shows "map_of (registered S') cid = Some [length (sockets S)] \<and>
    length (sockets S') = Suc (length (sockets S)) \<and>
    (\<forall>ws. map_of (registered S) cid = Some ws \<longrightarrow> closing S' = closing S @ ws) \<and>
    (\<forall>v. v \<noteq> cid \<longrightarrow> map_of (registered S') v = map_of (registered S) v) \<and>
    ((\<lambda>fs. snd (openListWebsockets C True ctor q is fs cid S)) ^^ n) fs = fs @ replicate n ''id''"
proof -
  let ?S1 = "(closeViewWebsockets cid S)\<lparr>ws_cid := cid\<rparr>"
  have gone: "map_of (registered ?S1) cid = None" "\<And>v. v \<noteq> cid \<Longrightarrow> map_of (registered ?S1) v = map_of (registered S) v"
    by (auto simp: closeViewWebsockets_def split: option.splits)
  have S': "S' = ws_register (length (sockets S)) (?S1\<lparr>sockets := sockets S @
      [\<lparr> so_uri = ws_uri C (q @ ''_get_list'') ''ws''
           [(''filters'', JObj [(''-or'', JArr (concat (map (\<lambda>i. [JStr ''id'', JNum i]) is)))]),
            (''fields'', strs_js (fs @ [''id'']))],
         so_obj = q, so_rowid = Undef, so_kind = ''list'', so_ready = WS_CONNECTING, so_sent = [] \<rparr>]\<rparr>)"
    using assms by (simp add: openListWebsockets_def openWebsocket_def Let_def WsChannels.filter_id_def)
  have "closing S' = closing S @ ws" if "map_of (registered S) cid = Some ws" for ws
    using that unfolding S' by (simp add: ws_register_def closeViewWebsockets_def)
  moreover have "((\<lambda>fs. snd (openListWebsockets C True ctor q is fs cid S)) ^^ n) fs = fs @ replicate n ''id''"
    by (induction n) (simp_all add: openListWebsockets_def Let_def replicate_append_same)
  ultimately show ?thesis using gone unfolding S' by (simp add: ws_register_def)
qed

definition sample_ws :: ws_st where
  "sample_ws = openStatsWebsockets (wat_c_init []) True (\<lambda>_. True) ''home'' [''users_count''] ''c1'' ws_init"

lemma sample_ws_facts:
  "ws_step\<^sup>*\<^sup>* ws_init (onopen 0 sample_ws)" "length (sockets (onopen 0 sample_ws)) = 1"
  "ready_of (onopen 0 sample_ws) 0 = WS_OPEN"
  "registered (onopen 0 sample_ws) = [(''c1'', [0])]" "closing (onopen 0 sample_ws) = []"
proof -
  have 1: "length (sockets sample_ws) = 1" "ready_of sample_ws 0 = WS_CONNECTING"
    "registered sample_ws = [(''c1'', [0])]" "closing sample_ws = []"
    by (simp_all add: sample_ws_def openStatsWebsockets_def openWebsocket_def Let_def ws_register_def ws_init_def ready_of_def)
  have "ws_step ws_init sample_ws" unfolding sample_ws_def by (rule ws_step.stats)
  moreover have "ws_step sample_ws (onopen 0 sample_ws)" using 1 by (intro ws_step.opened) simp_all
  ultimately show "ws_step\<^sup>*\<^sup>* ws_init (onopen 0 sample_ws)" by auto
  show "length (sockets (onopen 0 sample_ws)) = 1" "ready_of (onopen 0 sample_ws) 0 = WS_OPEN"
    "registered (onopen 0 sample_ws) = [(''c1'', [0])]" "closing (onopen 0 sample_ws) = []"
    using 1 by (simp_all add: onopen_def ws_send_def set_ready_def ready_of_def)
qed

theorem ws_no_leak_witness:
  "0 \<notin> set (closing (onopen 0 sample_ws)) \<and> (\<exists>n. so_sent (sockets (onopen 0 sample_ws) ! 0) = ''HI'' # replicate n ''AKN'')"
  using ws_no_leak [OF sample_ws_facts(1), of 0] by (simp add: sample_ws_facts)

theorem closeAll_ends_channels_witness:
  "registered (closeAllWebsockets (onopen 0 sample_ws)) = [] \<and>
   ready_of (closeTry 0 (closeAllWebsockets (onopen 0 sample_ws))) 0 = WS_CLOSING"
  using closeAll_ends_channels [OF sample_ws_facts(1), of 0] by (simp add: sample_ws_facts Let_def)

theorem closeTry_never_stops_witness:
  "0 \<in> set (closing (closeTry 0 (set_ready WS_CLOSED 0 (closeAllWebsockets (onopen 0 sample_ws)))))"
proof -
  let ?S = "set_ready WS_CLOSED 0 (closeAllWebsockets (onopen 0 sample_ws))"
  have "closing (closeAllWebsockets (onopen 0 sample_ws)) = [0]"
    by (simp add: closeAllWebsockets_def closeViewWebsockets_def sample_ws_facts)
  moreover have "sockets (closeAllWebsockets (onopen 0 sample_ws)) = sockets (onopen 0 sample_ws)"
    by (simp add: closeAllWebsockets_def closeAll_sockets)
  ultimately have "0 \<in> set (closing ?S)" "0 < length (sockets ?S)" "ready_of ?S 0 \<in> {WS_CLOSING, WS_CLOSED}"
    using sample_ws_facts(2) by (simp_all add: set_ready_def ready_of_def)
  from closeTry_never_stops [OF rtranclp.rtrancl_refl this] this(1) show ?thesis by simp
qed

theorem openList_replaces_witness:
  "map_of (registered (fst (openListWebsockets (wat_c_init []) True (\<lambda>_. True) ''vm'' [3] [''state''] ''c1'' sample_ws))) ''c1''
     = Some [1]"
proof -
  have "length (sockets sample_ws) = 1"
    using sample_ws_facts(2) by (simp add: onopen_def ws_send_def set_ready_def)
  then show ?thesis
    using openList_replaces [of "\<lambda>_. True" "wat_c_init []" "''vm''" "[3]" "[''state'']" _ "''c1''" sample_ws, OF _ refl]
    by simp
qed

end
