(* ===== verification/WsUpdates.thy ===== *)
theory WsUpdates
  imports WsChannels
begin

text \<open>
  What a message of a channel does (\<open>changeWebsocket\<close> of \<open>wat/lib/websockets/websockets.js\<close> and
  \<open>websockets.vm.js\<close>, \<open>.user.js\<close>, \<open>.host.js\<close>, \<open>.osf.js\<close>, \<open>.di.js\<close>, \<open>.stats.js\<close>): the rows of the answer are
  stored in the models of the current view and drawn field by field.

  Parameters: \<open>t\<close> translates; \<open>D\<close> is what the handlers read from the page; \<open>now\<close> is the time of day as
  text, \<open>pct\<close> is \<open>parseFloat(x * 100).toFixed(2)\<close> and \<open>remain\<close> is \<open>Wat.U.getRemainingTime\<close>, which
  work with fractions; \<open>opts\<close> maps the states of an image to their texts
  (\<open>Wat.I.detailsFields.di.general.fieldList.state.options\<close>); \<open>tpl\<close> fills a template.
\<close>

section \<open>The view and the page\<close>

record live_view =
  lv_model :: "js obj option"
  lv_collection :: "js obj list option"
  lv_restarting :: bool
  lv_stats :: "js obj option"

record page_read =
  pr_exists :: "string \<Rightarrow> bool"
  pr_attr :: "string \<Rightarrow> string \<Rightarrow> js"

definition get_attr :: "js obj \<Rightarrow> string \<Rightarrow> js" where
  "get_attr ob k = (case map_of ob k of None \<Rightarrow> Undef | Some v \<Rightarrow> v)"

text \<open>A property of a value; reading one of \<open>undefined\<close> or \<open>null\<close> is a TypeError.\<close>

fun js_prop :: "js \<Rightarrow> string \<Rightarrow> js_error + js" where
  "js_prop Undef k = Inl TypeError"
| "js_prop Null k = Inl TypeError"
| "js_prop (JObj ps) k = Inr (get_attr ps k)"
| "js_prop _ k = Inr Undef"

definition CLASS_ICON_STATUS_RUNNING :: string where "CLASS_ICON_STATUS_RUNNING = ''fa fa-play''"
definition CLASS_ICON_STATUS_STOPPED :: string where "CLASS_ICON_STATUS_STOPPED = ''fa fa-stop''"
definition CLASS_ICON_STATUS_STARTING :: string where
  "CLASS_ICON_STATUS_STARTING = ''fa fa-play faa-flash animated''"
definition CLASS_ICON_STATUS_STOPPING :: string where
  "CLASS_ICON_STATUS_STOPPING = ''fa fa-stop faa-flash animated''"
definition CLASS_ICON_STATUS_ZOMBIE :: string where "CLASS_ICON_STATUS_ZOMBIE = ''fa fa-medkit''"
definition CLASS_ICON_STATUS_LOST :: string where
  "CLASS_ICON_STATUS_LOST = ''fa fa-map-o faa-flash animated''"

text \<open>The selectors \<open>[data-wsupdate="x"][data-id="i"]\<close> and \<open>[data-id="i"] c\<close>.\<close>

definition wsel :: "string \<Rightarrow> js \<Rightarrow> string" where
  "wsel x i = ''[data-wsupdate=\"'' @ x @ ''\"][data-id=\"'' @ js_str i @ ''\"]''"

definition isel :: "js \<Rightarrow> string \<Rightarrow> string" where
  "isel i c = ''[data-id=\"'' @ js_str i @ ''\"]'' @ c"

definition dhtml :: "string \<Rightarrow> string \<Rightarrow> effect" where "dhtml s x = Dom DomHtml s (JStr x)"
definition dattr :: "string \<Rightarrow> string \<Rightarrow> js \<Rightarrow> effect" where "dattr a s v = Dom (DomAttr a) s v"
definition dshow :: "string \<Rightarrow> effect" where "dshow s = Dom DomShow s Null"
definition dhide :: "string \<Rightarrow> effect" where "dhide s = Dom DomHide s Null"
definition dadd :: "string \<Rightarrow> string \<Rightarrow> effect" where "dadd s c = Dom DomAddClass s (JStr c)"
definition drem :: "string \<Rightarrow> string \<Rightarrow> effect" where "drem s c = Dom DomRemoveClass s (JStr c)"

section \<open>Virtual machines\<close>

text \<open>The button of a machine: what it was, what it becomes, its text.\<close>

definition button_is :: "(string \<Rightarrow> js \<Rightarrow> string) \<Rightarrow> js \<Rightarrow> string \<Rightarrow> string \<Rightarrow> string \<Rightarrow> effect list" where
  "button_is t i old new text =
     (let s = wsel ''state-button'' i
      in [drem s (old @ '' invisible''), dadd s new, dattr ''title'' s (JStr (t text Undef)),
          dhtml (s @ '' span'') (t text Undef)])"

definition state_icon :: "(string \<Rightarrow> js \<Rightarrow> string) \<Rightarrow> js \<Rightarrow> string \<Rightarrow> string \<Rightarrow> effect list" where
  "state_icon t i cls text =
     [dattr ''class'' (wsel ''state'' i) (JStr cls), dattr ''title'' (wsel ''state'' i) (JStr (t text Undef)),
      dhtml (wsel ''state-text'' i) (t text Undef)]"

definition start_button :: string where "start_button = ''js-button-start-vm '' @ CLASS_ICON_STATUS_RUNNING"
definition stop_button :: string where "stop_button = ''js-button-stop-vm '' @ CLASS_ICON_STATUS_STOPPED"

definition vm_state_body ::
  "(string \<Rightarrow> js \<Rightarrow> string) \<Rightarrow> js \<Rightarrow> js \<Rightarrow> live_view \<Rightarrow> live_view \<times> effect list" where
  "vm_state_body t i data V =
     (let txt = wsel ''state-text'' i; flash = ''faa-flash animated''
      in if data = JStr ''running'' then
           (V, state_icon t i CLASS_ICON_STATUS_RUNNING ''Running'' @ [drem txt flash] @
               button_is t i start_button stop_button ''Stop'' @
               [drem (wsel ''ip'' i) ''invisible'', drem ''.remote-administration-buttons a'' ''disabled''])
         else if data = JStr ''stopped'' then
           (V\<lparr>lv_restarting := False\<rparr>,
            state_icon t i CLASS_ICON_STATUS_STOPPED ''Stopped'' @ [drem txt flash] @
               button_is t i stop_button start_button ''Start'' @
               (if lv_restarting V then [Call ''startVM'' []] else []) @
               [dhide (''.js-execution-image-warning'' @ isel i '''')])
         else if data = JStr ''starting'' then
           (V, state_icon t i CLASS_ICON_STATUS_STARTING ''Starting'' @ [dadd txt flash] @
               button_is t i start_button stop_button ''Stop'')
         else if data = JStr ''stopping'' then
           (V, state_icon t i CLASS_ICON_STATUS_STOPPING ''Stopping'' @ [dadd txt flash] @
               button_is t i start_button stop_button ''Stop'' @
               [dadd ''.remote-administration-buttons a'' ''disabled'',
                dhide ''[data-wsupdate=\"state-running\"]'', dshow ''.js-execution-params-button-row'',
                dhide ''.js-execution-params'', dhide (wsel ''di_warning_icon'' i)])
         else if data = JStr ''zombie'' then
           (V, state_icon t i CLASS_ICON_STATUS_ZOMBIE ''Zombie'' @ [drem txt flash] @
               [drem (wsel ''state-button'' i) (stop_button @ '' '' @ start_button),
                dadd (wsel ''state-button'' i) ''invisible'', dhide ''[data-wsupdate=\"state-running\"]''])
         else (V, []))"

definition vm_state ::
  "(string \<Rightarrow> js \<Rightarrow> string) \<Rightarrow> js \<Rightarrow> js \<Rightarrow> string \<Rightarrow> live_view \<Rightarrow> live_view \<times> effect list" where
  "vm_state t i data viewType V =
     (let e1 = (if viewType = ''details'' \<and> lv_model V \<noteq> None
                then [dhide ''.js-body-state'', dshow (wsel (''state-'' @ js_str data) i)] else []);
          e2 = [dadd (wsel ''ip'' i) ''invisible''];
          e3 = (if viewType = ''list'' then
                  [Dom DomRemove (''.js-name .vm-state-'' @ js_str i) Null,
                   Dom DomAppend (''tr.row-'' @ js_str i @ ''>td.js-name'') data]
                else if viewType = ''details'' then [dattr ''data-state'' ''.js-vm-execution-table'' data]
                else []);
          (V1, e4) = vm_state_body t i data V
      in (V1, e1 @ e2 @ e3 @ e4))"

definition find_model :: "js \<Rightarrow> live_view \<Rightarrow> js obj option" where
  "find_model i V =
     (case lv_collection V of None \<Rightarrow> None | Some ms \<Rightarrow> find (\<lambda>m. get_attr m ''id'' = i) ms)"

text \<open>A cell is drawn again when its date changed; the model of the row is needed for that.\<close>

definition vm_expiration_list ::
  "(string \<Rightarrow> js list \<Rightarrow> string) \<Rightarrow> page_read \<Rightarrow> js \<Rightarrow> string \<Rightarrow> js \<Rightarrow> js obj \<Rightarrow> live_view \<Rightarrow> js_error + effect list" where
  "vm_expiration_list tpl D i field data row V =
     (let icon = wsel ''expiration-icon'' i;
          soft = (if field = ''expiration_soft'' then data else pr_attr D icon ''data-expiration_soft'');
          hard = (if field = ''expiration_hard'' then data else pr_attr D icon ''data-expiration_hard'');
          e1 = (if pr_exists D ''[data-wsupdate=\"expiration-icon\"]'' then
                  [dattr (''data-'' @ field) icon data,
                   (if (truthy soft \<or> truthy hard) \<and> get_attr row ''state'' = JStr ''running''
                    then dshow icon else dhide icon)]
                else []);
          cell = wsel (field @ ''-cell'') i; old = pr_attr D cell (''data-'' @ field)
      in if pr_exists D (''[data-wsupdate=\"'' @ field @ ''-cell\"]'') then
           (if truthy data then
              (if old = Undef \<or> \<not> loose_eq old data then
                 (case find_model i V of
                    None \<Rightarrow> Inl TypeError
                  | Some m \<Rightarrow> Inr (e1 @ [dattr (''data-'' @ field) cell data,
                      dhtml cell (tpl ''vmListExpiration'' [get_attr m field, get_attr m (''time_until_'' @ field)])]))
               else Inr (e1 @ [dattr (''data-'' @ field) cell data]))
            else Inr (e1 @ [dattr (''data-'' @ field) cell data, dhtml cell '''']))
         else Inr e1)"

definition vm_expiration_details ::
  "(string \<Rightarrow> js list \<Rightarrow> string) \<Rightarrow> wat_c \<Rightarrow> js \<Rightarrow> string \<Rightarrow> js \<Rightarrow> live_view \<Rightarrow> js_error + effect list" where
  "vm_expiration_details tpl C i field data V =
     (if acl1 C ''vm.see.expiration'' then
        (case lv_model V of
           None \<Rightarrow> Inl TypeError
         | Some m \<Rightarrow>
             Inr [dattr (''data-'' @ field) (wsel (field @ ''-row'') i) data,
                  dhtml ''.bb-vm-details-expiration'' (tpl ''vmDetailsExpiration''
                    [get_attr m ''expiration_soft'', get_attr m ''expiration_hard'',
                     get_attr m ''time_until_expiration_soft'', get_attr m ''time_until_expiration_hard'']),
                  Call ''translate'' []])
      else Inr [])"

definition in_link :: "page_read \<Rightarrow> string \<Rightarrow> js \<Rightarrow> string" where
  "in_link D x i = (if pr_exists D (wsel x i @ '' a'') then wsel x i @ '' a'' else wsel x i)"

definition changeWebsocketVm ::
  "(string \<Rightarrow> js \<Rightarrow> string) \<Rightarrow> (string \<Rightarrow> js list \<Rightarrow> string) \<Rightarrow> page_read \<Rightarrow> wat_c \<Rightarrow> js \<Rightarrow> string \<Rightarrow> js \<Rightarrow>
     string \<Rightarrow> js obj \<Rightarrow> live_view \<Rightarrow> live_view outcome" where
  "changeWebsocketVm t tpl D C i field data viewType row V =
     (if field = ''state'' then Inr (vm_state t i data viewType V)
      else if field = ''user_state'' then
        Inr (V, if data = JStr ''connected'' then
                  [dshow (wsel ''user_state'' i), dhtml (wsel ''user_state-text'' i) (t ''Connected'' Undef),
                   dshow ''[data-wsupdate=\"user_state-button\"]'']
                else if data = JStr ''disconnected'' then
                  [dhide (wsel ''user_state'' i), dhtml (wsel ''user_state-text'' i) (t ''Disconnected'' Undef),
                   dhide ''[data-wsupdate=\"user_state-button\"]'']
                else [])
      else if field \<in> set [''ssh_port'', ''vnc_port'', ''serial_port''] then
        Inr (V, [Dom DomHtml (wsel field i) (if loose_eq data (JNum 0) then JStr ''-'' else data)])
      else if field = ''host_id'' then
        Inr (V, [dattr ''href'' (wsel ''host'' i @ '' a'') (JStr (''#/host/'' @ js_str data))])
      else if field = ''host_name'' then Inr (V, [Dom DomHtml (in_link D ''host'' i) data])
      else if field = ''di_version_in_use'' then Inr (V, [Dom DomHtml (wsel ''di_version'' i) data])
      else if field = ''di_id_in_use'' then
        Inr (V, [dattr ''href'' (wsel ''di'' i @ '' a'') (JStr (''#/di/'' @ js_str data))])
      else if field = ''di_name_in_use'' then Inr (V, [Dom DomHtml (in_link D ''di'' i) data])
      else if field = ''ip_in_use'' then Inr (V, [Dom DomHtml (wsel ''ip'' i) data])
      else if field \<in> set [''expiration_soft'', ''expiration_hard''] then
        (if viewType = ''list'' then map_sum id (Pair V) (vm_expiration_list tpl D i field data row V)
         else if viewType = ''details'' then map_sum id (Pair V) (vm_expiration_details tpl C i field data V)
         else Inr (V, []))
      else Inr (V, []))"

section \<open>Users, nodes and OS flavours\<close>

definition changeWebsocketUser :: "js \<Rightarrow> string \<Rightarrow> js \<Rightarrow> effect list" where
  "changeWebsocketUser i field data =
     (if field = ''number_of_vms_connected'' then
        Dom DomHtml (wsel field i) data #
        (if loose_eq data (JNum 0)
         then [dhide ''.js-button-disconnect-all-vms'',
               dattr ''data-enabled'' ''.js-button-disconnect-all-vms'' (JBool False)]
         else [dshow ''.js-button-disconnect-all-vms'',
               dattr ''data-enabled'' ''.js-button-disconnect-all-vms'' (JBool True)])
      else if field = ''number_of_vms'' then [Dom DomHtml (wsel field i) data]
      else [])"

definition changeWebsocketHost :: "(string \<Rightarrow> js \<Rightarrow> string) \<Rightarrow> js \<Rightarrow> string \<Rightarrow> js \<Rightarrow> effect list" where
  "changeWebsocketHost t i field data =
     (if field = ''state'' then
        Dom (DomRemoveAttr ''data-i18n'') (wsel ''state'' i) Null #
        (if data = JStr ''running'' then state_icon t i CLASS_ICON_STATUS_RUNNING ''Running''
         else if data = JStr ''starting'' then state_icon t i CLASS_ICON_STATUS_STARTING ''Starting''
         else if data = JStr ''stopping'' then state_icon t i CLASS_ICON_STATUS_STOPPING ''Stopping''
         else if data = JStr ''stopped'' then state_icon t i CLASS_ICON_STATUS_STOPPED ''Stopped''
         else if data = JStr ''lost'' then state_icon t i CLASS_ICON_STATUS_LOST ''Lost''
         else [dattr ''class'' (wsel ''state'' i) (JStr ''fa fa-spinner fa-spin''),
               dattr ''title'' (wsel ''state'' i) data, Dom DomHtml (wsel ''state-text'' i) data])
      else if field = ''number_of_vms_connected'' then [Dom DomHtml (wsel field i) data]
      else [])"

definition changeWebsocketOsf :: "js \<Rightarrow> string \<Rightarrow> js \<Rightarrow> effect list" where
  "changeWebsocketOsf i field data =
     (if field \<in> set [''number_of_dis'', ''number_of_vms''] then [Dom DomHtml (wsel field i) data] else [])"

section \<open>Disk images\<close>

definition di_percentage ::
  "(js \<Rightarrow> string) \<Rightarrow> (js \<Rightarrow> string \<Rightarrow> js) \<Rightarrow> js \<Rightarrow> js obj \<Rightarrow> effect list" where
  "di_percentage pct remain i row =
     (let bar = ''.progressbar'' @ isel i ''''; p = pct (get_attr row ''percentage'');
          el = get_attr row ''elapsed_time''
      in [dattr ''data-percent'' bar (JStr p), dattr ''data-remaining'' bar (remain el p),
          dattr ''data-elapsed'' bar (if truthy el then el else JNum 0)])"

text \<open>The parts of the reaction to a new state, in the order of the code.\<close>

definition di_progress :: "js \<Rightarrow> string \<Rightarrow> effect list" where
  "di_progress i st =
     [dhide (isel i '' .js-progress-icon''), dshow (isel i ('' .js-progress-icon--'' @ st)),
      dhide (isel i '' .js-progressbar''), dhide (isel i '' .js-progressbar-times'')] @
     (if st = ''generating'' then
        [dshow (isel i '' .js-progressbar''), dshow (isel i '' .js-progressbar-times--remaining''),
         dshow (isel i '' .js-progressbar-times--elapsed'')]
      else if st = ''uploading'' then [dshow (isel i '' .js-progressbar'')] else [])"

definition di_row_class :: "string obj \<Rightarrow> js \<Rightarrow> string \<Rightarrow> effect list" where
  "di_row_class opts i st =
     map (\<lambda>(k, v). drem (isel i ''.js-di-row-state'') (''di-row-state--'' @ k)) opts @
     [dadd (isel i ''.js-di-row-state'') (''di-row-state--'' @ st)]"

definition di_label ::
  "(string \<Rightarrow> js \<Rightarrow> string) \<Rightarrow> page_read \<Rightarrow> string \<Rightarrow> string \<Rightarrow> js \<Rightarrow> string \<Rightarrow> js \<Rightarrow> effect list" where
  "di_label t D now text i st msg =
     (let statusStr = t text Undef;
          full = (if truthy msg then statusStr @ '': '' @ js_str msg else statusStr);
          log = isel i '' .js-progressbar-log''
      in (if st = ''generating'' \<or> st = ''uploading'' then
            [dhtml (isel i '' .js-progress-label--state'') (t statusStr Undef @ '': ''), dhide (wsel ''state-text'' i)]
          else [dshow (wsel ''state-text'' i)]) @
         [dattr ''title'' (isel i ('' .js-progress-icon--'' @ st)) (JStr full)] @
         (if loose_eq (pr_attr D log ''data-last-msg'') msg then []
          else [Dom DomPrepend log (JStr (now @ '' - '' @ js_str msg @ ''<br>'')), dattr ''data-last-msg'' log msg]) @
         [dhtml (wsel ''state-text'' i) full])"

text \<open>The case of a published image falls through to the one of a ready image.\<close>

definition di_icons :: "page_read \<Rightarrow> js \<Rightarrow> string \<Rightarrow> js \<Rightarrow> effect list" where
  "di_icons D i st osf =
     (let pub = (st = ''published''); done = (pub \<or> st = ''ready'');
          only = (\<lambda>c. if pr_exists D (isel i c)
                       then [dhide (''[data-osf-id=\"'' @ js_str osf @ ''\"]'' @ c), dshow (isel i c)] else [])
      in [dshow (isel i '' .js-auto-publish-icon''), dshow (isel i '' .js-expiration-icon'')] @
         (if pub then [dhide (isel i '' .js-expiration-icon''), dhide (isel i '' .js-progressbar-log-wrapper'')] else []) @
         (if done then [dhide (isel i '' .js-auto-publish-icon'')] else []) @
         [dhide (isel i '' .js-head-icon''), dhide (isel i '' .js-default-icon''), dhide (isel i '' .js-tags-icon''),
          dshow (isel i '' .js-future-tags-icon''), dhide ''[data-field-code=\"head\"]'', dshow ''.js-future-tags-note''] @
         (if pub then only '' .js-head-icon'' @ only '' .js-default-icon'' @
            [dshow (isel i '' .js-tags-icon''), dhide (isel i '' .js-future-tags-icon''),
             dshow ''[data-field-code=\"head\"]'', dhide ''.js-future-tags-note''] else []) @
         (if pub then [dhide ''[data-field-code=\"expire_vms\"]''] else []) @
         (if done then [dhide ''[data-field-code=\"auto_publish\"]''] else []))"

text \<open>A state without an entry in the table of states raises a TypeError.\<close>

definition changeWebsocketDi ::
  "(string \<Rightarrow> js \<Rightarrow> string) \<Rightarrow> (js \<Rightarrow> string) \<Rightarrow> (js \<Rightarrow> string \<Rightarrow> js) \<Rightarrow> string \<Rightarrow> string obj \<Rightarrow> page_read \<Rightarrow>
     js \<Rightarrow> string \<Rightarrow> js \<Rightarrow> js obj \<Rightarrow> js_error + effect list" where
  "changeWebsocketDi t pct remain now opts D i field data row =
     (if field = ''percentage'' then Inr (di_percentage pct remain i row)
      else if field = ''state'' then
        (let st = js_str data
         in case map_of opts st of
              None \<Rightarrow> Inl TypeError
            | Some text \<Rightarrow>
                Inr (di_progress i st @ di_row_class opts i st @
                     di_label t D now text i st (get_attr row ''status_message'') @
                     di_icons D i st (get_attr row ''osf_id'')))
      else Inr [])"

section \<open>Statistics of the home view\<close>

text \<open>Subtraction of the counters; the text NaN stands for the result when one is not a number.\<close>

definition js_minus :: "js \<Rightarrow> js \<Rightarrow> js" where
  "js_minus a b =
     (let num = (\<lambda>v. if v = Null then Some 0 else js_num v)
      in case (num a, num b) of (Some m, Some n) \<Rightarrow> JNum (m - n) | _ \<Rightarrow> JStr ''NaN'')"

text \<open>What \<open>$.each\<close> visits: the items of an array or of an object; nothing in a number or a boolean;
  it raises a TypeError on \<open>undefined\<close>, \<open>null\<close> and texts.\<close>

fun each_items :: "js \<Rightarrow> js_error + js list" where
  "each_items (JArr xs) = Inr xs"
| "each_items (JObj ps) = Inr (map snd ps)"
| "each_items (JStr s) = (if s = '''' then Inr [] else Inl TypeError)"
| "each_items (JNum n) = Inr []"
| "each_items (JBool b) = Inr []"
| "each_items _ = Inl TypeError"

definition stat_counters :: "string list" where
  "stat_counters =
     [''users_count'', ''vms_count'', ''hosts_count'', ''osfs_count'', ''dis_count'', ''blocked_users_count'',
      ''blocked_vms_count'', ''blocked_hosts_count'', ''blocked_dis_count'', ''running_hosts_count'',
      ''running_vms_count'', ''connected_users_count'']"

definition pie :: "string \<Rightarrow> js obj \<Rightarrow> string \<Rightarrow> string \<Rightarrow> effect" where
  "pie chart st part whole =
     Call ''drawPieChartSimple'' [JStr chart, JArr [get_attr st part, js_minus (get_attr st whole) (get_attr st part)]]"

definition stat_charts :: "js obj \<Rightarrow> string \<Rightarrow> effect list" where
  "stat_charts st field =
     (if field \<in> set [''hosts_count'', ''running_hosts_count'']
      then [pie ''running-hosts'' st ''running_hosts_count'' ''hosts_count'']
      else if field \<in> set [''users_count'', ''connected_users_count'']
      then [pie ''connected-users'' st ''connected_users_count'' ''users_count'']
      else if field \<in> set [''vms_count'', ''running_vms_count'']
      then [pie ''running-vms'' st ''running_vms_count'' ''vms_count'']
      else [])"

definition changeWebsocketStats :: "string \<Rightarrow> js \<Rightarrow> live_view \<Rightarrow> live_view outcome" where
  "changeWebsocketStats field data V =
     (case lv_stats V of
        None \<Rightarrow> Inr (V, [])
      | Some st \<Rightarrow>
          if nullish (get_attr st field) then Inr (V, [])
          else
            (let st1 = AList.update field data st; V1 = V\<lparr>lv_stats := Some st1\<rparr>
             in if field \<in> set stat_counters then
                  Inr (V1, Dom DomHtml (''[data-wsupdate=\"'' @ field @ ''\"]'') data # stat_charts st1 field)
                else if field = ''vms_with_expiration_date'' then
                  Inr (V1, [Call ''renderVmsExpire'' [], Call ''translateXDays'' []])
                else if field = ''top_populated_hosts'' then
                  (case each_items data of
                     Inl e \<Rightarrow> Inl e
                   | Inr xs \<Rightarrow> Inr (V1, [Call ''drawBarChartRunningVMsSimple'' [JStr ''hosts-more-vms'', JArr xs]]))
                else Inr (V1, [])))"

section \<open>Dispatch\<close>

record ws_env =
  we_t :: "string \<Rightarrow> js \<Rightarrow> string"
  we_tpl :: "string \<Rightarrow> js list \<Rightarrow> string"
  we_page :: page_read
  we_pct :: "js \<Rightarrow> string"
  we_remain :: "js \<Rightarrow> string \<Rightarrow> js"
  we_now :: string
  we_opts :: "string obj"

definition change_field ::
  "ws_env \<Rightarrow> wat_c \<Rightarrow> string \<Rightarrow> js \<Rightarrow> string \<Rightarrow> js obj \<Rightarrow> string \<times> js \<Rightarrow> live_view \<Rightarrow> live_view outcome" where
  "change_field W C qvdObj i viewType row fv V =
     (let (field, value) = fv
      in if qvdObj = ''vm'' then changeWebsocketVm (we_t W) (we_tpl W) (we_page W) C i field value viewType row V
         else if qvdObj = ''user'' then Inr (V, changeWebsocketUser i field value)
         else if qvdObj = ''host'' then Inr (V, changeWebsocketHost (we_t W) i field value)
         else if qvdObj = ''osf'' then Inr (V, changeWebsocketOsf i field value)
         else if qvdObj = ''di'' then
           map_sum id (Pair V)
             (changeWebsocketDi (we_t W) (we_pct W) (we_remain W) (we_now W) (we_opts W) (we_page W) i field value row)
         else if qvdObj = ''home'' then changeWebsocketStats field value V
         else Inr (V, []))"

text \<open>\<open>collection.where({id: id})[0].set(row)\<close>: the first model with the identifier.\<close>

fun set_first :: "js \<Rightarrow> js obj \<Rightarrow> js obj list \<Rightarrow> js obj list" where
  "set_first i row [] = []"
| "set_first i row (m # ms) = (if get_attr m ''id'' = i then jq_extend m row # ms else m # set_first i row ms)"

definition store_row :: "string \<Rightarrow> js \<Rightarrow> js obj \<Rightarrow> live_view \<Rightarrow> live_view" where
  "store_row viewType i row V =
     (if viewType = ''details'' \<and> lv_model V \<noteq> None
      then V\<lparr>lv_model := map_option (\<lambda>m. jq_extend m row) (lv_model V)\<rparr>
      else if viewType = ''list'' then V\<lparr>lv_collection := map_option (set_first i row) (lv_collection V)\<rparr>
      else V)"

definition change_row ::
  "ws_env \<Rightarrow> wat_c \<Rightarrow> string \<Rightarrow> js \<Rightarrow> string \<Rightarrow> js obj \<Rightarrow> live_view \<Rightarrow> live_view outcome" where
  "change_row W C qvdObj i0 viewType row0 V =
     (let i = (if viewType = ''list'' then get_attr row0 ''id'' else i0);
          row = (if viewType = ''list'' then AList.delete ''id'' row0 else row0)
      in each_err (change_field W C qvdObj i viewType row) row (store_row viewType i row V))"

text \<open>\<open>rows\<close> is \<open>data.rows\<close>, or the data itself for statistics; \<open>None\<close> when the answer has no rows. The
  identifier of the last row of a list stays in the variable, where the next row replaces it.\<close>

definition changeWebsocket ::
  "ws_env \<Rightarrow> wat_c \<Rightarrow> string \<Rightarrow> js \<Rightarrow> string \<Rightarrow> js obj list option \<Rightarrow> live_view \<Rightarrow> live_view outcome" where
  "changeWebsocket W C qvdObj i viewType rows V =
     (case rows of
        None \<Rightarrow> Inl TypeError
      | Some rs \<Rightarrow> each_err (change_row W C qvdObj i viewType) rs V)"

section \<open>What a message changes in the view\<close>

lemma map_sum_Pair_Inr: "map_sum id (Pair V) r = Inr (V', es) \<longleftrightarrow> r = Inr es \<and> V' = V"
  by (cases r) auto

lemma change_field_frame:
  "change_field W C q i vt row fv V = Inr (V', es) \<Longrightarrow>
     lv_collection V' = lv_collection V \<and> lv_model V' = lv_model V"
  by (cases fv)
     (auto simp: change_field_def changeWebsocketVm_def vm_state_def vm_state_body_def changeWebsocketStats_def
       Let_def map_sum_Pair_Inr split: if_splits option.splits sum.splits prod.splits)

lemma change_row_collection:
  assumes "change_row W C q i ''list'' row V = Inr (V', es)"
  shows "lv_collection V' =
    map_option (set_first (get_attr row ''id'') (AList.delete ''id'' row)) (lv_collection V)"
proof -
  let ?r = "AList.delete ''id'' row" and ?i = "get_attr row ''id''"
  let ?P = "\<lambda>U. lv_collection U = lv_collection (store_row ''list'' ?i ?r V)"
  from assms have "each_err (change_field W C q ?i ''list'' ?r) ?r (store_row ''list'' ?i ?r V) = Inr (V', es)"
    by (simp add: change_row_def Let_def)
  then have "?P V'"
    by (rule each_err_invariant [where P = ?P]) (auto dest: change_field_frame)
  then show ?thesis by (simp add: store_row_def)
qed

lemma get_attr_extend:
  "k \<notin> fst ` set row \<Longrightarrow> get_attr (jq_extend m row) k = get_attr m k"
  by (induction row arbitrary: m) (auto simp: get_attr_def)

lemma set_first_map:
  "distinct (map (\<lambda>m. get_attr m ''id'') ms) \<Longrightarrow>
     set_first i row ms = map (\<lambda>m. if get_attr m ''id'' = i then jq_extend m row else m) ms"
proof (induction ms)
  case (Cons m ms)
  have "map (\<lambda>m. if get_attr m ''id'' = i then jq_extend m row else m) ms = ms"
    if "get_attr m ''id'' = i"
    using Cons.prems that by (intro map_idI) (auto simp: image_iff)
  with Cons show ?case by simp
qed simp

text \<open>The rows of an answer as one table from identifiers to fields.\<close>

definition row_of :: "js obj list \<Rightarrow> js \<Rightarrow> js obj" where
  "row_of rows i =
     (case find (\<lambda>r. get_attr r ''id'' = i) rows of None \<Rightarrow> [] | Some r \<Rightarrow> AList.delete ''id'' r)"

lemma row_of_other: "i \<notin> (\<lambda>r. get_attr r ''id'') ` set rows \<Longrightarrow> row_of rows i = []"
proof -
  assume "i \<notin> (\<lambda>r. get_attr r ''id'') ` set rows"
  then have "find (\<lambda>r. get_attr r ''id'' = i) rows = None" by (auto simp: find_None_iff)
  then show ?thesis by (simp add: row_of_def)
qed

definition merge_row :: "js obj list \<Rightarrow> js obj \<Rightarrow> js obj" where
  "merge_row rows m = jq_extend m (row_of rows (get_attr m ''id''))"

lemma no_id_after_delete: "''id'' \<notin> fst ` set (AList.delete ''id'' row)"
  by (rule delete_notin_dom)

lemma get_attr_merge: "get_attr (merge_row rows m) ''id'' = get_attr m ''id''"
  unfolding merge_row_def
  by (rule get_attr_extend, cases "find (\<lambda>r. get_attr r ''id'' = get_attr m ''id'') rows")
     (simp_all add: row_of_def no_id_after_delete)

lemma collection_after:
  assumes "each_err (change_row W C q i ''list'') rows V = Inr (V', es)" and "lv_collection V = Some ms"
    and "distinct (map (\<lambda>m. get_attr m ''id'') ms)" and "distinct (map (\<lambda>r. get_attr r ''id'') rows)"
  shows "lv_collection V' = Some (map (merge_row rows) ms)"
  using assms
proof (induction rows arbitrary: V ms es)
  case Nil
  then show ?case by (simp add: merge_row_def row_of_def)
next
  case (Cons row rows)
  let ?i = "get_attr row ''id''" and ?r = "AList.delete ''id'' row"
  let ?f = "\<lambda>m. if get_attr m ''id'' = ?i then jq_extend m ?r else m"
  from Cons.prems(1) obtain V1 e1 e2 where V1: "change_row W C q i ''list'' row V = Inr (V1, e1)"
    and rest: "each_err (change_row W C q i ''list'') rows V1 = Inr (V', e2)"
    by (auto split: sum.splits prod.splits)
  have f_id: "get_attr (?f m) ''id'' = get_attr m ''id''" for m
    using get_attr_extend [OF no_id_after_delete] by simp
  have "lv_collection V1 = Some (map ?f ms)"
    using change_row_collection [OF V1] Cons.prems(2,3) by (simp add: set_first_map)
  moreover have "distinct (map (\<lambda>m. get_attr m ''id'') (map ?f ms))"
    using Cons.prems(3) by (simp add: o_def f_id)
  ultimately have "lv_collection V' = Some (map (merge_row rows) (map ?f ms))"
    using Cons.IH [OF rest] Cons.prems(4) by simp
  moreover have "merge_row rows (?f m) = merge_row (row # rows) m" for m
    using Cons.prems(4) row_of_other [of ?i rows] f_id [of m]
    by (auto simp: merge_row_def row_of_def)
  ultimately show ?case by simp
qed

lemma each_err_trace:
  assumes "each_err f xs s = Inr (s', es)" and "R e0 s"
    and "\<And>x s1 s2 e e1. x \<in> set xs \<Longrightarrow> R e1 s1 \<Longrightarrow> f x s1 = Inr (s2, e) \<Longrightarrow> R (e1 @ e) s2"
  shows "R (e0 @ es) s'"
  using assms
proof (induction xs arbitrary: s es e0)
  case (Cons x xs)
  from Cons.prems(1) obtain s1 e1 e2 where s1: "f x s = Inr (s1, e1)"
    and r: "each_err f xs s1 = Inr (s', e2)" "es = e1 @ e2"
    by (auto split: sum.splits prod.splits)
  have "R (e0 @ e1) s1" using Cons.prems(3) [OF _ Cons.prems(2) s1] by simp
  then have "R ((e0 @ e1) @ e2) s'" by (rule Cons.IH [OF r(1)]) (rule Cons.prems(3), simp_all)
  then show ?case by (simp add: r(2))
qed simp

definition starts :: "effect list \<Rightarrow> nat" where
  "starts es = length (filter (\<lambda>e. e = Call ''startVM'' []) es)"

lemma dom_not_start [simp]:
  "dhtml s x \<noteq> Call f as" "dattr a s v \<noteq> Call f as" "dshow s \<noteq> Call f as" "dhide s \<noteq> Call f as"
  "dadd s c \<noteq> Call f as" "drem s c \<noteq> Call f as"
  by (simp_all add: dhtml_def dattr_def dshow_def dhide_def dadd_def drem_def)

lemma vm_state_starts:
  assumes "vm_state t i data vt V = (V', es)"
  shows "starts es = (if lv_restarting V \<and> data = JStr ''stopped'' then 1 else 0) \<and>
         lv_restarting V' = (lv_restarting V \<and> data \<noteq> JStr ''stopped'')"
  using assms
  by (auto simp: vm_state_def vm_state_body_def starts_def button_is_def state_icon_def Let_def
      split: if_splits)

lemma expiration_starts:
  "vm_expiration_list tpl D i field data row V = Inr es \<Longrightarrow> starts es = 0"
  "vm_expiration_details tpl C i field data V = Inr es \<Longrightarrow> starts es = 0"
  by (auto simp: vm_expiration_list_def vm_expiration_details_def starts_def Let_def
      split: if_splits option.splits)

text \<open>Outcomes that neither change the view nor start a machine.\<close>

definition quiet :: "live_view \<Rightarrow> live_view outcome \<Rightarrow> bool" where
  "quiet V r \<longleftrightarrow> (\<forall>V' es. r = Inr (V', es) \<longrightarrow> V' = V \<and> starts es = 0)"

lemma quiet_if: "quiet V a \<Longrightarrow> quiet V b \<Longrightarrow> quiet V (if c then a else b)"
  by simp

lemma quiet_Inr: "starts es = 0 \<Longrightarrow> quiet V (Inr (V, es))"
  by (simp add: quiet_def)

lemma quiet_map_sum: "(\<And>es. r = Inr es \<Longrightarrow> starts es = 0) \<Longrightarrow> quiet V (map_sum id (Pair V) r)"
  by (simp add: quiet_def map_sum_Pair_Inr)

lemma starts_simps [simp]:
  "starts [] = 0" "starts (a @ b) = starts a + starts b"
  "starts (e # es) = (if e = Call ''startVM'' [] then Suc (starts es) else starts es)"
  by (simp_all add: starts_def)

lemma starts_if: "starts (if b then x else y) = (if b then starts x else starts y)"
  by simp

lemma quiet_other_fields:
  "k \<noteq> ''state'' \<Longrightarrow> quiet V (changeWebsocketVm t tpl D C i k v vt row V)"
  unfolding changeWebsocketVm_def
  by (simp only: if_False simp_thms)
     (intro quiet_if quiet_Inr quiet_map_sum; (erule expiration_starts | simp only: starts_if | simp)+)

lemma change_field_starts:
  assumes "change_field W C ''vm'' i vt row (k, v) V = Inr (V', es)"
  shows "starts es = (if lv_restarting V \<and> k = ''state'' \<and> v = JStr ''stopped'' then 1 else 0) \<and>
         lv_restarting V' = (lv_restarting V \<and> \<not> (k = ''state'' \<and> v = JStr ''stopped''))"
proof (cases "k = ''state''")
  case True
  with assms have "vm_state (we_t W) i v vt V = (V', es)"
    by (simp add: change_field_def changeWebsocketVm_def)
  from vm_state_starts [OF this] True show ?thesis by simp
next
  case False
  then have "V' = V \<and> starts es = 0"
    using assms quiet_other_fields by (simp add: change_field_def quiet_def)
  with False show ?thesis by simp
qed

text \<open>A loop in which each item stops the machine or not.\<close>

lemma starts_each:
  assumes "\<And>x V V' es. x \<in> set xs \<Longrightarrow> f x V = Inr (V', es) \<Longrightarrow>
      starts es = (if lv_restarting V \<and> P x then 1 else 0) \<and> lv_restarting V' = (lv_restarting V \<and> \<not> P x)"
    and "each_err f xs V = Inr (V', es)"
  shows "starts es = (if lv_restarting V \<and> list_ex P xs then 1 else 0) \<and>
     lv_restarting V' = (lv_restarting V \<and> \<not> list_ex P xs)"
  using assms
proof (induction xs arbitrary: V es)
  case (Cons x xs)
  from Cons.prems(2) obtain V1 e1 e2 where V1: "f x V = Inr (V1, e1)"
    and r: "each_err f xs V1 = Inr (V', e2)" "es = e1 @ e2"
    by (auto split: sum.splits prod.splits)
  have "starts e2 = (if lv_restarting V1 \<and> list_ex P xs then 1 else 0) \<and>
     lv_restarting V' = (lv_restarting V1 \<and> \<not> list_ex P xs)"
    by (rule Cons.IH [OF Cons.prems(1) r(1)]) simp_all
  with Cons.prems(1) [OF _ V1] r(2) show ?case by (auto split: if_splits)
qed simp

definition says_stopped :: "string \<times> js \<Rightarrow> bool" where
  "says_stopped fv \<longleftrightarrow> fv = (''state'', JStr ''stopped'')"

lemma change_row_starts:
  assumes "change_row W C ''vm'' i vt row V = Inr (V', es)"
  shows "starts es = (if lv_restarting V \<and> list_ex says_stopped row then 1 else 0) \<and>
         lv_restarting V' = (lv_restarting V \<and> \<not> list_ex says_stopped row)"
proof -
  let ?r = "if vt = ''list'' then AList.delete ''id'' row else row"
  let ?i = "if vt = ''list'' then get_attr row ''id'' else i"
  have same: "list_ex says_stopped ?r = list_ex says_stopped row"
    by (auto simp: list_ex_iff says_stopped_def AList.delete_eq)
  have "each_err (change_field W C ''vm'' ?i vt ?r) ?r (store_row vt ?i ?r V) = Inr (V', es)"
    using assms by (simp add: change_row_def Let_def)
  then have "starts es = (if lv_restarting (store_row vt ?i ?r V) \<and> list_ex says_stopped ?r then 1 else 0) \<and>
      lv_restarting V' = (lv_restarting (store_row vt ?i ?r V) \<and> \<not> list_ex says_stopped ?r)"
    by (rule starts_each [rotated]) (auto simp: says_stopped_def dest: change_field_starts)
  then show ?thesis by (simp only: same) (simp add: store_row_def)
qed

section \<open>Properties\<close>

text \<open>C17. A message with the rows of a list stores each row in the model of the element it names, whatever
  the kind of element: every other model, the identifiers, and the order of the list stay as they
  were.\<close>

theorem changeWebsocket_stores:
  assumes "changeWebsocket W C q i ''list'' (Some rows) V = Inr (V', es)" and "lv_collection V = Some ms"
    and "distinct (map (\<lambda>m. get_attr m ''id'') ms)" and "distinct (map (\<lambda>r. get_attr r ''id'') rows)"
  shows "lv_collection V' = Some (map (merge_row rows) ms) \<and>
    map (\<lambda>m. get_attr m ''id'') (map (merge_row rows) ms) = map (\<lambda>m. get_attr m ''id'') ms"
  using collection_after [OF _ assms(2-4)] assms(1)
  by (simp add: changeWebsocket_def get_attr_merge)

lemma message_starts:
  assumes "changeWebsocket W C ''vm'' i vt (Some rows) V = Inr (V', es)"
  shows "starts es = (if lv_restarting V \<and> list_ex (list_ex says_stopped) rows then 1 else 0) \<and>
      lv_restarting V' = (lv_restarting V \<and> \<not> list_ex (list_ex says_stopped) rows)"
proof -
  have "each_err (change_row W C ''vm'' i vt) rows V = Inr (V', es)" using assms by (simp add: changeWebsocket_def)
  then show ?thesis by (rule starts_each [rotated]) (rule change_row_starts)
qed

text \<open>A machine that is being restarted is started once: whatever rows arrive, in one message or in
  several, the call to start it is made exactly at the first one that says it has stopped, and
  never when no restart was asked for.\<close>

theorem restart_once:
  assumes "each_err (\<lambda>rows. changeWebsocket W C ''vm'' i vt (Some rows)) messages V = Inr (V', es)"
  shows "starts es = (if lv_restarting V \<and> list_ex (list_ex (list_ex says_stopped)) messages then 1 else 0) \<and>
    (lv_restarting V' \<longleftrightarrow> lv_restarting V \<and> \<not> list_ex (list_ex (list_ex says_stopped)) messages)"
  by (rule starts_each [OF _ assms]) (rule message_starts)

lemma each_err_fails:
  assumes "\<And>x s. x \<in> set xs \<Longrightarrow> (\<exists>e. f x s = Inl e) = B x"
  shows "(\<exists>e. each_err f xs s = Inl e) = list_ex B xs"
  using assms
proof (induction xs arbitrary: s)
  case (Cons x xs)
  show ?case
  proof (cases "f x s")
    case (Inl e)
    then show ?thesis using Cons.prems [of x s] by auto
  next
    case (Inr r)
    obtain s1 es where r: "r = (s1, es)" by (cases r)
    have "(\<exists>e. each_err f xs s1 = Inl e) = list_ex B xs" using Cons by simp
    moreover have "\<not> B x" using Cons.prems [of x s] Inr by simp
    ultimately show ?thesis using Inr r by (auto split: sum.splits prod.splits)
  qed
qed simp

text \<open>A field that makes the handler of images fail: a state that the table of states lacks.\<close>

definition unknown_state :: "string obj \<Rightarrow> string \<times> js \<Rightarrow> bool" where
  "unknown_state opts fv \<longleftrightarrow> fst fv = ''state'' \<and> map_of opts (js_str (snd fv)) = None"

lemma change_field_fails:
  "(\<exists>e. change_field W C ''di'' i vt row fv V = Inl e) = unknown_state (we_opts W) fv"
  "q \<in> {''user'', ''host'', ''osf''} \<Longrightarrow> (\<exists>e. change_field W C q i vt row fv V = Inl e) = False"
  by (cases fv; auto simp: change_field_def changeWebsocketDi_def unknown_state_def Let_def split: option.splits)+

text \<open>When a message cannot be processed: one without rows never can; the rows of users, nodes and OS
  flavours always can; the rows of images raise a TypeError exactly when one of them has a state
  that the table of states does not know.\<close>

theorem changeWebsocket_errors:
  "changeWebsocket W C q i vt None V = Inl TypeError \<and>
   (q \<in> {''user'', ''host'', ''osf''} \<longrightarrow> (\<exists>r. changeWebsocket W C q i vt (Some rows) V = Inr r)) \<and>
   (\<exists>e. changeWebsocket W C ''di'' i vt (Some rows) V = Inl e) =
     list_ex (list_ex (unknown_state (we_opts W))) rows"
proof (intro conjI impI)
  have del: "list_ex (unknown_state (we_opts W)) (AList.delete ''id'' row) = list_ex (unknown_state (we_opts W)) row" for row
    by (force simp: list_ex_iff unknown_state_def AList.delete_eq)
  have row: "(\<exists>e. change_row W C ''di'' i vt row s = Inl e) = list_ex (unknown_state (we_opts W)) row" for row s
    using each_err_fails [of row, OF change_field_fails(1)] each_err_fails [of "AList.delete ''id'' row", OF change_field_fails(1)]
    by (simp add: change_row_def Let_def del)
  show "(\<exists>e. changeWebsocket W C ''di'' i vt (Some rows) V = Inl e) = list_ex (list_ex (unknown_state (we_opts W))) rows"
    unfolding changeWebsocket_def option.case by (rule each_err_fails) (rule row)
next
  assume q: "q \<in> {''user'', ''host'', ''osf''}"
  have none: "list_ex (\<lambda>x. False) xs = False" for xs :: "'z list" by (induction xs) auto
  have "(\<exists>e. change_row W C q i vt row s = Inl e) = False" for row s
    using each_err_fails [of row, OF change_field_fails(2) [OF q]]
      each_err_fails [of "AList.delete ''id'' row", OF change_field_fails(2) [OF q]]
    by (simp add: change_row_def Let_def none)
  then have "(\<exists>e. changeWebsocket W C q i vt (Some rows) V = Inl e) = list_ex (\<lambda>r. False) rows"
    unfolding changeWebsocket_def option.case by (intro each_err_fails)
  then show "\<exists>r. changeWebsocket W C q i vt (Some rows) V = Inr r"
    by (cases "changeWebsocket W C q i vt (Some rows) V") (auto simp: none)
qed (simp add: changeWebsocket_def)

definition sample_env :: ws_env where
  "sample_env = \<lparr> we_t = (\<lambda>k c. k), we_tpl = (\<lambda>n as. n), we_page = \<lparr> pr_exists = (\<lambda>s. False), pr_attr = (\<lambda>s a. Undef) \<rparr>,
     we_pct = js_str, we_remain = (\<lambda>e p. e), we_now = ''10:00:00'', we_opts = [(''ready'', ''Ready'')] \<rparr>"

definition sample_live :: live_view where
  "sample_live = \<lparr> lv_model = None, lv_collection = Some [[(''id'', JNum 3), (''number_of_vms'', JNum 1)], [(''id'', JNum 4)]],
     lv_restarting = True, lv_stats = None \<rparr>"

theorem changeWebsocket_stores_witness:
  "\<exists>V' es. changeWebsocket sample_env (wat_c_init []) ''osf'' Undef ''list''
       (Some [[(''id'', JNum 3), (''number_of_vms'', JNum 8)]]) sample_live = Inr (V', es) \<and>
     lv_collection V' = Some [[(''id'', JNum 3), (''number_of_vms'', JNum 8)], [(''id'', JNum 4)]]"
proof -
  let ?r = "[[(''id'', JNum 3), (''number_of_vms'', JNum 8)]]"
  have "\<exists>p. changeWebsocket sample_env (wat_c_init []) ''osf'' Undef ''list'' (Some ?r) sample_live = Inr p"
    by (simp add: changeWebsocket_def change_row_def change_field_def Let_def)
  then obtain V' es where V': "changeWebsocket sample_env (wat_c_init []) ''osf'' Undef ''list'' (Some ?r) sample_live = Inr (V', es)"
    by auto
  from changeWebsocket_stores [OF V'] show ?thesis
    using V' by (simp add: sample_live_def get_attr_def merge_row_def row_of_def)
qed

theorem restart_once_witness:
  "\<exists>V' es. each_err (\<lambda>rows. changeWebsocket sample_env (wat_c_init []) ''vm'' Undef ''list'' (Some rows))
       [[[(''id'', JNum 3), (''state'', JStr ''stopping'')]],
        [[(''id'', JNum 3), (''state'', JStr ''stopped'')], [(''id'', JNum 4), (''state'', JStr ''stopped'')]]] sample_live
     = Inr (V', es) \<and> starts es = 1 \<and> \<not> lv_restarting V'"
proof -
  let ?m = "[[[(''id'', JNum 3), (''state'', JStr ''stopping'')]],
        [[(''id'', JNum 3), (''state'', JStr ''stopped'')], [(''id'', JNum 4), (''state'', JStr ''stopped'')]]]"
  let ?run = "each_err (\<lambda>rows. changeWebsocket sample_env (wat_c_init []) ''vm'' Undef ''list'' (Some rows)) ?m sample_live"
  have "\<exists>r. ?run = Inr r"
    by (simp add: changeWebsocket_def change_row_def change_field_def changeWebsocketVm_def Let_def split: prod.splits)
  then obtain V' es where r: "?run = Inr (V', es)" by auto
  have "list_ex (list_ex (list_ex says_stopped)) ?m" by (simp add: says_stopped_def)
  with restart_once [OF r] r show ?thesis by (simp add: sample_live_def)
qed

theorem changeWebsocket_errors_witness:
  "(\<exists>r. changeWebsocket sample_env (wat_c_init []) ''user'' Undef ''list'' (Some [[(''id'', JNum 1)]]) sample_live = Inr r) \<and>
   (\<exists>e. changeWebsocket sample_env (wat_c_init []) ''di'' Undef ''list''
      (Some [[(''id'', JNum 1), (''state'', JStr ''lost'')]]) sample_live = Inl e)"
  using changeWebsocket_errors [of sample_env "wat_c_init []" "''user''" Undef "''list''" sample_live "[[(''id'', JNum 1)]]"]
    changeWebsocket_errors [of sample_env "wat_c_init []" "''user''" Undef "''list''" sample_live
      "[[(''id'', JNum 1), (''state'', JStr ''lost'')]]"]
  by (simp add: unknown_state_def sample_env_def)

end
