(* ===== verification/SaveModel.thy ===== *)
theory SaveModel
  imports Login WsUpdates ListView Editors
begin

text \<open>
  Reading and saving elements: the base of the models (\<open>wat/lib/bb-models/proto-model.js\<close>), the calls
  that create, update and delete through a model and the messages of their answers
  (\<open>wat/lib/bb-views/proto-main.js\<close>), the interception of deletions that fail because of dependent
  elements (\<open>wat/lib/actions/actions.js\<close>), and the enforced deletion of all of them
  (\<open>conflictBinds\<close> of \<open>wat/lib/binds/binds.js\<close>).

  \<open>local\<close> is \<open>Wat.U.getLocalDatetimeFormatted\<close>.
\<close>

section \<open>Models\<close>

record model =
  m_prefix :: string
  m_id :: js
  m_operation :: string
  m_endpoint :: string
  m_extra :: string

text \<open>\<open>_.escape\<close> of underscore.\<close>

definition esc_char :: "char \<Rightarrow> string" where
  "esc_char c =
     (if c = CHR ''&'' then ''&amp;'' else if c = CHR ''<'' then ''&lt;'' else if c = CHR ''>'' then ''&gt;''
      else if c = CHR 0x22 then ''&quot;'' else if c = CHR 0x27 then ''&#x27;'' else [c])"

definition html_escape :: "string \<Rightarrow> string" where
  "html_escape s = concat (map esc_char s)"

text \<open>\<open>replace("T", " ")\<close> changes the first occurrence.\<close>

fun replace_T :: "string \<Rightarrow> string" where
  "replace_T [] = []"
| "replace_T (c # s) = (if c = CHR ''T'' then CHR '' '' # s else c # replace_T s)"

fun escape_value :: "js \<Rightarrow> js" where
  "escape_value (JStr s) = JStr (html_escape s)"
| "escape_value v = v"

definition processResponse :: "(string \<Rightarrow> string) \<Rightarrow> js obj \<Rightarrow> js_error + js obj" where
  "processResponse local r =
     (let esc = map (\<lambda>(k, v). (k, escape_value v))
      in case get_attr r ''creation_date'' of
           JStr s \<Rightarrow> Inr (esc (if s = '''' then r else AList.update ''creation_date'' (JStr (local (replace_T s))) r))
         | v \<Rightarrow> if truthy v then Inl TypeError else Inr (esc r))"

text \<open>\<open>parse\<close>: the answer to one element has rows, of which the first counts (there may be none); a row of
  a list comes by itself. An expired session leaves nothing.\<close>

datatype answer = Rows int "js obj list" | Row "js obj"

definition model_parse ::
  "(string \<Rightarrow> string) \<Rightarrow> answer \<Rightarrow> page \<Rightarrow> js_error + js obj option \<times> page \<times> effect list" where
  "model_parse local a w =
     (case a of
        Row r \<Rightarrow> map_sum id (\<lambda>r. (Some r, w, [])) (processResponse local r)
      | Rows status rs \<Rightarrow>
          (case sessionExpired status w of
             (True, w1, es) \<Rightarrow> Inr (None, w1, es)
           | (False, w1, es) \<Rightarrow>
               (case rs of
                  [] \<Rightarrow> Inr (None, w1, es)
                | r # _ \<Rightarrow> map_sum id (\<lambda>r. (Some r, w1, es)) (processResponse local r))))"

definition model_url :: "wat_c \<Rightarrow> model \<Rightarrow> string" where
  "model_url C M =
     getBaseUrl C '''' @ ''&action='' @ m_prefix M @ ''_get_list'' @
     (if nullish (m_id M) then '''' else ''&filters={\"id\":'' @ js_str (m_id M) @ ''}'')"

definition setOperation :: "string \<Rightarrow> model \<Rightarrow> model" where
  "setOperation op M =
     (if op \<in> set [''create'', ''update'', ''delete''] then M\<lparr>m_operation := m_prefix M @ ''_'' @ op\<rparr> else M)"

definition setActionPrefix :: "string \<Rightarrow> model \<Rightarrow> model" where "setActionPrefix p M = M\<lparr>m_prefix := p\<rparr>"
definition setEndpoint :: "string \<Rightarrow> model \<Rightarrow> model" where "setEndpoint e M = M\<lparr>m_endpoint := e\<rparr>"
definition setExtraUrlArguments :: "string \<Rightarrow> model \<Rightarrow> model" where "setExtraUrlArguments x M = M\<lparr>m_extra := x\<rparr>"

definition source_param :: "wat_c \<Rightarrow> string" where
  "source_param C = ''&parameters='' @ json (JObj [(''source'', JStr (C_source C))])"

definition save_url :: "wat_c \<Rightarrow> js \<Rightarrow> js obj \<Rightarrow> model \<Rightarrow> string" where
  "save_url C filters attributes M =
     encodeURI (getBaseUrl C (m_endpoint M) @ ''&action='' @ m_operation M @ ''&filters='' @ json filters @
       ''&arguments='' @ json (JObj attributes) @ source_param C) @ m_extra M"

section \<open>Calls and their answers\<close>

record messages =
  ms_success :: string
  ms_error :: string

text \<open>The view that saves: whether one of its dialogs is open, and the rows it shows.\<close>

record saving_view =
  sv_kind :: string
  sv_dialog :: bool
  sv_collection :: "js obj list option"
  sv_model :: "js obj option"
  sv_message :: string
  sv_messageType :: msg_type
  sv_retrieved :: js

definition STATUS_NOT_ALL_DONE :: int where "STATUS_NOT_ALL_DONE = 1200"
definition STATUS_NOT_REMOVED_DUE_DEPENDENCY :: int where "STATUS_NOT_REMOVED_DUE_DEPENDENCY = 7120"

definition QVD_OBJ_DEPENDENCIES :: "string obj" where
  "QVD_OBJ_DEPENDENCIES = [(''user'', ''vm''), (''osf'', ''di'')]"

text \<open>The elements that were not removed because others depend on them.\<close>

fun dependency_ids :: "js obj \<Rightarrow> js_error + string list" where
  "dependency_ids [] = Inr []"
| "dependency_ids ((i, failure) # fs) =
     (case js_prop failure ''status'' of
        Inl e \<Rightarrow> Inl e
      | Inr st \<Rightarrow>
          (case dependency_ids fs of
             Inl e \<Rightarrow> Inl e
           | Inr is \<Rightarrow> Inr (if st = JNum STATUS_NOT_REMOVED_DUE_DEPENDENCY then i # is else is)))"

text \<open>The names shown in the dialog: the elements are looked up among the rows of the list.\<close>

definition dependency_name :: "saving_view \<Rightarrow> nat \<Rightarrow> string \<Rightarrow> js_error + (string \<times> js) list" where
  "dependency_name V n i =
     (case sv_collection V of
        Some ms \<Rightarrow>
          (case find (\<lambda>m. get_attr m ''id'' = (case parseInt (JStr i) of Some k \<Rightarrow> JNum k | None \<Rightarrow> Undef)) ms of
             None \<Rightarrow> Inl TypeError | Some m \<Rightarrow> Inr [(i, get_attr m ''name'')])
      | None \<Rightarrow>
          (case sv_model V of
             Some m \<Rightarrow> if n = 1 then Inr [(i, get_attr m ''name'')] else Inr []
           | None \<Rightarrow> Inr []))"

fun dependency_names :: "saving_view \<Rightarrow> nat \<Rightarrow> string list \<Rightarrow> js_error + (string \<times> js) list" where
  "dependency_names V n [] = Inr []"
| "dependency_names V n (i # is) =
     (case dependency_name V n i of
        Inl e \<Rightarrow> Inl e
      | Inr a \<Rightarrow> (case dependency_names V n is of Inl e \<Rightarrow> Inl e | Inr b \<Rightarrow> Inr (a @ b)))"

definition openDependenciesDialog :: "string list \<Rightarrow> string \<Rightarrow> saving_view \<Rightarrow> js_error + effect list" where
  "openDependenciesDialog is qvdObj V =
     map_sum id (\<lambda>els. [OpenDialog ''Action not accomplished for all elements'',
                        Call ''deleteDependency'' [JObj els, JStr qvdObj]]) (dependency_names V (length is) is)"

text \<open>Interception: whether the message is replaced, and by what.\<close>

definition interceptSMRDelete :: "js \<Rightarrow> string \<Rightarrow> saving_view \<Rightarrow> js_error + bool \<times> effect list" where
  "interceptSMRDelete response qvdObj V =
     (case js_prop response ''status'' of
        Inl e \<Rightarrow> Inl e
      | Inr st \<Rightarrow>
          if st = JNum STATUS_NOT_ALL_DONE then
            (case js_prop response ''failures'' of
               Inl e \<Rightarrow> Inl e
             | Inr fs \<Rightarrow>
                 (case fs of
                    JObj ps \<Rightarrow>
                      (case dependency_ids ps of
                         Inl e \<Rightarrow> Inl e
                       | Inr is \<Rightarrow>
                           if is = [] then Inr (False, [])
                           else map_sum id (Pair True) (openDependenciesDialog is qvdObj V))
                  | _ \<Rightarrow> if nullish fs then Inl TypeError else Inr (False, [])))
          else Inr (False, []))"

text \<open>\<open>operation.split('_')\<close>: the part before the first underscore, and the one after it.\<close>

definition op_parts :: "string \<Rightarrow> string \<times> string" where
  "op_parts operation =
     (takeWhile (\<lambda>c. c \<noteq> CHR ''_'') operation,
      takeWhile (\<lambda>c. c \<noteq> CHR ''_'') (drop 1 (dropWhile (\<lambda>c. c \<noteq> CHR ''_'') operation)))"

definition interceptSavingModelResponse ::
  "string \<Rightarrow> js \<Rightarrow> saving_view \<Rightarrow> js_error + bool \<times> effect list" where
  "interceptSavingModelResponse operation response V =
     (let (qvdObj, oper) = op_parts operation
      in if oper = ''delete'' \<and> map_of QVD_OBJ_DEPENDENCIES qvdObj \<noteq> None
         then interceptSMRDelete response qvdObj V else Inr (False, []))"

text \<open>The handler that runs when the request completes. \<open>body\<close> is the parsed text of the answer, if it
  has one and it is JSON; \<open>cb\<close> is the callback of the caller.\<close>

definition saved_ok :: "int \<Rightarrow> js \<Rightarrow> js_error + bool" where
  "saved_ok http response =
     (if http = 200 then map_sum id (\<lambda>st. loose_eq st (JNum STATUS_SUCCESS)) (js_prop response ''status'')
      else Inr False)"

definition save_complete ::
  "messages \<Rightarrow> string \<Rightarrow> string \<Rightarrow> int \<Rightarrow> js option \<Rightarrow> saving_view \<Rightarrow> saving_view outcome" where
  "save_complete ms cb operation http body V =
     (let response = (case body of Some r \<Rightarrow> r | None \<Rightarrow> JObj [(''status'', JNum http)])
      in case saved_ok http response of
           Inl e \<Rightarrow> Inl e
         | Inr ok \<Rightarrow>
             (let V1 = V\<lparr>sv_message := (if ok then ms_success ms else ms_error ms),
                         sv_messageType := (if ok then MsgSuccess else MsgError),
                         sv_retrieved := response\<rparr>;
                  es = [Call ''loadingUnblock'' []] @ (if sv_dialog V then [CloseDialog] else []) @ [Call cb []];
                  message = ShowMessage (JStr (sv_message V1)) (sv_messageType V1)
              in if ok then Inr (V1, es @ [message])
                 else (case interceptSavingModelResponse operation response V1 of
                         Inl e \<Rightarrow> Inl e
                       | Inr (True, ds) \<Rightarrow> Inr (V1, es @ ds)
                       | Inr (False, ds) \<Rightarrow> Inr (V1, es @ [message]))))"

definition create_messages :: messages where
  "create_messages = \<lparr> ms_success = ''Successfully created'', ms_error = ''Error creating'' \<rparr>"
definition update_messages :: messages where
  "update_messages = \<lparr> ms_success = ''Successfully updated'', ms_error = ''Error updating'' \<rparr>"
definition delete_messages :: messages where
  "delete_messages = \<lparr> ms_success = ''Successfully deleted'', ms_error = ''Error deleting'' \<rparr>"

text \<open>The three calls: the address of the request, the model that made it and the messages of its answer.\<close>

definition createModel :: "wat_c \<Rightarrow> js obj \<Rightarrow> model \<Rightarrow> string \<times> model \<times> messages" where
  "createModel C args M =
     (let M1 = setOperation ''create'' M in (save_url C (JObj []) args M1, M1, create_messages))"

text \<open>An update from a list first drops the selection.\<close>

definition updateModel ::
  "wat_c \<Rightarrow> string \<Rightarrow> list_view \<Rightarrow> js obj \<Rightarrow> js \<Rightarrow> model \<Rightarrow> (string \<times> model \<times> messages) \<times> list_view \<times> effect list" where
  "updateModel C kind V args filters M =
     (let M1 = setOperation ''update'' M
      in ((save_url C filters args M1, M1, update_messages),
          if kind = ''list'' then resetSelectedItems V else (V, [])))"

definition deleteModel :: "wat_c \<Rightarrow> js \<Rightarrow> model \<Rightarrow> string \<times> model \<times> messages" where
  "deleteModel C filters M =
     (let M1 = setOperation ''delete'' M in (save_url C filters [] M1, M1, delete_messages))"

section \<open>Enforced deletion\<close>

text \<open>The dialog of dependencies: the buttons marked to be pressed, the rows, the text of the attribute
  \<open>data-all-ids\<close>, and whether the dialog is open.\<close>

record conflict =
  cf_pending :: "string list"
  cf_rows :: "string list"
  cf_all :: string
  cf_open :: bool

text \<open>What the API answers for one element: the elements that depend on it (\<open>None\<close> when the list is
  refused), and whether the deletions of those and of the element succeed.\<close>

record force_answer =
  fa_rows :: "int list option"
  fa_deps_ok :: bool
  fa_elem_ok :: bool

definition array_eq_0 :: "string list \<Rightarrow> bool" where
  "array_eq_0 xs \<longleftrightarrow> js_num (JStr (js_strs (map JStr xs))) = Some 0"

text \<open>After the element was deleted. A missing identifier makes \<open>splice(-1, 1)\<close>.\<close>

definition forced_removed :: "string \<Rightarrow> conflict \<Rightarrow> conflict" where
  "forced_removed i S =
     (let rows = filter (\<lambda>r. r \<noteq> i) (cf_rows S);
          allIds = split_comma (cf_all S);
          allIds1 = splice allIds (inArray i allIds) 1
      in S\<lparr>cf_rows := rows, cf_all := js_strs (map JStr allIds1),
           cf_open := (cf_open S \<and> \<not> array_eq_0 allIds1)\<rparr>)"

text \<open>\<open>forceDelete\<close> of one element: whether the chain goes on, and the calls it made. Without rows the
  callback raises a TypeError and the chain ends.\<close>

definition forceDelete :: "string \<Rightarrow> force_answer \<Rightarrow> string \<Rightarrow> conflict \<Rightarrow> bool \<times> conflict \<times> effect list" where
  "forceDelete qvdObj a i S =
     (let dep = (case map_of QVD_OBJ_DEPENDENCIES qvdObj of Some d \<Rightarrow> d | None \<Rightarrow> ''undefined'');
          get = Api (dep @ ''_get_list'') (JObj []) (JObj [(qvdObj @ ''_id'', JStr i)]) ''forceDelete'';
          del = (\<lambda>q x. Api (q @ ''_delete'') (JObj []) (JObj [(''id'', x)]) ''forceDelete'')
      in case fa_rows a of
           None \<Rightarrow> (False, S, [get])
         | Some ds \<Rightarrow>
             if \<not> fa_deps_ok a then (True, S, [get, del dep (JArr (map JNum ds)), Dom DomHtml ''.js-notifications'' (JStr i)])
             else if \<not> fa_elem_ok a then (True, S, [get, del dep (JArr (map JNum ds)), del qvdObj (JStr i)])
             else (True, forced_removed i S, [get, del dep (JArr (map JNum ds)), del qvdObj (JStr i), Call ''fetchAny'' []]))"

lemma forceDelete_pending: "forceDelete q a i S = (b, S1, es) \<Longrightarrow> cf_pending S1 = cf_pending S"
  by (auto simp: forceDelete_def forced_removed_def Let_def split: option.splits if_splits)

text \<open>\<open>deletePending\<close> presses the first marked button; the answers of its calls lead back to it.\<close>

function deletePending ::
  "string \<Rightarrow> (string \<Rightarrow> force_answer) \<Rightarrow> conflict \<Rightarrow> conflict \<times> effect list" where
  "deletePending qvdObj srv S =
     (case cf_pending S of
        [] \<Rightarrow> (S, [])
      | i # is \<Rightarrow>
          (case forceDelete qvdObj (srv i) i (S\<lparr>cf_pending := is\<rparr>) of
             (False, S1, es) \<Rightarrow> (S1, es)
           | (True, S1, es) \<Rightarrow> (let (S2, es2) = deletePending qvdObj srv S1 in (S2, es @ es2))))"
  by pat_completeness auto

termination
  by (relation "measure (\<lambda>(q, srv, S). length (cf_pending S))") (auto dest: sym [THEN forceDelete_pending])

declare deletePending.simps [simp del]

definition enforceAll :: "string \<Rightarrow> (string \<Rightarrow> force_answer) \<Rightarrow> conflict \<Rightarrow> conflict \<times> effect list" where
  "enforceAll qvdObj srv S = deletePending qvdObj srv (S\<lparr>cf_pending := cf_rows S\<rparr>)"

section \<open>Actions of the API\<close>

definition performAction_url :: "wat_c \<Rightarrow> string \<Rightarrow> js obj \<Rightarrow> js obj \<Rightarrow> string list \<Rightarrow> js obj \<Rightarrow> string" where
  "performAction_url C action args filters flds orderBy =
     (let part = (\<lambda>name v empty. if empty then '''' else ''&'' @ name @ ''='' @ json v)
      in encodeURI (getBaseUrl C '''' @ ''&action='' @ action @
           part ''filters'' (JObj filters) (filters = []) @ part ''arguments'' (JObj args) (args = []) @
           part ''fields'' (strs_js flds) (flds = []) @ part ''order_by'' (JObj orderBy) (orderBy = []) @
           source_param C))"

definition isExpirableAction :: "string \<Rightarrow> bool" where
  "isExpirableAction action = False"

definition action_message :: "messages option \<Rightarrow> bool \<Rightarrow> saving_view \<Rightarrow> saving_view \<times> effect list" where
  "action_message ms ok V =
     (case ms of
        None \<Rightarrow> (V, [])
      | Some m \<Rightarrow>
          (let V1 = V\<lparr>sv_message := (if ok then ms_success m else ms_error m),
                      sv_messageType := (if ok then MsgSuccess else MsgError)\<rparr>
           in (V1, [ShowMessage (JStr (sv_message V1)) (sv_messageType V1)])))"

text \<open>The answer to an action: an aborted one is ignored; the identifier of the session is stored.\<close>

definition performAction_success ::
  "messages option \<Rightarrow> string \<Rightarrow> js obj \<Rightarrow> wat_c \<Rightarrow> saving_view \<Rightarrow> wat_c \<times> saving_view \<times> effect list" where
  "performAction_success ms cb response C V =
     (if loose_eq (get_attr response ''readyState'') (JNum 0) then (C, V, [])
      else
        (let sid = get_attr response ''sid'';
             C1 = (if truthy sid then C\<lparr>C_sid := js_str sid\<rparr> else C);
             (V1, es) = action_message ms (loose_eq (get_attr response ''status'') (JNum 0))
                          (V\<lparr>sv_retrieved := JObj response\<rparr>)
         in (C1, V1, Call cb [] # es)))"

definition performAction_error ::
  "messages option \<Rightarrow> string \<Rightarrow> js obj \<Rightarrow> saving_view \<Rightarrow> saving_view \<times> effect list" where
  "performAction_error ms cb response V =
     (let (V1, es) = action_message ms False (V\<lparr>sv_retrieved := JObj response\<rparr>) in (V1, Call cb [] # es))"

section \<open>Texts of a model\<close>

definition html_plain :: "char \<Rightarrow> bool" where
  "html_plain c \<longleftrightarrow> c \<noteq> CHR ''<'' \<and> c \<noteq> CHR ''>'' \<and> c \<noteq> CHR 0x22 \<and> c \<noteq> CHR 0x27"

lemma esc_char_plain: "d \<in> set (esc_char c) \<Longrightarrow> html_plain d"
  by (auto simp: esc_char_def html_plain_def split: if_splits)

lemma html_escape_plain: "list_all html_plain (html_escape s)"
  by (auto simp: list_all_iff html_escape_def dest: esc_char_plain)

lemma esc_char_inj: "esc_char c @ x = esc_char d @ y \<Longrightarrow> c = d \<and> x = y"
  by (auto simp: esc_char_def split: if_splits)

lemma esc_char_nonempty: "esc_char c \<noteq> []"
  by (simp add: esc_char_def)

lemma html_escape_inj: "html_escape s = html_escape t \<Longrightarrow> s = t"
proof (induction s arbitrary: t)
  case Nil
  then show ?case by (cases t) (auto simp: html_escape_def esc_char_nonempty)
next
  case (Cons c s)
  then obtain d u where t: "t = d # u" by (cases t) (auto simp: html_escape_def esc_char_nonempty)
  from Cons.prems have "esc_char c @ html_escape s = esc_char d @ html_escape u"
    by (simp add: t html_escape_def)
  then have "c = d" "html_escape s = html_escape u" using esc_char_inj by blast+
  with Cons.IH show ?case by (simp add: t)
qed

lemma escape_value_JStr: "escape_value v = JStr s \<Longrightarrow> \<exists>u. v = JStr u \<and> s = html_escape u"
  by (cases v) auto

lemma update_present_keys: "k \<in> fst ` set ps \<Longrightarrow> map fst (AList.update k v ps) = map fst ps"
  by (induction ps) auto

lemma processResponse_shape:
  assumes "processResponse local r = Inr r'"
  obtains r0 where "r' = map (\<lambda>(k, v). (k, escape_value v)) r0" "map fst r0 = map fst r"
    "\<And>k. k \<noteq> ''creation_date'' \<Longrightarrow> map_of r0 k = map_of r k"
proof (cases "\<exists>s. get_attr r ''creation_date'' = JStr s \<and> s \<noteq> ''''")
  case True
  then obtain s where s: "get_attr r ''creation_date'' = JStr s" "s \<noteq> ''''" by blast
  then have "map_of r ''creation_date'' \<noteq> None" by (auto simp: get_attr_def split: option.splits)
  then have "''creation_date'' \<in> fst ` set r" by (simp add: map_of_eq_None_iff)
  then have "map fst (AList.update ''creation_date'' (JStr (local (replace_T s))) r) = map fst r"
    by (rule update_present_keys)
  with assms s show ?thesis
    by (intro that [of "AList.update ''creation_date'' (JStr (local (replace_T s))) r"])
       (simp_all add: processResponse_def Let_def)
next
  case False
  with assms show ?thesis
    by (intro that [of r]) (auto simp: processResponse_def Let_def split: js.splits if_splits)
qed

text \<open>No text of the API reaches a model raw: in what \<open>processResponse\<close> returns, no text has a
  character that opens a tag or ends an attribute, and nothing is lost: every other value is kept,
  and a text can be recovered from its escaped form.\<close>

theorem processResponse_escapes:
  assumes "processResponse local r = Inr r'"
  shows "(\<forall>(k, v) \<in> set r'. \<forall>s. v = JStr s \<longrightarrow> list_all html_plain s) \<and>
    map fst r' = map fst r \<and>
    (\<forall>k u. k \<noteq> ''creation_date'' \<longrightarrow> (map_of r k = Some (JStr u) \<longleftrightarrow> map_of r' k = Some (JStr (html_escape u))))"
proof -
  obtain r0 where r0: "r' = map (\<lambda>(k, v). (k, escape_value v)) r0" "map fst r0 = map fst r"
    "\<And>k. k \<noteq> ''creation_date'' \<Longrightarrow> map_of r0 k = map_of r k"
    using processResponse_shape [OF assms] by blast
  have "map_of r k = Some (JStr u) \<longleftrightarrow> map_of r' k = Some (JStr (html_escape u))"
    if "k \<noteq> ''creation_date''" for k u
    using r0(3) [OF that] html_escape_inj
    by (auto simp: r0(1) map_of_map dest!: escape_value_JStr)
  moreover have "list_all html_plain s" if "(k, JStr s) \<in> set r'" for k s
    using that html_escape_plain by (auto simp: r0(1) dest!: sym [THEN escape_value_JStr])
  moreover have "map fst r' = map fst r" using r0(2) by (simp add: r0(1) case_prod_beta o_def)
  ultimately show ?thesis by blast
qed

theorem processResponse_escapes_witness:
  "processResponse id [(''name'', JStr ''<b>''), (''id'', JNum 3)] = Inr [(''name'', JStr ''&lt;b&gt;''), (''id'', JNum 3)] \<and>
   list_all html_plain ''&lt;b&gt;''"
proof -
  have p: "processResponse id [(''name'', JStr ''<b>''), (''id'', JNum 3)] = Inr [(''name'', JStr ''&lt;b&gt;''), (''id'', JNum 3)]"
    by (simp add: processResponse_def get_attr_def html_escape_def esc_char_def)
  then show ?thesis using processResponse_escapes [OF p] by auto
qed

section \<open>Addresses\<close>

text \<open>The value of a parameter in an address ends at the next ampersand.\<close>

definition until_amp :: "string \<Rightarrow> string" where
  "until_amp s = takeWhile (\<lambda>c. c \<noteq> CHR ''&'') s"

lemma amp_encodeURI: "CHR ''&'' \<in> set (encodeURI s) \<longleftrightarrow> CHR ''&'' \<in> set s"
proof -
  have "query_sep (CHR ''&'')" by (simp add: query_sep_def)
  then have "CHR ''&'' \<in> set t \<longleftrightarrow> CHR ''&'' \<in> set (filter query_sep t)" for t by simp
  then show ?thesis by (metis filter_sep_encodeURI)
qed

text \<open>In the address of a saving call the arguments are what follows \<open>&arguments=\<close>; they arrive whole
  exactly when no name or text in them has an ampersand, because \<open>encodeURI\<close> leaves that character
  alone: an ampersand typed in a field cuts the arguments there.\<close>

theorem save_url_arguments:
  "\<exists>before. save_url C filters args M =
      before @ ''&arguments='' @ encodeURI (json (JObj args)) @ encodeURI (source_param C) @ m_extra M \<and>
    (until_amp (encodeURI (json (JObj args)) @ encodeURI (source_param C) @ m_extra M) =
       encodeURI (json (JObj args)) \<longleftrightarrow> CHR ''&'' \<notin> set (json (JObj args)))"
proof -
  let ?b = "encodeURI (getBaseUrl C (m_endpoint M) @ ''&action='' @ m_operation M @ ''&filters='' @ json filters)"
  let ?x = "encodeURI (json (JObj args))"
  have amp: "encodeURI ''&arguments='' = ''&arguments=''"
    by (rule encodeURI_plain) (simp add: uri_plain_def)
  have "save_url C filters args M = ?b @ ''&arguments='' @ ?x @ encodeURI (source_param C) @ m_extra M"
    unfolding save_url_def by (simp only: encodeURI_append append_assoc amp)
  moreover have "\<exists>r. encodeURI (source_param C) @ m_extra M = CHR ''&'' # r"
    by (simp add: source_param_def encodeURI_def uri_char_def uri_plain_def)
  then obtain r where r: "encodeURI (source_param C) @ m_extra M = CHR ''&'' # r" by blast
  have "until_amp (?x @ CHR ''&'' # r) = ?x \<longleftrightarrow> CHR ''&'' \<notin> set ?x"
  proof
    assume "until_amp (?x @ CHR ''&'' # r) = ?x"
    moreover have "CHR ''&'' \<notin> set (until_amp y)" for y by (auto simp: until_amp_def dest: set_takeWhileD)
    ultimately show "CHR ''&'' \<notin> set ?x" by metis
  qed (simp add: until_amp_def takeWhile_append)
  ultimately show ?thesis unfolding r amp_encodeURI by blast
qed

section \<open>Answers\<close>

lemma dependency_names_cong:
  "sv_collection V = sv_collection W \<Longrightarrow> sv_model V = sv_model W \<Longrightarrow> dependency_names V n is = dependency_names W n is"
proof (induction "is")
  case (Cons i "is")
  then have "dependency_name V n i = dependency_name W n i" unfolding dependency_name_def by metis
  moreover have "dependency_names V n is = dependency_names W n is" using Cons by simp
  ultimately show ?case by (simp only: dependency_names.simps)
qed simp

lemma js_prop_Inr_nonundef: "js_prop r k = Inr v \<Longrightarrow> v \<noteq> Undef \<Longrightarrow> \<exists>ps. r = JObj ps \<and> get_attr ps k = v"
  by (cases r) auto

lemma interceptSMRDelete_True:
  assumes "interceptSMRDelete response q V = Inr (True, ds)"
  obtains ps fs "is" els where "response = JObj ps" "get_attr ps ''status'' = JNum STATUS_NOT_ALL_DONE"
    "get_attr ps ''failures'' = JObj fs" "dependency_ids fs = Inr is" "is \<noteq> []"
    "dependency_names V (length is) is = Inr els"
    "ds = [OpenDialog ''Action not accomplished for all elements'', Call ''deleteDependency'' [JObj els, JStr q]]"
proof -
  have map_sum_True: "map_sum id (Pair True) x = Inr (True, ds) \<longleftrightarrow> x = Inr ds" for x :: "js_error + effect list"
    by (cases x) auto
  have dlg: "openDependenciesDialog is q V = Inr ds \<Longrightarrow> \<exists>els. dependency_names V (length is) is = Inr els \<and>
      ds = [OpenDialog ''Action not accomplished for all elements'', Call ''deleteDependency'' [JObj els, JStr q]]" for "is"
    by (cases "dependency_names V (length is) is") (auto simp: openDependenciesDialog_def)
  from assms obtain st where st: "js_prop response ''status'' = Inr st" "st = JNum STATUS_NOT_ALL_DONE"
    by (auto simp: interceptSMRDelete_def split: sum.splits if_splits)
  then obtain ps where ps: "response = JObj ps" "get_attr ps ''status'' = JNum STATUS_NOT_ALL_DONE"
    using js_prop_Inr_nonundef by fastforce
  from assms ps obtain fs "is" where "get_attr ps ''failures'' = JObj fs" "dependency_ids fs = Inr is" "is \<noteq> []"
    "openDependenciesDialog is q V = Inr ds"
    by (auto simp: interceptSMRDelete_def map_sum_True split: js.splits sum.splits if_splits)
  with ps dlg that show ?thesis by blast
qed

lemma intercept_True:
  assumes "interceptSavingModelResponse operation response V = Inr (True, ds)"
  obtains q where "op_parts operation = (q, ''delete'')" "q \<in> {''user'', ''osf''}"
    "interceptSMRDelete response q V = Inr (True, ds)"
  using assms that
  by (auto simp: interceptSavingModelResponse_def QVD_OBJ_DEPENDENCIES_def split: prod.splits if_splits)


definition sample_saving :: saving_view where
  "sample_saving = \<lparr> sv_kind = ''list'', sv_dialog = True,
     sv_collection = Some [[(''id'', JNum 4), (''name'', JStr ''ana'')]], sv_model = None,
     sv_message = '''', sv_messageType = MsgInfo, sv_retrieved = Undef \<rparr>"


lemma dependency_names_fails_iff:
  "(\<exists>e. dependency_names V n is = Inl e) = list_ex (\<lambda>i. \<exists>e. dependency_name V n i = Inl e) is"
proof (induction "is")
  case (Cons i "is")
  then show ?case
    by (cases "dependency_name V n i"; cases "dependency_names V n is") (simp_all add: list_ex_iff)
qed simp

lemma dependency_name_fails_iff:
  "sv_collection V = Some ms \<Longrightarrow> (\<exists>e. dependency_name V n i = Inl e) =
     (find (\<lambda>m. get_attr m ''id'' = (case parseInt (JStr i) of Some k \<Rightarrow> JNum k | None \<Rightarrow> Undef)) ms = None)"
  by (simp add: dependency_name_def split: option.split)

lemma dependency_names_fails:
  "sv_collection V = Some ms \<Longrightarrow>
   (\<exists>e. dependency_names V n is = Inl e) =
     list_ex (\<lambda>i. find (\<lambda>m. get_attr m ''id'' = (case parseInt (JStr i) of Some k \<Rightarrow> JNum k | None \<Rightarrow> Undef)) ms = None) is"
  by (simp only: dependency_names_fails_iff dependency_name_fails_iff)

text \<open>The dialog of dependencies can be opened from a list exactly when every element it has to name is
  on the page that is shown: for an element selected on another page the lookup fails and the
  administrator gets neither the dialog nor the message of the error.\<close>

theorem dependencies_dialog_opens:
  assumes "sv_collection V = Some ms" and "dependency_ids fs = Inr is" and "is \<noteq> []"
    and "op_parts operation = (q, ''delete'')" and "q \<in> {''user'', ''osf''}" and "http = 200"
    and "ps = [(''status'', JNum STATUS_NOT_ALL_DONE), (''failures'', JObj fs)]"
  shows "(\<exists>r. save_complete delete_messages cb operation http (Some (JObj ps)) V = Inr r) \<longleftrightarrow>
    list_all (\<lambda>i. \<exists>m\<in>set ms. get_attr m ''id'' = (case parseInt (JStr i) of Some k \<Rightarrow> JNum k | None \<Rightarrow> Undef)) is"
proof -
  let ?V1 = "V\<lparr>sv_message := ms_error delete_messages, sv_messageType := MsgError, sv_retrieved := JObj ps\<rparr>"
  have ok: "saved_ok http (JObj ps) = Inr False"
    using assms(6,7) by (simp add: saved_ok_def get_attr_def STATUS_SUCCESS_def STATUS_NOT_ALL_DONE_def nullish_def)
  have int: "interceptSavingModelResponse operation (JObj ps) ?V1 =
      map_sum id (Pair True) (openDependenciesDialog is q ?V1)"
    using assms(2-5,7) by (auto simp: interceptSavingModelResponse_def interceptSMRDelete_def get_attr_def QVD_OBJ_DEPENDENCIES_def)
  have "dependency_names ?V1 (length is) is = dependency_names V (length is) is"
    by (rule dependency_names_cong) simp_all
  then have "(\<exists>r. save_complete delete_messages cb operation http (Some (JObj ps)) V = Inr r) \<longleftrightarrow>
      \<not> (\<exists>e. dependency_names V (length is) is = Inl e)"
    using ok int
    by (cases "dependency_names V (length is) is") (simp_all add: save_complete_def Let_def openDependenciesDialog_def)
  then show ?thesis
    unfolding dependency_names_fails [OF assms(1)]
    by (auto simp: list_ex_iff list_all_iff find_None_iff)
qed

theorem dependencies_dialog_opens_witness:
  "\<exists>r. save_complete delete_messages ''fetchList'' ''user_delete'' 200
      (Some (JObj [(''status'', JNum STATUS_NOT_ALL_DONE),
         (''failures'', JObj [(''4'', JObj [(''status'', JNum STATUS_NOT_REMOVED_DUE_DEPENDENCY)])])])) sample_saving = Inr r"
proof -
  have f: "dependency_ids [(''4'', JObj [(''status'', JNum STATUS_NOT_REMOVED_DUE_DEPENDENCY)])] = Inr [''4'']"
    by (simp add: get_attr_def)
  have p: "op_parts ''user_delete'' = (''user'', ''delete'')" by (simp add: op_parts_def)
  have n: "parseInt (JStr ''4'') = Some 4"
    by (simp add: parseInt_def parse_digits_def digits_num_def is_digit_def digit_val_def)
  show ?thesis
    using dependencies_dialog_opens [of sample_saving "[[(''id'', JNum 4), (''name'', JStr ''ana'')]]", OF _ f _ p, of 200]
    by (simp add: sample_saving_def get_attr_def n)
qed

section \<open>Enforced deletion goes through\<close>

text \<open>An identifier of the dialog: a non-empty text without commas that is not a zero.\<close>

definition plain_id :: "string \<Rightarrow> bool" where
  "plain_id i \<longleftrightarrow> i \<noteq> '''' \<and> CHR '','' \<notin> set i \<and> str_num i \<noteq> Some 0"

definition force_removes :: "force_answer \<Rightarrow> bool" where
  "force_removes a \<longleftrightarrow> fa_rows a \<noteq> None \<and> fa_deps_ok a \<and> fa_elem_ok a"

lemma array_eq_0_iff: "\<forall>i\<in>set is. plain_id i \<Longrightarrow> array_eq_0 is \<longleftrightarrow> is = []"
proof (induction "is" rule: induct_list012)
  case (3 i j "is")
  have "CHR '','' \<in> set (js_strs (map JStr (i # j # is)))" by (simp add: nullish_def)
  then show ?case unfolding array_eq_0_def using comma_not_number by simp
qed (simp_all add: array_eq_0_def plain_id_def str_num_def trim_def nullish_def)

lemma splice_indexOf: "distinct xs \<Longrightarrow> x \<in> set xs \<Longrightarrow> splice xs (inArray x xs) 1 = filter (\<lambda>y. y \<noteq> x) xs"
  using splice_inArray [of x xs] by (auto simp: distinct_remove1_removeAll removeAll_filter_not_eq intro: filter_cong)

text \<open>The state of the dialog: the attribute \<open>data-all-ids\<close> lists the rows, the marked buttons are among
  them, and the dialog is open as long as there are rows.\<close>

definition conflict_ok :: "conflict \<Rightarrow> bool" where
  "conflict_ok S \<longleftrightarrow> distinct (cf_rows S) \<and> (\<forall>i\<in>set (cf_rows S). plain_id i) \<and>
     cf_all S = js_strs (map JStr (cf_rows S)) \<and> (cf_open S \<longleftrightarrow> cf_rows S \<noteq> [])"

lemma forced_removed_ok:
  assumes "conflict_ok S" and "i \<in> set (cf_rows S)"
  shows "conflict_ok (forced_removed i S) \<and> cf_rows (forced_removed i S) = filter (\<lambda>r. r \<noteq> i) (cf_rows S)"
proof -
  have ok: "distinct (cf_rows S)" "\<forall>i\<in>set (cf_rows S). plain_id i"
    "cf_all S = js_strs (map JStr (cf_rows S))" "cf_open S" "cf_rows S \<noteq> []"
    using assms unfolding conflict_ok_def by auto
  let ?rs = "filter (\<lambda>r. r \<noteq> i) (cf_rows S)"
  have "split_comma (cf_all S) = cf_rows S"
    using ok split_comma_joined [of "cf_rows S"] by (simp add: plain_id_def)
  moreover have "splice (cf_rows S) (inArray i (cf_rows S)) 1 = ?rs"
    using ok(1) assms(2) by (rule splice_indexOf)
  moreover have "array_eq_0 ?rs \<longleftrightarrow> ?rs = []" using ok(2) by (intro array_eq_0_iff) simp
  ultimately have "forced_removed i S = S\<lparr>cf_rows := ?rs, cf_all := js_strs (map JStr ?rs), cf_open := (?rs \<noteq> [])\<rparr>"
    using ok(4) unfolding forced_removed_def Let_def by (simp only: simp_thms)
  then show ?thesis using ok(1,2) by (simp add: conflict_ok_def)
qed

definition force_calls :: "string \<Rightarrow> force_answer \<Rightarrow> string \<Rightarrow> effect list" where
  "force_calls q a i = snd (snd (forceDelete q a i undefined))"

lemma forceDelete_cases:
  "fa_rows a \<noteq> None \<Longrightarrow>
   forceDelete q a i S = (True, if force_removes a then forced_removed i S else S, force_calls q a i)"
  by (auto simp: forceDelete_def force_calls_def force_removes_def Let_def)

lemma deletePending_all:
  assumes "conflict_ok S" and "cf_pending S = ps" and "distinct ps" and "set ps \<subseteq> set (cf_rows S)"
    and "\<forall>i\<in>set ps. fa_rows (srv i) \<noteq> None"
  shows "\<exists>S'. deletePending q srv S = (S', concat (map (\<lambda>i. force_calls q (srv i) i) ps)) \<and> conflict_ok S' \<and>
    cf_pending S' = [] \<and> cf_rows S' = filter (\<lambda>i. i \<in> set ps \<longrightarrow> \<not> force_removes (srv i)) (cf_rows S)"
  using assms
proof (induction ps arbitrary: S)
  case Nil
  then show ?case by (simp add: deletePending.simps)
next
  case (Cons i ps)
  define S0 where "S0 = S\<lparr>cf_pending := ps\<rparr>"
  define S1 where "S1 = (if force_removes (srv i) then forced_removed i S0 else S0)"
  have S0: "conflict_ok S0" "i \<in> set (cf_rows S0)" "cf_rows S0 = cf_rows S" "cf_pending S0 = ps"
    using Cons.prems by (simp_all add: S0_def conflict_ok_def)
  have rows: "cf_rows S1 = filter (\<lambda>r. r = i \<longrightarrow> \<not> force_removes (srv i)) (cf_rows S)"
    using forced_removed_ok [OF S0(1,2)] S0(3) by (simp add: S1_def)
  have f: "forceDelete q (srv i) i S0 = (True, S1, force_calls q (srv i) i)"
    using Cons.prems(5) by (simp add: S1_def forceDelete_cases)
  have "conflict_ok S1" using forced_removed_ok [OF S0(1,2)] S0(1) by (simp add: S1_def)
  moreover have "cf_pending S1 = ps" using forceDelete_pending [OF f] S0(4) by simp
  moreover have "set ps \<subseteq> set (cf_rows S1)" using Cons.prems(3,4) by (auto simp: rows)
  ultimately obtain S' where S': "deletePending q srv S1 = (S', concat (map (\<lambda>i. force_calls q (srv i) i) ps))"
    "conflict_ok S'" "cf_pending S' = []"
    "cf_rows S' = filter (\<lambda>i. i \<in> set ps \<longrightarrow> \<not> force_removes (srv i)) (cf_rows S1)"
    using Cons.IH [of S1] Cons.prems(3,5) by auto
  have "deletePending q srv S = (S', force_calls q (srv i) i @ concat (map (\<lambda>i. force_calls q (srv i) i) ps))"
    using f S'(1) Cons.prems(2) by (subst deletePending.simps) (simp add: S0_def)
  moreover have "cf_rows S' = filter (\<lambda>j. j \<in> set (i # ps) \<longrightarrow> \<not> force_removes (srv j)) (cf_rows S)"
    unfolding S'(4) rows filter_filter using Cons.prems(3) by (intro filter_cong) auto
  ultimately show ?case using S'(2,3) by simp
qed

text \<open>"Enforce deletion for all" reaches every element: as long as the API answers the lists of dependent
  elements, each row is tried exactly once, from the first to the last, a failure of one does not
  stop the others, the rows that stay are exactly the elements that were not removed, and the dialog
  closes exactly when none stays.\<close>

theorem enforceAll_covers:
  assumes "conflict_ok S" and "\<forall>i\<in>set (cf_rows S). fa_rows (srv i) \<noteq> None"
  shows "\<exists>S'. enforceAll q srv S = (S', concat (map (\<lambda>i. force_calls q (srv i) i) (cf_rows S))) \<and>
    conflict_ok S' \<and> cf_pending S' = [] \<and>
    cf_rows S' = filter (\<lambda>i. \<not> force_removes (srv i)) (cf_rows S) \<and>
    (cf_open S' \<longleftrightarrow> (\<exists>i\<in>set (cf_rows S). \<not> force_removes (srv i)))"
proof -
  let ?S = "S\<lparr>cf_pending := cf_rows S\<rparr>"
  have "conflict_ok ?S" "distinct (cf_rows S)" using assms(1) by (simp_all add: conflict_ok_def)
  then obtain S' where S': "enforceAll q srv S = (S', concat (map (\<lambda>i. force_calls q (srv i) i) (cf_rows S)))"
    "conflict_ok S'" "cf_pending S' = []" "cf_rows S' = filter (\<lambda>i. \<not> force_removes (srv i)) (cf_rows S)"
    using deletePending_all [of ?S "cf_rows S" srv q] assms(2) by (auto simp: enforceAll_def cong: filter_cong)
  moreover have "cf_open S' \<longleftrightarrow> (\<exists>i\<in>set (cf_rows S). \<not> force_removes (srv i))"
    using S'(2,4) by (auto simp: conflict_ok_def filter_empty_conv)
  ultimately show ?thesis by blast
qed

definition sample_conflict :: conflict where
  "sample_conflict = \<lparr> cf_pending = [], cf_rows = [''4'', ''7''], cf_all = ''4,7'', cf_open = True \<rparr>"

theorem enforceAll_covers_witness:
  "\<exists>S' es. enforceAll ''user'' (\<lambda>i. \<lparr> fa_rows = Some [1], fa_deps_ok = (i = ''4''), fa_elem_ok = True \<rparr>) sample_conflict = (S', es) \<and>
     cf_pending S' = [] \<and> cf_rows S' = [''7''] \<and> cf_open S'"
proof -
  let ?srv = "\<lambda>i. \<lparr> fa_rows = Some [1], fa_deps_ok = (i = ''4''), fa_elem_ok = True \<rparr>"
  have "conflict_ok sample_conflict"
    by (simp add: conflict_ok_def sample_conflict_def plain_id_def nullish_def str_num_def trim_def digits_num_def is_digit_def digit_val_def)
  then obtain S' where S': "enforceAll ''user'' ?srv sample_conflict =
      (S', concat (map (\<lambda>i. force_calls ''user'' (?srv i) i) (cf_rows sample_conflict)))"
    "cf_pending S' = []" "cf_rows S' = filter (\<lambda>i. \<not> force_removes (?srv i)) (cf_rows sample_conflict)"
    "cf_open S' \<longleftrightarrow> (\<exists>i\<in>set (cf_rows sample_conflict). \<not> force_removes (?srv i))"
    using enforceAll_covers [of sample_conflict ?srv "''user''"] by auto
  then show ?thesis by (simp add: sample_conflict_def force_removes_def)
qed

end
