(* ===== verification/Details.thy ===== *)
theory Details
  imports SaveModel ListFilter AclGroups
begin

text \<open>
  The views of one element (\<open>wat/lib/bb-views/proto-details.js\<close> and the details views of \<open>platform\<close> and
  \<open>wat-management\<close>): the breadcrumbs above them (\<open>interface.js\<close>), the fields they show, the reading of
  the element and its properties, the deletion, the lists at the side and the graph of log registers.

  Templates are filled by underscore; that a template is written is the effect \<open>Call ''template''\<close>.
\<close>

section \<open>Breadcrumbs\<close>

text \<open>A level of the breadcrumbs; its property \<open>next\<close> is the level that follows it in the list. An object
  without properties is the list of one empty level.\<close>

record crumb =
  screen :: js
  link :: "string option"
  linkACL :: "string option"

fun applyBredcrumbsACLs :: "wat_c \<Rightarrow> crumb list \<Rightarrow> crumb list" where
  "applyBredcrumbsACLs C [] = []"
| "applyBredcrumbsACLs C (level # next) =
     (case linkACL level of
        Some a \<Rightarrow> if \<not> acl1 C a then level\<lparr>link := None\<rparr> else level
      | None \<Rightarrow> level) # applyBredcrumbsACLs C next"

text \<open>\<open>getDetailsBreadCrumbs\<close> changes the global table and returns an alias of its entry.\<close>

definition getDetailsBreadCrumbs :: "wat_c \<Rightarrow> string \<Rightarrow> crumb list obj \<Rightarrow> js_error + crumb list obj" where
  "getDetailsBreadCrumbs C q table =
     (case map_of table q of
        None \<Rightarrow> Inl TypeError
      | Some bc \<Rightarrow> Inr (AList.update q (applyBredcrumbsACLs C bc) table))"

definition empty_crumb :: "crumb \<Rightarrow> bool" where
  "empty_crumb c \<longleftrightarrow> screen c = Undef \<and> link c = None \<and> linkACL c = None"

definition crumb_html :: "crumb \<Rightarrow> string" where
  "crumb_html c =
     (let s = js_str (screen c)
      in case link c of
           Some l \<Rightarrow> ''<a href=\"'' @ l @ ''\" data-i18n=\"'' @ s @ ''\"></a>''
         | None \<Rightarrow> ''<span data-i18n=\"'' @ s @ ''\">'' @ s @ ''</span>'')"

fun print_crumbs :: "string \<Rightarrow> crumb list \<Rightarrow> string \<Rightarrow> effect list" where
  "print_crumbs qvdObj [] html = []"
| "print_crumbs qvdObj [bc] html =
     [Dom DomHtml ''#breadcrumbs''
        (JStr (html @ crumb_html bc @
          ''<a href=\"javascript:\" class=\"fa fa-book js-screen-help screen-help\" data-i18n=\"[title]Related documentation\" data-docsection=\"'' @
          qvdObj @ ''\"></a>''))]"
| "print_crumbs qvdObj (bc # next) html =
     print_crumbs qvdObj next (html @ crumb_html bc @ '' <i class=\"fa fa-angle-double-right\"></i> '')"

definition printBreadcrumbs :: "string \<Rightarrow> crumb list \<Rightarrow> string \<Rightarrow> effect list" where
  "printBreadcrumbs qvdObj bcs html =
     (case bcs of [c] \<Rightarrow> if empty_crumb c then [] else print_crumbs qvdObj bcs html
                | _ \<Rightarrow> print_crumbs qvdObj bcs html)"

text \<open>The last link before the end of the breadcrumbs, where the browser goes after a deletion.\<close>

fun last_link :: "crumb list \<Rightarrow> string \<Rightarrow> string" where
  "last_link (crumb # next # rest) lastLink =
     last_link (next # rest) (case link crumb of Some l \<Rightarrow> l | None \<Rightarrow> lastLink)"
| "last_link crumbs lastLink = lastLink"

section \<open>The view and its fields\<close>

record det_conf = conf_item +
  dc_props :: "js obj"

record det_group =
  dg_props :: "js obj"
  fieldList :: "det_conf obj option"

record details_view =
  dv_qvdObj :: string
  dv_cid :: string
  dv_elementId :: js
  dv_viewACL :: string
  dv_model :: "js obj"
  dv_notFound :: "bool option"
  dv_crumbs :: "crumb list"
  dv_fields :: "det_group obj"
  dv_live :: "string list option"
  dv_retrieved :: "js obj"
  dv_sideViews :: "(string \<times> js obj) list"

definition CLASS_ICON_TENANTS :: string where "CLASS_ICON_TENANTS = ''fa fa-building-o''"

definition tenant_det_conf :: det_conf where
  "tenant_det_conf =
     \<lparr> groupAcls = None, itemAcls = None, aclsLogic = None,
       dc_props = [(''text'', JStr ''Tenant''), (''display'', JBool True), (''noTranslatable'', JBool True),
                   (''icon'', JStr CLASS_ICON_TENANTS)] \<rparr>"

definition purge_group :: "wat_c \<Rightarrow> det_group \<Rightarrow> det_group" where
  "purge_group C g = g\<lparr>fieldList := map_option (purgeConfigData C) (fieldList g)\<rparr>"

text \<open>\<open>table\<close> is \<open>Wat.I.detailsFields\<close>; an absent entry is copied as an empty object.\<close>

definition setDetailsFields :: "wat_c \<Rightarrow> det_group obj obj \<Rightarrow> details_view \<Rightarrow> js_error + details_view" where
  "setDetailsFields C table V =
     (let q = dv_qvdObj V;
          groups = (case map_of table q of None \<Rightarrow> [] | Some t \<Rightarrow> t);
          purged = map (\<lambda>(k, g). (k, purge_group C g)) groups;
          classifiedByTenant = inArray q QVD_OBJS_CLASSIFIED_BY_TENANT \<noteq> -1
      in if isSuperadmin C \<and> classifiedByTenant then
           (case map_of purged ''general'' of
              None \<Rightarrow> Inl TypeError
            | Some g \<Rightarrow>
                Inr (V\<lparr>dv_fields := AList.update ''general''
                   (g\<lparr>fieldList := Some (jq_extend [(''tenant'', tenant_det_conf)]
                                          (case fieldList g of None \<Rightarrow> [] | Some fs \<Rightarrow> fs))\<rparr>) purged\<rparr>))
         else Inr (V\<lparr>dv_fields := purged\<rparr>))"

section \<open>Rendering\<close>

definition set_last_screen :: "js \<Rightarrow> crumb list \<Rightarrow> crumb list" where
  "set_last_screen s bcs = (case bcs of [] \<Rightarrow> [] | _ \<Rightarrow> butlast bcs @ [(last bcs)\<lparr>screen := s\<rparr>])"

text \<open>The name of the element at the end of the breadcrumbs; a view without a second level fails.\<close>

definition crumb_name :: "string \<Rightarrow> js obj \<Rightarrow> js option" where
  "crumb_name q m =
     (if q = ''di'' then Some (get_attr m ''disk_image'')
      else if q = ''configwat'' then None
      else if q = ''log'' then Some (get_attr m ''id'')
      else Some (get_attr m ''name''))"

definition name_crumbs :: "string \<Rightarrow> js obj \<Rightarrow> crumb list \<Rightarrow> js_error + crumb list" where
  "name_crumbs q m bcs =
     (case bcs of
        _ # _ # _ \<Rightarrow> Inr (case crumb_name q m of None \<Rightarrow> bcs | Some s \<Rightarrow> set_last_screen s bcs)
      | _ \<Rightarrow> Inl TypeError)"

text \<open>\<open>has_buttons\<close>: the header drawn has action buttons.\<close>

definition render_details :: "wat_c \<Rightarrow> bool \<Rightarrow> details_view \<Rightarrow> details_view outcome" where
  "render_details C has_buttons V =
     (if \<not> acl1 C (dv_viewACL V) then Inr (V, [Navigate ''#''])
      else
        (let q = dv_qvdObj V; m = dv_model V;
             notFound = (case dv_notFound V of None \<Rightarrow> length m \<le> 1 | Some b \<Rightarrow> b)
         in case name_crumbs q m (dv_crumbs V) of
              Inl e \<Rightarrow> Inl e
            | Inr bcs \<Rightarrow>
                (let enabledProperties = (inArray q QVD_OBJS_WITH_PROPERTIES \<noteq> -1 \<and> acl1 C (q @ ''.see.properties''));
                     bcs1 = (if notFound then set_last_screen (JStr ''-'') bcs else bcs);
                     html = (\<lambda>sel tpl. Dom DomHtml sel (JStr tpl));
                     body = (if notFound then html ''.bb-content'' ''warn404'' # printBreadcrumbs q bcs1 ''''
                             else html ''.bb-content'' ''detailsCommon'' # printBreadcrumbs q bcs1 '''' @
                               [html ''.bb-details'' ''details'', html ''.bb-details-layout-desktop'' ''layoutDesktop'',
                                html ''.bb-details-layout-mobile'' ''layoutMobile'', html ''.bb-details-side'' ''detailsSide''] @
                               (if enabledProperties then [html ''.bb-properties'' ''detailsCommonProperties''] else []));
                     tail = (if has_buttons then [] else [Dom DomHide ''.js-show-details-actions'' Null]) @
                            [Call ''translateAndShow'' []] @
                            (case dv_live V of
                               None \<Rightarrow> []
                             | Some fs \<Rightarrow> [Call ''openDetailsWebsockets'' [JStr q, get_attr m ''id'', strs_js fs, JStr (dv_cid V)]])
                 in Inr (V\<lparr>dv_notFound := Some notFound, dv_crumbs := bcs1\<rparr>, body @ tail))))"

section \<open>Reading the element\<close>

text \<open>When the element was read: its properties are asked for, or it is drawn at once.\<close>

definition property_filters :: "wat_c \<Rightarrow> details_view \<Rightarrow> js obj" where
  "property_filters C V =
     (if multi C \<and> isSuperadmin C \<and> inArray (dv_qvdObj V) QVD_OBJS_CLASSIFIED_BY_TENANT \<noteq> -1
      then [(''-or'', JArr [JStr ''tenant_id'', get_attr (dv_model V) ''tenant_id'', JStr ''tenant_id'', JNum SUPERTENANT_ID])]
      else [])"

definition fetchDetails_success :: "wat_c \<Rightarrow> bool \<Rightarrow> details_view \<Rightarrow> details_view outcome" where
  "fetchDetails_success C has_buttons V =
     (let hook = [Call ''afterFetchDetails'' []]
      in if inArray (dv_qvdObj V) QVD_OBJS_WITH_PROPERTIES \<noteq> -1
         then Inr (V, Api (dv_qvdObj V @ ''_get_property_list'') (JObj []) (JObj (property_filters C V))
                        ''completePropertiesAndRender'' # hook)
         else map_sum id (\<lambda>(V1, es). (V1, es @ hook)) (render_details C has_buttons V))"

text \<open>The rows of an answer, and one row as a property of the element.\<close>

fun rows_of :: "js \<Rightarrow> js_error + js list" where
  "rows_of (JArr rs) = Inr rs"
| "rows_of v = (if nullish v then Inl TypeError else Inr [])"

definition element_value :: "js \<Rightarrow> js \<Rightarrow> js" where
  "element_value props pid =
     (case props of
        JObj ps \<Rightarrow>
          (let p = get_attr ps (js_str pid)
           in if truthy p then (case js_prop p ''value'' of Inl e \<Rightarrow> Undef | Inr v \<Rightarrow> v) else JStr '''')
      | _ \<Rightarrow> JStr '''')"

definition property_entry :: "js \<Rightarrow> js obj \<Rightarrow> js" where
  "property_entry props row =
     JObj [(''value'', element_value props (get_attr row ''property_id'')), (''key'', get_attr row ''key''),
           (''description'', get_attr row ''description''), (''tenant_id'', get_attr row ''tenant_id''),
           (''property_id'', get_attr row ''property_id'')]"

fun property_rows :: "js \<Rightarrow> js list \<Rightarrow> js obj \<Rightarrow> js_error + js obj" where
  "property_rows props [] acc = Inr acc"
| "property_rows props (r # rs) acc =
     (case r of
        JObj row \<Rightarrow> property_rows props rs
           (AList.update (js_str (get_attr row ''property_id'')) (property_entry props row) acc)
      | _ \<Rightarrow> if nullish r then Inl TypeError
             else property_rows props rs (AList.update ''undefined'' (property_entry props []) acc))"

definition completePropertiesAndRender :: "wat_c \<Rightarrow> bool \<Rightarrow> details_view \<Rightarrow> details_view outcome" where
  "completePropertiesAndRender C has_buttons V =
     (let props = get_attr (dv_model V) ''properties'' in
      if \<not> truthy props then Inr (V, [])
      else
        (let total = get_attr (dv_retrieved V) ''total'';
             found = (if (case js_num total of Some n \<Rightarrow> n > 0 | None \<Rightarrow> False)
                      then (case rows_of (get_attr (dv_retrieved V) ''rows'') of
                              Inl e \<Rightarrow> Inl e | Inr rs \<Rightarrow> property_rows props rs [])
                      else Inr [])
         in case found of
              Inl e \<Rightarrow> Inl e
            | Inr ps \<Rightarrow> render_details C has_buttons (V\<lparr>dv_model := AList.update ''properties'' (JObj ps) (dv_model V)\<rparr>)))"

section \<open>Changes of the element\<close>

text \<open>Blocking, unblocking and deleting go through the model of the view.\<close>

definition applyBlock_details :: "wat_c \<Rightarrow> list_view \<Rightarrow> model \<Rightarrow> details_view \<Rightarrow> (string \<times> model \<times> messages) \<times> list_view \<times> effect list" where
  "applyBlock_details C L M V = updateModel C ''details'' L [(''blocked'', JNum 1)] (JObj [(''id'', dv_elementId V)]) M"

definition applyUnblock_details :: "wat_c \<Rightarrow> list_view \<Rightarrow> model \<Rightarrow> details_view \<Rightarrow> (string \<times> model \<times> messages) \<times> list_view \<times> effect list" where
  "applyUnblock_details C L M V = updateModel C ''details'' L [(''blocked'', JNum 0)] (JObj [(''id'', dv_elementId V)]) M"

definition askDelete :: "effect list" where
  "askDelete = [Confirm ''dialog/confirm-undone'' ''applyDelete'' False]"

definition applyDelete_details :: "wat_c \<Rightarrow> model \<Rightarrow> details_view \<Rightarrow> string \<times> model \<times> messages" where
  "applyDelete_details C M V = deleteModel C (JObj [(''id'', dv_elementId V)]) M"

text \<open>\<open>afterDelete\<close> is the callback of the deletion: it runs whether or not the deletion succeeded.\<close>

definition afterDelete :: "details_view \<Rightarrow> effect list" where
  "afterDelete V = [Navigate (last_link (dv_crumbs V) '''')]"

section \<open>Side lists\<close>

text \<open>\<open>checkSide\<close>: which of the given ACLs are granted; the layers of the others are hidden. \<open>None\<close> is the
  result \<open>false\<close>.\<close>

fun checkSide_each :: "wat_c \<Rightarrow> string obj \<Rightarrow> bool obj \<times> effect list" where
  "checkSide_each C [] = ([], [])"
| "checkSide_each C ((acl, layer) # acls) =
     (let (result, es) = checkSide_each C acls
      in if acl1 C acl then ((acl, True) # result, es)
         else ((acl, False) # result, Dom DomHide layer Null # es))"

definition checkSide :: "wat_c \<Rightarrow> string obj \<Rightarrow> bool obj option \<times> effect list" where
  "checkSide C acls =
     (let (result, es) = checkSide_each C acls
      in if list_ex snd result then (Some result, es)
         else (None, es @ [Dom DomHide ''.js-details-side'' Null, Dom DomAddClass ''.js-details-block'' (JStr ''col-width-100'')]))"

text \<open>A component at the side: its ACL, the layer it is in, and what builds it. \<open>SideList\<close> is a list view with
  its parameters, \<open>SideLog\<close> a list of log registers with its graph, \<open>SideTree\<close> the tree of ACLs of a role
  or administrator, \<open>SideState\<close> the animation of the state of a machine.\<close>

datatype side_part =
    SideList string "js_error + js obj"
  | SideLog "js obj"
  | SideTree string "js obj"
  | SideState

fun build_side :: "side_part \<Rightarrow> details_view \<Rightarrow> details_view outcome" where
  "build_side (SideList cls (Inl e)) V = Inl e"
| "build_side (SideList cls (Inr ps)) V = Inr (V\<lparr>dv_sideViews := dv_sideViews V @ [(cls, ps)]\<rparr>, [])"
| "build_side (SideLog ps) V =
     Inr (V\<lparr>dv_sideViews := dv_sideViews V @ [(''LogListView'', ps)]\<rparr>,
          [Api ''log_get_list'' (JObj []) (get_attr ps ''filters'') ''renderLogGraph''])"
| "build_side (SideTree action filters) V = Inr (V, [Api action (JObj []) (JObj filters) ''renderACLsTree''])"
| "build_side SideState V = Inr (V, [Call ''setInterval'' [JStr ''executionAnimation'']])"

text \<open>The parts are built in the order of the code, each if its ACL is granted.\<close>

definition render_side :: "wat_c \<Rightarrow> string obj \<Rightarrow> (string \<times> side_part) list \<Rightarrow> details_view \<Rightarrow> details_view outcome" where
  "render_side C acls parts V =
     (case checkSide C acls of
        (None, es) \<Rightarrow> Inr (V, es)
      | (Some sideCheck, es) \<Rightarrow>
          map_sum id (\<lambda>(V1, es1). (V1, es @ es1))
            (each_err (\<lambda>(a, p) V. if map_of sideCheck a = Some True then build_side p V else Inr (V, [])) parts V))"

definition side_container :: "details_view \<Rightarrow> string \<Rightarrow> js" where
  "side_container V n = JStr (''.'' @ dv_cid V @ '' .bb-details-side'' @ n)"

definition trues :: "string list \<Rightarrow> js" where
  "trues ks = JObj (map (\<lambda>k. (k, JBool True)) ks)"

definition getSideLogParams :: "details_view \<Rightarrow> js \<Rightarrow> js obj" where
  "getSideLogParams V sideContainer =
     [(''whatRender'', JStr ''list''), (''listContainer'', sideContainer),
      (''forceListColumns'', trues [''see_details'', ''action'', ''datetime'']),
      (''forceSelectedActions'', JObj []), (''block'', JNum 5),
      (''filters'', JObj [(''qvd_object'', JStr (dv_qvdObj V)), (''object_id'', dv_elementId V)])]"

text \<open>The parameters of an embedded list: its columns, with \<open>info\<close> when the group of ACLs of its icons is
  granted and \<open>extra\<close> columns under ACLs of their own, and the icons that are granted.\<close>

definition side_list_params ::
  "wat_c \<Rightarrow> details_view \<Rightarrow> string \<Rightarrow> string list \<Rightarrow> string \<Rightarrow> string obj \<Rightarrow> string obj \<Rightarrow> bool \<Rightarrow> js \<Rightarrow> js_error + js obj" where
  "side_list_params C V n columns grp extra icons noButton filters =
     map_sum id
       (\<lambda>info.
          [(''whatRender'', JStr ''list''), (''listContainer'', side_container V n),
           (''forceListColumns'',
              trues (columns @ (if info then [''info''] else []) @ map fst (filter (\<lambda>(c, a). acl1 C a) extra))),
           (''forceInfoRestrictions'', trues (map fst (filter (\<lambda>(i, a). acl1 C a) icons))),
           (''forceSelectedActions'', JObj [])] @
          (if noButton then [(''forceListActionButton'', Null)] else []) @
          [(''block'', JNum 5), (''filters'', filters)])
       (checkGroupACL C (GOne grp))"

definition side_vm_icons :: "string \<Rightarrow> string obj" where
  "side_vm_icons q = [(''block'', q @ ''.see.vm-list-block''), (''expiration'', q @ ''.see.vm-list-expiration''),
                 (''state'', q @ ''.see.vm-list-state''), (''user_state'', q @ ''.see.vm-list-user-state'')]"

definition side_di_icons :: "string \<Rightarrow> string obj" where
  "side_di_icons q = [(''default'', q @ ''.see.di-list-default''), (''head'', q @ ''.see.di-list-head''),
                 (''tags'', q @ ''.see.di-list-tags''), (''block'', q @ ''.see.di-list-block'')]"

definition log_part :: "details_view \<Rightarrow> string \<Rightarrow> side_part" where
  "log_part V n = SideLog (getSideLogParams V (side_container V n))"

definition by_id :: "string \<Rightarrow> details_view \<Rightarrow> js" where
  "by_id field V = JObj [(field, dv_elementId V)]"

definition vm_renderSide :: "wat_c \<Rightarrow> details_view \<Rightarrow> details_view outcome" where
  "vm_renderSide C V =
     render_side C [(''vm.see.state'', ''.js-side-component1''), (''vm.see.log'', ''.js-side-component2'')]
       [(''vm.see.log'', log_part V ''2''), (''vm.see.state'', SideState)] V"

definition di_renderSide :: "wat_c \<Rightarrow> details_view \<Rightarrow> details_view outcome" where
  "di_renderSide C V =
     render_side C [(''di.see.vm-list'', ''.js-side-component1''), (''di.see.log'', ''.js-side-component2'')]
       [(''di.see.vm-list'',
         SideList ''VMListView''
           (side_list_params C V ''1'' [''name'', ''tag''] ''diVmEmbeddedInfo'' [] (side_vm_icons ''di'') True
              (JObj [(''-or'', JArr [JStr ''di_id'', dv_elementId V, JStr ''di_id_in_use'', dv_elementId V])]))),
        (''di.see.log'', log_part V ''2'')] V"

definition osf_renderSide :: "wat_c \<Rightarrow> details_view \<Rightarrow> details_view outcome" where
  "osf_renderSide C V =
     render_side C [(''osf.see.vm-list'', ''.js-side-component1''), (''osf.see.di-list'', ''.js-side-component2''),
                    (''osf.see.log'', ''.js-side-component3'')]
       [(''osf.see.di-list'',
         SideList ''DIListView''
           (side_list_params C V ''1'' [''disk_image''] ''osfDiEmbeddedInfo'' [(''default'', ''osf.see.di-list-default-update'')]
              (side_di_icons ''osf'') False (by_id ''osf_id'' V))),
        (''osf.see.vm-list'',
         SideList ''VMListView''
           (side_list_params C V ''2'' [''name'', ''tag''] ''osfVmEmbeddedInfo'' [] (side_vm_icons ''osf'') True (by_id ''osf_id'' V))),
        (''osf.see.log'', log_part V ''3'')] V"

definition user_renderSide :: "wat_c \<Rightarrow> details_view \<Rightarrow> details_view outcome" where
  "user_renderSide C V =
     render_side C [(''user.see.vm-list'', ''.js-side-component1''), (''user.see.log'', ''.js-side-component2'')]
       [(''user.see.vm-list'',
         SideList ''VMListView''
           (side_list_params C V ''1'' [''name''] ''userVmEmbeddedInfo'' [] (side_vm_icons ''user'') False (by_id ''user_id'' V))),
        (''user.see.log'', log_part V ''2'')] V"

definition host_renderSide :: "wat_c \<Rightarrow> details_view \<Rightarrow> details_view outcome" where
  "host_renderSide C V =
     render_side C [(''host.see.vm-list'', ''.js-side-component1''), (''host.see.log'', ''.js-side-component2'')]
       [(''host.see.vm-list'',
         SideList ''VMListView''
           (side_list_params C V ''1'' [''name''] ''hostVmEmbeddedInfo'' [] (side_vm_icons ''host'') True (by_id ''host_id'' V))),
        (''host.see.log'', log_part V ''2'')] V"

definition tenant_renderSide :: "wat_c \<Rightarrow> details_view \<Rightarrow> details_view outcome" where
  "tenant_renderSide C V =
     render_side C [(''tenant.see.vm-list'', ''.js-side-component1''), (''tenant.see.user-list'', ''.js-side-component2''),
                    (''tenant.see.di-list'', ''.js-side-component3''), (''tenant.see.log'', ''.js-side-component4'')]
       [(''tenant.see.vm-list'',
         SideList ''VMListView''
           (side_list_params C V ''1'' [''name''] ''tenantVmEmbeddedInfo'' [] (side_vm_icons ''tenant'') True (by_id ''tenant_id'' V))),
        (''tenant.see.user-list'',
         SideList ''UserListView''
           (side_list_params C V ''2'' [''name''] ''tenantUserEmbeddedInfo'' [] [(''block'', ''tenant.see.user-list-block'')] True
              (by_id ''tenant_id'' V))),
        (''tenant.see.di-list'',
         SideList ''DIListView''
           (side_list_params C V ''3'' [''disk_image''] ''tenantDiEmbeddedInfo'' [(''default'', ''tenant.see.di-list-default-update'')]
              (side_di_icons ''tenant'') True (by_id ''tenant_id'' V))),
        (''tenant.see.log'', log_part V ''4'')] V"

text \<open>The views of roles and administrators also ask for the numbers of ACLs; \<open>patterns\<close> are the patterns
  of the sections and actions.\<close>

definition role_renderSide :: "wat_c \<Rightarrow> string list \<Rightarrow> details_view \<Rightarrow> details_view outcome" where
  "role_renderSide C patterns V =
     render_side C [(''role.see.acl-list'', ''.js-side-component1''), (''role.see.log'', ''.js-side-component2'')]
       [(''role.see.log'', log_part V ''2''),
        (''role.see.acl-list'',
         SideTree ''number_of_acls_in_role'' [(''role_id'', dv_elementId V), (''acl_pattern'', strs_js patterns)])] V"

definition admin_renderSide :: "wat_c \<Rightarrow> string list \<Rightarrow> details_view \<Rightarrow> details_view outcome" where
  "admin_renderSide C patterns V =
     render_side C [(''administrator.see.acl-list'', ''.js-side-component1''), (''administrator.see.log'', ''.js-side-component2'')]
       [(''administrator.see.log'', log_part V ''2''),
        (''administrator.see.acl-list'',
         SideTree ''number_of_acls_in_admin'' [(''admin_id'', dv_elementId V), (''acl_pattern'', strs_js patterns)])] V"

text \<open>The registers related to a log register: those of the same object, or of the same action and result.\<close>

definition log_renderSide :: "wat_c \<Rightarrow> details_view \<Rightarrow> details_view outcome" where
  "log_renderSide C V =
     (let m = get_attr (dv_model V);
          filters = (''qvd_object'', m ''qvd_object'') #
            (if truthy (m ''object_id'') then [(''object_id'', m ''object_id'')]
             else [(''action'', m ''action''), (''status'', m ''status'')])
      in render_side C [(''log.see-details.'', ''.js-side-component1'')]
           [(''log.see-details.'',
             SideLog [(''whatRender'', JStr ''list''), (''listContainer'', side_container V ''1''),
                      (''forceListColumns'', trues [''see_details'', ''action'', ''datetime'']),
                      (''forceSelectedActions'', JObj []), (''block'', JNum 5), (''filters'', JObj filters)])] V)"

section \<open>The graph of log registers\<close>

text \<open>Times are in milliseconds, as \<open>Date.parse\<close> gives them; the code divides them by 1000. A register that
  was counted is deleted from the array, which leaves a hole.\<close>

definition trunc_div :: "int \<Rightarrow> int \<Rightarrow> int" where
  "trunc_div a b = (if 0 \<le> a then a div b else - ((- a) div b))"

definition dataGroups :: int where "dataGroups = 50"

definition graph_step :: "int \<Rightarrow> int \<Rightarrow> int" where
  "graph_step server older = trunc_div (trunc_div (server - older) 1000) dataGroups"

fun take_group :: "int \<Rightarrow> int \<Rightarrow> int option list \<Rightarrow> nat \<times> int option list" where
  "take_group iMin iMax [] = (0, [])"
| "take_group iMin iMax (None # rows) = map_prod id (Cons None) (take_group iMin iMax rows)"
| "take_group iMin iMax (Some t # rows) =
     (if iMin < t \<and> t \<le> iMax then map_prod Suc (Cons None) (take_group iMin iMax rows)
      else map_prod id (Cons (Some t)) (take_group iMin iMax rows))"

text \<open>The loop over the intervals, \<open>step\<close> in milliseconds: \<open>None\<close> when it does not end.\<close>

partial_function (option) graph_loop :: "int \<Rightarrow> int \<Rightarrow> int \<Rightarrow> int option list \<Rightarrow> (int \<times> nat) list option" where
  "graph_loop step server iMin rows =
     (if iMin \<le> server - step then
        (let iMax = (if iMin + step \<le> server then iMin + step else server + 1000);
             (groupCount, rows1) = take_group iMin iMax rows
         in Option.bind (graph_loop step server (iMin + step) rows1) (\<lambda>graphData. Some ((iMin, groupCount) # graphData)))
      else Some [])"

text \<open>The callback of \<open>renderLogGraph\<close>, for the times of the rows from the newest to the oldest. The inner
  option is the loop that may not end.\<close>

definition renderLogGraph :: "int \<Rightarrow> int \<Rightarrow> int list \<Rightarrow> js_error + (int \<times> nat) list option" where
  "renderLogGraph n server ts =
     (if n > 0 then
        (case ts of
           [] \<Rightarrow> Inl TypeError
         | _ \<Rightarrow> (let older = last ts
                 in Inr (graph_loop (1000 * graph_step server older) server (older - 1000) (map Some ts))))
      else Inr (Some []))"

declare graph_loop.simps [code]

text \<open>The reference: how many registers fall into each of \<open>k\<close> intervals, open to the left.\<close>

definition count_in :: "int \<Rightarrow> int \<Rightarrow> int option list \<Rightarrow> nat" where
  "count_in a b rows = length (filter (\<lambda>r. \<exists>t. r = Some t \<and> a < t \<and> t \<le> b) rows)"

definition histogram :: "int \<Rightarrow> int \<Rightarrow> nat \<Rightarrow> int option list \<Rightarrow> (int \<times> nat) list" where
  "histogram step iMin k rows =
     map (\<lambda>i. (iMin + int i * step, count_in (iMin + int i * step) (iMin + int i * step + step) rows)) [0..<k]"

lemma take_group_counts: "fst (take_group a b rows) = count_in a b rows"
  by (induction a b rows rule: take_group.induct) (auto simp: count_in_def map_prod_def split: prod.splits)

lemma take_group_rest: "b \<le> a' \<Longrightarrow> count_in a' b' (snd (take_group a b rows)) = count_in a' b' rows"
  by (induction a b rows rule: take_group.induct) (auto simp: count_in_def map_prod_def split: prod.splits)

lemma histogram_Suc:
  "histogram d iMin (Suc k) rows = (iMin, count_in iMin (iMin + d) rows) # histogram d (iMin + d) k rows"
proof -
  have "[0..<Suc k] = 0 # map Suc [0..<k]" by (simp only: upt_conv_Cons [OF zero_less_Suc] map_Suc_upt)
  then show ?thesis unfolding histogram_def by (simp add: algebra_simps del: upt_Suc)
qed

lemma graph_loop_histogram:
  "0 < d \<Longrightarrow> k = nat ((server - iMin) div d) \<Longrightarrow>
   graph_loop d server iMin rows = Some (histogram d iMin k rows)"
proof (induction k arbitrary: iMin rows)
  case 0
  then have "\<not> 0 < (server - iMin) div d" by simp
  then have "server - iMin < d" using 0(1) by (simp add: pos_imp_zdiv_pos_iff)
  then show ?case by (subst graph_loop.simps) (simp add: histogram_def)
next
  case (Suc k)
  from Suc.prems have "0 < (server - iMin) div d" by simp
  then have run: "iMin \<le> server - d" using Suc.prems(1) by (simp add: pos_imp_zdiv_pos_iff)
  obtain n rows1 where t: "take_group iMin (iMin + d) rows = (n, rows1)" by fastforce
  have "(server - (iMin + d)) div d = (server - iMin) div d - 1"
    using Suc.prems(1) div_add_self2 [of d "server - iMin - d"] by (simp add: algebra_simps)
  then have "k = nat ((server - (iMin + d)) div d)" using Suc.prems(2) by simp
  then have "graph_loop d server (iMin + d) rows1 = Some (histogram d (iMin + d) k rows1)"
    using Suc.IH Suc.prems(1) by blast
  moreover have "histogram d (iMin + d) k rows1 = histogram d (iMin + d) k rows"
    using take_group_rest [of "iMin + d" _ _ iMin rows] Suc.prems(1) by (simp add: histogram_def t)
  moreover have "n = count_in iMin (iMin + d) rows" using take_group_counts [of iMin "iMin + d" rows] by (simp add: t)
  ultimately show ?case using run t by (subst graph_loop.simps) (simp add: histogram_Suc)
qed

lemma graph_loop_stuck:
  assumes "graph_loop d server iMin rows = Some g" and "d \<le> 0"
  shows "server - d < iMin"
proof -
  let ?P = "\<lambda>d server iMin rows g. d \<le> 0 \<longrightarrow> server - d < iMin"
  have "?P d server iMin rows g"
  proof (rule graph_loop.raw_induct [of ?P, OF _ assms(1)], intro impI, rule ccontr)
    fix f d server iMin rows g
    assume IH: "\<And>d server iMin rows g. f d server iMin rows = Some g \<Longrightarrow> ?P d server iMin rows g"
      and body: "(if iMin \<le> server - d then
         (let iMax = (if iMin + d \<le> server then iMin + d else server + 1000); (groupCount, rows1) = take_group iMin iMax rows
          in Option.bind (f d server (iMin + d) rows1) (\<lambda>graphData. Some ((iMin, groupCount) # graphData)))
       else Some []) = Some g"
      and d: "d \<le> 0" and "\<not> server - d < iMin"
    then have run: "iMin \<le> server - d" by simp
    obtain n rows1 where t: "take_group iMin (if iMin + d \<le> server then iMin + d else server + 1000) rows = (n, rows1)"
      by fastforce
    from body run t obtain g1 where "f d server (iMin + d) rows1 = Some g1"
      by (auto simp: Let_def bind_eq_Some_conv)
    from IH [OF this] d run show False by linarith
  qed
  then show ?thesis using assms(2) by blast
qed

lemma graph_step_pos: "50000 \<le> server - older \<Longrightarrow> graph_step server older = (server - older) div 1000 div 50"
  by (simp add: graph_step_def trunc_div_def dataGroups_def)

lemma graph_step_zero: "\<bar>server - older\<bar> < 50000 \<Longrightarrow> graph_step server older = 0"
  by (auto simp: graph_step_def trunc_div_def dataGroups_def)

lemma graph_step_neg:
  assumes "server - older \<le> - 50000"
  shows "server - 1000 * graph_step server older < older - 1000"
proof -
  define x where "x = older - server"
  have x: "50000 \<le> x" using assms by (simp add: x_def)
  have "graph_step server older = - (x div 1000 div 50)"
    using x by (auto simp: graph_step_def trunc_div_def dataGroups_def x_def)
  moreover have "1000 * (x div 1000 div 50) \<le> x - 2000" using x by linarith
  ultimately show ?thesis by (simp add: x_def)
qed

lemma renderLogGraph_run:
  "0 < n \<Longrightarrow> ts \<noteq> [] \<Longrightarrow> renderLogGraph n server ts =
     Inr (graph_loop (1000 * graph_step server (last ts)) server (last ts - 1000) (map Some ts))"
  by (cases ts) (simp_all add: renderLogGraph_def Let_def)

text \<open>The graph of log registers is drawn exactly when the oldest register shown is at least 50 seconds
  old (or lies in the future by more than one second). Otherwise the width of the intervals is zero
  and the loop never ends: opening the details of an element created moments ago blocks the page.\<close>

theorem renderLogGraph_ends:
  assumes "0 < n" and "ts \<noteq> []"
  shows "(\<exists>g. renderLogGraph n server ts = Inr (Some g)) \<longleftrightarrow>
     50000 \<le> server - last ts \<or> server - last ts < - 1000"
proof -
  let ?older = "last ts" and ?rows = "map Some ts"
  let ?step = "1000 * graph_step server ?older"
  have run: "renderLogGraph n server ts = Inr (graph_loop ?step server (?older - 1000) ?rows)"
    using assms by (rule renderLogGraph_run)
  consider "50000 \<le> server - ?older" | "server - ?older < - 1000" | "\<bar>server - ?older\<bar> < 50000" "- 1000 \<le> server - ?older"
    by linarith
  then show ?thesis
  proof cases
    case 1
    then have "0 < ?step" by (simp add: graph_step_pos)
    with 1 show ?thesis unfolding run by (simp add: graph_loop_histogram)
  next
    case 2
    have "server - ?step < ?older - 1000"
      using 2 graph_step_neg [of server ?older] graph_step_zero [of server ?older] by fastforce
    then have "graph_loop ?step server (?older - 1000) ?rows = Some []" by (subst graph_loop.simps) simp
    with 2 show ?thesis unfolding run by simp
  next
    case 3
    then have "?step = 0" by (simp add: graph_step_zero)
    then have "graph_loop ?step server (?older - 1000) ?rows \<noteq> Some g" for g
      using graph_loop_stuck [of ?step server "?older - 1000" ?rows g] 3(2) by auto
    with 3 show ?thesis unfolding run by auto
  qed
qed

theorem renderLogGraph_ends_witness:
  "\<not> (\<exists>g. renderLogGraph 2 1003000 [1002000, 1000000] = Inr (Some g))"
  using renderLogGraph_ends [of 2 "[1002000, 1000000]" 1003000] by simp

text \<open>C19. When it ends, the loop, which deletes the registers it has counted, computes the histogram of the
  registers: between 50 and 100 consecutive bars of equal width from one second before the oldest
  register on, each with the number of registers in its interval. Less than one width is missing at
  the end.\<close>

theorem renderLogGraph_histogram:
  assumes "0 < n" and "ts \<noteq> []" and "50000 \<le> server - last ts"
  shows "let step = 1000 * ((server - last ts) div 1000 div 50); k = nat ((server - (last ts - 1000)) div step)
    in renderLogGraph n server ts = Inr (Some (histogram step (last ts - 1000) k (map Some ts))) \<and>
       50 \<le> k \<and> k \<le> 100 \<and> server - step < last ts - 1000 + int k * step \<and> last ts - 1000 + int k * step \<le> server"
proof -
  define older where "older = last ts"
  define s where "s = (server - older) div 1000 div 50"
  define k where "k = (server - (older - 1000)) div (1000 * s)"
  have d: "50000 \<le> server - older" using assms(3) by (simp add: older_def)
  then have s: "1 \<le> s" by (simp add: s_def)
  define y where "y = (server - older) div 1000"
  have "(server - older + 1000) div 1000 = y + 1" unfolding y_def by (rule div_add_self2) simp
  then have k_eq: "k = (y + 1) div s"
    using s zdiv_zmult2_eq [of s "server - older + 1000" 1000] by (simp add: k_def algebra_simps)
  have y: "50 * s \<le> y" "y < 50 * s + 50" by (simp_all add: s_def y_def)
  have k: "50 \<le> k" "k \<le> 100"
    using zdiv_mono1 [of "50 * s" "y + 1" s] zdiv_mono1 [of "y + 1" "100 * s" s] s y by (simp_all add: k_eq)
  have g: "renderLogGraph n server ts = Inr (Some (histogram (1000 * s) (older - 1000) (nat k) (map Some ts)))"
    using assms(1,2) s graph_step_pos [OF d] unfolding s_def [symmetric]
    by (simp add: renderLogGraph_run older_def [symmetric] graph_loop_histogram k_def)
  have "server - (older - 1000) = k * (1000 * s) + (server - (older - 1000)) mod (1000 * s)"
    unfolding k_def by (rule div_mult_mod_eq [symmetric])
  moreover have "0 \<le> (server - (older - 1000)) mod (1000 * s)" "(server - (older - 1000)) mod (1000 * s) < 1000 * s"
    using s by simp_all
  ultimately have "server - 1000 * s < older - 1000 + k * (1000 * s)" "older - 1000 + k * (1000 * s) \<le> server" by linarith+
  then show ?thesis
    unfolding Let_def older_def [symmetric] s_def [symmetric] k_def [symmetric] using g k by (simp add: nat_le_iff le_nat_iff)
qed

theorem renderLogGraph_histogram_witness:
  "renderLogGraph 2 1060000 [1059000, 1000000] =
     Inr (Some (histogram 1000 999000 61 (map Some [1059000, 1000000])))"
  using renderLogGraph_histogram [of 2 "[1059000, 1000000]" 1060000] by simp

section \<open>Fields, properties and breadcrumbs\<close>

text \<open>The fields of a details view: for a superadmin the view of a kind that is classified by tenant fails
  exactly when its table has no general group (the table of the log registers is empty, so a
  superadmin cannot see them); otherwise each group keeps exactly its allowed fields, and the tenant
  is put first in the general group.\<close>

theorem setDetailsFields_cases:
  "let groups = (case map_of table (dv_qvdObj V) of None \<Rightarrow> [] | Some t \<Rightarrow> t);
             tenants = isSuperadmin C \<and> dv_qvdObj V \<in> set QVD_OBJS_CLASSIFIED_BY_TENANT;
             r = setDetailsFields C table V
         in (if tenants \<and> map_of groups ''general'' = None then r = Inl TypeError
             else (\<exists>V'. r = Inr V' \<and>
               (\<forall>k. map_of (dv_fields V') k =
                  (case map_of groups k of
                     None \<Rightarrow> None
                   | Some g \<Rightarrow>
                       Some (if tenants \<and> k = ''general''
                             then g\<lparr>fieldList := Some (jq_extend [(''tenant'', tenant_det_conf)]
                                      (case fieldList g of None \<Rightarrow> [] | Some fs \<Rightarrow> purgeConfigData C fs))\<rparr>
                             else g\<lparr>fieldList := map_option (purgeConfigData C) (fieldList g)\<rparr>))) \<and>
               map fst (dv_fields V') = map fst groups))"
proof -
  define groups where "groups = (case map_of table (dv_qvdObj V) of None \<Rightarrow> [] | Some t \<Rightarrow> t)"
  define purged where "purged = map (\<lambda>(k, g). (k, purge_group C g)) groups"
  have m: "map_of purged k = map_option (purge_group C) (map_of groups k)" for k
    by (simp add: purged_def map_of_map)
  have f: "map fst purged = map fst groups" by (simp add: purged_def case_prod_beta o_def)
  show ?thesis
  proof (cases "isSuperadmin C \<and> dv_qvdObj V \<in> set QVD_OBJS_CLASSIFIED_BY_TENANT")
    case False
    then have "setDetailsFields C table V = Inr (V\<lparr>dv_fields := purged\<rparr>)"
      by (auto simp: setDetailsFields_def Let_def purged_def groups_def)
    with False show ?thesis
      unfolding Let_def groups_def [symmetric] by (auto simp: m f purge_group_def split: option.split)
  next
    case True
    show ?thesis
    proof (cases "map_of groups ''general''")
      case None
      with True show ?thesis
        unfolding Let_def groups_def [symmetric] setDetailsFields_def purged_def [symmetric] by (simp add: m)
    next
      case (Some g)
      have "''general'' \<in> fst ` set purged"
        using Some m [of "''general''"] by (metis map_of_eq_None_iff option.map_disc_iff option.distinct(1))
      then have keys: "map fst (AList.update ''general'' x purged) = map fst purged" for x
        by (rule update_present_keys)
      show ?thesis
        using True Some keys
        unfolding Let_def groups_def [symmetric] setDetailsFields_def purged_def [symmetric]
        by (auto simp: m f update_conv' purge_group_def split: option.split)
    qed
  qed
qed

lemma property_rows_objects:
  "property_rows props (map JObj rs) acc =
     Inr (foldl (\<lambda>acc row. AList.update (js_str (get_attr row ''property_id'')) (property_entry props row) acc) acc rs)"
  by (induction rs arbitrary: acc) simp_all

lemma dom_foldl_update:
  "dom (map_of (foldl (\<lambda>acc r. AList.update (key r) (val r) acc) acc rs)) = dom (map_of acc) \<union> key ` set rs"
  by (induction rs arbitrary: acc) (auto simp: update_conv')

lemma map_of_foldl_update:
  "inj_on key (set rs) \<Longrightarrow> r \<in> set rs \<Longrightarrow>
   map_of (foldl (\<lambda>acc r. AList.update (key r) (val r) acc) acc rs) (key r) = Some (val r)"
proof (induction rs rule: rev_induct)
  case (snoc x xs)
  show ?case
  proof (cases "key r = key x")
    case True
    then have "r = x" using snoc.prems inj_onD [of key "set (xs @ [x])" r x] by simp
    then show ?thesis by (simp add: update_conv')
  next
    case False
    then have "r \<in> set xs" "inj_on key (set xs)" using snoc.prems by (auto intro: inj_on_subset)
    with False snoc.IH show ?thesis by (simp add: update_conv')
  qed
qed simp

text \<open>The properties of an element in its details: with the rows of the known properties the view gets
  exactly those, each with the value the element has for it or an empty text. An element that comes
  without properties is not drawn at all (the call of \<open>render\<close> lacks its parentheses), so its page
  stays empty.\<close>

theorem completeProperties_spec:
  assumes "get_attr (dv_retrieved V) ''total'' = JNum n" and "0 < n"
    and "get_attr (dv_retrieved V) ''rows'' = JArr (map JObj rs)"
    and "inj_on (\<lambda>r. js_str (get_attr r ''property_id'')) (set rs)"
  shows "let props = get_attr (dv_model V) ''properties''; r = completePropertiesAndRender C b V
    in (if truthy props
        then (\<exists>ps. r = render_details C b (V\<lparr>dv_model := AList.update ''properties'' (JObj ps) (dv_model V)\<rparr>) \<and>
               (\<forall>row\<in>set rs. map_of ps (js_str (get_attr row ''property_id'')) = Some (property_entry props row)) \<and>
               dom (map_of ps) = (\<lambda>r. js_str (get_attr r ''property_id'')) ` set rs)
        else r = Inr (V, []))"
proof (cases "truthy (get_attr (dv_model V) ''properties'')")
  case True
  let ?props = "get_attr (dv_model V) ''properties''" and ?key = "\<lambda>r. js_str (get_attr r ''property_id'')"
  let ?ps = "foldl (\<lambda>acc r. AList.update (?key r) (property_entry ?props r) acc) [] rs"
  have "\<forall>row\<in>set rs. map_of ?ps (?key row) = Some (property_entry ?props row)"
    using map_of_foldl_update [OF assms(4)] by blast
  moreover have "dom (map_of ?ps) = ?key ` set rs" by (simp add: dom_foldl_update)
  moreover have "completePropertiesAndRender C b V =
      render_details C b (V\<lparr>dv_model := AList.update ''properties'' (JObj ?ps) (dv_model V)\<rparr>)"
    using True assms(1-3) by (simp add: completePropertiesAndRender_def Let_def property_rows_objects)
  ultimately show ?thesis using True unfolding Let_def by auto
qed (simp add: completePropertiesAndRender_def)

definition sample_details :: details_view where
  "sample_details = \<lparr> dv_qvdObj = ''vm'', dv_cid = ''view7'', dv_elementId = JNum 4, dv_viewACL = ''vm.see-details.'',
     dv_model = [(''id'', JNum 4), (''name'', JStr ''a''), (''properties'', JObj [(''2'', JObj [(''value'', JStr ''x'')])])],
     dv_notFound = None, dv_crumbs = [], dv_fields = [], dv_live = None,
     dv_retrieved = [(''total'', JNum 2),
       (''rows'', JArr [JObj [(''property_id'', JNum 2), (''key'', JStr ''k'')], JObj [(''property_id'', JNum 3), (''key'', JStr ''l'')]])],
     dv_sideViews = [] \<rparr>"

theorem completeProperties_spec_witness:
  "\<exists>ps. completePropertiesAndRender (wat_c_init []) False sample_details =
       render_details (wat_c_init []) False (sample_details\<lparr>dv_model := AList.update ''properties'' (JObj ps) (dv_model sample_details)\<rparr>) \<and>
     dom (map_of ps) = {''2'', ''3''}"
proof -
  have two: "num_str 2 = ''2''" and three: "num_str 3 = ''3''" by code_simp+
  show ?thesis
    using completeProperties_spec [of sample_details 2
        "[[(''property_id'', JNum 2), (''key'', JStr ''k'')], [(''property_id'', JNum 3), (''key'', JStr ''l'')]]" "wat_c_init []" False]
    by (auto simp: sample_details_def get_attr_def Let_def two three)
qed

lemma crumbs_lose_links:
  "applyBredcrumbsACLs C' (applyBredcrumbsACLs C bcs) =
     map (\<lambda>l. case linkACL l of
                None \<Rightarrow> l | Some a \<Rightarrow> if acl1 C a \<and> acl1 C' a then l else l\<lparr>link := None\<rparr>) bcs"
  by (induction bcs) (auto split: option.split)

text \<open>The links of the breadcrumbs are deleted from the global table when a session lacks their ACL and
  never come back in the page: a later session gets a link only when all the earlier ones had its
  ACL too.\<close>

theorem breadcrumb_links_lost:
  assumes "getDetailsBreadCrumbs C q table = Inr table1" and "getDetailsBreadCrumbs C' q table1 = Inr table2"
    and "map_of table q = Some bcs"
  shows "map_of table2 q =
    Some (map (\<lambda>l. case linkACL l of
                None \<Rightarrow> l | Some a \<Rightarrow> if acl1 C a \<and> acl1 C' a then l else l\<lparr>link := None\<rparr>) bcs)"
proof -
  have "table1 = AList.update q (applyBredcrumbsACLs C bcs) table"
    using assms(1,3) by (simp add: getDetailsBreadCrumbs_def)
  then have "map_of table1 q = Some (applyBredcrumbsACLs C bcs)" by (simp add: update_conv')
  then show ?thesis
    using assms(2) crumbs_lose_links by (auto simp: getDetailsBreadCrumbs_def update_conv')
qed

definition sample_crumbs :: "crumb list obj" where
  "sample_crumbs = [(''user'', [\<lparr> screen = JStr ''Home'', link = Some ''#'', linkACL = None \<rparr>,
     \<lparr> screen = JStr ''User list'', link = Some ''#/users'', linkACL = Some ''user.see-main.'' \<rparr>,
     \<lparr> screen = JStr '''', link = None, linkACL = None \<rparr>])]"

theorem breadcrumb_links_lost_witness:
  "\<exists>table1 table2. getDetailsBreadCrumbs ((wat_c_init [])\<lparr>C_acls := []\<rparr>) ''user'' sample_crumbs = Inr table1 \<and>
     getDetailsBreadCrumbs ((wat_c_init [])\<lparr>C_acls := [''user.see-main.'']\<rparr>) ''user'' table1 = Inr table2 \<and>
     map_option (map link) (map_of table2 ''user'') = Some [Some ''#'', None, None]"
proof -
  let ?C = "(wat_c_init [])\<lparr>C_acls := []\<rparr>" and ?C' = "(wat_c_init [])\<lparr>C_acls := [''user.see-main.'']\<rparr>"
  obtain table1 where 1: "getDetailsBreadCrumbs ?C ''user'' sample_crumbs = Inr table1"
    by (simp add: getDetailsBreadCrumbs_def sample_crumbs_def)
  then obtain table2 where 2: "getDetailsBreadCrumbs ?C' ''user'' table1 = Inr table2"
    by (auto simp: getDetailsBreadCrumbs_def sample_crumbs_def)
  show ?thesis
    using breadcrumb_links_lost [OF 1 2] 1 2 by (auto simp: sample_crumbs_def checkACL_def)
qed

section \<open>What is at the side\<close>

lemma checkSide_each_acls: "map_of (fst (checkSide_each C acls)) a = (if a \<in> fst ` set acls then Some (acl1 C a) else None)"
  by (induction C acls rule: checkSide_each.induct) (auto simp: case_prod_beta Let_def)

lemma checkSide_each_any: "list_ex snd (fst (checkSide_each C acls)) \<longleftrightarrow> list_ex (\<lambda>(a, l). acl1 C a) acls"
  by (induction C acls rule: checkSide_each.induct) (auto simp: case_prod_beta Let_def)

text \<open>The class of the list a part adds; a part fails when the group of its icons is not defined.\<close>

fun part_class :: "side_part \<Rightarrow> string list" where
  "part_class (SideList cls ps) = [cls]"
| "part_class (SideLog ps) = [''LogListView'']"
| "part_class _ = []"

fun part_fails :: "side_part \<Rightarrow> bool" where
  "part_fails (SideList cls (Inl e)) = True"
| "part_fails _ = False"

lemma build_side_class:
  "\<not> part_fails p \<Longrightarrow>
   \<exists>V' es. build_side p V = Inr (V', es) \<and> map fst (dv_sideViews V') = map fst (dv_sideViews V) @ part_class p"
  by (cases p rule: part_fails.cases) auto

lemma each_side_class:
  "\<forall>(a, p)\<in>set parts. \<not> part_fails p \<Longrightarrow>
   \<exists>V' es. each_err (\<lambda>(a, p) V. if G a then build_side p V else Inr (V, [])) parts V = Inr (V', es) \<and>
     map fst (dv_sideViews V') = map fst (dv_sideViews V) @ concat (map (\<lambda>(a, p). if G a then part_class p else []) parts)"
proof (induction parts arbitrary: V)
  case (Cons ap parts)
  obtain a p where ap: "ap = (a, p)" by fastforce
  with Cons.prems obtain V1 es1 where 1: "(if G a then build_side p V else Inr (V, [])) = Inr (V1, es1)"
    "map fst (dv_sideViews V1) = map fst (dv_sideViews V) @ (if G a then part_class p else [])"
    using build_side_class [of p V] by (cases "G a") auto
  with Cons obtain V2 es2 where "each_err (\<lambda>(a, p) V. if G a then build_side p V else Inr (V, [])) parts V1 = Inr (V2, es2)"
    "map fst (dv_sideViews V2) = map fst (dv_sideViews V1) @ concat (map (\<lambda>(a, p). if G a then part_class p else []) parts)"
    by (metis (no_types, lifting) list.set_intros(2))
  with 1 show ?case by (simp add: ap)
qed simp

definition adds_side :: "details_view outcome \<Rightarrow> details_view \<Rightarrow> string list \<Rightarrow> bool" where
  "adds_side r V cls \<longleftrightarrow> (\<exists>V' es. r = Inr (V', es) \<and> map fst (dv_sideViews V') = map fst (dv_sideViews V) @ cls)"

lemma render_side_adds:
  assumes "\<forall>(a, p)\<in>set parts. \<not> part_fails p" and "fst ` set parts \<subseteq> fst ` set acls"
    and "cls = concat (map (\<lambda>(a, p). if acl1 C a then part_class p else []) parts)"
  shows "adds_side (render_side C acls parts V) V cls"
proof (cases "list_ex (\<lambda>(a, l). acl1 C a) acls")
  case True
  obtain sc es where sc: "checkSide_each C acls = (sc, es)" by fastforce
  let ?G = "\<lambda>a. map_of sc a = Some True"
  have G: "?G a \<longleftrightarrow> acl1 C a" if "(a, p) \<in> set parts" for a p
    using checkSide_each_acls [of C acls a] assms(2) that by (force simp: sc)
  obtain V' es1 where "each_err (\<lambda>(a, p) V. if ?G a then build_side p V else Inr (V, [])) parts V = Inr (V', es1)"
    "map fst (dv_sideViews V') = map fst (dv_sideViews V) @ concat (map (\<lambda>(a, p). if ?G a then part_class p else []) parts)"
    using each_side_class [OF assms(1), of ?G V] by blast
  moreover have "map (\<lambda>(a, p). if ?G a then part_class p else []) parts = map (\<lambda>(a, p). if acl1 C a then part_class p else []) parts"
    using G by (intro map_cong) auto
  moreover have "checkSide C acls = (Some sc, es)" using True checkSide_each_any [of C acls] by (simp add: checkSide_def sc)
  ultimately show ?thesis by (simp add: adds_side_def render_side_def assms(3))
next
  case False
  then have none: "\<not> acl1 C a" if "(a, p) \<in> set parts" for a p
  proof -
    from that assms(2) obtain l where "(a, l) \<in> set acls" by force
    with False show ?thesis by (auto simp: list_ex_iff)
  qed
  then have "cls = []" unfolding assms(3) by auto
  moreover obtain es where "checkSide C acls = (None, es)"
    using False checkSide_each_any [of C acls] by (auto simp: checkSide_def case_prod_beta)
  ultimately show ?thesis by (simp add: adds_side_def render_side_def)
qed

lemma side_list_defined:
  "map_of (C_aclGroups C) grp \<noteq> None \<Longrightarrow> \<not> part_fails (SideList cls (side_list_params C V n cols grp extra icons nb fs))"
  by (auto simp: side_list_params_def checkGroupACL_def split: if_splits)

text \<open>With the groups of ACLs of the panel no details view fails while it builds its side, and it adds
  exactly the lists whose ACL the administrator has.\<close>

theorem sides_built:
  assumes "C_aclGroups C = aclGroups"
  shows "adds_side (vm_renderSide C V) V (if acl1 C ''vm.see.log'' then [''LogListView''] else []) \<and>
    adds_side (di_renderSide C V) V
      ((if acl1 C ''di.see.vm-list'' then [''VMListView''] else []) @ (if acl1 C ''di.see.log'' then [''LogListView''] else [])) \<and>
    adds_side (osf_renderSide C V) V
      ((if acl1 C ''osf.see.di-list'' then [''DIListView''] else []) @ (if acl1 C ''osf.see.vm-list'' then [''VMListView''] else []) @
       (if acl1 C ''osf.see.log'' then [''LogListView''] else [])) \<and>
    adds_side (user_renderSide C V) V
      ((if acl1 C ''user.see.vm-list'' then [''VMListView''] else []) @ (if acl1 C ''user.see.log'' then [''LogListView''] else [])) \<and>
    adds_side (host_renderSide C V) V
      ((if acl1 C ''host.see.vm-list'' then [''VMListView''] else []) @ (if acl1 C ''host.see.log'' then [''LogListView''] else [])) \<and>
    adds_side (tenant_renderSide C V) V
      ((if acl1 C ''tenant.see.vm-list'' then [''VMListView''] else []) @ (if acl1 C ''tenant.see.user-list'' then [''UserListView''] else []) @
       (if acl1 C ''tenant.see.di-list'' then [''DIListView''] else []) @ (if acl1 C ''tenant.see.log'' then [''LogListView''] else [])) \<and>
    adds_side (role_renderSide C ps V) V (if acl1 C ''role.see.log'' then [''LogListView''] else []) \<and>
    adds_side (admin_renderSide C ps V) V (if acl1 C ''administrator.see.log'' then [''LogListView''] else []) \<and>
    adds_side (log_renderSide C V) V (if acl1 C ''log.see-details.'' then [''LogListView''] else [])"
proof -
  have grp: "list_all (\<lambda>g. map_of aclGroups g \<noteq> None)
      [''diVmEmbeddedInfo'', ''osfDiEmbeddedInfo'', ''osfVmEmbeddedInfo'', ''userVmEmbeddedInfo'', ''hostVmEmbeddedInfo'',
       ''tenantVmEmbeddedInfo'', ''tenantUserEmbeddedInfo'', ''tenantDiEmbeddedInfo'']"
    by code_simp
  then have ok: "\<not> part_fails (SideList cls (side_list_params C V n cols g extra icons nb fs))"
    if "g \<in> set [''diVmEmbeddedInfo'', ''osfDiEmbeddedInfo'', ''osfVmEmbeddedInfo'', ''userVmEmbeddedInfo'', ''hostVmEmbeddedInfo'',
       ''tenantVmEmbeddedInfo'', ''tenantUserEmbeddedInfo'', ''tenantDiEmbeddedInfo'']" for cls n cols g extra icons nb fs
    using that side_list_defined [of C g] unfolding assms list_all_iff by blast
  show ?thesis
    unfolding vm_renderSide_def di_renderSide_def osf_renderSide_def user_renderSide_def host_renderSide_def
      tenant_renderSide_def role_renderSide_def admin_renderSide_def log_renderSide_def Let_def log_part_def
    by (intro conjI render_side_adds) (simp_all add: ok)
qed

theorem sides_built_witness:
  "adds_side (di_renderSide ((wat_c_init aclGroups)\<lparr>C_acls := [''di.see.log'']\<rparr>) sample_details) sample_details [''LogListView'']"
  using sides_built [of "(wat_c_init aclGroups)\<lparr>C_acls := [''di.see.log'']\<rparr>" sample_details]
  by (simp add: wat_c_init_def checkACL_def)

section \<open>Virtual machines\<close>

definition startVM :: "details_view \<Rightarrow> effect list" where
  "startVM V = [Api ''vm_start'' (JObj []) (by_id ''id'' V) ''renderSide'']"

definition stopVM :: "details_view \<Rightarrow> effect list" where
  "stopVM V = [Api ''vm_stop'' (JObj []) (by_id ''id'' V) ''renderSide'']"

definition disconnectVMUser :: "js \<Rightarrow> effect list" where
  "disconnectVMUser filters = [Api ''vm_user_disconnect'' (JObj []) filters ''fetchList'']"

definition applyDisconnectVMUser :: "details_view \<Rightarrow> effect list" where
  "applyDisconnectVMUser V = disconnectVMUser (by_id ''id'' V)"

definition applyDisconnectAll :: "details_view \<Rightarrow> effect list" where
  "applyDisconnectAll V = disconnectVMUser (JObj [(''user_id'', JArr [dv_elementId V])])"

text \<open>\<open>restartVM\<close> marks the view and calls \<open>Wat.stopVM\<close>, which does not exist (\<open>stopVM\<close> is a function of the
  view).\<close>

definition restartVM :: "live_view \<Rightarrow> live_view \<times> js_error option" where
  "restartVM V = (V\<lparr>lv_restarting := True\<rparr>, Some TypeError)"

text \<open>The animation of the state: one tick of the interval for \<open>n\<close> dots. The state of the closure is the
  filled dot and the state of the machine at the last tick.\<close>

definition dot_sel :: "nat \<Rightarrow> string" where
  "dot_sel i = ''.js-vmst-dot:eq('' @ num_str (int i) @ '')''"

definition dot_lit :: "int \<Rightarrow> nat \<Rightarrow> bool" where
  "dot_lit filledDot i \<longleftrightarrow> filledDot - 1 \<le> int i \<and> int i \<le> filledDot + 1"

definition draw_dot :: "string \<Rightarrow> string \<Rightarrow> string \<Rightarrow> nat \<Rightarrow> effect list" where
  "draw_dot cls off1 off2 i = [dadd (dot_sel i) cls, drem (dot_sel i) off1, drem (dot_sel i) off2]"

definition animate :: "nat \<Rightarrow> js \<Rightarrow> int \<times> js \<Rightarrow> (int \<times> js) \<times> effect list" where
  "animate n state st =
     (let (filledDot, oldState) = (if loose_eq (snd st) state then st else (1, state)); all = ''.js-vmst-dot''
      in if state = JStr ''running''
         then ((filledDot, oldState), [drem all ''fa-dot-circle-o'', drem all ''fa-circle-o'', dadd all ''fa-circle''])
         else if state = JStr ''starting''
         then ((if filledDot + 1 = int n then 0 else filledDot + 1, oldState),
               concat (map (\<lambda>i. if dot_lit filledDot i then draw_dot ''fa-chevron-right'' ''fa-circle-o'' ''fa-circle'' i
                                else draw_dot ''fa-circle-o'' ''fa-chevron-right'' ''fa-circle'' i) [0..<n]))
         else if state = JStr ''stopping''
         then ((if filledDot - 1 < 0 then int n - 1 else filledDot - 1, oldState),
               concat (map (\<lambda>i. if dot_lit filledDot i then draw_dot ''fa-chevron-left'' ''fa-circle'' ''fa-circle-o'' i
                                else draw_dot ''fa-circle'' ''fa-chevron-left'' ''fa-circle-o'' i) [0..<n]))
         else if state = JStr ''stopped''
         then ((filledDot, oldState), [drem all ''fa-circle'', drem all ''fa-dot-circle-o'', dadd all ''fa-circle-o''])
         else ((filledDot, oldState), []))"

lemma animate_in_range:
  "2 \<le> n \<Longrightarrow> 0 \<le> fst st \<and> fst st < int n \<Longrightarrow> 0 \<le> fst (fst (animate n s st)) \<and> fst (fst (animate n s st)) < int n"
  by (auto simp: animate_def Let_def split: prod.splits if_splits)

text \<open>The button that restarts a machine, pressed in its details: nothing is sent to the API and the
  handler ends in a TypeError, but the view stays marked, so the first message that says the machine
  has stopped, whoever stopped it and however much later, makes the panel start it again.\<close>

theorem details_restart_armed:
  assumes "changeWebsocket W C ''vm'' i vt (Some rows) (fst (restartVM V)) = Inr (V', es)"
  shows "snd (restartVM V) = Some TypeError \<and> starts es = (if list_ex (list_ex says_stopped) rows then 1 else 0) \<and>
    (lv_restarting V' \<longleftrightarrow> \<not> list_ex (list_ex says_stopped) rows)"
  using message_starts [OF assms] by (simp add: restartVM_def)

theorem details_restart_armed_witness:
  "\<exists>V' es. changeWebsocket sample_env (wat_c_init []) ''vm'' Undef ''list'' (Some [[(''id'', JNum 3), (''state'', JStr ''stopped'')]])
     (fst (restartVM sample_live)) = Inr (V', es) \<and> starts es = 1 \<and> \<not> lv_restarting V'"
proof -
  let ?run = "changeWebsocket sample_env (wat_c_init []) ''vm'' Undef ''list'' (Some [[(''id'', JNum 3), (''state'', JStr ''stopped'')]])
     (fst (restartVM sample_live))"
  have "\<exists>r. ?run = Inr r"
    by (simp add: changeWebsocket_def change_row_def change_field_def changeWebsocketVm_def Let_def split: prod.splits)
  then obtain V' es where r: "?run = Inr (V', es)" by auto
  with details_restart_armed [OF r] show ?thesis by (simp add: says_stopped_def)
qed

end
