(* ===== verification/TenantPurge.thy ===== *)
theory TenantPurge
  imports Details
begin

text \<open>
  The purge of a tenant (\<open>wat/lib/bb-views/wat-management/tenant-details.js\<close>, \<open>tenantBinds\<close> of
  \<open>wat/lib/binds/binds.js\<close>): a dialog lists everything that belongs to the tenant, kind by kind, and
  deletes it by kinds, by single elements or all in a chain, in the order of \<open>cascadeTenantElements\<close>.
\<close>

section \<open>The dialog\<close>

record cascade_conf =
  elementName :: string
  nameField :: "string option"
  idField :: "string option"
  retrievingAction :: "string option"
  cc_filter :: "js obj"
  nextObj :: "string option"

definition cascadeTenantElements :: "cascade_conf obj" where
  "cascadeTenantElements =
     [(''vm'', \<lparr> elementName = ''Virtual machines'', nameField = None, idField = None, retrievingAction = None,
                 cc_filter = [], nextObj = Some ''user'' \<rparr>),
      (''user'', \<lparr> elementName = ''Users'', nameField = None, idField = None, retrievingAction = None,
                 cc_filter = [], nextObj = Some ''di'' \<rparr>),
      (''di'', \<lparr> elementName = ''Disk images'', nameField = Some ''disk_image'', idField = None, retrievingAction = None,
                 cc_filter = [], nextObj = Some ''osf'' \<rparr>),
      (''osf'', \<lparr> elementName = ''OS Flavours'', nameField = None, idField = None, retrievingAction = None,
                 cc_filter = [], nextObj = Some ''role'' \<rparr>),
      (''role'', \<lparr> elementName = ''Roles'', nameField = None, idField = None, retrievingAction = None,
                 cc_filter = [], nextObj = Some ''administrator'' \<rparr>),
      (''administrator'', \<lparr> elementName = ''Administrators'', nameField = None, idField = None, retrievingAction = None,
                 cc_filter = [], nextObj = Some ''property'' \<rparr>),
      (''property'', \<lparr> elementName = ''Properties'', nameField = Some ''key'', idField = None,
                 retrievingAction = Some ''property_get_list'', cc_filter = [], nextObj = Some ''config'' \<rparr>),
      (''config'', \<lparr> elementName = ''Configuration tokens'', nameField = Some ''key'', idField = Some ''key'',
                 retrievingAction = Some ''config_get'', cc_filter = [(''is_default'', JNum 0)], nextObj = None \<rparr>)]"

definition kinds :: "string list" where
  "kinds = map fst cascadeTenantElements"

definition conf_of :: "string \<Rightarrow> (cascade_conf \<Rightarrow> 'a) \<Rightarrow> 'a \<Rightarrow> 'a" where
  "conf_of q f d = (case map_of cascadeTenantElements q of Some c \<Rightarrow> f c | None \<Rightarrow> d)"

definition next_of :: "string \<Rightarrow> string option" where
  "next_of q = conf_of q nextObj None"

definition id_field :: "string \<Rightarrow> string" where
  "id_field q = (case conf_of q idField None of Some f \<Rightarrow> f | None \<Rightarrow> ''id'')"

definition name_field :: "string \<Rightarrow> string" where
  "name_field q = (case conf_of q nameField None of Some f \<Rightarrow> f | None \<Rightarrow> ''name'')"

text \<open>What the dialog shows: for each kind the number of its counter (\<open>None\<close> while it is being read) and
  the identifiers of its list; whether the button "Delete all" and the row of buttons are visible; and
  whether the dialog was replaced by the notice that the tenant is empty.\<close>

record purge_st =
  pg_counter :: "string \<Rightarrow> int option"
  pg_shown :: "string \<Rightarrow> string list"
  pg_delete_all :: bool
  pg_buttons :: bool
  pg_empty :: bool

definition purge_open :: purge_st where
  "purge_open = \<lparr> pg_counter = (\<lambda>_. None), pg_shown = (\<lambda>_. []), pg_delete_all = False, pg_buttons = True, pg_empty = False \<rparr>"

definition getTotalElementsCount :: "purge_st \<Rightarrow> int" where
  "getTotalElementsCount S = sum_list (map (\<lambda>q. case pg_counter S q of Some n \<Rightarrow> n | None \<Rightarrow> 0) kinds)"

definition afterPurgeTenant :: "purge_st \<Rightarrow> purge_st" where
  "afterPurgeTenant S =
     S\<lparr>pg_counter := (\<lambda>_. None), pg_shown := (\<lambda>_. []), pg_delete_all := False, pg_empty := True\<rparr>"

definition purge_if_empty :: "purge_st \<Rightarrow> purge_st" where
  "purge_if_empty S = (if getTotalElementsCount S = 0 then afterPurgeTenant S else S)"

section \<open>Reading the elements\<close>

definition getCascadeElements :: "js \<Rightarrow> string \<Rightarrow> effect list" where
  "getCascadeElements elementId q =
     [Api (case conf_of q retrievingAction None of Some a \<Rightarrow> a | None \<Rightarrow> q @ ''_get_list'') (JObj [])
        (JObj (AList.update ''tenant_id'' elementId (conf_of q cc_filter []))) ''getCascadeElements'']"

text \<open>The template writes the counter and the list of the kind, if the dialog still has their place.\<close>

definition draw_kind :: "string \<Rightarrow> string list \<Rightarrow> purge_st \<Rightarrow> purge_st" where
  "draw_kind q rowIds S =
     (if pg_empty S then S
      else S\<lparr>pg_counter := (pg_counter S)(q := Some (int (length rowIds))), pg_shown := (pg_shown S)(q := rowIds)\<rparr>)"

text \<open>The answer: \<open>rows\<close> are the identifiers, \<open>None\<close> when the call failed (the template then raises a TypeError).\<close>

definition cascade_read :: "js \<Rightarrow> string \<Rightarrow> bool \<Rightarrow> string list option \<Rightarrow> purge_st \<Rightarrow> purge_st outcome" where
  "cascade_read elementId q forward rows S =
     (case rows of
        None \<Rightarrow> Inl TypeError
      | Some rowIds \<Rightarrow>
          (let S1 = draw_kind q rowIds S
           in if forward then
                (case next_of q of
                   Some n \<Rightarrow> Inr (S1, getCascadeElements elementId n)
                 | None \<Rightarrow> Inr (if getTotalElementsCount S1 = 0 then afterPurgeTenant S1 else S1\<lparr>pg_delete_all := True\<rparr>, []))
              else Inr (S1, [])))"

section \<open>Deleting\<close>

definition rank :: "string \<Rightarrow> nat" where
  "rank q = length (dropWhile (\<lambda>k. k \<noteq> q) kinds)"

lemma next_of_cases:
  "next_of q = Some n \<Longrightarrow>
   (q, n) \<in> set [(''vm'', ''user''), (''user'', ''di''), (''di'', ''osf''), (''osf'', ''role''), (''role'', ''administrator''),
                (''administrator'', ''property''), (''property'', ''config'')]"
  by (auto simp: next_of_def conf_of_def cascadeTenantElements_def split: if_splits)

lemma rank_values:
  "rank ''vm'' = 8" "rank ''user'' = 7" "rank ''di'' = 6" "rank ''osf'' = 5" "rank ''role'' = 4"
  "rank ''administrator'' = 3" "rank ''property'' = 2" "rank ''config'' = 1"
  by code_simp+

lemma next_rank: "next_of q = Some n \<Longrightarrow> rank n < rank q"
  by (drule next_of_cases) (auto simp: rank_values)

text \<open>\<open>applyCascadeDelete\<close>: the kinds without elements are passed over; the first other one is deleted, and
  the answer of that call leads on. The result names the kind whose deletion was asked for.\<close>

function applyCascadeDelete :: "string \<Rightarrow> bool \<Rightarrow> purge_st \<Rightarrow> purge_st \<times> string option \<times> effect list" where
  "applyCascadeDelete q forward S =
     (if pg_counter S q = None \<or> pg_counter S q = Some 0 then
        (if forward then
           (case next_of q of
              Some n \<Rightarrow> applyCascadeDelete n True S
            | None \<Rightarrow> ((purge_if_empty S)\<lparr>pg_buttons := True\<rparr>, None, []))
         else (S, None, []))
      else (S, Some q, [Dom DomAddClass (''[data-qvd-obj='' @ q @ ''].js-counter'') (JStr ''fa fa-eraser''),
                        Api (q @ ''_delete'') (JObj []) (JObj [(id_field q, strs_js (pg_shown S q))]) ''applyCascadeDelete'']))"
  by pat_completeness auto
termination
  by (relation "measure (\<lambda>(q, forward, S). rank q)") (auto dest: next_rank)

declare applyCascadeDelete.simps [simp del]

text \<open>The answer to the deletion of a kind. After a refusal the kind is read again.\<close>

definition cascade_deleted :: "js \<Rightarrow> string \<Rightarrow> bool \<Rightarrow> bool \<Rightarrow> purge_st \<Rightarrow> purge_st \<times> string option \<times> effect list" where
  "cascade_deleted elementId q forward ok S =
     (let S1 = (if ok then S\<lparr>pg_counter := (if pg_counter S q = None then pg_counter S else (pg_counter S)(q := Some 0)),
                            pg_shown := (pg_shown S)(q := [])\<rparr> else S);
          es = (if ok then [Dom DomRemoveClass (''[data-qvd-obj='' @ q @ ''].js-counter'') (JStr ''fa fa-eraser'')]
                else getCascadeElements elementId q)
      in case (if forward then next_of q else None) of
           Some n \<Rightarrow> map_prod id (map_prod id (append es)) (applyCascadeDelete n True S1)
         | None \<Rightarrow> (purge_if_empty S1, None, es))"

lemma applyCascadeDelete_rank:
  "applyCascadeDelete q f S = (S1, Some k, es) \<Longrightarrow> rank k \<le> rank q"
proof (induction q f S rule: applyCascadeDelete.induct)
  case (1 q f S)
  show ?case
  proof (cases "(pg_counter S q = None \<or> pg_counter S q = Some 0) \<and> f \<and> next_of q \<noteq> None")
    case True
    then obtain n where n: "next_of q = Some n" by blast
    with True "1.prems" have "applyCascadeDelete n True S = (S1, Some k, es)"
      by (subst (asm) applyCascadeDelete.simps) auto
    with True n "1.IH" have "rank k \<le> rank n" by blast
    with next_rank [OF n] show ?thesis by simp
  next
    case False
    with "1.prems" show ?thesis by (subst (asm) applyCascadeDelete.simps) (auto split: if_splits)
  qed
qed

lemma cascade_deleted_rank:
  assumes "cascade_deleted e q True ok S = (S1, Some k, es)"
  shows "rank k < rank q"
proof (cases "next_of q")
  case (Some n)
  with assms obtain S0 es0 where "applyCascadeDelete n True S0 = (S1, Some k, es0)"
    by (auto simp: cascade_deleted_def Let_def map_prod_def split: prod.splits)
  then show ?thesis using applyCascadeDelete_rank next_rank [OF Some] by fastforce
qed (use assms in \<open>simp add: cascade_deleted_def Let_def\<close>)

text \<open>"Delete all": the buttons are hidden and the chain starts; \<open>srv\<close> says which deletions succeed.\<close>

function run_chain :: "js \<Rightarrow> (string \<Rightarrow> bool) \<Rightarrow> string option \<Rightarrow> purge_st \<Rightarrow> purge_st \<times> effect list" where
  "run_chain elementId srv pending S =
     (case pending of
        None \<Rightarrow> (S, [])
      | Some q \<Rightarrow>
          (let (S1, pending1, es) = cascade_deleted elementId q True (srv q) S;
               (S2, es2) = run_chain elementId srv pending1 S1
           in (S2, es @ es2)))"
  by pat_completeness auto

termination
  by (relation "measure (\<lambda>(e, srv, p, S). case p of None \<Rightarrow> 0 | Some q \<Rightarrow> Suc (rank q))")
     (auto split: option.splits dest!: sym [of "(_, _, _)"] dest: cascade_deleted_rank)

declare run_chain.simps [simp del]

definition deleteAll :: "js \<Rightarrow> (string \<Rightarrow> bool) \<Rightarrow> purge_st \<Rightarrow> purge_st \<times> effect list" where
  "deleteAll elementId srv S =
     (let (S1, pending, es) = applyCascadeDelete ''vm'' True (S\<lparr>pg_buttons := False\<rparr>);
          (S2, es2) = run_chain elementId srv pending S1
      in (S2, es @ es2))"

definition purgeTenantObject :: "string \<Rightarrow> purge_st \<Rightarrow> purge_st \<times> string option \<times> effect list" where
  "purgeTenantObject q S = applyCascadeDelete q False S"

definition applyDeleteElement :: "string \<Rightarrow> string \<Rightarrow> effect list" where
  "applyDeleteElement q elementId = [Api (q @ ''_delete'') (JObj []) (JObj [(id_field q, JStr elementId)]) ''applyDeleteElement'']"

definition element_deleted :: "js \<Rightarrow> string \<Rightarrow> string \<Rightarrow> bool \<Rightarrow> purge_st \<Rightarrow> purge_st \<times> effect list" where
  "element_deleted tenantId q elementId ok S =
     (if ok then
        (purge_if_empty (S\<lparr>pg_counter := (pg_counter S)(q := map_option (\<lambda>n. n - 1) (pg_counter S q)),
                          pg_shown := (pg_shown S)(q := filter (\<lambda>i. i \<noteq> elementId) (pg_shown S q))\<rparr>), [])
      else (purge_if_empty S, getCascadeElements tenantId q))"

section \<open>The chain as a whole\<close>

lemma kinds_list: "kinds = [''vm'', ''user'', ''di'', ''osf'', ''role'', ''administrator'', ''property'', ''config'']"
  by (simp add: kinds_def cascadeTenantElements_def)

lemma next_in_kinds: "suffix (q # ks) kinds \<Longrightarrow> next_of q = (case ks of [] \<Rightarrow> None | n # _ \<Rightarrow> Some n)"
proof -
  have v: "next_of ''vm'' = Some ''user''" "next_of ''user'' = Some ''di''" "next_of ''di'' = Some ''osf''"
    "next_of ''osf'' = Some ''role''" "next_of ''role'' = Some ''administrator''"
    "next_of ''administrator'' = Some ''property''" "next_of ''property'' = Some ''config''" "next_of ''config'' = None"
    by code_simp+
  assume "suffix (q # ks) kinds"
  then show ?thesis unfolding kinds_list suffix_Cons by (elim disjE) (simp_all add: v)
qed

definition chain :: "js \<Rightarrow> (string \<Rightarrow> bool) \<Rightarrow> string \<Rightarrow> purge_st \<Rightarrow> purge_st \<times> effect list" where
  "chain e srv q S =
     (let (S1, p, es) = applyCascadeDelete q True S; (S2, es2) = run_chain e srv p S1 in (S2, es @ es2))"

text \<open>The deletions a chain asked for.\<close>

definition deletions :: "effect list \<Rightarrow> (string \<times> js) list" where
  "deletions es = concat (map (\<lambda>e. case e of Api a args fs cb \<Rightarrow> if cb = ''applyCascadeDelete'' then [(a, fs)] else []
                                     | _ \<Rightarrow> []) es)"

lemma deletions_simps [simp]:
  "deletions [] = []" "deletions (es @ es') = deletions es @ deletions es'"
  "deletions (Dom op sel v # es) = deletions es"
  "deletions (Api a args fs cb # es) = (if cb = ''applyCascadeDelete'' then (a, fs) # deletions es else deletions es)"
  by (simp_all add: deletions_def)

lemma deletions_read [simp]: "deletions (getCascadeElements e q) = []"
  by (simp add: getCascadeElements_def)

definition drawn :: "purge_st \<Rightarrow> bool" where
  "drawn S \<longleftrightarrow> (\<forall>k\<in>set kinds. pg_counter S k = Some (int (length (pg_shown S k)))) \<and> \<not> pg_empty S"

definition emptied :: "string \<Rightarrow> bool \<Rightarrow> purge_st \<Rightarrow> purge_st" where
  "emptied q ok S = (if ok then S\<lparr>pg_counter := (pg_counter S)(q := Some 0), pg_shown := (pg_shown S)(q := [])\<rparr> else S)"

lemma drawn_emptied: "drawn S \<Longrightarrow> drawn (emptied q ok S)"
  by (simp add: drawn_def emptied_def)

lemma sum_list_int: "sum_list (map (\<lambda>x. int (f x)) xs) = int (sum_list (map f xs))"
  by (induction xs) simp_all

lemma total_zero: "drawn S \<Longrightarrow> getTotalElementsCount S = 0 \<longleftrightarrow> (\<forall>k\<in>set kinds. pg_shown S k = [])"
proof -
  assume "drawn S"
  then have "map (\<lambda>q. case pg_counter S q of Some n \<Rightarrow> n | None \<Rightarrow> 0) kinds = map (\<lambda>q. int (length (pg_shown S q))) kinds"
    by (auto simp: drawn_def)
  then have "getTotalElementsCount S = int (sum_list (map (\<lambda>q. length (pg_shown S q)) kinds))"
    unfolding getTotalElementsCount_def by (simp only: sum_list_int)
  then show ?thesis by (simp add: sum_list_eq_0_iff)
qed

lemma chain_skip:
  "pg_counter S q = Some 0 \<Longrightarrow> next_of q = Some n \<Longrightarrow> chain e srv q S = chain e srv n S"
  unfolding chain_def by (subst applyCascadeDelete.simps) simp

lemma chain_end:
  "pg_counter S q = Some 0 \<Longrightarrow> next_of q = None \<Longrightarrow> chain e srv q S = ((purge_if_empty S)\<lparr>pg_buttons := True\<rparr>, [])"
  unfolding chain_def by (subst applyCascadeDelete.simps) (simp add: run_chain.simps)

lemma chain_delete:
  assumes "pg_counter S q = Some c" and "c \<noteq> 0"
  shows "\<exists>es0. deletions es0 = [(q @ ''_delete'', JObj [(id_field q, strs_js (pg_shown S q))])] \<and>
    chain e srv q S =
      (case next_of q of
         Some n \<Rightarrow> map_prod id (append es0) (chain e srv n (emptied q (srv q) S))
       | None \<Rightarrow> (purge_if_empty (emptied q (srv q) S), es0))"
proof -
  define es1 where "es1 = [Dom DomAddClass (''[data-qvd-obj='' @ q @ ''].js-counter'') (JStr ''fa fa-eraser''),
                        Api (q @ ''_delete'') (JObj []) (JObj [(id_field q, strs_js (pg_shown S q))]) ''applyCascadeDelete'']"
  define es2 where "es2 = (if srv q then [Dom DomRemoveClass (''[data-qvd-obj='' @ q @ ''].js-counter'') (JStr ''fa fa-eraser'')]
                else getCascadeElements e q)"
  have ask: "applyCascadeDelete q True S = (S, Some q, es1)"
    using assms by (subst applyCascadeDelete.simps) (simp add: es1_def)
  have ans: "cascade_deleted e q True (srv q) S =
      (case next_of q of
         Some n \<Rightarrow> map_prod id (map_prod id (append es2)) (applyCascadeDelete n True (emptied q (srv q) S))
       | None \<Rightarrow> (purge_if_empty (emptied q (srv q) S), None, es2))"
    using assms by (cases "srv q"; cases "next_of q") (simp_all add: cascade_deleted_def Let_def emptied_def es2_def)
  have "chain e srv q S = (case next_of q of
         Some n \<Rightarrow> map_prod id (append (es1 @ es2)) (chain e srv n (emptied q (srv q) S))
       | None \<Rightarrow> (purge_if_empty (emptied q (srv q) S), es1 @ es2))"
    unfolding chain_def ask by (simp add: run_chain.simps [of _ _ "Some q"] ans run_chain.simps [of _ _ None] split: option.split prod.split)
  moreover have "deletions (es1 @ es2) = [(q @ ''_delete'', JObj [(id_field q, strs_js (pg_shown S q))])]"
    by (simp add: es1_def es2_def)
  ultimately show ?thesis by blast
qed

lemma pg_shown_emptied: "pg_shown (emptied q ok S) k = (if k = q \<and> ok then [] else pg_shown S k)"
  by (simp add: emptied_def)

lemma pg_buttons_emptied [simp]: "pg_buttons (emptied q ok S) = pg_buttons S"
  by (simp add: emptied_def)

lemma purge_if_empty_shows:
  assumes "drawn S"
  shows "(\<forall>k\<in>set kinds. pg_shown (purge_if_empty S) k = pg_shown S k) \<and>
    (pg_empty (purge_if_empty S) \<longleftrightarrow> (\<forall>k\<in>set kinds. pg_shown S k = [])) \<and>
    pg_buttons (purge_if_empty S) = pg_buttons S"
  using total_zero [OF assms] assms by (simp add: purge_if_empty_def afterPurgeTenant_def drawn_def)

definition asked :: "string \<Rightarrow> purge_st \<Rightarrow> string \<times> js" where
  "asked k S = (k @ ''_delete'', JObj [(id_field k, strs_js (pg_shown S k))])"

text \<open>What a chain over the kinds \<open>ks\<close> achieves from the state \<open>S\<close>.\<close>

definition chain_post :: "(string \<Rightarrow> bool) \<Rightarrow> string list \<Rightarrow> purge_st \<Rightarrow> purge_st \<times> effect list \<Rightarrow> bool" where
  "chain_post srv ks S r \<longleftrightarrow>
     deletions (snd r) = map (\<lambda>k. asked k S) (filter (\<lambda>k. pg_shown S k \<noteq> []) ks) \<and>
     (\<forall>k\<in>set kinds. pg_shown (fst r) k = (if k \<in> set ks \<and> srv k then [] else pg_shown S k)) \<and>
     (pg_empty (fst r) \<longleftrightarrow> (\<forall>k\<in>set kinds. pg_shown (fst r) k = [])) \<and>
     (pg_buttons (fst r) \<longleftrightarrow> pg_shown S (last ks) = [])"

lemma chain_post_skip:
  "pg_shown S q = [] \<Longrightarrow> ks \<noteq> [] \<Longrightarrow> chain_post srv ks S r \<Longrightarrow> chain_post srv (q # ks) S r"
  by (auto simp: chain_post_def)

lemma chain_post_delete:
  assumes "chain_post srv ks (emptied q (srv q) S) r" and "pg_shown S q \<noteq> []" and "ks \<noteq> []" and "q \<notin> set ks"
    and "deletions es0 = [asked q S]"
  shows "chain_post srv (q # ks) S (map_prod id (append es0) r)"
proof -
  let ?T = "emptied q (srv q) S"
  have same: "pg_shown ?T k = pg_shown S k" "asked k ?T = asked k S" if "k \<in> set ks" for k
    using that assms(4) by (auto simp: pg_shown_emptied asked_def)
  have "filter (\<lambda>k. pg_shown ?T k \<noteq> []) ks = filter (\<lambda>k. pg_shown S k \<noteq> []) ks"
    using same(1) by (intro filter_cong) simp_all
  moreover have "map (\<lambda>k. asked k ?T) xs = map (\<lambda>k. asked k S) xs" if "set xs \<subseteq> set ks" for xs
    using same(2) that by (intro map_cong) auto
  ultimately have "map (\<lambda>k. asked k ?T) (filter (\<lambda>k. pg_shown ?T k \<noteq> []) ks) =
      map (\<lambda>k. asked k S) (filter (\<lambda>k. pg_shown S k \<noteq> []) ks)"
    by (metis filter_is_subset)
  moreover have "pg_shown ?T (last ks) = pg_shown S (last ks)" using same(1) assms(3) by simp
  ultimately show ?thesis
    using assms by (auto simp: chain_post_def pg_shown_emptied map_prod_def split: prod.splits)
qed

lemma chain_post_last:
  assumes "drawn S" and "q \<in> set kinds" and "next_of q = None" and "\<not> pg_buttons S"
  shows "chain_post srv [q] S (chain e srv q S)"
proof (cases "pg_shown S q = []")
  case True
  then have "chain e srv q S = ((purge_if_empty S)\<lparr>pg_buttons := True\<rparr>, [])"
    using assms(1-3) by (simp add: chain_end drawn_def)
  then show ?thesis using purge_if_empty_shows [OF assms(1)] True by (simp add: chain_post_def)
next
  case False
  have "pg_counter S q = Some (int (length (pg_shown S q)))" using assms(1,2) by (simp add: drawn_def)
  with False obtain es0 where "deletions es0 = [asked q S]" "chain e srv q S = (purge_if_empty (emptied q (srv q) S), es0)"
    using chain_delete [of S q _ e srv] assms(3) by (auto simp: asked_def)
  moreover have "drawn (emptied q (srv q) S)" using assms(1) by (rule drawn_emptied)
  ultimately show ?thesis
    using purge_if_empty_shows [of "emptied q (srv q) S"] False assms(4) by (auto simp: chain_post_def pg_shown_emptied)
qed

lemma chain_spec:
  assumes "suffix (q # ks) kinds" and "drawn S" and "\<not> pg_buttons S" and "distinct (q # ks)"
  shows "chain_post srv (q # ks) S (chain e srv q S)"
  using assms
proof (induction ks arbitrary: q S)
  case Nil
  then show ?case using set_mono_suffix [OF Nil.prems(1)] next_in_kinds [OF Nil.prems(1)] by (simp add: chain_post_last)
next
  case (Cons n ks)
  have nx: "next_of q = Some n" using next_in_kinds [OF Cons.prems(1)] by simp
  have "q \<in> set kinds" using set_mono_suffix [OF Cons.prems(1)] by simp
  then have c: "pg_counter S q = Some (int (length (pg_shown S q)))" using Cons.prems(2) by (simp add: drawn_def)
  have sf: "suffix (n # ks) kinds" using Cons.prems(1) by (rule suffix_ConsD)
  show ?case
  proof (cases "pg_shown S q = []")
    case True
    have "chain_post srv (n # ks) S (chain e srv n S)" using Cons.IH [OF sf] Cons.prems by simp
    with True c nx show ?thesis by (simp add: chain_skip chain_post_skip)
  next
    case False
    then obtain es0 where "deletions es0 = [asked q S]"
      and r: "chain e srv q S = map_prod id (append es0) (chain e srv n (emptied q (srv q) S))"
      using chain_delete [OF c, of e srv] nx by (auto simp: asked_def)
    moreover have "chain_post srv (n # ks) (emptied q (srv q) S) (chain e srv n (emptied q (srv q) S))"
      using Cons.IH [OF sf drawn_emptied] Cons.prems by simp
    ultimately show ?thesis unfolding r using Cons.prems(4) False by (intro chain_post_delete) simp_all
  qed
qed


definition sample_purge :: purge_st where
  "sample_purge = \<lparr> pg_counter = (\<lambda>k. Some (if k = ''vm'' then 2 else if k = ''config'' then 1 else 0)),
     pg_shown = (\<lambda>k. if k = ''vm'' then [''4'', ''5''] else if k = ''config'' then [''l7r.port''] else []),
     pg_delete_all = True, pg_buttons = True, pg_empty = False \<rparr>"


section \<open>The dialog at any time\<close>

text \<open>The answers of the API and the clicks of the administrator in any order; \<open>ok\<close> is what the API said.\<close>

inductive purge_reach :: "purge_st \<Rightarrow> bool" where
  opened: "purge_reach purge_open"
| read: "purge_reach S \<Longrightarrow> distinct rowIds \<Longrightarrow> cascade_read e q f (Some rowIds) S = Inr (S', es) \<Longrightarrow> purge_reach S'"
| all: "purge_reach S \<Longrightarrow> applyCascadeDelete q f (S\<lparr>pg_buttons := b\<rparr>) = (S', p, es) \<Longrightarrow> purge_reach S'"
| deleted: "purge_reach S \<Longrightarrow> cascade_deleted e q f ok S = (S', p, es) \<Longrightarrow> purge_reach S'"
| element: "purge_reach S \<Longrightarrow> i \<in> set (pg_shown S q) \<Longrightarrow> element_deleted e q i ok S = (S', es) \<Longrightarrow> purge_reach S'"

definition counters_ok :: "purge_st \<Rightarrow> bool" where
  "counters_ok S \<longleftrightarrow>
     (\<forall>k. distinct (pg_shown S k) \<and> (pg_counter S k = None \<longrightarrow> pg_shown S k = []) \<and>
          (\<forall>n. pg_counter S k = Some n \<longrightarrow> n = int (length (pg_shown S k)))) \<and>
     (pg_empty S \<longrightarrow> (\<forall>k. pg_counter S k = None))"

lemma counters_ok_purge: "counters_ok S \<Longrightarrow> counters_ok (purge_if_empty S)"
  by (simp add: counters_ok_def purge_if_empty_def afterPurgeTenant_def)

lemma counters_ok_buttons [simp]: "counters_ok (S\<lparr>pg_buttons := b\<rparr>) = counters_ok S"
  by (simp add: counters_ok_def)

lemma counters_ok_draw: "counters_ok S \<Longrightarrow> distinct rowIds \<Longrightarrow> counters_ok (draw_kind q rowIds S)"
  by (simp add: counters_ok_def draw_kind_def)

lemma counters_ok_apply: "applyCascadeDelete q f S = (S', p, es) \<Longrightarrow> counters_ok S \<Longrightarrow> counters_ok S'"
proof (induction q f S rule: applyCascadeDelete.induct)
  case (1 q f S)
  show ?case
  proof (cases "(pg_counter S q = None \<or> pg_counter S q = Some 0) \<and> f \<and> next_of q \<noteq> None")
    case True
    then obtain n where n: "next_of q = Some n" by blast
    with True "1.prems"(1) have "applyCascadeDelete n True S = (S', p, es)"
      by (subst (asm) applyCascadeDelete.simps) auto
    with True n "1.IH" "1.prems"(2) show ?thesis by blast
  next
    case False
    with "1.prems" show ?thesis
      by (subst (asm) applyCascadeDelete.simps) (auto simp: counters_ok_purge split: if_splits)
  qed
qed

lemma counters_ok_deleted:
  assumes "cascade_deleted e q f ok S = (S', p, es)" and "counters_ok S"
  shows "counters_ok S'"
proof -
  let ?S1 = "if ok then S\<lparr>pg_counter := (if pg_counter S q = None then pg_counter S else (pg_counter S)(q := Some 0)),
                          pg_shown := (pg_shown S)(q := [])\<rparr> else S"
  have 1: "counters_ok ?S1" using assms(2) by (auto simp: counters_ok_def)
  show ?thesis
  proof (cases "if f then next_of q else None")
    case None
    with assms(1) have "S' = purge_if_empty ?S1" unfolding cascade_deleted_def Let_def by simp
    with 1 show ?thesis by (simp only: counters_ok_purge)
  next
    case (Some n)
    with assms(1) obtain es1 where "applyCascadeDelete n True ?S1 = (S', p, es1)"
      unfolding cascade_deleted_def Let_def by (auto simp: map_prod_def split: prod.splits)
    with 1 show ?thesis by (rule counters_ok_apply [rotated])
  qed
qed

lemma length_filter_neq: "distinct xs \<Longrightarrow> x \<in> set xs \<Longrightarrow> int (length (filter (\<lambda>y. y \<noteq> x) xs)) = int (length xs) - 1"
proof -
  assume "distinct xs" "x \<in> set xs"
  then have "filter (\<lambda>y. y \<noteq> x) xs = remove1 x xs"
    by (simp add: distinct_remove1_removeAll removeAll_filter_not_eq eq_commute)
  moreover have "0 < length xs" using \<open>x \<in> set xs\<close> by (rule length_pos_if_in_set)
  then have "int (length xs - 1) = int (length xs) - 1" by linarith
  ultimately show ?thesis using \<open>x \<in> set xs\<close> by (simp add: length_remove1)
qed

lemma counters_ok_element:
  assumes "element_deleted e q i ok S = (S', es)" and "counters_ok S" and "i \<in> set (pg_shown S q)"
  shows "counters_ok S'"
proof (cases ok)
  case True
  let ?S1 = "S\<lparr>pg_counter := (pg_counter S)(q := map_option (\<lambda>n. n - 1) (pg_counter S q)),
               pg_shown := (pg_shown S)(q := filter (\<lambda>j. j \<noteq> i) (pg_shown S q))\<rparr>"
  have d: "distinct (pg_shown S q)" and ne: "pg_shown S q \<noteq> []" using assms(2,3) by (auto simp: counters_ok_def)
  then obtain n where n: "pg_counter S q = Some n" using assms(2) unfolding counters_ok_def by blast
  then have "n = int (length (pg_shown S q))" and "\<not> pg_empty S" using assms(2) unfolding counters_ok_def by auto
  then have "?S1 = draw_kind q (filter (\<lambda>j. j \<noteq> i) (pg_shown S q)) S"
    unfolding draw_kind_def length_filter_neq [OF d assms(3)] by (simp only: n if_False option.map)
  then have "counters_ok ?S1" using counters_ok_draw [OF assms(2)] d by (simp only: distinct_filter)
  moreover have "S' = purge_if_empty ?S1" using assms(1) True by (simp add: element_deleted_def)
  ultimately show ?thesis by (simp only: counters_ok_purge)
next
  case False
  then show ?thesis using assms by (auto simp: element_deleted_def counters_ok_purge)
qed



end
