(* ===== verification/DefaultsA.thy ===== *)
theory DefaultsA
  imports ViewsConf
begin

text \<open>
  The tables of the virtual machines, disk images and OS flavours (\<open>wat/lib/settings/default-vm.js\<close>,
  \<open>default-di.js\<close>, \<open>default-osf.js\<close>): columns and filters of the list, fields of the details and actions on
  the selected elements, as the objects of the source; of a repeated key the last value counts. The
  attribute \<open>isEnabledById\<close> of an action of \<open>default-osf.js\<close>, a function, is left out.
\<close>

section \<open>Constants\<close>

definition CLASS_ICON_USERS :: string where "CLASS_ICON_USERS = ''fa fa-users''"
definition CLASS_ICON_VMS :: string where "CLASS_ICON_VMS = ''fa fa-cloud''"
definition CLASS_ICON_HOSTS :: string where "CLASS_ICON_HOSTS = ''fa fa-hdd-o''"
definition CLASS_ICON_OSFS :: string where "CLASS_ICON_OSFS = ''fa fa-flask''"
definition CLASS_ICON_DIS :: string where "CLASS_ICON_DIS = ''fa fa-dot-circle-o''"
definition CLASS_ICON_ADMINS :: string where "CLASS_ICON_ADMINS = ''fa fa-suitcase''"
definition CLASS_ICON_ROLES :: string where "CLASS_ICON_ROLES = ''fa fa-graduation-cap''"
definition CLASS_ICON_TEMPLATES :: string where "CLASS_ICON_TEMPLATES = ''fa fa-cube''"

definition ANTIQUITY_OPTIONS :: js where
  "ANTIQUITY_OPTIONS = JArr [
      JObj [(''value'', JNum FILTER_ALL), (''text'', JStr ''All''), (''selected'', JBool True)],
      JObj [(''value'', JNum 3600), (''text'', JStr ''<1 hour'')],
      JObj [(''value'', JNum 21600), (''text'', JStr ''<6 hours'')],
      JObj [(''value'', JNum 43200), (''text'', JStr ''<12 hours'')],
      JObj [(''value'', JNum 86400), (''text'', JStr ''<1 day'')],
      JObj [(''value'', JNum 604800), (''text'', JStr ''<1 week'')],
      JObj [(''value'', JNum 2592000), (''text'', JStr ''<1 month'')],
      JObj [(''value'', JNum 31536000), (''text'', JStr ''<1 year'')]]"

definition LOG_TYPE_ACTIONS :: "js obj" where
  "LOG_TYPE_ACTIONS =
     [(''create'', JStr ''Created''), (''update'', JStr ''Updated''), (''create_or_update'', JStr ''Setted''),
      (''delete'', JStr ''Deleted''), (''exec'', JStr ''Executed''), (''login'', JStr ''Logged-in''),
      (''see'', JStr ''Visualized'')]"

definition LOG_TYPE_OBJECTS :: "js obj" where
  "LOG_TYPE_OBJECTS =
     [(''user'', JStr ''User''), (''vm'', JStr ''Virtual machine''), (''host'', JStr ''Node''),
      (''osf'', JStr ''OS Flavour''), (''di'', JStr ''Disk image''), (''role'', JStr ''Role''),
      (''tenant'', JStr ''Tenant''), (''administrator'', JStr ''Administrator''),
      (''admin_view'', JStr ''Administrator view''), (''tenant_view'', JStr ''Default view''),
      (''config'', JStr ''Configuration''), (''log'', JStr ''Log'')]"

section \<open>\<open>default-vm.js\<close>\<close>

definition vm_listFields1 :: "js obj" where
  "vm_listFields1 =
     [(''checks'', JObj [(''text'', JStr ''checks''), (''fields'', JArr []), (''groupAcls'', JStr ''vmMassiveActions''),
        (''aclsLogic'', JStr ''OR''), (''display'', JBool True), (''fixed'', JBool True),
        (''sortable'', JBool False)]),
      (''info'', JObj [(''text'', JStr ''Info''),
        (''fields'', JArr [JStr ''block'', JStr ''state'', JStr ''expiration_soft'', JStr ''expiration_hard'', JStr ''user_state'']),
        (''groupAcls'', JArr [JStr ''vmInfo'', JStr ''tenantVmEmbeddedInfo'', JStr ''osfVmEmbeddedInfo'', JStr ''hostVmEmbeddedInfo'', JStr ''diVmEmbeddedInfo'']),
        (''aclsLogic'', JStr ''OR''), (''display'', JBool True), (''sortable'', JBool False)]),
      (''id'', JObj [(''text'', JStr ''Id''), (''fields'', JArr [JStr ''id'']), (''acls'', JStr ''vm.see.id''),
        (''display'', JBool False), (''sortable'', JBool True)]),
      (''name'', JObj [(''text'', JStr ''Name''), (''fields'', JArr [JStr ''id'', JStr ''name'']), (''display'', JBool True),
        (''fixed'', JBool True), (''sortable'', JBool True)]),
      (''description'', JObj [(''display'', JBool False), (''fields'', JArr [JStr ''description'']),
        (''acls'', JStr ''vm.see.description''), (''text'', JStr ''Description''), (''sortable'', JBool True)]),
      (''host'', JObj [(''text'', JStr ''Node''), (''fields'', JArr [JStr ''host_id'', JStr ''host_name'']),
        (''acls'', JStr ''vm.see.host''), (''display'', JBool True), (''sortable'', JBool True)]),
      (''user'', JObj [(''text'', JStr ''User''), (''fields'', JArr [JStr ''user_id'', JStr ''user_name'']),
        (''acls'', JStr ''vm.see.user''), (''display'', JBool True), (''sortable'', JBool True)]),
      (''osf'', JObj [(''text'', JStr ''OS Flavour''), (''fields'', JArr [JStr ''osf_id'', JStr ''osf_name'']),
        (''acls'', JStr ''vm.see.osf''), (''display'', JBool False), (''sortable'', JBool True)]),
      (''osf/tag'', JObj [(''text'', JStr ''OSF / Tag''),
        (''fields'', JArr [JStr ''osf_id'', JStr ''osf_name'', JStr ''di_tag'', JStr ''di_id'']),
        (''acls'', JArr [JStr ''vm.see.osf'', JStr ''vm.see.di-tag'']), (''aclsLogic'', JStr ''AND''),
        (''display'', JBool True), (''sortable'', JBool True)]),
      (''tag'', JObj [(''text'', JStr ''Tag''), (''fields'', JArr [JStr ''di_tag'']), (''acls'', JStr ''vm.see.di-tag''),
        (''display'', JBool False), (''sortable'', JBool True)]),
      (''di_version'', JObj [(''text'', JStr ''DI version''), (''fields'', JArr [JStr ''di_version'']),
        (''acls'', JStr ''vm.see.di-version''), (''display'', JBool False), (''sortable'', JBool True)]),
      (''di_name'', JObj [(''text'', JStr ''Disk image''), (''fields'', JArr [JStr ''di_name'', JStr ''di_id'']),
        (''acls'', JStr ''vm.see.di''), (''display'', JBool False), (''sortable'', JBool True)]),
      (''ip'', JObj [(''text'', JStr ''IP address''), (''fields'', JArr [JStr ''ip'']), (''acls'', JStr ''vm.see.ip''),
        (''display'', JBool False), (''sortable'', JBool True)])]"

definition vm_listFields2 :: "js obj" where
  "vm_listFields2 =
     [(''next_boot_ip'', JObj [(''text'', JStr ''Next boot IP''), (''fields'', JArr [JStr ''next_boot_ip'']),
        (''acls'', JStr ''vm.see.next-boot-ip''), (''display'', JBool False), (''sortable'', JBool True)]),
      (''mac'', JObj [(''text'', JStr ''MAC address''), (''fields'', JArr [JStr ''mac'']), (''acls'', JStr ''vm.see.mac''),
        (''display'', JBool False), (''sortable'', JBool True)]),
      (''serial_port'', JObj [(''text'', JStr ''Serial port''), (''fields'', JArr [JStr ''serial_port'']),
        (''acls'', JStr ''vm.see.port-serial''), (''display'', JBool False), (''sortable'', JBool True)]),
      (''ssh_port'', JObj [(''text'', JStr ''SSH port''), (''fields'', JArr [JStr ''ssh_port'']),
        (''acls'', JStr ''vm.see.port-ssh''), (''display'', JBool False), (''sortable'', JBool True)]),
      (''vnc_port'', JObj [(''text'', JStr ''VNC port''), (''fields'', JArr [JStr ''vnc_port'']),
        (''acls'', JStr ''vm.see.port-vnc''), (''display'', JBool False), (''sortable'', JBool True)]),
      (''expiration_soft'', JObj [(''text'', JStr ''Soft expiration''),
        (''fields'', JArr [JStr ''expiration_soft'', JStr ''time_until_expiration_soft'']),
        (''acls'', JStr ''vm.see.expiration''), (''display'', JBool False), (''sortable'', JBool True)]),
      (''expiration_hard'', JObj [(''text'', JStr ''Hard expiration''),
        (''fields'', JArr [JStr ''expiration_hard'', JStr ''time_until_expiration_hard'']),
        (''acls'', JStr ''vm.see.expiration''), (''display'', JBool False), (''sortable'', JBool True)]),
      (''creation_date'', JObj [(''text'', JStr ''Creation date''), (''fields'', JArr [JStr ''creation_date'']),
        (''acls'', JStr ''vm.see.creation-date''), (''display'', JBool False), (''sortable'', JBool True)]),
      (''creation_admin_name'', JObj [(''text'', JStr ''Created by''),
        (''fields'', JArr [JStr ''creation_admin_name'', JStr ''creation_admin_id'']),
        (''acls'', JStr ''vm.see.created-by''), (''display'', JBool False), (''sortable'', JBool True)])]"

definition vm_listFields :: "js obj" where
  "vm_listFields = vm_listFields1 @ vm_listFields2"

definition vm_detailsFields1 :: "js obj" where
  "vm_detailsFields1 =
     [(''general'', JObj [(''text'', JStr ''General''), (''default'', JBool True),
        (''fieldList'', JObj [(''id'', JObj [(''text'', JStr ''Id''), (''fields'', JArr [JStr ''id'']), (''acls'', JStr ''vm.see.id''),
            (''display'', JBool False), (''icon'', JStr ''fa fa-asterisk'')]),
          (''description'', JObj [(''display'', JBool True), (''fields'', JArr [JStr ''description'']),
            (''acls'', JStr ''user.see.description''), (''text'', JStr ''Description''),
            (''icon'', JStr ''fa fa-align-justify'')]),
          (''user'', JObj [(''text'', JStr ''User''), (''fields'', JArr [JStr ''user_id'', JStr ''user_name'']),
            (''acls'', JStr ''vm.see.user''), (''display'', JBool True), (''icon'', JStr CLASS_ICON_USERS)]),
          (''block'', JObj [(''display'', JBool True), (''fields'', JArr [JStr ''id'']), (''acls'', JStr ''vm.see.block''),
            (''text'', JStr ''Blocking''), (''icon'', JStr ''fa fa-lock'')])])]),
      (''image'', JObj [(''text'', JStr ''Image''),
        (''fieldList'', JObj [(''osf'', JObj [(''text'', JStr ''OS Flavour''), (''fields'', JArr [JStr ''osf_id'', JStr ''osf_name'']),
            (''acls'', JStr ''vm.see.osf''), (''display'', JBool False), (''icon'', JStr CLASS_ICON_OSFS)]),
          (''tag'', JObj [(''text'', JStr ''Tag''), (''fields'', JArr [JStr ''di_tag'']), (''acls'', JStr ''vm.see.di-tag''),
            (''display'', JBool False), (''icon'', JStr ''fa fa-tag'')]),
          (''disk_image'', JObj [(''text'', JStr ''Disk image''),
            (''fields'', JArr [JStr ''di_name'', JStr ''di_id'', JStr ''version'']),
            (''acls'', JStr ''vm.see.di''), (''display'', JBool False), (''icon'', JStr CLASS_ICON_DIS)])])])]"

definition vm_detailsFields2 :: "js obj" where
  "vm_detailsFields2 =
     [(''execution'', JObj [(''text'', JStr ''Execution''), (''onlyMobile'', JBool True),
        (''onlyWithConditions'', JObj [(''state'', JArr [JStr ''starting'', JStr ''running''])]),
        (''fieldList'', JObj [(''state'', JObj [(''text'', JStr ''State''), (''fields'', JArr [JStr ''state'']), (''acls'', JStr ''vm.see.state''),
            (''display'', JBool True), (''icon'', JStr ''fa fa-heart'')]),
          (''host'', JObj [(''text'', JStr ''Node''), (''fields'', JArr [JStr ''host_id'', JStr ''host_name'']),
            (''acls'', JStr ''vm.see.host''), (''display'', JBool True), (''icon'', JStr CLASS_ICON_HOSTS)]),
          (''expiration'', JObj [(''text'', JStr ''Expiration''),
            (''fields'', JArr [JStr ''expiration_soft'', JStr ''expiration_hard'']),
            (''acls'', JStr ''vm.see.expiration''), (''display'', JBool True),
            (''icon'', JStr ''fa fa-warning''), (''bbRow'', JBool True)]),
          (''serial_port'', JObj [(''text'', JStr ''Serial port''), (''fields'', JArr [JStr ''serial_port'']),
            (''acls'', JStr ''vm.see.port-serial''), (''display'', JBool False),
            (''icon'', JStr ''fa fa-angle-double-right'')]),
          (''ssh_port'', JObj [(''text'', JStr ''SSH port''), (''fields'', JArr [JStr ''ssh_port'']),
            (''acls'', JStr ''vm.see.port-ssh''), (''display'', JBool False),
            (''icon'', JStr ''fa fa-angle-double-right'')]),
          (''vnc_port'', JObj [(''text'', JStr ''VNC port''), (''fields'', JArr [JStr ''vnc_port'']),
            (''acls'', JStr ''vm.see.port-vnc''), (''display'', JBool False),
            (''icon'', JStr ''fa fa-angle-double-right'')])])]),
      (''network'', JObj [(''text'', JStr ''Network''),
        (''fieldList'', JObj [(''ip'', JObj [(''text'', JStr ''IP address''), (''fields'', JArr [JStr ''ip'']), (''acls'', JStr ''vm.see.ip''),
            (''display'', JBool False), (''icon'', JStr ''fa fa-ellipsis-h'')]),
          (''mac'', JObj [(''text'', JStr ''MAC address''), (''fields'', JArr [JStr ''mac'']), (''acls'', JStr ''vm.see.mac''),
            (''display'', JBool True), (''icon'', JStr ''fa fa-ellipsis-h'')])])]),
      (''activity'', JObj [(''text'', JStr ''Activity''),
        (''fieldList'', JObj [(''creation_admin'', JObj [(''text'', JStr ''Created by''),
            (''fields'', JArr [JStr ''creation_admin_id'', JStr ''creation_admin_name'']),
            (''acls'', JStr ''vm.see.created-by''), (''display'', JBool True),
            (''icon'', JStr CLASS_ICON_ADMINS)]),
          (''creation_date'', JObj [(''text'', JStr ''Creation date''), (''fields'', JArr [JStr ''creation_date'']),
            (''acls'', JStr ''vm.see.creation-date''), (''display'', JBool True),
            (''icon'', JStr ''fa fa-clock-o'')])])])]"

definition vm_detailsFields :: "js obj" where
  "vm_detailsFields = vm_detailsFields1 @ vm_detailsFields2"

definition vm_formFilters1 :: "js obj" where
  "vm_formFilters1 =
     [(''name'', JObj [(''filterField'', JStr ''name''), (''type'', JStr ''text''), (''text'', JStr ''Name''),
        (''displayMobile'', JBool True), (''displayDesktop'', JBool True)]),
      (''state'', JObj [(''filterField'', JStr ''state''), (''type'', JStr ''select''), (''text'', JStr ''State''),
        (''class'', JStr ''chosen-single''),
        (''options'', JArr [
           JObj [(''value'', JNum FILTER_ALL), (''text'', JStr ''All''), (''selected'', JBool True)],
           JObj [(''value'', JStr ''running''), (''text'', JStr ''Running''), (''selected'', JBool False)],
           JObj [(''value'', JStr ''stopped''), (''text'', JStr ''Stopped''), (''selected'', JBool False)],
           JObj [(''value'', JStr ''starting''), (''text'', JStr ''Starting''), (''selected'', JBool False)],
           JObj [(''value'', JStr ''stopping''), (''text'', JStr ''Stopping''), (''selected'', JBool False)],
           JObj [(''value'', JStr ''zombie''), (''text'', JStr ''Zombie''), (''selected'', JBool False)]]),
        (''displayMobile'', JBool False), (''displayDesktop'', JBool True), (''acls'', JStr ''vm.see.state'')]),
      (''user'', JObj [(''filterField'', JStr ''user_id''), (''type'', JStr ''select''), (''text'', JStr ''User''),
        (''class'', JStr ''chosen-advanced''), (''fillable'', JBool True),
        (''options'', JArr [
           JObj [(''value'', JNum FILTER_ALL), (''text'', JStr ''All''), (''selected'', JBool True)]]),
        (''displayMobile'', JBool False), (''displayDesktop'', JBool True), (''acls'', JStr ''vm.see.user''),
        (''tenantDepent'', JBool True)]),
      (''osf'', JObj [(''filterField'', JStr ''osf_id''), (''type'', JStr ''select''), (''text'', JStr ''OS Flavour''),
        (''class'', JStr ''chosen-advanced''), (''fillable'', JBool True),
        (''options'', JArr [
           JObj [(''value'', JNum FILTER_ALL), (''text'', JStr ''All''), (''selected'', JBool True)]]),
        (''displayMobile'', JBool False), (''displayDesktop'', JBool True), (''acls'', JStr ''vm.see.osf''),
        (''tenantDepent'', JBool True)]),
      (''host'', JObj [(''filterField'', JStr ''host_id''), (''type'', JStr ''select''), (''text'', JStr ''Node''),
        (''class'', JStr ''chosen-advanced''), (''fillable'', JBool True),
        (''options'', JArr [
           JObj [(''value'', JNum FILTER_ALL), (''text'', JStr ''All''), (''selected'', JBool True)]]),
        (''displayMobile'', JBool False), (''displayDesktop'', JBool True), (''acls'', JStr ''vm.see.host'')]),
      (''blocked'', JObj [(''filterField'', JStr ''blocked''), (''type'', JStr ''select''), (''text'', JStr ''Blocking''),
        (''class'', JStr ''chosen-single''), (''fillable'', JBool False),
        (''options'', JArr [
           JObj [(''value'', JNum FILTER_ALL), (''text'', JStr ''All''), (''selected'', JBool True)],
           JObj [(''value'', JNum 1), (''text'', JStr ''Blocked'')],
           JObj [(''value'', JNum 0), (''text'', JStr ''Unblocked'')]]), (''displayMobile'', JBool False),
        (''displayDesktop'', JBool True), (''acls'', JStr ''vm.see.block'')])]"

definition vm_formFilters2 :: "js obj" where
  "vm_formFilters2 =
     [(''administrator'', JObj [(''filterField'', JStr ''creation_admin_id''), (''type'', JStr ''select''),
        (''text'', JStr ''Created by''), (''class'', JStr ''chosen-advanced''), (''fillable'', JBool True),
        (''options'', JArr [
           JObj [(''value'', JNum FILTER_ALL), (''text'', JStr ''All''), (''selected'', JBool True)]]),
        (''displayMobile'', JBool False), (''displayDesktop'', JBool False),
        (''acls'', JStr ''vm.see.created-by'')]),
      (''expiration_hard'', JObj [(''filterField'', JStr ''expiration_hard''), (''type'', JStr ''select''), (''text'', JStr ''Expire in''),
        (''class'', JStr ''chosen-single''), (''fillable'', JBool False),
        (''transform'', JStr ''dateLessThanFuture''), (''options'', ANTIQUITY_OPTIONS),
        (''displayMobile'', JBool False), (''displayDesktop'', JBool True),
        (''acls'', JStr ''vm.see.expiration'')]),
      (''antiquity'', JObj [(''filterField'', JStr ''creation_date''), (''type'', JStr ''select''), (''text'', JStr ''Antiquity''),
        (''class'', JStr ''chosen-single''), (''fillable'', JBool False),
        (''transform'', JStr ''dateGreatThanPast''), (''options'', ANTIQUITY_OPTIONS),
        (''displayMobile'', JBool False), (''displayDesktop'', JBool False),
        (''acls'', JStr ''vm.see.creation-date'')]),
      (''min_date'', JObj [(''filterField'', JStr ''creation_date''), (''type'', JStr ''text''),
        (''text'', JStr ''Min creation date''), (''transform'', JStr ''dateMin''),
        (''class'', JStr ''datepicker-past date-filter''), (''displayMobile'', JBool False),
        (''displayDesktop'', JBool False), (''acls'', JStr ''vm.see.creation-date'')]),
      (''max_date'', JObj [(''filterField'', JStr ''creation_date''), (''type'', JStr ''text''),
        (''text'', JStr ''Max creation date''), (''transform'', JStr ''dateMax''),
        (''class'', JStr ''datepicker-past date-filter''), (''displayMobile'', JBool False),
        (''displayDesktop'', JBool False), (''acls'', JStr ''vm.see.creation-date'')])]"

definition vm_formFilters :: "js obj" where
  "vm_formFilters = vm_formFilters1 @ vm_formFilters2"

definition vm_selectedActions :: "js obj" where
  "vm_selectedActions =
     [(''massive_changes'', JObj [(''text'', JStr ''Edit''), (''groupAcls'', JStr ''vmMassiveEdit''), (''aclsLogic'', JStr ''OR''),
        (''iconClass'', JStr ''fa fa-pencil''), (''otherClass'', JStr ''js-only-massive'')]),
      (''changes'', JObj [(''text'', JStr ''Edit''), (''groupAcls'', JStr ''vmEdit''), (''aclsLogic'', JStr ''OR''),
        (''iconClass'', JStr ''fa fa-pencil''), (''otherClass'', JStr ''js-only-one'')]),
      (''start'', JObj [(''text'', JStr ''Start''), (''acls'', JStr ''vm.update.state''), (''iconClass'', JStr ''fa fa-play''),
        (''visibilityCondition'', JObj [(''type'', JStr ''eq''), (''field'', JStr ''state''), (''value'', JStr ''stopped'')])]),
      (''stop'', JObj [(''text'', JStr ''Stop''), (''acls'', JStr ''vm.update.state''), (''iconClass'', JStr ''fa fa-stop''),
        (''visibilityCondition'', JObj [(''type'', JStr ''eq''), (''field'', JStr ''state''), (''value'', JStr ''running OR starting'')])]),
      (''block'', JObj [(''text'', JStr ''Block''), (''acls'', JStr ''vm.update.block''), (''iconClass'', JStr ''fa fa-lock''),
        (''visibilityCondition'', JObj [(''type'', JStr ''eq''), (''field'', JStr ''blocked''), (''value'', JStr ''0'')])]),
      (''unblock'', JObj [(''text'', JStr ''Unblock''), (''acls'', JStr ''vm.update.block''),
        (''iconClass'', JStr ''fa fa-unlock-alt''),
        (''visibilityCondition'', JObj [(''type'', JStr ''eq''), (''field'', JStr ''blocked''), (''value'', JStr ''1'')])]),
      (''disconnect'', JObj [(''text'', JStr ''Disconnect user''), (''acls'', JStr ''vm.update.disconnect-user''),
        (''iconClass'', JStr ''fa fa-plug''),
        (''visibilityCondition'', JObj [(''type'', JStr ''eq''), (''field'', JStr ''user_state''), (''value'', JStr ''connected'')])]),
      (''spy'', JObj [(''text'', JStr ''Spy''), (''acls'', JStr ''vm.spy.''), (''iconClass'', JStr ''fa fa-user-secret''),
        (''otherClass'', JStr ''js-only-one''),
        (''visibilityCondition'', JObj [(''type'', JStr ''eq''), (''field'', JStr ''state''), (''value'', JStr ''running'')])]),
      (''delete'', JObj [(''text'', JStr ''Delete''), (''acls'', JStr ''vm.delete.''), (''iconClass'', JStr ''fa fa-trash''),
        (''darkButton'', JBool True)])]"

section \<open>\<open>default-di.js\<close>\<close>

definition di_listFields :: "js obj" where
  "di_listFields =
     [(''checks'', JObj [(''display'', JBool True), (''fields'', JArr []),
        (''acls'', JArr [JStr ''di.delete.'', JStr ''di.update.block'', JStr ''di.update.tags-add'', JStr ''di.update.tags-delete'', JStr ''di.update.properties'']),
        (''aclsLogic'', JStr ''OR''), (''fixed'', JBool True), (''text'', JStr ''checks''),
        (''sortable'', JBool False)]),
      (''info'', JObj [(''display'', JBool True), (''fields'', JArr [JStr ''blocked'', JStr ''tags'']),
        (''groupAcls'', JArr [JStr ''diInfo'', JStr ''osfDiEmbeddedInfo'', JStr ''tenantDiEmbeddedInfo'']),
        (''aclsLogic'', JStr ''OR''), (''text'', JStr ''Info''), (''sortable'', JBool False)]),
      (''id'', JObj [(''display'', JBool False), (''fields'', JArr [JStr ''id'']), (''acls'', JStr ''di.see.id''),
        (''text'', JStr ''Id''), (''sortable'', JBool True)]),
      (''disk_image'', JObj [(''display'', JBool True), (''fields'', JArr [JStr ''id'', JStr ''disk_image'']),
        (''text'', JStr ''Disk image''), (''sortable'', JBool True)]),
      (''description'', JObj [(''display'', JBool False), (''fields'', JArr [JStr ''description'']),
        (''acls'', JStr ''di.see.description''), (''text'', JStr ''Description''), (''sortable'', JBool True)]),
      (''osf'', JObj [(''display'', JBool True), (''fields'', JArr [JStr ''osf_id'', JStr ''osf_name'']),
        (''acls'', JStr ''di.see.osf''), (''text'', JStr ''OSF''), (''sortable'', JBool True)]),
      (''version'', JObj [(''display'', JBool True), (''fields'', JArr [JStr ''version'']), (''acls'', JStr ''di.see.version''),
        (''text'', JStr ''Version''), (''sortable'', JBool True)]),
      (''default'', JObj [(''display'', JBool False), (''fields'', JArr [JStr ''tags'']), (''acls'', JStr ''di.see.default''),
        (''text'', JStr ''Default''), (''sortable'', JBool False)]),
      (''head'', JObj [(''display'', JBool False), (''fields'', JArr [JStr ''tags'']), (''acls'', JStr ''di.see.head''),
        (''text'', JStr ''Head''), (''sortable'', JBool False)]),
      (''tags'', JObj [(''display'', JBool False), (''fields'', JArr [JStr ''tags'']), (''acls'', JStr ''di.see.tags''),
        (''text'', JStr ''Tags''), (''sortable'', JBool False)]),
      (''creation_date'', JObj [(''text'', JStr ''Creation date''), (''fields'', JArr [JStr ''creation_date'']),
        (''acls'', JStr ''di.see.creation-date''), (''display'', JBool False), (''sortable'', JBool True)]),
      (''creation_admin_name'', JObj [(''text'', JStr ''Created by''),
        (''fields'', JArr [JStr ''creation_admin_name'', JStr ''creation_admin_id'']),
        (''acls'', JStr ''di.see.created-by''), (''display'', JBool False), (''sortable'', JBool True)])]"

definition di_detailsFields1 :: "js obj" where
  "di_detailsFields1 =
     [(''general'', JObj [(''text'', JStr ''General''), (''default'', JBool True),
        (''fieldList'', JObj [(''id'', JObj [(''display'', JBool False), (''fields'', JArr [JStr ''id'']), (''acls'', JStr ''di.see.id''),
            (''text'', JStr ''Id''), (''icon'', JStr ''fa fa-asterisk'')]),
          (''state'', JObj [(''display'', JBool True), (''fields'', JArr [JStr ''state'']), (''text'', JStr ''State''),
            (''icon'', JStr ''fa fa-heart''),
            (''options'', JObj [(''new'', JObj [(''text'', JStr ''New''), (''icon'', JStr ''fa fa-star-o'')]),
              (''generating'', JObj [(''text'', JStr ''Generating''), (''icon'', JStr ''fa fa-magic faa-wrench animated'')]),
              (''fail'', JObj [(''text'', JStr ''Fail''), (''icon'', JStr ''fa fa-warning'')]),
              (''uploading'', JObj [(''text'', JStr ''Uploading''), (''icon'', JStr ''fa fa-upload faa-bounce animated'')]),
              (''upload_stalled'', JObj [(''text'', JStr ''Upload stalled''), (''icon'', JStr ''fa fa-warning'')]),
              (''verifying'', JObj [(''text'', JStr ''Verifying''), (''icon'', JStr ''fa fa-check faa-wrench animated'')]),
              (''ready'', JObj [(''text'', JStr ''Ready''), (''icon'', JStr ''fa fa-thumbs-up'')]),
              (''published'', JObj [(''text'', JStr ''Published''), (''icon'', JStr ''fa fa-globe'')]),
              (''retired'', JObj [(''text'', JStr ''Retired''), (''icon'', JStr ''fa fa-ban'')])])]),
          (''description'', JObj [(''display'', JBool True), (''fields'', JArr [JStr ''description'']),
            (''acls'', JStr ''di.see.description''), (''text'', JStr ''Description''),
            (''icon'', JStr ''fa fa-align-justify'')]),
          (''version'', JObj [(''display'', JBool True), (''fields'', JArr [JStr ''version'']),
            (''acls'', JStr ''di.see.version''), (''text'', JStr ''Version''), (''icon'', JStr ''fa fa-ticket'')]),
          (''block'', JObj [(''display'', JBool True), (''fields'', JArr [JStr ''id'']), (''acls'', JStr ''di.see.block''),
            (''text'', JStr ''Blocking''), (''icon'', JStr ''fa fa-lock'')]),
          (''osf'', JObj [(''display'', JBool True), (''fields'', JArr [JStr ''osf_id'', JStr ''osf_name'']),
            (''acls'', JStr ''di.see.osf''), (''text'', JStr ''OS Flavour''), (''icon'', JStr CLASS_ICON_OSFS)])])]),
      (''tags'', JObj [(''text'', JStr ''Tags''),
        (''fieldList'', JObj [(''default'', JObj [(''display'', JBool False), (''fields'', JArr [JStr ''default'']),
            (''acls'', JStr ''di.see.default''), (''text'', JStr ''Default''),
            (''onlyIfNotEmpty'', JStr ''default''), (''icon'', JStr ''fa fa-home'')]),
          (''head'', JObj [(''display'', JBool False), (''fields'', JArr [JStr ''head'']), (''acls'', JStr ''di.see.head''),
            (''text'', JStr ''Head''), (''onlyIfNotEmpty'', JStr ''head''), (''icon'', JStr ''fa fa-flag-o'')]),
          (''tags'', JObj [(''display'', JBool True), (''fields'', JArr [JStr ''id'']), (''acls'', JStr ''di.see.tags''),
            (''text'', JStr ''Tags''), (''icon'', JStr ''fa fa-tags'')])])])]"

definition di_detailsFields2 :: "js obj" where
  "di_detailsFields2 =
     [(''activity'', JObj [(''text'', JStr ''Activity''),
        (''fieldList'', JObj [(''creation_admin'', JObj [(''text'', JStr ''Created by''), (''fields'', JArr [JStr ''creation_admin'']),
            (''acls'', JStr ''di.see.created-by''), (''display'', JBool False),
            (''icon'', JStr CLASS_ICON_ADMINS)]),
          (''creation_date'', JObj [(''text'', JStr ''Creation date''), (''fields'', JArr [JStr ''creation_date'']),
            (''acls'', JStr ''di.see.creation-date''), (''display'', JBool False),
            (''icon'', JStr ''fa fa-clock-o'')]),
          (''auto_publish'', JObj [(''text'', JStr ''Auto-publish''), (''fields'', JArr [JStr ''auto_publish'']),
            (''display'', JBool False), (''icon'', JStr ''fa fa-rocket'')]),
          (''expire_vms'', JObj [(''text'', JStr ''Affected machines will expire''),
            (''fields'', JArr [JStr ''expiretion_time_hard'']), (''acls'', JStr ''di.see.creation-date''),
            (''display'', JBool False), (''icon'', JStr ''fa fa-hourglass-half'')])])])]"

definition di_detailsFields :: "js obj" where
  "di_detailsFields = di_detailsFields1 @ di_detailsFields2"

definition di_formFilters1 :: "js obj" where
  "di_formFilters1 =
     [(''name'', JObj [(''name'', JStr ''name''), (''filterField'', JStr ''disk_image''), (''type'', JStr ''text''),
        (''text'', JStr ''Disk image''), (''displayMobile'', JBool True), (''displayDesktop'', JBool True)]),
      (''osf'', JObj [(''name'', JStr ''osf''), (''filterField'', JStr ''osf_id''), (''type'', JStr ''select''),
        (''text'', JStr ''OS Flavour''), (''class'', JStr ''chosen-advanced''), (''fillable'', JBool True),
        (''tenantDepent'', JBool True), (''displayMobile'', JBool True), (''displayDesktop'', JBool True),
        (''options'', JArr [
           JObj [(''value'', JNum FILTER_ALL), (''text'', JStr ''All''), (''selected'', JBool True)]]),
        (''acls'', JStr ''di.see.osf'')]),
      (''blocked'', JObj [(''filterField'', JStr ''blocked''), (''type'', JStr ''select''), (''text'', JStr ''Blocking''),
        (''class'', JStr ''chosen-advanced''), (''fillable'', JBool False),
        (''options'', JArr [
           JObj [(''value'', JNum FILTER_ALL), (''text'', JStr ''All''), (''selected'', JBool True)],
           JObj [(''value'', JNum 1), (''text'', JStr ''Blocked'')],
           JObj [(''value'', JNum 0), (''text'', JStr ''Unblocked'')]]), (''displayMobile'', JBool False),
        (''displayDesktop'', JBool True), (''acls'', JStr ''di.see.block'')]),
      (''state'', JObj [(''filterField'', JStr ''state''), (''type'', JStr ''select''), (''text'', JStr ''State''),
        (''class'', JStr ''chosen-advanced''), (''fillable'', JBool False),
        (''options'', JArr [
           JObj [(''value'', JNum FILTER_ALL), (''text'', JStr ''All''), (''selected'', JBool True)],
           JObj [(''value'', JStr ''new''), (''text'', JStr ''New'')],
           JObj [(''value'', JStr ''generating''), (''text'', JStr ''Generating'')],
           JObj [(''value'', JStr ''fail''), (''text'', JStr ''Fail'')],
           JObj [(''value'', JStr ''uploading''), (''text'', JStr ''Uploading'')],
           JObj [(''value'', JStr ''upload_stalled''), (''text'', JStr ''Upload stalled'')],
           JObj [(''value'', JStr ''verifying''), (''text'', JStr ''Verifying'')],
           JObj [(''value'', JStr ''ready''), (''text'', JStr ''Ready'')],
           JObj [(''value'', JStr ''published''), (''text'', JStr ''Published'')],
           JObj [(''value'', JStr ''retired''), (''text'', JStr ''Retired'')]]),
        (''displayMobile'', JBool False), (''displayDesktop'', JBool True)]),
      (''administrator'', JObj [(''filterField'', JStr ''creation_admin_id''), (''type'', JStr ''select''),
        (''text'', JStr ''Created by''), (''class'', JStr ''chosen-advanced''), (''fillable'', JBool True),
        (''options'', JArr [
           JObj [(''value'', JNum FILTER_ALL), (''text'', JStr ''All''), (''selected'', JBool True)]]),
        (''displayMobile'', JBool False), (''displayDesktop'', JBool False),
        (''acls'', JStr ''di.see.created-by'')]),
      (''antiquity'', JObj [(''filterField'', JStr ''creation_date''), (''type'', JStr ''select''), (''text'', JStr ''Antiquity''),
        (''class'', JStr ''chosen-single''), (''fillable'', JBool False),
        (''transform'', JStr ''dateGreatThanPast''), (''options'', ANTIQUITY_OPTIONS),
        (''displayMobile'', JBool False), (''displayDesktop'', JBool False),
        (''acls'', JStr ''di.see.creation-date'')])]"

definition di_formFilters2 :: "js obj" where
  "di_formFilters2 =
     [(''min_date'', JObj [(''filterField'', JStr ''creation_date''), (''type'', JStr ''text''),
        (''text'', JStr ''Min creation date''), (''transform'', JStr ''dateMin''),
        (''class'', JStr ''datepicker-past date-filter''), (''displayMobile'', JBool False),
        (''displayDesktop'', JBool False), (''acls'', JStr ''di.see.creation-date'')]),
      (''max_date'', JObj [(''filterField'', JStr ''creation_date''), (''type'', JStr ''text''),
        (''text'', JStr ''Max creation date''), (''transform'', JStr ''dateMax''),
        (''class'', JStr ''datepicker-past date-filter''), (''displayMobile'', JBool False),
        (''displayDesktop'', JBool False), (''acls'', JStr ''di.see.creation-date'')])]"

definition di_formFilters :: "js obj" where
  "di_formFilters = di_formFilters1 @ di_formFilters2"

definition di_selectedActions :: "js obj" where
  "di_selectedActions =
     [(''massive_changes'', JObj [(''text'', JStr ''Edit''), (''groupAcls'', JStr ''diMassiveEdit''), (''aclsLogic'', JStr ''OR''),
        (''iconClass'', JStr ''fa fa-pencil''), (''otherClass'', JStr ''js-only-massive'')]),
      (''changes'', JObj [(''text'', JStr ''Edit''), (''groupAcls'', JStr ''diEdit''), (''aclsLogic'', JStr ''OR''),
        (''iconClass'', JStr ''fa fa-pencil''), (''otherClass'', JStr ''js-only-one'')]),
      (''default'', JObj [(''text'', JStr ''Default image''), (''acls'', JStr ''di.update.default''),
        (''iconClass'', JStr ''fa fa-home''), (''otherClass'', JStr ''js-only-one'')]),
      (''block'', JObj [(''text'', JStr ''Block''), (''acls'', JStr ''di.update.block''), (''iconClass'', JStr ''fa fa-lock''),
        (''visibilityCondition'', JObj [(''type'', JStr ''eq''), (''field'', JStr ''blocked''), (''value'', JStr ''0'')])]),
      (''unblock'', JObj [(''text'', JStr ''Unblock''), (''acls'', JStr ''di.update.block''),
        (''iconClass'', JStr ''fa fa-unlock-alt''),
        (''visibilityCondition'', JObj [(''type'', JStr ''eq''), (''field'', JStr ''blocked''), (''value'', JStr ''1'')])]),
      (''publish'', JObj [(''text'', JStr ''Publish''), (''acls'', JStr ''di.update.publish''),
        (''iconClass'', JStr ''fa fa-rocket''),
        (''visibilityCondition'', JObj [(''type'', JStr ''eq''), (''field'', JStr ''state''), (''value'', JStr ''ready'')]),
        (''otherClass'', JStr ''js-only-one'')]),
      (''delete'', JObj [(''text'', JStr ''Delete''), (''acls'', JStr ''di.delete.''), (''iconClass'', JStr ''fa fa-trash''),
        (''darkButton'', JBool True)])]"

section \<open>\<open>default-osf.js\<close>\<close>

definition osf_listFields :: "js obj" where
  "osf_listFields =
     [(''checks'', JObj [(''display'', JBool True), (''fields'', JArr []),
        (''acls'', JArr [JStr ''osf.delete.'', JStr ''osf.update.memory'', JStr ''osf.update.user-storage'', JStr ''osf.update.properties'']),
        (''aclsLogic'', JStr ''OR''), (''fixed'', JBool True), (''sortable'', JBool False)]),
      (''id'', JObj [(''display'', JBool False), (''fields'', JArr [JStr ''id'']), (''acls'', JStr ''osf.see.id''),
        (''text'', JStr ''Id''), (''sortable'', JBool True)]),
      (''name'', JObj [(''display'', JBool True), (''fields'', JArr [JStr ''id'', JStr ''name'']), (''text'', JStr ''Name''),
        (''fixed'', JBool True), (''sortable'', JBool True)]),
      (''description'', JObj [(''display'', JBool False), (''fields'', JArr [JStr ''description'']),
        (''acls'', JStr ''osf.see.description''), (''text'', JStr ''Description''), (''sortable'', JBool True)]),
      (''overlay'', JObj [(''display'', JBool True), (''fields'', JArr [JStr ''overlay'']), (''acls'', JStr ''osf.see.overlay''),
        (''text'', JStr ''Overlay''), (''sortable'', JBool True)]),
      (''memory'', JObj [(''display'', JBool True), (''fields'', JArr [JStr ''memory'']), (''acls'', JStr ''osf.see.memory''),
        (''text'', JStr ''Memory''), (''sortable'', JBool True)]),
      (''user_storage'', JObj [(''display'', JBool True), (''fields'', JArr [JStr ''user_storage'']),
        (''acls'', JStr ''osf.see.user-storage''), (''text'', JStr ''User storage''), (''sortable'', JBool True)]),
      (''dis'', JObj [(''display'', JBool True), (''fields'', JArr [JStr ''id'', JStr ''dis'']),
        (''acls'', JStr ''osf.see.dis-info''), (''text'', JStr ''DIs''), (''sortable'', JBool False)]),
      (''vms'', JObj [(''display'', JBool True), (''fields'', JArr [JStr ''id'', JStr ''vms'']),
        (''acls'', JStr ''osf.see.vms-info''), (''text'', JStr ''VMs''), (''sortable'', JBool False)]),
      (''creation_date'', JObj [(''text'', JStr ''Creation date''), (''fields'', JArr [JStr ''creation_date'']),
        (''acls'', JStr ''osf.see.creation-date''), (''display'', JBool False), (''sortable'', JBool False)]),
      (''creation_admin_name'', JObj [(''text'', JStr ''Created by''), (''fields'', JArr [JStr ''creation_admin'']),
        (''acls'', JStr ''osf.see.created-by''), (''display'', JBool False), (''sortable'', JBool False)])]"

definition osf_detailsFields :: "js obj" where
  "osf_detailsFields =
     [(''general'', JObj [(''text'', JStr ''General''), (''default'', JBool True),
        (''fieldList'', JObj [(''id'', JObj [(''display'', JBool False), (''fields'', JArr [JStr ''id'']), (''acls'', JStr ''osf.see.id''),
            (''text'', JStr ''Id''), (''icon'', JStr ''fa fa-asterisk'')]),
          (''description'', JObj [(''display'', JBool False), (''fields'', JArr [JStr ''description'']),
            (''acls'', JStr ''osf.see.description''), (''text'', JStr ''Description''),
            (''icon'', JStr ''fa fa-align-justify'')])])]),
      (''hardware'', JObj [(''text'', JStr ''Hardware''),
        (''fieldList'', JObj [(''memory'', JObj [(''display'', JBool True), (''fields'', JArr [JStr ''memory'']), (''acls'', JStr ''osf.see.memory''),
            (''text'', JStr ''Memory''), (''icon'', JStr ''fa fa-bolt'')]),
          (''user_storage'', JObj [(''display'', JBool True), (''fields'', JArr [JStr ''user_storage'']),
            (''acls'', JStr ''osf.see.user-storage''), (''text'', JStr ''User storage''),
            (''icon'', JStr ''fa fa-archive'')]),
          (''overlay'', JObj [(''display'', JBool True), (''fields'', JArr [JStr ''overlay'']),
            (''acls'', JStr ''osf.see.overlay''), (''text'', JStr ''Overlay''),
            (''icon'', JStr ''fa fa-exchange'')])])]),
      (''os'', JObj [(''text'', JStr ''Operating system''), (''bb'', JStr ''bb-os-configuration'')]),
      (''activity'', JObj [(''text'', JStr ''Activity''),
        (''fieldList'', JObj [(''creation_admin'', JObj [(''text'', JStr ''Created by''),
            (''fields'', JArr [JStr ''creation_admin_name'', JStr ''creation_admin_id'']),
            (''acls'', JStr ''osf.see.created-by''), (''display'', JBool False),
            (''icon'', JStr ''fa fa-clock-o'')]),
          (''creation_date'', JObj [(''text'', JStr ''Creation date''), (''fields'', JArr [JStr ''creation_date'']),
            (''acls'', JStr ''osf.see.creation-date''), (''display'', JBool False),
            (''icon'', JStr CLASS_ICON_ADMINS)]),
          (''vms'', JObj [(''display'', JBool True), (''fields'', JArr [JStr ''id'', JStr ''vms'']),
            (''acls'', JStr ''osf.see.vms-info''), (''text'', JStr ''VMs''), (''icon'', JStr CLASS_ICON_VMS)]),
          (''dis'', JObj [(''display'', JBool True), (''fields'', JArr [JStr ''id'', JStr ''dis'']),
            (''acls'', JStr ''osf.see.dis-info''), (''text'', JStr ''DIs''), (''icon'', JStr CLASS_ICON_DIS)])])])]"

definition osf_formFilters :: "js obj" where
  "osf_formFilters =
     [(''name'', JObj [(''filterField'', JStr ''name''), (''type'', JStr ''text''), (''text'', JStr ''Name''),
        (''displayMobile'', JBool True), (''displayDesktop'', JBool True)]),
      (''vm'', JObj [(''filterField'', JStr ''vm_id''), (''type'', JStr ''select''), (''text'', JStr ''Virtual machine''),
        (''class'', JStr ''chosen-advanced''), (''fillable'', JBool True), (''tenantDepent'', JBool True),
        (''options'', JArr [
           JObj [(''value'', JNum FILTER_ALL), (''text'', JStr ''All''), (''selected'', JBool True)]]),
        (''displayMobile'', JBool False), (''displayDesktop'', JBool True), (''acls'', JStr ''osf.see.vm-list'')]),
      (''di'', JObj [(''filterField'', JStr ''di_id''), (''type'', JStr ''select''), (''text'', JStr ''Disk image''),
        (''class'', JStr ''chosen-advanced''), (''fillable'', JBool True), (''tenantDepent'', JBool True),
        (''options'', JArr [
           JObj [(''value'', JNum FILTER_ALL), (''text'', JStr ''All''), (''selected'', JBool True)]]),
        (''displayMobile'', JBool False), (''displayDesktop'', JBool True), (''acls'', JStr ''osf.see.di-list'')]),
      (''administrator'', JObj [(''filterField'', JStr ''creation_admin_id''), (''type'', JStr ''select''),
        (''text'', JStr ''Created by''), (''class'', JStr ''chosen-advanced''), (''fillable'', JBool True),
        (''options'', JArr [
           JObj [(''value'', JNum FILTER_ALL), (''text'', JStr ''All''), (''selected'', JBool True)]]),
        (''displayMobile'', JBool False), (''displayDesktop'', JBool False),
        (''acls'', JStr ''osf.see.created-by'')]),
      (''antiquity'', JObj [(''filterField'', JStr ''creation_date''), (''type'', JStr ''select''), (''text'', JStr ''Antiquity''),
        (''class'', JStr ''chosen-single''), (''fillable'', JBool False),
        (''transform'', JStr ''dateGreatThanPast''), (''options'', ANTIQUITY_OPTIONS),
        (''displayMobile'', JBool False), (''displayDesktop'', JBool False),
        (''acls'', JStr ''osf.see.creation-date'')]),
      (''min_date'', JObj [(''filterField'', JStr ''creation_date''), (''type'', JStr ''text''),
        (''text'', JStr ''Min creation date''), (''transform'', JStr ''dateMin''),
        (''class'', JStr ''datepicker-past date-filter''), (''displayMobile'', JBool False),
        (''displayDesktop'', JBool False), (''acls'', JStr ''osf.see.creation-date'')]),
      (''max_date'', JObj [(''filterField'', JStr ''creation_date''), (''type'', JStr ''text''),
        (''text'', JStr ''Max creation date''), (''transform'', JStr ''dateMax''),
        (''class'', JStr ''datepicker-past date-filter''), (''displayMobile'', JBool False),
        (''displayDesktop'', JBool False), (''acls'', JStr ''osf.see.creation-date'')])]"

definition osf_selectedActions :: "js obj" where
  "osf_selectedActions =
     [(''massive_changes'', JObj [(''text'', JStr ''Edit''), (''groupAcls'', JStr ''osfMassiveEdit''), (''aclsLogic'', JStr ''OR''),
        (''iconClass'', JStr ''fa fa-pencil''), (''otherClass'', JStr ''js-only-massive'')]),
      (''changes'', JObj [(''text'', JStr ''Edit''), (''groupAcls'', JStr ''osfEdit''), (''aclsLogic'', JStr ''OR''),
        (''iconClass'', JStr ''fa fa-pencil''), (''otherClass'', JStr ''js-only-one'')]),
      (''new_osf_di'', JObj [(''text'', JStr ''New Disk image''), (''iconClass'', JStr CLASS_ICON_DIS),
        (''acls'', JStr ''di.create.''), (''otherClass'', JStr ''js-only-one'')]),
      (''delete'', JObj [(''text'', JStr ''Delete''), (''acls'', JStr ''osf.delete.''), (''iconClass'', JStr ''fa fa-trash''),
        (''darkButton'', JBool True)])]"

end
