(* ===== verification/DefaultsB.thy ===== *)
theory DefaultsB
  imports DefaultsA
begin

text \<open>
  The tables of the users, nodes, tenants, roles, administrators and log registers
  (\<open>wat/lib/settings/default-user.js\<close>, \<open>default-host.js\<close>, \<open>default-tenant.js\<close>, \<open>default-role.js\<close>,
  \<open>default-administrator.js\<close>, \<open>default-log.js\<close>), as in \<open>DefaultsA\<close>.
\<close>

section \<open>\<open>default-user.js\<close>\<close>

definition user_listFields :: "js obj" where
  "user_listFields =
     [(''checks'', JObj [(''display'', JBool True), (''fields'', JArr []), (''fixed'', JBool True),
        (''groupAcls'', JStr ''userMassiveActions''), (''aclsLogic'', JStr ''OR''), (''text'', JStr ''''),
        (''sortable'', JBool False)]),
      (''info'', JObj [(''display'', JBool True), (''fields'', JArr [JStr ''blocked'']),
        (''groupAcls'', JArr [JStr ''userInfo'', JStr ''tenantUserEmbeddedInfo'']), (''aclsLogic'', JStr ''OR''),
        (''text'', JStr ''Info''), (''sortable'', JBool False)]),
      (''id'', JObj [(''display'', JBool False), (''fields'', JArr [JStr ''id'']), (''acls'', JStr ''user.see.id''),
        (''text'', JStr ''Id''), (''sortable'', JBool True)]),
      (''name'', JObj [(''display'', JBool True), (''fields'', JArr [JStr ''id'', JStr ''name'']), (''text'', JStr ''Name''),
        (''fixed'', JBool True), (''sortable'', JBool True)]),
      (''description'', JObj [(''display'', JBool False), (''fields'', JArr [JStr ''description'']),
        (''acls'', JStr ''user.see.description''), (''text'', JStr ''Description''), (''sortable'', JBool True)]),
      (''connected_vms'', JObj [(''display'', JBool True),
        (''fields'', JArr [JStr ''id'', JStr ''number_of_vms'', JStr ''number_of_vms_connected'']),
        (''acls'', JStr ''user.see.vms-info''), (''text'', JStr ''Connected VMs''), (''sortable'', JBool False)]),
      (''creation_date'', JObj [(''text'', JStr ''Creation date''), (''fields'', JArr [JStr ''creation_date'']),
        (''acls'', JStr ''user.see.creation-date''), (''display'', JBool False), (''sortable'', JBool True)]),
      (''creation_admin_name'', JObj [(''text'', JStr ''Created by''),
        (''fields'', JArr [JStr ''creation_admin_name'', JStr ''creation_admin_id'']),
        (''acls'', JStr ''user.see.created-by''), (''display'', JBool False), (''sortable'', JBool True)])]"

definition user_detailsFields :: "js obj" where
  "user_detailsFields =
     [(''general'', JObj [(''text'', JStr ''General''), (''default'', JBool True),
        (''fieldList'', JObj [(''id'', JObj [(''display'', JBool True), (''fields'', JArr [JStr ''id'']), (''acls'', JStr ''user.see.id''),
            (''text'', JStr ''Id''), (''icon'', JStr ''fa fa-asterisk'')]),
          (''global_username'', JObj [(''display'', JBool True), (''fields'', JArr [JStr ''id'']), (''text'', JStr ''Global username''),
            (''icon'', JStr ''fa fa-sitemap''), (''onlyMultitenant'', JBool True)]),
          (''description'', JObj [(''display'', JBool True), (''fields'', JArr [JStr ''description'']),
            (''acls'', JStr ''user.see.description''), (''text'', JStr ''Description''),
            (''icon'', JStr ''fa fa-align-justify'')]),
          (''block'', JObj [(''display'', JBool True), (''fields'', JArr [JStr ''id'']), (''acls'', JStr ''user.see.block''),
            (''text'', JStr ''Blocking''), (''icon'', JStr ''fa fa-lock'')])])]),
      (''activity'', JObj [(''text'', JStr ''Activity''),
        (''fieldList'', JObj [(''creation_admin'', JObj [(''text'', JStr ''Created by''), (''fields'', JArr [JStr ''creation_admin'']),
            (''acls'', JStr ''user.see.created-by''), (''display'', JBool True),
            (''icon'', JStr CLASS_ICON_ADMINS)]),
          (''creation_date'', JObj [(''text'', JStr ''Creation date''), (''fields'', JArr [JStr ''creation_date'']),
            (''acls'', JStr ''user.see.creation-date''), (''display'', JBool True),
            (''icon'', JStr ''fa fa-clock-o'')]),
          (''connected_vms'', JObj [(''display'', JBool True),
            (''fields'', JArr [JStr ''id'', JStr ''number_of_vms'', JStr ''number_of_vms_connected'']),
            (''acls'', JStr ''user.see.vms-info''), (''text'', JStr ''Connected VMs''),
            (''icon'', JStr CLASS_ICON_VMS)])])])]"

definition user_formFilters :: "js obj" where
  "user_formFilters =
     [(''name'', JObj [(''filterField'', JStr ''name''), (''type'', JStr ''text''), (''text'', JStr ''Name''),
        (''displayMobile'', JBool True), (''displayDesktop'', JBool True)]),
      (''blocked'', JObj [(''filterField'', JStr ''blocked''), (''type'', JStr ''select''), (''text'', JStr ''Blocking''),
        (''class'', JStr ''chosen-advanced''), (''fillable'', JBool False),
        (''options'', JArr [
           JObj [(''value'', JNum FILTER_ALL), (''text'', JStr ''All''), (''selected'', JBool True)],
           JObj [(''value'', JNum 1), (''text'', JStr ''Blocked'')],
           JObj [(''value'', JNum 0), (''text'', JStr ''Unblocked'')]]), (''displayMobile'', JBool False),
        (''displayDesktop'', JBool True), (''acls'', JStr ''user.see.block'')]),
      (''administrator'', JObj [(''filterField'', JStr ''creation_admin_id''), (''type'', JStr ''select''),
        (''text'', JStr ''Created by''), (''class'', JStr ''chosen-advanced''), (''fillable'', JBool True),
        (''tenantDepent'', JBool True),
        (''options'', JArr [
           JObj [(''value'', JNum FILTER_ALL), (''text'', JStr ''All''), (''selected'', JBool True)]]),
        (''displayMobile'', JBool False), (''displayDesktop'', JBool False),
        (''acls'', JStr ''user.see.created-by'')]),
      (''antiquity'', JObj [(''filterField'', JStr ''creation_date''), (''type'', JStr ''select''), (''text'', JStr ''Antiquity''),
        (''class'', JStr ''chosen-single''), (''fillable'', JBool False),
        (''transform'', JStr ''dateGreatThanPast''), (''options'', ANTIQUITY_OPTIONS),
        (''displayMobile'', JBool False), (''displayDesktop'', JBool False),
        (''acls'', JStr ''user.see.creation-date'')]),
      (''min_date'', JObj [(''filterField'', JStr ''creation_date''), (''type'', JStr ''text''),
        (''text'', JStr ''Min creation date''), (''transform'', JStr ''dateMin''),
        (''class'', JStr ''datepicker-past date-filter''), (''displayMobile'', JBool False),
        (''displayDesktop'', JBool False), (''acls'', JStr ''user.see.creation-date'')]),
      (''max_date'', JObj [(''filterField'', JStr ''creation_date''), (''type'', JStr ''text''),
        (''text'', JStr ''Max creation date''), (''transform'', JStr ''dateMax''),
        (''class'', JStr ''datepicker-past date-filter''), (''displayMobile'', JBool False),
        (''displayDesktop'', JBool False), (''acls'', JStr ''user.see.creation-date'')])]"

definition user_selectedActions :: "js obj" where
  "user_selectedActions =
     [(''massive_changes'', JObj [(''text'', JStr ''Edit''), (''groupAcls'', JStr ''userMassiveEdit''), (''aclsLogic'', JStr ''OR''),
        (''iconClass'', JStr ''fa fa-pencil''), (''otherClass'', JStr ''js-only-massive'')]),
      (''changes'', JObj [(''text'', JStr ''Edit''), (''groupAcls'', JStr ''userEdit''), (''aclsLogic'', JStr ''OR''),
        (''iconClass'', JStr ''fa fa-pencil''), (''otherClass'', JStr ''js-only-one'')]),
      (''block'', JObj [(''text'', JStr ''Block''), (''acls'', JStr ''user.update.block''), (''iconClass'', JStr ''fa fa-lock''),
        (''visibilityCondition'', JObj [(''type'', JStr ''eq''), (''field'', JStr ''blocked''), (''value'', JStr ''0'')])]),
      (''unblock'', JObj [(''text'', JStr ''Unblock''), (''acls'', JStr ''user.update.block''),
        (''iconClass'', JStr ''fa fa-unlock-alt''),
        (''visibilityCondition'', JObj [(''type'', JStr ''eq''), (''field'', JStr ''blocked''), (''value'', JStr ''1'')])]),
      (''disconnect_all'', JObj [(''text'', JStr ''Disconnect''), (''acls'', JStr ''vm.update.disconnect-user''),
        (''iconClass'', JStr ''fa fa-plug''),
        (''visibilityCondition'', JObj [(''type'', JStr ''ne''), (''field'', JStr ''number_of_vms_connected''), (''value'', JStr ''0'')])]),
      (''delete'', JObj [(''text'', JStr ''Delete''), (''acls'', JStr ''user.delete.''), (''iconClass'', JStr ''fa fa-trash''),
        (''darkButton'', JBool True)])]"

section \<open>\<open>default-host.js\<close>\<close>

definition host_listFields :: "js obj" where
  "host_listFields =
     [(''checks'', JObj [(''display'', JBool True), (''fields'', JArr []),
        (''acls'', JArr [JStr ''host.delete.'', JStr ''host.update.block'', JStr ''host.update.stop-vms'', JStr ''host.update.properties'']),
        (''aclsLogic'', JStr ''OR''), (''fixed'', JBool True), (''sortable'', JBool False)]),
      (''info'', JObj [(''display'', JBool True), (''fields'', JArr [JStr ''state'', JStr ''blocked'']),
        (''acls'', JArr [JStr ''host.see.block'', JStr ''host.see.state'']), (''aclsLogic'', JStr ''OR''),
        (''text'', JStr ''Info''), (''sortable'', JBool False)]),
      (''id'', JObj [(''display'', JBool False), (''fields'', JArr [JStr ''id'']), (''acls'', JStr ''host.see.id''),
        (''text'', JStr ''Id''), (''sortable'', JBool True)]),
      (''name'', JObj [(''display'', JBool True), (''fields'', JArr [JStr ''id'', JStr ''name'']), (''text'', JStr ''Name''),
        (''fixed'', JBool True), (''sortable'', JBool True)]),
      (''description'', JObj [(''display'', JBool False), (''fields'', JArr [JStr ''description'']),
        (''acls'', JStr ''host.see.description''), (''text'', JStr ''Description''), (''sortable'', JBool True)]),
      (''state'', JObj [(''display'', JBool False), (''fields'', JArr [JStr ''state'']), (''acls'', JStr ''host.see.state''),
        (''text'', JStr ''State''), (''sortable'', JBool True)]),
      (''address'', JObj [(''display'', JBool True), (''fields'', JArr [JStr ''address'']), (''acls'', JStr ''host.see.address''),
        (''text'', JStr ''IP address''), (''sortable'', JBool True)]),
      (''vms_connected'', JObj [(''display'', JBool True), (''fields'', JArr [JStr ''id'', JStr ''vms_connected'']),
        (''acls'', JStr ''host.see.vms-info''), (''text'', JStr ''Running VMs''), (''sortable'', JBool False)]),
      (''creation_date'', JObj [(''text'', JStr ''Creation date''), (''fields'', JArr [JStr ''creation_date'']),
        (''acls'', JStr ''host.see.creation-date''), (''display'', JBool False), (''sortable'', JBool True)]),
      (''creation_admin_name'', JObj [(''text'', JStr ''Created by''),
        (''fields'', JArr [JStr ''creation_admin_name'', JStr ''creation_admin_id'']),
        (''acls'', JStr ''host.see.created-by''), (''display'', JBool False), (''sortable'', JBool True)])]"

definition host_detailsFields :: "js obj" where
  "host_detailsFields =
     [(''general'', JObj [(''text'', JStr ''General''), (''default'', JBool True),
        (''fieldList'', JObj [(''id'', JObj [(''display'', JBool False), (''fields'', JArr [JStr ''id'']), (''acls'', JStr ''host.see.id''),
            (''text'', JStr ''Id''), (''icon'', JStr ''fa fa-asterisk'')]),
          (''description'', JObj [(''display'', JBool False), (''fields'', JArr [JStr ''description'']),
            (''acls'', JStr ''host.see.description''), (''text'', JStr ''Description''),
            (''icon'', JStr ''fa fa-align-justify'')]),
          (''state'', JObj [(''display'', JBool False), (''fields'', JArr [JStr ''state'']), (''acls'', JStr ''host.see.state''),
            (''text'', JStr ''State''), (''icon'', JStr ''fa fa-heart'')]),
          (''block'', JObj [(''display'', JBool True), (''fields'', JArr [JStr ''id'']), (''acls'', JStr ''host.see.block''),
            (''text'', JStr ''Blocking''), (''icon'', JStr ''fa fa-lock'')])])]),
      (''network'', JObj [(''text'', JStr ''Network''),
        (''fieldList'', JObj [(''address'', JObj [(''display'', JBool True), (''fields'', JArr [JStr ''address'']),
            (''acls'', JStr ''host.see.address''), (''text'', JStr ''IP address''),
            (''icon'', JStr ''fa fa-ellipsis-h'')])])]),
      (''activity'', JObj [(''text'', JStr ''Activity''),
        (''fieldList'', JObj [(''creation_admin'', JObj [(''text'', JStr ''Created by''), (''fields'', JArr [JStr ''creation_admin'']),
            (''acls'', JStr ''host.see.created-by''), (''display'', JBool False),
            (''icon'', JStr CLASS_ICON_ADMINS)]),
          (''creation_date'', JObj [(''text'', JStr ''Creation date''), (''fields'', JArr [JStr ''creation_date'']),
            (''acls'', JStr ''host.see.creation-date''), (''display'', JBool False),
            (''icon'', JStr ''fa-clock-o'')]),
          (''connected_vms'', JObj [(''display'', JBool True), (''fields'', JArr [JStr ''id'', JStr ''number_of_vms_connected'']),
            (''acls'', JStr ''host.see.vms-info''), (''text'', JStr ''Running VMs''),
            (''icon'', JStr CLASS_ICON_VMS)])])])]"

definition host_formFilters :: "js obj" where
  "host_formFilters =
     [(''name'', JObj [(''filterField'', JStr ''name''), (''type'', JStr ''text''), (''text'', JStr ''Name''),
        (''displayMobile'', JBool True), (''displayDesktop'', JBool True)]),
      (''state'', JObj [(''filterField'', JStr ''state''), (''type'', JStr ''select''), (''text'', JStr ''State''),
        (''class'', JStr ''chosen-single''),
        (''options'', JArr [
           JObj [(''value'', JNum FILTER_ALL), (''text'', JStr ''All''), (''selected'', JBool True)],
           JObj [(''value'', JStr ''running''), (''text'', JStr ''Running''), (''selected'', JBool False)],
           JObj [(''value'', JStr ''stopped''), (''text'', JStr ''Stopped''), (''selected'', JBool False)],
           JObj [(''value'', JStr ''starting''), (''text'', JStr ''Starting''), (''selected'', JBool False)],
           JObj [(''value'', JStr ''stopping''), (''text'', JStr ''Stopping''), (''selected'', JBool False)],
           JObj [(''value'', JStr ''lost''), (''text'', JStr ''Lost''), (''selected'', JBool False)]]),
        (''displayMobile'', JBool False), (''displayDesktop'', JBool True), (''acls'', JStr ''host.see.state'')]),
      (''vm'', JObj [(''filterField'', JStr ''vm_id''), (''type'', JStr ''select''), (''text'', JStr ''Virtual machine''),
        (''class'', JStr ''chosen-advanced''), (''fillable'', JBool True),
        (''options'', JArr [
           JObj [(''value'', JNum FILTER_ALL), (''text'', JStr ''All''), (''selected'', JBool True)]]),
        (''displayMobile'', JBool False), (''displayDesktop'', JBool True),
        (''acls'', JStr ''host.see.vm-list'')]),
      (''blocked'', JObj [(''filterField'', JStr ''blocked''), (''type'', JStr ''select''), (''text'', JStr ''Blocking''),
        (''class'', JStr ''chosen-advanced''), (''fillable'', JBool False),
        (''options'', JArr [
           JObj [(''value'', JNum FILTER_ALL), (''text'', JStr ''All''), (''selected'', JBool True)],
           JObj [(''value'', JNum 1), (''text'', JStr ''Blocked'')],
           JObj [(''value'', JNum 0), (''text'', JStr ''Unblocked'')]]), (''displayMobile'', JBool False),
        (''displayDesktop'', JBool True), (''acls'', JStr ''host.see.block'')]),
      (''administrator'', JObj [(''filterField'', JStr ''creation_admin_id''), (''type'', JStr ''select''),
        (''text'', JStr ''Created by''), (''class'', JStr ''chosen-advanced''), (''fillable'', JBool True),
        (''options'', JArr [
           JObj [(''value'', JNum FILTER_ALL), (''text'', JStr ''All''), (''selected'', JBool True)]]),
        (''displayMobile'', JBool False), (''displayDesktop'', JBool False),
        (''acls'', JStr ''host.see.created-by'')]),
      (''antiquity'', JObj [(''filterField'', JStr ''creation_date''), (''type'', JStr ''select''), (''text'', JStr ''Antiquity''),
        (''class'', JStr ''chosen-single''), (''fillable'', JBool False),
        (''transform'', JStr ''dateGreatThanPast''), (''options'', ANTIQUITY_OPTIONS),
        (''displayMobile'', JBool False), (''displayDesktop'', JBool False),
        (''acls'', JStr ''host.see.creation-date'')]),
      (''min_date'', JObj [(''filterField'', JStr ''creation_date''), (''type'', JStr ''text''),
        (''text'', JStr ''Min creation date''), (''transform'', JStr ''dateMin''),
        (''class'', JStr ''datepicker-past date-filter''), (''displayMobile'', JBool False),
        (''displayDesktop'', JBool False), (''acls'', JStr ''host.see.creation-date'')]),
      (''max_date'', JObj [(''filterField'', JStr ''creation_date''), (''type'', JStr ''text''),
        (''text'', JStr ''Max creation date''), (''transform'', JStr ''dateMax''),
        (''class'', JStr ''datepicker-past date-filter''), (''displayMobile'', JBool False),
        (''displayDesktop'', JBool False), (''acls'', JStr ''host.see.creation-date'')])]"

definition host_selectedActions :: "js obj" where
  "host_selectedActions =
     [(''massive_changes'', JObj [(''text'', JStr ''Edit''), (''groupAcls'', JStr ''hostMassiveEdit''), (''aclsLogic'', JStr ''OR''),
        (''iconClass'', JStr ''fa fa-pencil''), (''otherClass'', JStr ''js-only-massive'')]),
      (''changes'', JObj [(''text'', JStr ''Edit''), (''groupAcls'', JStr ''hostEdit''), (''aclsLogic'', JStr ''OR''),
        (''iconClass'', JStr ''fa fa-pencil''), (''otherClass'', JStr ''js-only-one'')]),
      (''block'', JObj [(''text'', JStr ''Block''), (''acls'', JStr ''host.update.block''), (''iconClass'', JStr ''fa fa-lock''),
        (''visibilityCondition'', JObj [(''type'', JStr ''eq''), (''field'', JStr ''blocked''), (''value'', JStr ''0'')])]),
      (''unblock'', JObj [(''text'', JStr ''Unblock''), (''acls'', JStr ''host.update.block''),
        (''iconClass'', JStr ''fa fa-unlock-alt''),
        (''visibilityCondition'', JObj [(''type'', JStr ''eq''), (''field'', JStr ''blocked''), (''value'', JStr ''1'')])]),
      (''stop_all'', JObj [(''text'', JStr ''Stop all VMs''), (''acls'', JStr ''vm.update.state''),
        (''iconClass'', JStr ''fa fa-stop''),
        (''visibilityCondition'', JObj [(''type'', JStr ''ne''), (''field'', JStr ''number_of_vms_connected''), (''value'', JStr ''0'')])]),
      (''delete'', JObj [(''text'', JStr ''Delete''), (''acls'', JStr ''host.delete.''), (''iconClass'', JStr ''fa fa-trash''),
        (''darkButton'', JBool True)])]"

section \<open>\<open>default-tenant.js\<close>\<close>

definition tenant_listFields :: "js obj" where
  "tenant_listFields =
     [(''checks'', JObj [(''display'', JBool True), (''fields'', JArr []), (''acls'', JStr ''tenant.delete.''),
        (''fixed'', JBool True), (''text'', JStr ''''), (''sortable'', JBool False)]),
      (''info'', JObj [(''display'', JBool True), (''fields'', JArr [JStr ''blocked'']),
        (''groupAcls'', JArr [JStr ''tenantInfo'']), (''aclsLogic'', JStr ''OR''), (''text'', JStr ''Info''),
        (''sortable'', JBool False)]),
      (''id'', JObj [(''display'', JBool True), (''fields'', JArr [JStr ''id'']), (''acls'', JStr ''tenant.see.id''),
        (''text'', JStr ''Id''), (''sortable'', JBool True)]),
      (''name'', JObj [(''display'', JBool True), (''fields'', JArr [JStr ''id'', JStr ''name'']), (''text'', JStr ''Name''),
        (''fixed'', JBool True), (''sortable'', JBool True)]),
      (''description'', JObj [(''display'', JBool False), (''fields'', JArr [JStr ''description'']),
        (''acls'', JStr ''tenant.see.description''), (''text'', JStr ''Description''),
        (''sortable'', JBool True)]),
      (''creation_date'', JObj [(''text'', JStr ''Creation date''), (''fields'', JArr [JStr ''creation_date'']),
        (''acls'', JStr ''tenant.see.log''), (''display'', JBool False), (''sortable'', JBool True)]),
      (''creation_admin_name'', JObj [(''text'', JStr ''Created by''),
        (''fields'', JArr [JStr ''creation_admin_name'', JStr ''creation_admin_id'']),
        (''acls'', JStr ''tenant.see.log''), (''display'', JBool False), (''sortable'', JBool True)])]"

definition tenant_detailsFields :: "js obj" where
  "tenant_detailsFields =
     [(''general'', JObj [(''text'', JStr ''General''), (''default'', JBool True),
        (''fieldList'', JObj [(''id'', JObj [(''display'', JBool True), (''fields'', JArr [JStr ''id'']), (''acls'', JStr ''tenant.see.id''),
            (''text'', JStr ''Id''), (''icon'', JStr ''fa fa-asterisk'')]),
          (''description'', JObj [(''display'', JBool True), (''fields'', JArr [JStr ''description'']),
            (''acls'', JStr ''tenant.see.description''), (''text'', JStr ''Description''),
            (''icon'', JStr ''fa fa-align-justify'')]),
          (''block'', JObj [(''display'', JBool True), (''fields'', JArr [JStr ''id'']), (''acls'', JStr ''tenant.see.block''),
            (''text'', JStr ''Blocking''), (''icon'', JStr ''fa fa-lock'')])])]),
      (''environment'', JObj [(''text'', JStr ''Environment''),
        (''fieldList'', JObj [(''language'', JObj [(''text'', JStr ''Language''), (''fields'', JArr [JStr ''language'']),
            (''acls'', JStr ''tenant.see.language''), (''display'', JBool True),
            (''icon'', JStr ''fa fa-language'')]),
          (''blocksize'', JObj [(''text'', JStr ''Block size''), (''fields'', JArr [JStr ''block'']),
            (''acls'', JStr ''tenant.see.blocksize''), (''display'', JBool True),
            (''icon'', JStr ''fa fa-list'')])])]),
      (''activity'', JObj [(''text'', JStr ''Activity''),
        (''fieldList'', JObj [(''creation_admin'', JObj [(''text'', JStr ''Created by''), (''fields'', JArr [JStr ''creation_admin'']),
            (''acls'', JStr ''tenant.see.created-by''), (''display'', JBool True),
            (''icon'', JStr CLASS_ICON_ADMINS)]),
          (''creation_date'', JObj [(''text'', JStr ''Creation date''), (''fields'', JArr [JStr ''creation_date'']),
            (''acls'', JStr ''tenant.see.creation-date''), (''display'', JBool True),
            (''icon'', JStr ''fa fa-clock-o'')])])])]"

definition tenant_formFilters :: "js obj" where
  "tenant_formFilters =
     [(''name'', JObj [(''filterField'', JStr ''name''), (''type'', JStr ''text''), (''text'', JStr ''Name''),
        (''displayMobile'', JBool True), (''displayDesktop'', JBool True)]),
      (''blocked'', JObj [(''filterField'', JStr ''blocked''), (''type'', JStr ''select''), (''text'', JStr ''Blocking''),
        (''class'', JStr ''chosen-advanced''), (''fillable'', JBool False),
        (''options'', JArr [
           JObj [(''value'', JNum FILTER_ALL), (''text'', JStr ''All''), (''selected'', JBool True)],
           JObj [(''value'', JNum 1), (''text'', JStr ''Blocked'')],
           JObj [(''value'', JNum 0), (''text'', JStr ''Unblocked'')]]), (''displayMobile'', JBool False),
        (''displayDesktop'', JBool True), (''acls'', JStr ''tenant.see.block'')]),
      (''administrator'', JObj [(''filterField'', JStr ''creation_admin_id''), (''type'', JStr ''select''),
        (''text'', JStr ''Created by''), (''class'', JStr ''chosen-advanced''), (''fillable'', JBool True),
        (''options'', JArr [
           JObj [(''value'', JNum FILTER_ALL), (''text'', JStr ''All''), (''selected'', JBool True)]]),
        (''displayMobile'', JBool False), (''displayDesktop'', JBool False),
        (''acls'', JStr ''tenant.see.created-by'')]),
      (''antiquity'', JObj [(''filterField'', JStr ''creation_date''), (''type'', JStr ''select''), (''text'', JStr ''Antiquity''),
        (''class'', JStr ''chosen-single''), (''fillable'', JBool False),
        (''transform'', JStr ''dateGreatThanPast''), (''options'', ANTIQUITY_OPTIONS),
        (''displayMobile'', JBool False), (''displayDesktop'', JBool False),
        (''acls'', JStr ''tenant.see.creation-date'')]),
      (''min_date'', JObj [(''filterField'', JStr ''creation_date''), (''type'', JStr ''text''),
        (''text'', JStr ''Min creation date''), (''transform'', JStr ''dateMin''),
        (''class'', JStr ''datepicker-past date-filter''), (''displayMobile'', JBool False),
        (''displayDesktop'', JBool False), (''acls'', JStr ''tenant.see.creation-date'')]),
      (''max_date'', JObj [(''filterField'', JStr ''creation_date''), (''type'', JStr ''text''),
        (''text'', JStr ''Max creation date''), (''transform'', JStr ''dateMax''),
        (''class'', JStr ''datepicker-past date-filter''), (''displayMobile'', JBool False),
        (''displayDesktop'', JBool False), (''acls'', JStr ''tenant.see.creation-date'')])]"

definition tenant_selectedActions :: "js obj" where
  "tenant_selectedActions =
     [(''massive_changes'', JObj [(''text'', JStr ''Edit''), (''groupAcls'', JStr ''tenantMassiveEdit''), (''aclsLogic'', JStr ''OR''),
        (''iconClass'', JStr ''fa fa-pencil''), (''otherClass'', JStr ''js-only-massive'')]),
      (''changes'', JObj [(''text'', JStr ''Edit''), (''groupAcls'', JStr ''tenantEdit''), (''aclsLogic'', JStr ''OR''),
        (''iconClass'', JStr ''fa fa-pencil''), (''otherClass'', JStr ''js-only-one'')]),
      (''block'', JObj [(''text'', JStr ''Block''), (''acls'', JStr ''tenant.update.block''),
        (''iconClass'', JStr ''fa fa-lock''),
        (''visibilityCondition'', JObj [(''type'', JStr ''eq''), (''field'', JStr ''blocked''), (''value'', JStr ''0'')])]),
      (''unblock'', JObj [(''text'', JStr ''Unblock''), (''acls'', JStr ''tenant.update.block''),
        (''iconClass'', JStr ''fa fa-unlock-alt''),
        (''visibilityCondition'', JObj [(''type'', JStr ''eq''), (''field'', JStr ''blocked''), (''value'', JStr ''1'')])]),
      (''delete'', JObj [(''text'', JStr ''Delete''), (''acls'', JStr ''tenant.delete.''), (''iconClass'', JStr ''fa fa-trash''),
        (''darkButton'', JBool True)])]"

section \<open>\<open>default-role.js\<close>\<close>

definition role_listFields :: "js obj" where
  "role_listFields =
     [(''checks'', JObj [(''display'', JBool True), (''fields'', JArr []), (''acls'', JStr ''role.delete.''),
        (''fixed'', JBool True), (''text'', JStr ''''), (''sortable'', JBool False)]),
      (''id'', JObj [(''display'', JBool False), (''fields'', JArr [JStr ''id'']), (''acls'', JStr ''role.see.id''),
        (''text'', JStr ''Id''), (''sortable'', JBool True)]),
      (''name'', JObj [(''display'', JBool True), (''fields'', JArr [JStr ''id'', JStr ''name'']), (''text'', JStr ''Name''),
        (''fixed'', JBool True), (''sortable'', JBool True)]),
      (''description'', JObj [(''display'', JBool False), (''fields'', JArr [JStr ''description'']),
        (''acls'', JStr ''role.see.description''), (''text'', JStr ''Description''), (''sortable'', JBool True)]),
      (''acls'', JObj [(''display'', JBool False), (''fields'', JArr [JStr ''number_of_acls'', JStr ''acls'']),
        (''acls'', JStr ''role.see.acl-list''), (''text'', JStr ''ACLs''), (''sortable'', JBool False)]),
      (''roles'', JObj [(''display'', JBool True), (''fields'', JArr [JStr ''roles'']),
        (''acls'', JStr ''role.see.acl-list-roles''), (''text'', JStr ''Inherited roles''),
        (''sortable'', JBool False)]),
      (''creation_date'', JObj [(''text'', JStr ''Creation date''), (''fields'', JArr [JStr ''creation_date'']),
        (''acls'', JStr ''role.see.creation-date''), (''display'', JBool False), (''sortable'', JBool True)]),
      (''creation_admin_name'', JObj [(''text'', JStr ''Created by''),
        (''fields'', JArr [JStr ''creation_admin_name'', JStr ''creation_admin_id'']),
        (''acls'', JStr ''role.see.created-by''), (''display'', JBool False), (''sortable'', JBool True)])]"

definition role_detailsFields :: "js obj" where
  "role_detailsFields =
     [(''general'', JObj [(''text'', JStr ''General''), (''default'', JBool True),
        (''fieldList'', JObj [(''id'', JObj [(''display'', JBool True), (''fields'', JArr [JStr ''id'']), (''acls'', JStr ''role.see.id''),
            (''text'', JStr ''Id''), (''icon'', JStr ''fa fa-asterisk'')]),
          (''description'', JObj [(''display'', JBool True), (''fields'', JArr [JStr ''description'']),
            (''acls'', JStr ''role.see.description''), (''text'', JStr ''Description''),
            (''icon'', JStr ''fa fa-align-justify'')])])]),
      (''inheritance'', JObj [(''text'', JStr ''Inheritance''),
        (''fieldList'', JObj [(''roles'', JObj [(''text'', JStr ''Inherited roles''), (''fields'', JArr [JStr ''roles'']),
            (''acls'', JStr ''role.see.inherited-roles''), (''display'', JBool True),
            (''icon'', JStr CLASS_ICON_ROLES)]),
          (''templates'', JObj [(''text'', JStr ''Inherited templates''), (''fields'', JArr [JStr ''roles'']),
            (''acls'', JStr ''role.see.inherited-roles''), (''display'', JBool True),
            (''icon'', JStr CLASS_ICON_TEMPLATES)])])]),
      (''activity'', JObj [(''text'', JStr ''Activity''),
        (''fieldList'', JObj [(''creation_admin'', JObj [(''text'', JStr ''Created by''), (''fields'', JArr [JStr ''creation_admin'']),
            (''acls'', JStr ''role.see.created-by''), (''display'', JBool True),
            (''icon'', JStr CLASS_ICON_ADMINS)]),
          (''creation_date'', JObj [(''text'', JStr ''Creation date''), (''fields'', JArr [JStr ''creation_date'']),
            (''acls'', JStr ''role.see.creation-date''), (''display'', JBool True),
            (''icon'', JStr ''fa fa-clock-o'')])])])]"

definition role_formFilters :: "js obj" where
  "role_formFilters =
     [(''name'', JObj [(''filterField'', JStr ''name''), (''type'', JStr ''text''), (''text'', JStr ''Name''),
        (''displayMobile'', JBool True), (''displayDesktop'', JBool True)]),
      (''administrator'', JObj [(''filterField'', JStr ''creation_admin_id''), (''type'', JStr ''select''),
        (''text'', JStr ''Created by''), (''class'', JStr ''chosen-advanced''), (''fillable'', JBool True),
        (''options'', JArr [
           JObj [(''value'', JNum FILTER_ALL), (''text'', JStr ''All''), (''selected'', JBool True)]]),
        (''displayMobile'', JBool False), (''displayDesktop'', JBool False),
        (''acls'', JStr ''role.see.created-by'')]),
      (''antiquity'', JObj [(''filterField'', JStr ''creation_date''), (''type'', JStr ''select''), (''text'', JStr ''Antiquity''),
        (''class'', JStr ''chosen-single''), (''fillable'', JBool False),
        (''transform'', JStr ''dateGreatThanPast''), (''options'', ANTIQUITY_OPTIONS),
        (''displayMobile'', JBool False), (''displayDesktop'', JBool False),
        (''acls'', JStr ''role.see.creation-date'')]),
      (''min_date'', JObj [(''filterField'', JStr ''creation_date''), (''type'', JStr ''text''),
        (''text'', JStr ''Min creation date''), (''transform'', JStr ''dateMin''),
        (''class'', JStr ''datepicker-past date-filter''), (''displayMobile'', JBool False),
        (''displayDesktop'', JBool False), (''acls'', JStr ''role.see.creation-date'')]),
      (''max_date'', JObj [(''filterField'', JStr ''creation_date''), (''type'', JStr ''text''),
        (''text'', JStr ''Max creation date''), (''transform'', JStr ''dateMax''),
        (''class'', JStr ''datepicker-past date-filter''), (''displayMobile'', JBool False),
        (''displayDesktop'', JBool False), (''acls'', JStr ''role.see.creation-date'')])]"

definition role_selectedActions :: "js obj" where
  "role_selectedActions =
     [(''massive_changes'', JObj [(''text'', JStr ''Edit''), (''groupAcls'', JStr ''roleMassiveEdit''), (''aclsLogic'', JStr ''OR''),
        (''iconClass'', JStr ''fa fa-pencil''), (''otherClass'', JStr ''js-only-massive'')]),
      (''changes'', JObj [(''text'', JStr ''Edit''), (''groupAcls'', JStr ''roleEdit''), (''aclsLogic'', JStr ''OR''),
        (''iconClass'', JStr ''fa fa-pencil''), (''otherClass'', JStr ''js-only-one'')]),
      (''delete'', JObj [(''text'', JStr ''Delete''), (''acls'', JStr ''role.delete.''), (''iconClass'', JStr ''fa fa-trash''),
        (''darkButton'', JBool True)])]"

section \<open>\<open>default-administrator.js\<close>\<close>

definition administrator_listFields :: "js obj" where
  "administrator_listFields =
     [(''checks'', JObj [(''display'', JBool True), (''fields'', JArr []), (''acls'', JStr ''administrator.delete.''),
        (''fixed'', JBool True), (''text'', JStr ''''), (''sortable'', JBool False)]),
      (''info'', JObj [(''text'', JStr ''Info''), (''fields'', JArr [JStr ''roles'']),
        (''acls'', JStr ''administrator.see.roles''), (''display'', JBool True), (''sortable'', JBool False)]),
      (''id'', JObj [(''display'', JBool False), (''fields'', JArr [JStr ''id'']), (''acls'', JStr ''administrator.see.id''),
        (''text'', JStr ''Id''), (''sortable'', JBool True)]),
      (''name'', JObj [(''display'', JBool True), (''fields'', JArr [JStr ''id'', JStr ''name'']), (''text'', JStr ''Name''),
        (''fixed'', JBool True), (''sortable'', JBool True)]),
      (''description'', JObj [(''display'', JBool False), (''fields'', JArr [JStr ''description'']),
        (''acls'', JStr ''administrator.see.description''), (''text'', JStr ''Description''),
        (''sortable'', JBool True)]),
      (''creation_date'', JObj [(''text'', JStr ''Creation date''), (''fields'', JArr [JStr ''creation_date'']),
        (''acls'', JStr ''administrator.see.creation-date''), (''display'', JBool False),
        (''sortable'', JBool True)]),
      (''creation_admin_name'', JObj [(''text'', JStr ''Created by''),
        (''fields'', JArr [JStr ''creation_admin_name'', JStr ''creation_admin_id'']),
        (''acls'', JStr ''administrator.see.created-by''), (''display'', JBool False),
        (''sortable'', JBool True)])]"

definition administrator_detailsFields :: "js obj" where
  "administrator_detailsFields =
     [(''general'', JObj [(''text'', JStr ''General''), (''default'', JBool True),
        (''fieldList'', JObj [(''id'', JObj [(''display'', JBool True), (''fields'', JArr [JStr ''id'']),
            (''acls'', JStr ''administrator.see.id''), (''text'', JStr ''Id''),
            (''icon'', JStr ''fa fa-asterisk'')]),
          (''description'', JObj [(''display'', JBool True), (''fields'', JArr [JStr ''description'']),
            (''acls'', JStr ''administrator.see.description''), (''text'', JStr ''Description''),
            (''icon'', JStr ''fa fa-align-justify'')]),
          (''global_username'', JObj [(''display'', JBool True), (''fields'', JArr [JStr ''id'']), (''text'', JStr ''Global username''),
            (''icon'', JStr ''fa fa-sitemap''), (''onlyMultitenant'', JBool True)])])]),
      (''permissions'', JObj [(''text'', JStr ''Permissions''),
        (''fieldList'', JObj [(''roles'', JObj [(''text'', JStr ''Assigned roles''), (''fields'', JArr [JStr ''roles'']),
            (''acls'', JStr ''administrator.see.roles''), (''display'', JBool True),
            (''icon'', JStr CLASS_ICON_ROLES)])])]),
      (''environment'', JObj [(''text'', JStr ''Environment''),
        (''fieldList'', JObj [(''language'', JObj [(''text'', JStr ''Language''), (''fields'', JArr [JStr ''language'']),
            (''acls'', JStr ''administrator.see.language''), (''display'', JBool True),
            (''icon'', JStr ''fa fa-language'')])])]),
      (''activity'', JObj [(''text'', JStr ''Activity''),
        (''fieldList'', JObj [(''creation_admin'', JObj [(''text'', JStr ''Created by''), (''fields'', JArr [JStr ''creation_admin'']),
            (''acls'', JStr ''administrator.see.created-by''), (''display'', JBool True),
            (''icon'', JStr CLASS_ICON_ADMINS)]),
          (''creation_date'', JObj [(''text'', JStr ''Creation date''), (''fields'', JArr [JStr ''creation_date'']),
            (''acls'', JStr ''administrator.see.creation-date''), (''display'', JBool True),
            (''icon'', JStr ''fa fa-clock-o'')])])])]"

definition administrator_formFilters :: "js obj" where
  "administrator_formFilters =
     [(''name'', JObj [(''filterField'', JStr ''name''), (''type'', JStr ''text''), (''text'', JStr ''Name''),
        (''displayMobile'', JBool True), (''displayDesktop'', JBool True)]),
      (''administrator'', JObj [(''filterField'', JStr ''creation_admin_id''), (''type'', JStr ''select''),
        (''text'', JStr ''Created by''), (''class'', JStr ''chosen-advanced''), (''fillable'', JBool True),
        (''options'', JArr [
           JObj [(''value'', JNum FILTER_ALL), (''text'', JStr ''All''), (''selected'', JBool True)]]),
        (''displayMobile'', JBool False), (''displayDesktop'', JBool False),
        (''acls'', JStr ''administrator.see.created-by'')]),
      (''antiquity'', JObj [(''filterField'', JStr ''creation_date''), (''type'', JStr ''select''), (''text'', JStr ''Antiquity''),
        (''class'', JStr ''chosen-single''), (''fillable'', JBool False),
        (''transform'', JStr ''dateGreatThanPast''), (''options'', ANTIQUITY_OPTIONS),
        (''displayMobile'', JBool False), (''displayDesktop'', JBool False),
        (''acls'', JStr ''administrator.see.creation-date'')]),
      (''min_date'', JObj [(''filterField'', JStr ''creation_date''), (''type'', JStr ''text''),
        (''text'', JStr ''Min creation date''), (''transform'', JStr ''dateMin''),
        (''class'', JStr ''datepicker-past date-filter''), (''displayMobile'', JBool False),
        (''displayDesktop'', JBool False), (''acls'', JStr ''administrator.see.creation-date'')]),
      (''max_date'', JObj [(''filterField'', JStr ''creation_date''), (''type'', JStr ''text''),
        (''text'', JStr ''Max creation date''), (''transform'', JStr ''dateMax''),
        (''class'', JStr ''datepicker-past date-filter''), (''displayMobile'', JBool False),
        (''displayDesktop'', JBool False), (''acls'', JStr ''administrator.see.creation-date'')])]"

definition administrator_selectedActions :: "js obj" where
  "administrator_selectedActions =
     [(''massive_changes'', JObj [(''text'', JStr ''Edit''), (''groupAcls'', JStr ''administratorMassiveEdit''),
        (''aclsLogic'', JStr ''OR''), (''iconClass'', JStr ''fa fa-pencil''),
        (''otherClass'', JStr ''js-only-massive'')]),
      (''changes'', JObj [(''text'', JStr ''Edit''), (''groupAcls'', JStr ''administratorEdit''), (''aclsLogic'', JStr ''OR''),
        (''iconClass'', JStr ''fa fa-pencil''), (''otherClass'', JStr ''js-only-one'')]),
      (''delete'', JObj [(''text'', JStr ''Delete''), (''acls'', JStr ''administrator.delete.''),
        (''iconClass'', JStr ''fa fa-trash''), (''darkButton'', JBool True),
        (''visibilityCondition'', JObj [(''type'', JStr ''ne''), (''field'', JStr ''id''), (''value'', JStr ''__currentAdminId__'')])])]"

section \<open>\<open>default-log.js\<close>\<close>

definition log_listFields :: "js obj" where
  "log_listFields =
     [(''see_details'', JObj [(''display'', JBool True), (''fields'', JArr [JStr ''id'']), (''acls'', JStr ''log.see-details.''),
        (''sortable'', JBool False), (''fixed'', JBool True)]),
      (''id'', JObj [(''display'', JBool False), (''fields'', JArr [JStr ''id'']), (''text'', JStr ''Id''),
        (''sortable'', JBool True), (''acls'', JStr ''log.see-main.'')]),
      (''qvd_object'', JObj [(''display'', JBool False), (''fields'', JArr [JStr ''qvd_object'']), (''text'', JStr ''Object''),
        (''sortable'', JBool True)]),
      (''action'', JObj [(''display'', JBool True), (''fields'', JArr [JStr ''type_of_action'']), (''text'', JStr ''Action''),
        (''sortable'', JBool True)]),
      (''object_name'', JObj [(''display'', JBool True),
        (''fields'', JArr [JStr ''qvd_object'', JStr ''object_id'', JStr ''object_name'']),
        (''text'', JStr ''Name''), (''sortable'', JBool True)]),
      (''administrator'', JObj [(''display'', JBool True), (''fields'', JArr [JStr ''admin_id'', JStr ''admin_name'']),
        (''text'', JStr ''Administrator''), (''sortable'', JBool True),
        (''acls'', JStr ''log.see.administrator'')]),
      (''datetime'', JObj [(''display'', JBool True), (''fields'', JArr [JStr ''time'']), (''text'', JStr ''Elapsed time''),
        (''sortable'', JBool True)]),
      (''source'', JObj [(''display'', JBool True), (''fields'', JArr [JStr ''source'']), (''text'', JStr ''Source''),
        (''sortable'', JBool True), (''acls'', JStr ''log.see.source'')]),
      (''address'', JObj [(''display'', JBool False), (''fields'', JArr [JStr ''ip'']), (''text'', JStr ''Address''),
        (''sortable'', JBool True), (''acls'', JStr ''log.see.address'')])]"

definition log_formFilters_literal :: "js obj" where
  "log_formFilters_literal =
     [(''antiquity'', JObj [(''filterField'', JStr ''time''), (''type'', JStr ''select''), (''text'', JStr ''Antiquity''),
        (''class'', JStr ''chosen-single''), (''fillable'', JBool False),
        (''transform'', JStr ''dateGreatThanPast''), (''options'', ANTIQUITY_OPTIONS),
        (''displayMobile'', JBool False), (''displayDesktop'', JBool False)]),
      (''min_date'', JObj [(''filterField'', JStr ''time''), (''type'', JStr ''text''), (''text'', JStr ''Min Date''),
        (''transform'', JStr ''dateMin''), (''class'', JStr ''datepicker-past date-filter''),
        (''displayMobile'', JBool False), (''displayDesktop'', JBool True)]),
      (''max_date'', JObj [(''filterField'', JStr ''time''), (''type'', JStr ''text''), (''text'', JStr ''Max Date''),
        (''transform'', JStr ''dateMax''), (''class'', JStr ''datepicker-past date-filter''),
        (''displayMobile'', JBool False), (''displayDesktop'', JBool True)]),
      (''source'', JObj [(''filterField'', JStr ''source''), (''type'', JStr ''select''), (''text'', JStr ''Source''),
        (''class'', JStr ''chosen-single''), (''fillable'', JBool True),
        (''fillAction'', JStr ''sources_in_log''), (''nameAsId'', JBool True),
        (''options'', JArr [
           JObj [(''value'', JNum FILTER_ALL), (''text'', JStr ''All''), (''selected'', JBool True)]]),
        (''displayMobile'', JBool False), (''displayDesktop'', JBool True)]),
      (''administrator'', JObj [(''filterField'', JStr ''admin_id''), (''type'', JStr ''select''), (''text'', JStr ''Administrator''),
        (''class'', JStr ''chosen-advanced''), (''fillable'', JBool True),
        (''options'', JArr [
           JObj [(''value'', JNum FILTER_ALL), (''text'', JStr ''All''), (''selected'', JBool True)]]),
        (''displayMobile'', JBool False), (''displayDesktop'', JBool True)]),
      (''action'', JObj [(''filterField'', JStr ''type_of_action''), (''type'', JStr ''select''), (''text'', JStr ''Action''),
        (''class'', JStr ''chosen-single''), (''fillable'', JBool True),
        (''options'', JArr [
           JObj [(''value'', JNum FILTER_ALL), (''text'', JStr ''All''), (''selected'', JBool True)]]),
        (''displayMobile'', JBool False), (''displayDesktop'', JBool True)]),
      (''object'', JObj [(''filterField'', JStr ''qvd_object''), (''type'', JStr ''select''), (''text'', JStr ''Object''),
        (''class'', JStr ''chosen-single''), (''fillable'', JBool True),
        (''options'', JArr [
           JObj [(''value'', JNum FILTER_ALL), (''text'', JStr ''All''), (''selected'', JBool True)]]),
        (''displayMobile'', JBool False), (''displayDesktop'', JBool True)]),
      (''response'', JObj [(''filterField'', JStr ''status''), (''type'', JStr ''select''), (''text'', JStr ''Response''),
        (''class'', JStr ''chosen-single''), (''fillable'', JBool False),
        (''options'', JArr [
           JObj [(''value'', JNum FILTER_ALL), (''text'', JStr ''All''), (''selected'', JBool True)],
           JObj [(''value'', JNum STATUS_SUCCESS), (''text'', JStr ''Success'')],
           JObj [(''value'', JNum STATUS_SUCCESS), (''not'', JNum STATUS_SUCCESS), (''text'', JStr ''Not success'')]]),
        (''displayMobile'', JBool True), (''displayDesktop'', JBool True)])]"

end
