(* ===== verification/Defaults.thy ===== *)
theory Defaults
  imports DefaultsB ListFilter ListView Details
begin

text \<open>
  The initial configuration of the panel: the tables of \<open>DefaultsA\<close> and \<open>DefaultsB\<close> as the values that the
  access control, the lists, the filters, the customisation and the details views work on
  (\<open>wat/lib/interface/interface.js\<close>), and what holds of all of them.
\<close>

section \<open>Entries of the tables\<close>

fun js_strings :: "js \<Rightarrow> string list" where
  "js_strings (JArr xs) = concat (map (\<lambda>x. case x of JStr s \<Rightarrow> [s] | _ \<Rightarrow> []) xs)"
| "js_strings _ = []"

fun group_of_js :: "js \<Rightarrow> group_arg option" where
  "group_of_js (JStr g) = Some (GOne g)"
| "group_of_js (JArr xs) = Some (GMany (js_strings (JArr xs)))"
| "group_of_js _ = None"

fun acls_of_js :: "js \<Rightarrow> acl_spec option" where
  "acls_of_js (JStr a) = Some (AclOne a)"
| "acls_of_js (JArr xs) = Some (AclMany (map Some (js_strings (JArr xs))))"
| "acls_of_js _ = None"

fun str_of_js :: "js \<Rightarrow> string option" where
  "str_of_js (JStr s) = Some s"
| "str_of_js _ = None"

fun obj_of_js :: "js \<Rightarrow> js obj" where
  "obj_of_js (JObj ps) = ps"
| "obj_of_js _ = []"

definition str_attr :: "js obj \<Rightarrow> string \<Rightarrow> string" where
  "str_attr ob k = (case str_of_js (get_attr ob k) of Some s \<Rightarrow> s | None \<Rightarrow> '''')"

definition column_of_js :: "js obj \<Rightarrow> col_conf" where
  "column_of_js ob =
     \<lparr> groupAcls = group_of_js (get_attr ob ''groupAcls''), itemAcls = acls_of_js (get_attr ob ''acls''),
       aclsLogic = str_of_js (get_attr ob ''aclsLogic''), display = get_attr ob ''display'',
       col_fields = js_strings (get_attr ob ''fields''), col_text = str_attr ob ''text'',
       col_noTranslatable = truthy (get_attr ob ''noTranslatable''), col_property = get_attr ob ''property'',
       col_property_id = get_attr ob ''property_id'', col_customized = truthy (get_attr ob ''customized'') \<rparr>"

definition filter_of_js :: "js obj \<Rightarrow> filter_conf" where
  "filter_of_js ob =
     \<lparr> groupAcls = group_of_js (get_attr ob ''groupAcls''), itemAcls = acls_of_js (get_attr ob ''acls''),
       aclsLogic = str_of_js (get_attr ob ''aclsLogic''), filterField = str_attr ob ''filterField'',
       ftype = str_attr ob ''type'', ftext = str_attr ob ''text'',
       f_noTranslatable = truthy (get_attr ob ''noTranslatable''), f_property = get_attr ob ''property'',
       f_property_id = get_attr ob ''property_id'', displayMobile = get_attr ob ''displayMobile'',
       displayDesktop = get_attr ob ''displayDesktop'', transform = str_of_js (get_attr ob ''transform''),
       f_customized = truthy (get_attr ob ''customized'') \<rparr>"

definition item_of_js :: "js obj \<Rightarrow> det_conf" where
  "item_of_js ob =
     \<lparr> groupAcls = group_of_js (get_attr ob ''groupAcls''), itemAcls = acls_of_js (get_attr ob ''acls''),
       aclsLogic = str_of_js (get_attr ob ''aclsLogic''), dc_props = ob \<rparr>"

definition group_conf_of_js :: "js obj \<Rightarrow> det_group" where
  "group_conf_of_js ob =
     \<lparr> dg_props = ob,
       fieldList = (case get_attr ob ''fieldList'' of
                      JObj fs \<Rightarrow> Some (map (map_prod id (item_of_js \<circ> obj_of_js)) fs) | _ \<Rightarrow> None) \<rparr>"

text \<open>The options that \<open>default-log.js\<close> adds to two of its filters.\<close>

definition push_options :: "string \<Rightarrow> js obj \<Rightarrow> js obj \<Rightarrow> js obj" where
  "push_options field table fs =
     (let f = obj_of_js (get_attr fs field);
          os = (case get_attr f ''options'' of JArr os \<Rightarrow> os | _ \<Rightarrow> []);
          more = map (\<lambda>(k, name). JObj [(''value'', JStr k), (''text'', name), (''selected'', JBool False)]) table
      in AList.update field (JObj (AList.update ''options'' (JArr (os @ more)) f)) fs)"

definition log_formFilters :: "js obj" where
  "log_formFilters = push_options ''action'' LOG_TYPE_ACTIONS (push_options ''object'' LOG_TYPE_OBJECTS log_formFilters_literal)"

section \<open>The tables of the interface\<close>

definition all_listFields :: "js obj obj" where
  "all_listFields =
     [(''vm'', vm_listFields), (''user'', user_listFields), (''host'', host_listFields), (''osf'', osf_listFields),
      (''di'', di_listFields), (''role'', role_listFields), (''administrator'', administrator_listFields),
      (''log'', log_listFields), (''tenant'', tenant_listFields)]"

definition all_formFilters :: "js obj obj" where
  "all_formFilters =
     [(''vm'', vm_formFilters), (''user'', user_formFilters), (''host'', host_formFilters), (''osf'', osf_formFilters),
      (''di'', di_formFilters), (''log'', log_formFilters), (''tenant'', tenant_formFilters), (''role'', role_formFilters),
      (''administrator'', administrator_formFilters)]"

definition all_detailsFields :: "js obj obj" where
  "all_detailsFields =
     [(''vm'', vm_detailsFields), (''user'', user_detailsFields), (''host'', host_detailsFields), (''osf'', osf_detailsFields),
      (''di'', di_detailsFields), (''role'', role_detailsFields), (''administrator'', administrator_detailsFields),
      (''log'', []), (''tenant'', tenant_detailsFields)]"

definition all_selectedActions :: "js obj obj" where
  "all_selectedActions =
     [(''vm'', vm_selectedActions), (''user'', user_selectedActions), (''host'', host_selectedActions),
      (''osf'', osf_selectedActions), (''di'', di_selectedActions), (''tenant'', tenant_selectedActions),
      (''role'', role_selectedActions), (''administrator'', administrator_selectedActions)]"

definition table_of :: "(js obj \<Rightarrow> 'a) \<Rightarrow> js obj obj \<Rightarrow> 'a obj obj" where
  "table_of f = map (map_prod id (map (map_prod id (f \<circ> obj_of_js))))"

definition wat_i_init :: wat_i where
  "wat_i_init =
     \<lparr> listFields = table_of column_of_js all_listFields, listDefaultFields = table_of column_of_js all_listFields,
       formFilters = table_of filter_of_js all_formFilters, formDefaultFilters = table_of filter_of_js all_formFilters \<rparr>"

definition details_init :: "det_group obj obj" where
  "details_init = table_of group_conf_of_js all_detailsFields"

section \<open>Types of the entries\<close>

fun all_strings :: "js \<Rightarrow> bool" where
  "all_strings (JArr xs) = list_all (\<lambda>x. case x of JStr s \<Rightarrow> True | _ \<Rightarrow> False) xs"
| "all_strings _ = False"

fun is_str :: "js \<Rightarrow> bool" where
  "is_str (JStr s) = True"
| "is_str _ = False"

fun is_bool :: "js \<Rightarrow> bool" where
  "is_bool (JBool b) = True"
| "is_bool _ = False"

definition opt_attr :: "(js \<Rightarrow> bool) \<Rightarrow> js obj \<Rightarrow> string \<Rightarrow> bool" where
  "opt_attr P ob k \<longleftrightarrow> get_attr ob k = Undef \<or> P (get_attr ob k)"

definition typed_item :: "js obj \<Rightarrow> bool" where
  "typed_item ob \<longleftrightarrow>
     opt_attr (\<lambda>v. is_str v \<or> all_strings v) ob ''acls'' \<and> opt_attr (\<lambda>v. is_str v \<or> all_strings v) ob ''groupAcls'' \<and>
     opt_attr (\<lambda>v. v = JStr ''OR'' \<or> v = JStr ''AND'') ob ''aclsLogic'' \<and>
     (is_str (get_attr ob ''text'') \<or> get_attr ob ''fixed'' = JBool True)"

definition typed_column :: "js obj \<Rightarrow> bool" where
  "typed_column ob \<longleftrightarrow> typed_item ob \<and> is_bool (get_attr ob ''display'') \<and> all_strings (get_attr ob ''fields'') \<and>
     opt_attr is_bool ob ''sortable''"

fun typed_option :: "js \<Rightarrow> bool" where
  "typed_option (JObj op) \<longleftrightarrow> is_str (get_attr op ''text'') \<and> get_attr op ''value'' \<noteq> Undef"
| "typed_option _ = False"

fun typed_options :: "js \<Rightarrow> bool" where
  "typed_options (JArr os) \<longleftrightarrow> list_all typed_option os"
| "typed_options _ = False"

definition typed_filter :: "js obj \<Rightarrow> bool" where
  "typed_filter ob \<longleftrightarrow> typed_item ob \<and> is_str (get_attr ob ''filterField'') \<and>
     is_bool (get_attr ob ''displayMobile'') \<and> is_bool (get_attr ob ''displayDesktop'') \<and>
     (get_attr ob ''type'' = JStr ''text'' \<or> get_attr ob ''type'' = JStr ''select'' \<and> typed_options (get_attr ob ''options''))"

definition typed_group :: "js obj \<Rightarrow> bool" where
  "typed_group ob \<longleftrightarrow> is_str (get_attr ob ''text'') \<and>
     opt_attr (\<lambda>v. case v of JObj fs \<Rightarrow> list_all (\<lambda>(k, f). typed_item (obj_of_js f) \<and> is_bool (get_attr (obj_of_js f) ''display'')) fs
                             | _ \<Rightarrow> False) ob ''fieldList''"

definition typed_action :: "js obj \<Rightarrow> bool" where
  "typed_action ob \<longleftrightarrow> typed_item ob \<and> is_str (get_attr ob ''iconClass'')"

definition all_entries :: "(js obj \<Rightarrow> bool) \<Rightarrow> js obj obj \<Rightarrow> bool" where
  "all_entries P tables \<longleftrightarrow> list_all (\<lambda>(q, t). list_all (\<lambda>(k, e). P (obj_of_js e)) t) tables"


section \<open>Nothing in the tables is dead\<close>

definition item_groups :: "js obj \<Rightarrow> string list" where
  "item_groups ob = (case group_of_js (get_attr ob ''groupAcls'') of None \<Rightarrow> [] | Some g \<Rightarrow> group_list g)"

definition groups_defined :: "js obj \<Rightarrow> bool" where
  "groups_defined ob \<longleftrightarrow> list_all (\<lambda>g. map_of aclGroups g \<noteq> None) (item_groups ob)"

definition group_items :: "js obj \<Rightarrow> js obj list" where
  "group_items ob = (case get_attr ob ''fieldList'' of JObj fs \<Rightarrow> map (obj_of_js \<circ> snd) fs | _ \<Rightarrow> [])"

definition known_transform :: "js obj \<Rightarrow> bool" where
  "known_transform ob \<longleftrightarrow>
     (case (get_attr ob ''transform'', get_attr ob ''type'') of
        (Undef, _) \<Rightarrow> True
      | (JStr t, JStr ty) \<Rightarrow>
          if ty = ''select'' then t \<in> set [''dateLessThanPast'', ''dateGreatThanPast'', ''dateLessThanFuture'', ''dateGreatThanFuture'']
          else t \<in> set [''dateMin'', ''dateMax'']
      | _ \<Rightarrow> False)"

lemma action_call_acts: "snd (action_call f filters V) \<noteq> []"
  by (simp add: action_call_def applyDelete_def applyBlock_def applyUnblock_def case_prod_beta)

lemma actions_handled:
  "list_all (\<lambda>(q, t). list_all (\<lambda>(a, e). map_of undone_actions a \<noteq> None \<or> map_of guarded_actions a \<noteq> None \<or>
     map_of direct_actions a \<noteq> None) t) all_selectedActions"
  by code_simp

lemma handled_acts:
  assumes "map_of undone_actions a \<noteq> None \<or> map_of guarded_actions a \<noteq> None \<or> map_of direct_actions a \<noteq> None"
    and "selectedItems V \<noteq> []"
  shows "snd (applySelectedAction True a V) \<noteq> []"
  using assms action_call_acts
  by (auto simp: applySelectedAction_def Let_def case_prod_beta split: option.splits)



section \<open>Actions and check boxes\<close>

definition converted :: "(js obj \<Rightarrow> 'a) \<Rightarrow> js obj \<Rightarrow> 'a obj" where
  "converted f t = map (map_prod id (f \<circ> obj_of_js)) t"

lemma required_column: "required C (column_of_js ob) = required C (item_of_js ob)"
proof -
  have "groupAcls (column_of_js ob) = groupAcls (item_of_js ob)" "itemAcls (column_of_js ob) = itemAcls (item_of_js ob)"
    "aclsLogic (column_of_js ob) = aclsLogic (item_of_js ob)"
    by (simp_all add: column_of_js_def item_of_js_def)
  then show ?thesis by (simp only: required_def)
qed

lemma kept_iff:
  "k \<in> fst ` set (purgeConfigData C (converted f t)) \<longleftrightarrow> (\<exists>e. (k, e) \<in> set t \<and> required C (f (obj_of_js e)))"
  by (force simp: purge_conv converted_def)

text \<open>The kinds, their tables and ACLs for which an action is offered on selected elements but nothing can
  be selected.\<close>

definition uncheckable :: "(string \<times> js obj \<times> js obj \<times> string) list" where
  "uncheckable =
     [(''vm'', vm_selectedActions, vm_listFields, ''vm.spy.''),
      (''host'', host_selectedActions, host_listFields, ''vm.update.state''),
      (''osf'', osf_selectedActions, osf_listFields, ''di.create.''),
      (''di'', di_selectedActions, di_listFields, ''di.update.publish''),
      (''tenant'', tenant_selectedActions, tenant_listFields, ''tenant.update.block''),
      (''role'', role_selectedActions, role_listFields, ''role.update.name''),
      (''administrator'', administrator_selectedActions, administrator_listFields, ''administrator.update.language'')]"

definition only_acl :: "string \<Rightarrow> wat_c" where
  "only_acl a = (wat_c_init aclGroups)\<lparr>C_acls := [a]\<rparr>"

definition offered :: "wat_c \<Rightarrow> js \<Rightarrow> bool" where
  "offered C e = item_allowed C (expand_groups C (item_of_js (obj_of_js e)))"

lemma uncheckable_eval:
  "list_all (\<lambda>(q, acts, cols, a). list_ex (\<lambda>(k, e). offered (only_acl a) e) acts \<and>
      list_all (\<lambda>(k, e). k = ''checks'' \<longrightarrow> \<not> offered (only_acl a) e) cols) uncheckable"
  by code_simp

text \<open>The column of check boxes asks for other ACLs than the actions on the checked elements: with each
  of the ACLs listed in \<open>uncheckable\<close>, an administrator is granted an action of the list but not the
  check boxes to choose its elements with (for instance the blocking of tenants without the deletion
  of tenants).\<close>

theorem actions_without_checks:
  assumes "(q, acts, cols, a) \<in> set uncheckable"
  shows "purgeConfigData (only_acl a) (converted item_of_js acts) \<noteq> [] \<and>
    ''checks'' \<notin> fst ` set (purgeConfigData (only_acl a) (converted column_of_js cols))"
proof -
  have ev: "list_ex (\<lambda>(k, e). offered (only_acl a) e) acts"
    "list_all (\<lambda>(k, e). k = ''checks'' \<longrightarrow> \<not> offered (only_acl a) e) cols"
    using uncheckable_eval assms unfolding list_all_iff by fast+
  have off: "offered C e \<longleftrightarrow> required C (item_of_js (obj_of_js e))" for C e
    by (simp add: offered_def item_allowed_expand)
  obtain k e where "(k, e) \<in> set acts" "required (only_acl a) (item_of_js (obj_of_js e))"
    using ev(1) unfolding list_ex_iff off by blast
  then have "k \<in> fst ` set (purgeConfigData (only_acl a) (converted item_of_js acts))" unfolding kept_iff by blast
  then have "purgeConfigData (only_acl a) (converted item_of_js acts) \<noteq> []" by auto
  moreover have "''checks'' \<notin> fst ` set (purgeConfigData (only_acl a) (converted column_of_js cols))"
    unfolding kept_iff required_column using ev(2) unfolding list_all_iff off by blast
  ultimately show ?thesis by blast
qed

theorem actions_without_checks_witness:
  "purgeConfigData (only_acl ''tenant.update.block'') (converted item_of_js tenant_selectedActions) \<noteq> [] \<and>
   ''checks'' \<notin> fst ` set (purgeConfigData (only_acl ''tenant.update.block'') (converted column_of_js tenant_listFields))"
  by (rule actions_without_checks) (simp add: uncheckable_def)

section \<open>The initial configuration at work\<close>

lemma keys_table_of [simp]: "map fst (table_of f ts) = map fst ts"
  by (simp add: table_of_def o_def)

lemma map_of_table_of: "map_of (table_of f ts) q = map_option (converted f) (map_of ts q)"
  by (induction ts) (auto simp: table_of_def converted_def)

lemma general_groups:
  "list_all (\<lambda>(q, t). (map_of t ''general'' = None) = (q = ''log'')) all_detailsFields \<and> distinct (map fst all_detailsFields)"
  by code_simp

text \<open>With the tables of the panel the details views get their fields, for every administrator and every
  kind of element, with one exception: a superadmin gets a TypeError at a log register.\<close>

theorem details_init_fails:
  assumes "dv_qvdObj V \<in> set (map fst details_init)"
  shows "(\<exists>e. setDetailsFields C details_init V = Inl e) \<longleftrightarrow> isSuperadmin C \<and> dv_qvdObj V = ''log''"
proof -
  obtain t where t: "map_of all_detailsFields (dv_qvdObj V) = Some t"
    using assms by (auto simp: details_init_def simp flip: map_of_eq_None_iff dest: weak_map_of_SomeI)
  then have "(dv_qvdObj V, t) \<in> set all_detailsFields" by (rule map_of_SomeD)
  from bspec [OF general_groups [THEN conjunct1, unfolded list_all_iff] this]
  have g: "map_of t ''general'' = None \<longleftrightarrow> dv_qvdObj V = ''log''" by simp
  have m: "map_of details_init (dv_qvdObj V) = Some (converted group_conf_of_js t)"
    by (simp add: details_init_def map_of_table_of t)
  have "map_of (map (\<lambda>(k, g). (k, purge_group C g)) (converted group_conf_of_js t)) ''general'' = None \<longleftrightarrow>
      map_of t ''general'' = None"
    by (induction t) (auto simp: converted_def)
  moreover have "''log'' \<in> set QVD_OBJS_CLASSIFIED_BY_TENANT" by (simp add: QVD_OBJS_CLASSIFIED_BY_TENANT_def)
  ultimately show ?thesis
    using g by (auto simp: setDetailsFields_def Let_def m split: option.splits)
qed

theorem details_init_fails_witness:
  "\<exists>e. setDetailsFields ((wat_c_init [])\<lparr>C_tenantID := SUPERTENANT_ID\<rparr>) details_init
     (sample_details\<lparr>dv_qvdObj := ''log''\<rparr>) = Inl e"
proof -
  have "''log'' \<in> set (map fst details_init)" by (simp add: details_init_def all_detailsFields_def)
  then show ?thesis
    using details_init_fails [of "sample_details\<lparr>dv_qvdObj := ''log''\<rparr>" "(wat_c_init [])\<lparr>C_tenantID := SUPERTENANT_ID\<rparr>"]
    by (simp add: isSuperadmin_def)
qed

end
