(* ===== verification/AclTree.thy ===== *)
theory AclTree
  imports Menu Util
begin

text \<open>
  The tree of ACLs in the details of roles and administrators
  (\<open>wat/lib/bb-views/wat-management/role-details.js\<close>, \<open>administrator-details.js\<close>, template \<open>acls-roles.tpl\<close>):
  opening and closing branches, assigning and unassigning single ACLs and whole branches, and the
  counters of a branch.

  Every click sends a request, and the answers come back in any order: \<open>rt_pending\<close> holds the requests under
  way. The handlers of the answers do not know which click they answer; they read fields of the view
  (\<open>currentBranchDiv\<close>, \<open>checkedBranch\<close>, \<open>groupACLChecked\<close>) that the latest click has set. The names of
  sections and of actions are different, so a branch is known by its name.
\<close>

section \<open>State\<close>

record role_acl = acl_row +
  ra_operative :: bool
  ra_roles :: "string list"

record tree_row =
  tr_acl :: string
  tr_checked :: bool
  tr_disabled :: bool
  tr_editable :: bool
  tr_inherited :: "string list"

record tree_branch =
  br_kind :: string
  br_open :: bool
  br_loading :: bool
  br_rows :: "tree_row list"
  br_checked :: bool
  br_disabled :: bool
  br_count :: int

datatype acl_change = Assign "string list" | Unassign "string list"

datatype tree_req = FillReq string | GroupReq string | UpdateReq acl_change | StatsReq string

record acl_tree =
  rt_admin :: bool
  rt_fixed :: js
  rt_branches :: "tree_branch obj"
  rt_selector :: string
  rt_current :: "string option"
  rt_checked :: js
  rt_group :: bool
  rt_pending :: "tree_req list"

section \<open>Drawing\<close>

definition branch_pattern :: "string \<Rightarrow> string \<Rightarrow> string" where
  "branch_pattern kind b =
     (if kind = ''sections'' then b @ ''.%'' else if kind = ''actions'' then ''%.'' @ b @ ''.%'' else '''')"

definition tree_editable :: "wat_c \<Rightarrow> acl_tree \<Rightarrow> bool" where
  "tree_editable C T \<longleftrightarrow> \<not> rt_admin T \<and> acl1 C ''role.update.assign-acl'' \<and> \<not> truthy (rt_fixed T)"

text \<open>The template draws the branches that have ACLs, closed; the answer has the effective and the total
  number of ACLs of each pattern.\<close>

definition draw_branch :: "(int \<times> int) obj \<Rightarrow> string \<Rightarrow> string \<Rightarrow> string obj \<Rightarrow> js_error + tree_branch obj" where
  "draw_branch stats kind b patterns =
     (case map_of patterns b of
        None \<Rightarrow> Inl TypeError
      | Some p \<Rightarrow>
          (case map_of stats p of
             None \<Rightarrow> Inl TypeError
           | Some (effective, tot) \<Rightarrow>
               Inr (if tot = 0 then []
                    else [(b, \<lparr> br_kind = kind, br_open = False, br_loading = False, br_rows = [], br_checked = (effective = tot),
                               br_disabled = (effective = 0), br_count = effective \<rparr>)])))"

fun draw_branches :: "(int \<times> int) obj \<Rightarrow> string \<Rightarrow> string obj \<Rightarrow> string list \<Rightarrow> js_error + tree_branch obj" where
  "draw_branches stats kind patterns [] = Inr []"
| "draw_branches stats kind patterns (b # bs) =
     (case draw_branch stats kind b patterns of
        Inl e \<Rightarrow> Inl e
      | Inr xs \<Rightarrow> (case draw_branches stats kind patterns bs of Inl e \<Rightarrow> Inl e | Inr ys \<Rightarrow> Inr (xs @ ys)))"

definition renderACLsTree :: "(int \<times> int) obj \<Rightarrow> string obj \<Rightarrow> string obj \<Rightarrow> acl_tree \<Rightarrow> js_error + acl_tree" where
  "renderACLsTree stats sections patterns T =
     (case draw_branches stats ''sections'' patterns (map fst sections) of
        Inl e \<Rightarrow> Inl e
      | Inr xs \<Rightarrow> (case draw_branches stats ''actions'' patterns (map fst ACL_ACTIONS) of
                    Inl e \<Rightarrow> Inl e
                  | Inr ys \<Rightarrow> Inr (T\<lparr>rt_branches := xs @ ys, rt_selector := ''sections''\<rparr>)))"

section \<open>Opening and closing\<close>

definition set_branch :: "string \<Rightarrow> (tree_branch \<Rightarrow> tree_branch) \<Rightarrow> acl_tree \<Rightarrow> acl_tree" where
  "set_branch b f T = T\<lparr>rt_branches := AList.map_entry b f (rt_branches T)\<rparr>"

definition request :: "tree_req \<Rightarrow> acl_tree \<Rightarrow> acl_tree" where
  "request r T = T\<lparr>rt_pending := rt_pending T @ [r]\<rparr>"

definition toggleBranch :: "string \<Rightarrow> acl_tree \<Rightarrow> acl_tree" where
  "toggleBranch b T =
     (case map_of (rt_branches T) b of
        None \<Rightarrow> T
      | Some br \<Rightarrow>
          (let T1 = T\<lparr>rt_current := Some b\<rparr> in
           if br_open br then set_branch b (\<lambda>x. x\<lparr>br_open := False, br_rows := []\<rparr>) T1
           else request (FillReq (branch_pattern (br_kind br) b)) (set_branch b (\<lambda>x. x\<lparr>br_open := True, br_loading := True\<rparr>) T1)))"

definition tree_row_of :: "wat_c \<Rightarrow> acl_tree \<Rightarrow> role_acl \<Rightarrow> tree_row" where
  "tree_row_of C T a =
     \<lparr> tr_acl = acl_name a, tr_checked = ra_operative a, tr_disabled = (\<not> ra_operative a), tr_editable = tree_editable C T,
       tr_inherited = (if acl1 C ((if rt_admin T then ''administrator'' else ''role'') @ ''.see.acl-list-roles'') then ra_roles a else []) \<rparr>"

definition shown_acls :: "wat_c \<Rightarrow> acl_tree \<Rightarrow> role_acl list \<Rightarrow> role_acl list" where
  "shown_acls C T rows = filter (\<lambda>a. ra_operative a \<or> \<not> rt_admin T \<and> acl1 C ''role.update.assign-acl'') rows"

definition fillBranch :: "(string \<Rightarrow> js \<Rightarrow> string) \<Rightarrow> wat_c \<Rightarrow> role_acl list \<Rightarrow> acl_tree \<Rightarrow> acl_tree" where
  "fillBranch t C rows T =
     (case rt_current T of
        None \<Rightarrow> T
      | Some b \<Rightarrow> set_branch b (\<lambda>x. x\<lparr>br_rows := br_rows x @ map (tree_row_of C T) (shown_acls C T (sortTranslatedACLs t rows)),
                                       br_loading := False\<rparr>) T)"

text \<open>Every button is set to open and clicked, in the order of the page.\<close>

definition toggleTree :: "string \<Rightarrow> acl_tree \<Rightarrow> acl_tree" where
  "toggleTree sel T =
     (let T1 = T\<lparr>rt_selector := sel, rt_branches := map (\<lambda>(b, x). (b, x\<lparr>br_open := True\<rparr>)) (rt_branches T)\<rparr>
      in fold toggleBranch (map fst (rt_branches T1)) T1)"

section \<open>Assigning\<close>

definition checkBranch :: "string \<Rightarrow> bool \<Rightarrow> acl_tree \<Rightarrow> acl_tree" where
  "checkBranch b checked T =
     (case map_of (rt_branches T) b of
        None \<Rightarrow> T
      | Some br \<Rightarrow>
          request (GroupReq (branch_pattern (br_kind br) b))
            (set_branch b (\<lambda>x. x\<lparr>br_checked := checked, br_rows := map (\<lambda>r. r\<lparr>tr_checked := checked\<rparr>) (br_rows x)\<rparr>)
               (T\<lparr>rt_checked := JStr b, rt_group := checked\<rparr>)))"

definition performACLGroupCheck :: "string list \<Rightarrow> acl_tree \<Rightarrow> acl_tree" where
  "performACLGroupCheck names T = request (UpdateReq (if rt_group T then Assign names else Unassign names)) T"

definition checkACL_row :: "string \<Rightarrow> string \<Rightarrow> bool \<Rightarrow> acl_tree \<Rightarrow> acl_tree" where
  "checkACL_row b a checked T =
     set_branch b (\<lambda>x. x\<lparr>br_rows := map (\<lambda>r. if tr_acl r = a then r\<lparr>tr_checked := checked, tr_disabled := \<not> checked\<rparr> else r) (br_rows x)\<rparr>)
       (request (UpdateReq (if checked then Assign [a] else Unassign [a]))
          (T\<lparr>rt_checked := (case rt_current T of None \<Rightarrow> Undef | Some c \<Rightarrow> JStr c)\<rparr>))"

definition checked_pattern :: "acl_tree \<Rightarrow> string" where
  "checked_pattern T = branch_pattern (rt_selector T) (js_str (rt_checked T))"

definition getBranchStats :: "acl_tree \<Rightarrow> acl_tree" where
  "getBranchStats T = request (StatsReq (checked_pattern T)) T"

text \<open>The counter of a branch of the tree of actions has no \<open>data-branch\<close>, so it is not found.\<close>

definition stats_branch :: "int \<Rightarrow> int \<Rightarrow> tree_branch \<Rightarrow> tree_branch" where
  "stats_branch effective tot x =
     (let x1 = (if br_kind x = ''sections'' then x\<lparr>br_count := effective\<rparr> else x);
          x2 = (if tot = effective then x1\<lparr>br_checked := True, br_rows := map (\<lambda>r. r\<lparr>tr_disabled := False\<rparr>) (br_rows x1)\<rparr>
                else x1\<lparr>br_checked := False\<rparr>)
      in if effective = 0 then x2\<lparr>br_disabled := True, br_rows := map (\<lambda>r. r\<lparr>tr_disabled := True\<rparr>) (br_rows x2)\<rparr>
         else x2\<lparr>br_disabled := False\<rparr>)"

definition updateBranchStats :: "(int \<times> int) obj \<Rightarrow> acl_tree \<Rightarrow> js_error + acl_tree" where
  "updateBranchStats stats T =
     (case map_of stats (checked_pattern T) of
        None \<Rightarrow> Inl TypeError
      | Some (effective, tot) \<Rightarrow> Inr (set_branch (js_str (rt_checked T)) (stats_branch effective tot) T))"

section \<open>Answers\<close>

text \<open>What the API answers to each kind of request.\<close>

record tree_api =
  api_rows :: "string \<Rightarrow> role_acl list"
  api_names :: "string \<Rightarrow> string list"
  api_stats :: "string \<Rightarrow> int \<times> int"

fun tree_answer_req :: "(string \<Rightarrow> js \<Rightarrow> string) \<Rightarrow> wat_c \<Rightarrow> tree_api \<Rightarrow> tree_req \<Rightarrow> acl_tree \<Rightarrow> js_error + acl_tree" where
  "tree_answer_req t C api (FillReq p) T = Inr (fillBranch t C (api_rows api p) T)"
| "tree_answer_req t C api (GroupReq p) T = Inr (performACLGroupCheck (api_names api p) T)"
| "tree_answer_req t C api (UpdateReq c) T = Inr (getBranchStats T)"
| "tree_answer_req t C api (StatsReq p) T = updateBranchStats [(p, api_stats api p)] T"

definition tree_answer :: "(string \<Rightarrow> js \<Rightarrow> string) \<Rightarrow> wat_c \<Rightarrow> tree_api \<Rightarrow> nat \<Rightarrow> acl_tree \<Rightarrow> js_error + acl_tree" where
  "tree_answer t C api n T =
     (if n < length (rt_pending T)
      then tree_answer_req t C api (rt_pending T ! n) (T\<lparr>rt_pending := take n (rt_pending T) @ drop (Suc n) (rt_pending T)\<rparr>)
      else Inr T)"

section \<open>One click at a time\<close>

lemma map_of_set_branch:
  "map_of (rt_branches (set_branch b f T)) c = (if c = b then map_option f (map_of (rt_branches T) b) else map_of (rt_branches T) c)"
  by (simp add: set_branch_def map_of_map_entry split: option.splits)

lemma set_branch_kept [simp]:
  "rt_pending (set_branch b f T) = rt_pending T" "rt_current (set_branch b f T) = rt_current T" "rt_checked (set_branch b f T) = rt_checked T"
  "rt_group (set_branch b f T) = rt_group T" "rt_selector (set_branch b f T) = rt_selector T" "rt_admin (set_branch b f T) = rt_admin T"
  "rt_fixed (set_branch b f T) = rt_fixed T"
  by (simp_all add: set_branch_def)

lemma request_kept [simp]:
  "rt_branches (request r T) = rt_branches T" "rt_current (request r T) = rt_current T" "rt_checked (request r T) = rt_checked T"
  "rt_group (request r T) = rt_group T" "rt_selector (request r T) = rt_selector T" "rt_pending (request r T) = rt_pending T @ [r]"
  by (simp_all add: request_def)

lemma set_branch_set [simp]: "set_branch b f (T\<lparr>rt_pending := ps\<rparr>) = (set_branch b f T)\<lparr>rt_pending := ps\<rparr>"
  by (simp add: set_branch_def)

lemma tree_answer_single: "rt_pending T = [r] \<Longrightarrow> tree_answer t C api 0 T = tree_answer_req t C api r (T\<lparr>rt_pending := []\<rparr>)"
  by (simp add: tree_answer_def)

text \<open>C29. A branch checked on its own goes through three answers: the names of its ACLs, the update and the new
  counters. The update assigns (or unassigns, when the branch was unchecked) exactly the ACLs of the
  branch, and afterwards the branch is checked exactly when all its ACLs are effective and greyed out
  exactly when none is.\<close>

theorem branch_check_exchange:
  assumes T: "rt_pending T = []" "map_of (rt_branches T) b = Some br" and k: "rt_selector T = br_kind br"
  defines "p \<equiv> branch_pattern (br_kind br) b"
  shows "\<exists>T1 T2 T3 br3. tree_answer t C api 0 (checkBranch b v T) = Inr T1 \<and>
    rt_pending T1 = [UpdateReq (if v then Assign (api_names api p) else Unassign (api_names api p))] \<and>
    tree_answer t C api 0 T1 = Inr T2 \<and> rt_pending T2 = [StatsReq p] \<and> tree_answer t C api 0 T2 = Inr T3 \<and> rt_pending T3 = [] \<and>
    map_of (rt_branches T3) b = Some br3 \<and> (br_checked br3 \<longleftrightarrow> fst (api_stats api p) = snd (api_stats api p)) \<and>
    (br_disabled br3 \<longleftrightarrow> fst (api_stats api p) = 0) \<and> map tr_acl (br_rows br3) = map tr_acl (br_rows br) \<and>
    (\<forall>c. c \<noteq> b \<longrightarrow> map_of (rt_branches T3) c = map_of (rt_branches T) c)"
proof -
  let ?f = "\<lambda>x. x\<lparr>br_checked := v, br_rows := map (\<lambda>r. r\<lparr>tr_checked := v\<rparr>) (br_rows x)\<rparr>"
  define U where "U = set_branch b ?f (T\<lparr>rt_checked := JStr b, rt_group := v\<rparr>)"
  let ?c = "if v then Assign (api_names api p) else Unassign (api_names api p)"
  have 0: "checkBranch b v T = request (GroupReq p) U" using T by (simp add: checkBranch_def p_def U_def)
  have U: "rt_pending U = []" "rt_group U = v" "rt_checked U = JStr b" "rt_selector U = br_kind br" using T k by (simp_all add: U_def)
  have r: "(request r X)\<lparr>rt_pending := []\<rparr> = X" if "rt_pending X = []" for r X
    using that by (simp add: request_def)
  have 1: "tree_answer t C api 0 (checkBranch b v T) = Inr (request (UpdateReq ?c) U)"
    unfolding 0 using U r [OF U(1)] tree_answer_single [of "request (GroupReq p) U" "GroupReq p" t C api]
    by (simp add: performACLGroupCheck_def)
  have cp: "checked_pattern U = p" using U by (simp add: checked_pattern_def p_def)
  have 2: "tree_answer t C api 0 (request (UpdateReq ?c) U) = Inr (request (StatsReq p) U)"
    using U r [OF U(1)] cp tree_answer_single [of "request (UpdateReq ?c) U" "UpdateReq ?c" t C api]
    by (simp add: getBranchStats_def)
  obtain e n where s: "api_stats api p = (e, n)" by (cases "api_stats api p")
  have 3: "tree_answer t C api 0 (request (StatsReq p) U) = Inr (set_branch b (stats_branch e n) U)"
    using U r [OF U(1)] cp s tree_answer_single [of "request (StatsReq p) U" "StatsReq p" t C api]
    by (simp add: updateBranchStats_def)
  have "map_of (rt_branches (set_branch b (stats_branch e n) U)) b = Some (stats_branch e n (?f br))"
    using T by (simp add: map_of_set_branch U_def)
  moreover have "br_checked (stats_branch e n x) \<longleftrightarrow> e = n" "br_disabled (stats_branch e n x) \<longleftrightarrow> e = 0"
    "map tr_acl (br_rows (stats_branch e n x)) = map tr_acl (br_rows x)" for x
    by (auto simp: stats_branch_def Let_def)
  moreover have "map tr_acl (br_rows (?f br)) = map tr_acl (br_rows br)" by simp
  moreover have "c \<noteq> b \<Longrightarrow> map_of (rt_branches (set_branch b (stats_branch e n) U)) c = map_of (rt_branches T) c" for c
    by (simp add: map_of_set_branch U_def)
  ultimately show ?thesis
    using 1 2 3 U s
    by (intro exI [of _ "request (UpdateReq ?c) U"] exI [of _ "request (StatsReq p) U"]
        exI [of _ "set_branch b (stats_branch e n) U"] exI [of _ "stats_branch e n (?f br)"]) simp
qed

section \<open>Clicks that overtake answers\<close>

text \<open>The handlers of the answers take the fields of the latest click for those of their own. When a branch
  is checked and another one unchecked before the first answer has come, the ACLs of the first branch
  are unassigned, against what its check box says. When two branches are opened in quick succession,
  the ACLs of the first appear under the second. And a click on an ACL of one branch asks for the
  counters of the branch opened last.\<close>

theorem acl_tree_races:
  assumes T: "rt_pending T = []" "map_of (rt_branches T) a = Some x" "map_of (rt_branches T) b = Some y" "a \<noteq> b"
  shows "(\<exists>T1. tree_answer t C api 0 (checkBranch b False (checkBranch a True T)) = Inr T1 \<and>
      UpdateReq (Unassign (api_names api (branch_pattern (br_kind x) a))) \<in> set (rt_pending T1) \<and>
      map_option br_checked (map_of (rt_branches T1) a) = Some True) \<and>
    (\<not> br_open x \<and> \<not> br_open y \<longrightarrow> (\<exists>T1. tree_answer t C api 0 (toggleBranch b (toggleBranch a T)) = Inr T1 \<and>
      map_option (map tr_acl \<circ> br_rows) (map_of (rt_branches T1) b) =
        Some (map tr_acl (br_rows y) @ map acl_name (shown_acls C T (sortTranslatedACLs t (api_rows api (branch_pattern (br_kind x) a))))) \<and>
      map_option br_rows (map_of (rt_branches T1) a) = Some (br_rows x))) \<and>
    (rt_current T = Some b \<longrightarrow> (\<exists>T1. tree_answer t C api 0 (checkACL_row a n v T) = Inr T1 \<and>
      rt_pending T1 = [StatsReq (branch_pattern (rt_selector T) b)]))"
proof (intro conjI impI)
  let ?U = "checkBranch b False (checkBranch a True T)"
  have "rt_pending ?U = [GroupReq (branch_pattern (br_kind x) a), GroupReq (branch_pattern (br_kind y) b)]" "\<not> rt_group ?U"
    using T by (simp_all add: checkBranch_def map_of_set_branch)
  moreover have "map_option br_checked (map_of (rt_branches ?U) a) = Some True"
    using T by (simp add: checkBranch_def map_of_set_branch)
  ultimately show "\<exists>T1. tree_answer t C api 0 ?U = Inr T1 \<and>
      UpdateReq (Unassign (api_names api (branch_pattern (br_kind x) a))) \<in> set (rt_pending T1) \<and>
      map_option br_checked (map_of (rt_branches T1) a) = Some True"
    by (simp add: tree_answer_def performACLGroupCheck_def)
next
  assume "\<not> br_open x \<and> \<not> br_open y"
  then have "rt_pending (toggleBranch b (toggleBranch a T)) = [FillReq (branch_pattern (br_kind x) a), FillReq (branch_pattern (br_kind y) b)]"
    "rt_current (toggleBranch b (toggleBranch a T)) = Some b" "rt_admin (toggleBranch b (toggleBranch a T)) = rt_admin T"
    "map_of (rt_branches (toggleBranch b (toggleBranch a T))) b = Some (y\<lparr>br_open := True, br_loading := True\<rparr>)"
    "map_of (rt_branches (toggleBranch b (toggleBranch a T))) a = Some (x\<lparr>br_open := True, br_loading := True\<rparr>)"
    using T by (simp_all add: toggleBranch_def map_of_set_branch request_def)
  then show "\<exists>T1. tree_answer t C api 0 (toggleBranch b (toggleBranch a T)) = Inr T1 \<and>
      map_option (map tr_acl \<circ> br_rows) (map_of (rt_branches T1) b) =
        Some (map tr_acl (br_rows y) @ map acl_name (shown_acls C T (sortTranslatedACLs t (api_rows api (branch_pattern (br_kind x) a))))) \<and>
      map_option br_rows (map_of (rt_branches T1) a) = Some (br_rows x)"
    using T(4) by (simp add: tree_answer_def fillBranch_def map_of_set_branch tree_row_of_def shown_acls_def o_def)
next
  assume "rt_current T = Some b"
  then show "\<exists>T1. tree_answer t C api 0 (checkACL_row a n v T) = Inr T1 \<and> rt_pending T1 = [StatsReq (branch_pattern (rt_selector T) b)]"
    using T(1) by (simp add: tree_answer_def checkACL_row_def getBranchStats_def checked_pattern_def)
qed

definition sample_branch :: "string \<Rightarrow> tree_branch" where
  "sample_branch k = \<lparr> br_kind = k, br_open = False, br_loading = False, br_rows = [], br_checked = False, br_disabled = True, br_count = 0 \<rparr>"

definition sample_tree :: acl_tree where
  "sample_tree =
     \<lparr> rt_admin = False, rt_fixed = JBool False, rt_branches = [(''vm'', sample_branch ''sections''), (''user'', sample_branch ''sections'')],
       rt_selector = ''sections'', rt_current = None, rt_checked = Undef, rt_group = False, rt_pending = [] \<rparr>"

definition sample_tree_api :: tree_api where
  "sample_tree_api =
     \<lparr> api_rows = (\<lambda>p. []), api_names = (\<lambda>p. if p = ''vm.%'' then [''vm.create.'', ''vm.delete.''] else [''user.create.'']),
       api_stats = (\<lambda>p. (2, 2)) \<rparr>"

theorem branch_check_exchange_witness:
  "\<exists>T1. tree_answer (\<lambda>s j. s) (wat_c_init []) sample_tree_api 0 (checkBranch ''vm'' True sample_tree) = Inr T1 \<and>
     rt_pending T1 = [UpdateReq (Assign [''vm.create.'', ''vm.delete.''])]"
proof -
  have "map_of (rt_branches sample_tree) ''vm'' = Some (sample_branch ''sections'')" by (simp add: sample_tree_def)
  moreover have "branch_pattern (br_kind (sample_branch ''sections'')) ''vm'' = ''vm.%''" by (simp add: branch_pattern_def sample_branch_def)
  ultimately show ?thesis
    using branch_check_exchange [of sample_tree "''vm''" "sample_branch ''sections''" "\<lambda>s j. s" "wat_c_init []" sample_tree_api True]
    by (auto simp: sample_tree_def sample_branch_def sample_tree_api_def)
qed

theorem acl_tree_races_witness:
  "\<exists>T1. tree_answer (\<lambda>s j. s) (wat_c_init []) sample_tree_api 0 (checkBranch ''user'' False (checkBranch ''vm'' True sample_tree)) = Inr T1 \<and>
     UpdateReq (Unassign [''vm.create.'', ''vm.delete.'']) \<in> set (rt_pending T1)"
proof -
  have b: "map_of (rt_branches sample_tree) ''vm'' = Some (sample_branch ''sections'')"
    "map_of (rt_branches sample_tree) ''user'' = Some (sample_branch ''sections'')" "rt_pending sample_tree = []"
    by (simp_all add: sample_tree_def)
  have "api_names sample_tree_api (branch_pattern (br_kind (sample_branch ''sections'')) ''vm'') = [''vm.create.'', ''vm.delete.'']"
    by (simp add: branch_pattern_def sample_branch_def sample_tree_api_def)
  then show ?thesis using acl_tree_races [OF b(3,1,2), of "\<lambda>s j. s" "wat_c_init []" sample_tree_api] by auto
qed

section \<open>The rows of a branch\<close>

text \<open>A click only when no answer is awaited, an answer as soon as it comes.\<close>

inductive calm_reach :: "(string \<Rightarrow> js \<Rightarrow> string) \<Rightarrow> wat_c \<Rightarrow> tree_api \<Rightarrow> acl_tree \<Rightarrow> bool"
  for t C api where
  drawn: "renderACLsTree stats secs pats T0 = Inr T \<Longrightarrow> distinct (map fst secs @ map fst ACL_ACTIONS) \<Longrightarrow> rt_pending T0 = [] \<Longrightarrow>
    calm_reach t C api T"
| toggled: "calm_reach t C api T \<Longrightarrow> rt_pending T = [] \<Longrightarrow> calm_reach t C api (toggleBranch b T)"
| tree: "calm_reach t C api T \<Longrightarrow> rt_pending T = [] \<Longrightarrow> calm_reach t C api (toggleTree sel T)"
| branch: "calm_reach t C api T \<Longrightarrow> rt_pending T = [] \<Longrightarrow> calm_reach t C api (checkBranch b v T)"
| row: "calm_reach t C api T \<Longrightarrow> rt_pending T = [] \<Longrightarrow> calm_reach t C api (checkACL_row b a v T)"
| answered: "calm_reach t C api T \<Longrightarrow> tree_answer t C api 0 T = Inr T' \<Longrightarrow> calm_reach t C api T'"

definition branch_ok :: "(string \<Rightarrow> string \<Rightarrow> bool) \<Rightarrow> string \<Rightarrow> tree_branch \<Rightarrow> bool" where
  "branch_ok like b br \<longleftrightarrow> list_all (like (branch_pattern (br_kind br) b)) (map tr_acl (br_rows br)) \<and>
     (\<not> br_open br \<longrightarrow> map tr_acl (br_rows br) = [])"

definition calm_ok :: "(string \<Rightarrow> string \<Rightarrow> bool) \<Rightarrow> acl_tree \<Rightarrow> bool" where
  "calm_ok like T \<longleftrightarrow> distinct (map fst (rt_branches T)) \<and> (\<forall>b br. map_of (rt_branches T) b = Some br \<longrightarrow> branch_ok like b br) \<and>
     (rt_pending T = [] \<or> (\<exists>r. rt_pending T = [r] \<and>
        (\<forall>p. r = FillReq p \<longrightarrow> (\<exists>b br. rt_current T = Some b \<and> map_of (rt_branches T) b = Some br \<and> br_open br \<and>
                                 p = branch_pattern (br_kind br) b))))"

lemma sortTranslatedACLs_subset: "set (sortTranslatedACLs t acls) \<subseteq> set acls"
proof
  have find_in: "find P xs = Some x \<Longrightarrow> x \<in> set xs" for P x and xs :: "'a acl_row_scheme list"
    by (induction xs) (auto split: if_splits)
  fix x assume "x \<in> set (sortTranslatedACLs t acls)"
  then show "x \<in> set acls" by (auto simp: sortTranslatedACLs_def split: option.splits intro: find_in dest: sym)
qed



lemma stats_branch_kept:
  "br_kind (stats_branch e n x) = br_kind x" "br_open (stats_branch e n x) = br_open x"
  "map tr_acl (br_rows (stats_branch e n x)) = map tr_acl (br_rows x)"
  by (auto simp: stats_branch_def Let_def)

lemma branch_ok_stats: "branch_ok like b (stats_branch e n x) = branch_ok like b x"
  by (simp add: branch_ok_def stats_branch_kept del: map_is_Nil_conv)

lemma set_branch_keys [simp]: "map fst (rt_branches (set_branch b f T)) = map fst (rt_branches T)"
proof -
  have "map fst (AList.map_entry b f xs) = map fst xs" for xs :: "tree_branch obj"
    by (induction xs) auto
  then show ?thesis by (simp add: set_branch_def)
qed

lemma draw_branches_keys:
  "draw_branches stats kind pats bs = Inr xs \<Longrightarrow>
   set (map fst xs) \<subseteq> set bs \<and> (distinct bs \<longrightarrow> distinct (map fst xs)) \<and> list_all (\<lambda>(b, x). br_rows x = []) xs"
proof (induction bs arbitrary: xs)
  case (Cons b bs)
  then obtain x ys where x: "draw_branch stats kind b pats = Inr x" and ys: "draw_branches stats kind pats bs = Inr ys" "xs = x @ ys"
    by (auto split: sum.splits)
  have "x = [] \<or> (\<exists>br. x = [(b, br)] \<and> br_rows br = [])"
    using x by (auto simp: draw_branch_def split: option.splits if_splits)
  then show ?case using Cons.IH [OF ys(1)] ys(2) by auto
qed simp

lemma drawn_calm:
  assumes "renderACLsTree stats secs pats T0 = Inr T" and d: "distinct (map fst secs @ map fst ACL_ACTIONS)" and "rt_pending T0 = []"
  shows "calm_ok like T"
proof -
  obtain xs ys where xs: "draw_branches stats ''sections'' pats (map fst secs) = Inr xs"
    and ys: "draw_branches stats ''actions'' pats (map fst ACL_ACTIONS) = Inr ys"
    and T: "T = T0\<lparr>rt_branches := xs @ ys, rt_selector := ''sections''\<rparr>"
    using assms(1) by (auto simp: renderACLsTree_def split: sum.splits)
  note X = draw_branches_keys [OF xs] and Y = draw_branches_keys [OF ys]
  have "distinct (map fst (xs @ ys))" using X Y d by (simp del: set_map) blast
  moreover have "br_rows br = []" if "map_of (xs @ ys) b = Some br" for b br
    using map_of_SomeD [OF that] X Y by (auto simp: list_all_iff)
  ultimately show ?thesis using assms(3) by (simp add: calm_ok_def T branch_ok_def)
qed

text \<open>Closing all branches, one after the other.\<close>

lemma close_all:
  assumes "distinct bs" and "\<forall>b\<in>set bs. \<forall>br. map_of (rt_branches T) b = Some br \<longrightarrow> br_open br"
    and "calm_ok like T" and "rt_pending T = []"
  shows "calm_ok like (fold toggleBranch bs T) \<and> rt_pending (fold toggleBranch bs T) = []"
  using assms
proof (induction bs arbitrary: T)
  case (Cons b bs)
  let ?f = "\<lambda>x. x\<lparr>br_open := False, br_rows := []\<rparr>"
  have open_b: "\<And>br. map_of (rt_branches T) b = Some br \<Longrightarrow> br_open br" using Cons.prems(2) by simp
  let ?U = "toggleBranch b T"
  have U: "?U = T \<or> ?U = set_branch b ?f (T\<lparr>rt_current := Some b\<rparr>)"
    using open_b by (auto simp: toggleBranch_def Let_def split: option.splits)
  have "calm_ok like (set_branch b ?f (T\<lparr>rt_current := Some b\<rparr>))"
    using Cons.prems(3,4) by (auto simp: calm_ok_def map_of_set_branch branch_ok_def simp del: map_of_eq_Some_iff split: if_splits)
  then have ok: "calm_ok like ?U" "rt_pending ?U = []" using U Cons.prems(3,4) by auto
  have "\<forall>c\<in>set bs. \<forall>br. map_of (rt_branches ?U) c = Some br \<longrightarrow> br_open br"
    using U Cons.prems(1,2) by (auto simp: map_of_set_branch split: if_splits)
  then show ?case using Cons.IH [of ?U] Cons.prems(1) ok by simp
qed simp

lemma calm_toggleTree:
  assumes "calm_ok like T" and "rt_pending T = []"
  shows "calm_ok like (toggleTree sel T)"
proof -
  let ?T = "T\<lparr>rt_selector := sel, rt_branches := map (\<lambda>(b, x). (b, x\<lparr>br_open := True\<rparr>)) (rt_branches T)\<rparr>"
  have m: "map_of (map (\<lambda>(b, x). (b, f x)) ps) c = map_option f (map_of ps c)" for f and ps :: "tree_branch obj" and c
    by (induction ps) auto
  have k: "map (fst \<circ> (\<lambda>(b, x). (b, x\<lparr>br_open := True\<rparr>))) (rt_branches T) = map fst (rt_branches T)"
    by (rule map_cong) auto
  have "calm_ok like ?T" using assms by (auto simp: calm_ok_def m k branch_ok_def simp del: map_of_eq_Some_iff)
  moreover have "distinct (map fst (rt_branches ?T))" using assms(1) by (simp add: calm_ok_def k)
  moreover have "\<forall>b\<in>set (map fst (rt_branches ?T)). \<forall>br. map_of (rt_branches ?T) b = Some br \<longrightarrow> br_open br"
    by (auto simp: m)
  ultimately show ?thesis unfolding toggleTree_def Let_def using close_all [of "map fst (rt_branches ?T)" ?T like] assms(2) by simp
qed

lemma calm_fill:
  assumes like: "\<And>p a. a \<in> set (api_rows api p) \<Longrightarrow> like p (acl_name a)"
    and ok: "calm_ok like T" and r: "rt_pending T = [FillReq p]"
  shows "calm_ok like (fillBranch t C (api_rows api p) (T\<lparr>rt_pending := []\<rparr>))"
proof -
  obtain b br where b: "rt_current T = Some b" "map_of (rt_branches T) b = Some br" "br_open br" "p = branch_pattern (br_kind br) b"
    using ok r unfolding calm_ok_def by auto
  let ?new = "map (tree_row_of C (T\<lparr>rt_pending := []\<rparr>)) (shown_acls C (T\<lparr>rt_pending := []\<rparr>) (sortTranslatedACLs t (api_rows api p)))"
  have "list_all (like p) (map tr_acl ?new)"
    using like sortTranslatedACLs_subset by (fastforce simp: list_all_iff tree_row_of_def shown_acls_def)
  then have "branch_ok like b (br\<lparr>br_rows := br_rows br @ ?new, br_loading := False\<rparr>)"
    using ok b unfolding calm_ok_def by (auto simp: branch_ok_def)
  then show ?thesis
    using ok b by (auto simp: fillBranch_def calm_ok_def map_of_set_branch simp del: map_of_eq_Some_iff split: if_splits)
qed

lemma calm_reach_ok:
  assumes like: "\<And>p a. a \<in> set (api_rows api p) \<Longrightarrow> like p (acl_name a)" and "calm_reach t C api T"
  shows "calm_ok like T"
  using assms(2)
proof (induction rule: calm_reach.induct)
  case (drawn stats secs pats T0 T)
  then show ?case by (rule drawn_calm)
next
  case (toggled T b)
  then show ?case
    by (auto simp: toggleBranch_def Let_def calm_ok_def map_of_set_branch branch_ok_def simp del: map_of_eq_Some_iff split: option.splits if_splits)
next
  case (tree T sel)
  then show ?case by (intro calm_toggleTree)
next
  case (branch T b v)
  then show ?case
    by (auto simp: checkBranch_def calm_ok_def map_of_set_branch branch_ok_def comp_def simp del: map_of_eq_Some_iff split: option.splits if_splits)
next
  case (row T b a v)
  have m: "map (\<lambda>r. tr_acl (if tr_acl r = a then r\<lparr>tr_checked := v, tr_disabled := \<not> v\<rparr> else r)) rs = map tr_acl rs" for rs
    by (rule map_cong) auto
  show ?case using row
    by (auto simp: m checkACL_row_def calm_ok_def map_of_set_branch branch_ok_def comp_def simp del: map_of_eq_Some_iff split: if_splits)
next
  case (answered T T')
  show ?case
  proof (cases "rt_pending T")
    case Nil
    then show ?thesis using answered by (simp add: tree_answer_def)
  next
    case (Cons r rs)
    then have r: "rt_pending T = [r]" using answered.IH unfolding calm_ok_def by auto
    then have T': "tree_answer_req t C api r (T\<lparr>rt_pending := []\<rparr>) = Inr T'" using answered.hyps(2) by (simp add: tree_answer_single)
    have base: "distinct (map fst (rt_branches T))" "\<forall>b br. map_of (rt_branches T) b = Some br \<longrightarrow> branch_ok like b br"
      using answered.IH unfolding calm_ok_def by auto
    show ?thesis
    proof (cases r)
      case (FillReq p)
      then show ?thesis using calm_fill [of api like, OF like answered.IH] r T' by auto
    next
      case (StatsReq p)
      then show ?thesis using T' base
        by (auto simp: updateBranchStats_def calm_ok_def map_of_set_branch branch_ok_stats simp del: map_of_eq_Some_iff
            split: option.splits if_splits)
    qed (use T' base in \<open>auto simp: performACLGroupCheck_def getBranchStats_def calm_ok_def simp del: map_of_eq_Some_iff\<close>)
  qed
qed

text \<open>As long as each click waits for the answers of the one before, the ACLs listed under a branch are
  those that match the pattern of the branch, and a closed branch lists none.\<close>

theorem calm_rows_belong:
  assumes "\<And>p a. a \<in> set (api_rows api p) \<Longrightarrow> like p (acl_name a)" and "calm_reach t C api T"
    and "map_of (rt_branches T) b = Some br"
  shows "list_all (like (branch_pattern (br_kind br) b)) (map tr_acl (br_rows br)) \<and> (\<not> br_open br \<longrightarrow> br_rows br = [])"
  using calm_reach_ok [of api like, OF assms(1,2)] assms(3)
  by (auto simp: calm_ok_def branch_ok_def simp del: map_of_eq_Some_iff)

definition vm_only_api :: tree_api where
  "vm_only_api =
     \<lparr> api_rows = (\<lambda>p. if p = ''vm.%'' then [\<lparr> acl_name = ''vm.create.'', acl_description = ''Create'', ra_operative = True, ra_roles = [] \<rparr>] else []),
       api_names = (\<lambda>p. []), api_stats = (\<lambda>p. (0, 0)) \<rparr>"

definition vm_like :: "string \<Rightarrow> string \<Rightarrow> bool" where
  "vm_like p n \<longleftrightarrow> p = ''vm.%'' \<and> take 3 n = ''vm.''"

theorem calm_rows_belong_witness:
  "\<exists>T br. calm_reach (\<lambda>s j. s) (wat_c_init []) vm_only_api T \<and> map_of (rt_branches T) ''vm'' = Some br \<and>
     list_all (vm_like (branch_pattern (br_kind br) ''vm'')) (map tr_acl (br_rows br))"
proof -
  let ?secs = "[(''vm'', ''Virtual machines'')]"
  let ?pats = "(''vm'', ''vm.%'') # ACL_ACTIONS_PATTERNS"
  let ?stats = "(''vm.%'', (1, 1)) # map (\<lambda>(b, p). (p, (0, 0))) ACL_ACTIONS_PATTERNS"
  have "\<not> isl (renderACLsTree ?stats ?secs ?pats sample_tree)" by code_simp
  then obtain T where T: "renderACLsTree ?stats ?secs ?pats sample_tree = Inr T"
    by (cases "renderACLsTree ?stats ?secs ?pats sample_tree") auto
  have "distinct (map fst ?secs @ map fst ACL_ACTIONS)" by code_simp
  from calm_reach.drawn [OF T this] have r: "calm_reach (\<lambda>s j. s) (wat_c_init []) vm_only_api T" by (simp add: sample_tree_def)
  have "map_option (\<lambda>T. map_of (rt_branches T) ''vm'' = None) (case renderACLsTree ?stats ?secs ?pats sample_tree of Inl e \<Rightarrow> None | Inr T \<Rightarrow> Some T) = Some False"
    by code_simp
  then obtain br where br: "map_of (rt_branches T) ''vm'' = Some br" using T by auto
  have like: "\<And>p a. a \<in> set (api_rows vm_only_api p) \<Longrightarrow> vm_like p (acl_name a)"
    by (auto simp: vm_only_api_def vm_like_def split: if_splits)
  show ?thesis using calm_rows_belong [of vm_only_api vm_like, OF like r br] r br by blast
qed

end
