(* ===== verification/UpDesktops.thy ===== *)
theory UpDesktops
  imports WsUpdates
begin

text \<open>
  The desktops of the user portal (\<open>up/lib/bb-views/up/desktops.js\<close>, \<open>up/lib/crud/desktops.js\<close>,
  \<open>up/lib/websockets/websockets-desktops.js\<close>): the state of every desktop in its model and in its cell of
  the grid, the connection to a desktop with the classic and the HTML5 client, and the timers that
  watch over a connection.

  The record \<open>portal\<close> is the page while the list of desktops is its view: the models of the collection
  (\<open>None\<close> when the current view has no collection), the cell of each desktop as the template
  \<open>desktops-grid.tpl\<close> draws it, and the timers. An operation gives the new state and the error it raised,
  if any; what it did before the error stays done. Ids are numbers: the attribute \<open>data-id\<close> is printed from
  the id and read back with \<open>parseInt\<close>.
\<close>

section \<open>State\<close>

record desktop =
  dk_id :: int
  dk_state :: js
  dk_last :: js
  dk_vm :: js
  dk_blocked :: bool

record grid_icon =
  ic_hiddeable :: bool
  ic_flash :: bool
  ic_shown :: bool

record grid_cell =
  dc_state :: js
  dc_classes :: "string list"
  dc_blocked :: bool
  dc_connect :: grid_icon
  dc_reconnect :: grid_icon
  dc_shot_hover :: bool
  dc_shot_on :: bool
  dc_shot_off :: bool
  dc_text :: js
  dc_text_flash :: bool
  dc_mobile_flash :: bool
  dc_title :: js

record timeout =
  to_count :: nat
  to_handle :: nat

record portal =
  pv_models :: "desktop list option"
  pv_cells :: "(int \<times> grid_cell) list"
  pv_mobile :: bool
  pv_chrome :: bool
  pv_timeouts :: "(int \<times> timeout) list"
  pv_intervals :: "(nat \<times> int) list"
  pv_waits :: "(nat \<times> int) list"
  pv_watches :: "(nat \<times> int) list"
  pv_next :: nat
  pv_connecting :: "int option"
  pv_seen_msg :: bool
  pv_cookies :: "int list"
  pv_out :: "effect list"

type_synonym run = "portal \<times> js_error option"

definition andThen :: "'s \<times> js_error option \<Rightarrow> ('s \<Rightarrow> 's \<times> js_error option) \<Rightarrow> 's \<times> js_error option" where
  "andThen r f = (case snd r of None \<Rightarrow> f (fst r) | Some e \<Rightarrow> r)"

definition emit :: "effect list \<Rightarrow> portal \<Rightarrow> portal" where
  "emit es P = P\<lparr>pv_out := pv_out P @ es\<rparr>"

definition CONNECTION_TIMEOUT :: nat where
  "CONNECTION_TIMEOUT = 40"

section \<open>State of a desktop\<close>

definition find_desk :: "int \<Rightarrow> portal \<Rightarrow> desktop option" where
  "find_desk i P = (case pv_models P of None \<Rightarrow> None | Some ms \<Rightarrow> find (\<lambda>m. dk_id m = i) ms)"

fun set_desk :: "int \<Rightarrow> (desktop \<Rightarrow> desktop) \<Rightarrow> desktop list \<Rightarrow> desktop list" where
  "set_desk i f [] = []"
| "set_desk i f (m # ms) = (if dk_id m = i then f m # ms else m # set_desk i f ms)"

text \<open>\<open>collection.findWhere({id: id}).set(\<dots>)\<close>: a TypeError when there is no such model.\<close>

definition set_model :: "int \<Rightarrow> (desktop \<Rightarrow> desktop) \<Rightarrow> portal \<Rightarrow> run" where
  "set_model i f P =
     (case find_desk i P of
        None \<Rightarrow> (P, Some TypeError)
      | Some m \<Rightarrow> (P\<lparr>pv_models := map_option (set_desk i f) (pv_models P)\<rparr>, None))"

fun getDesktopTitleString :: "js \<Rightarrow> bool \<Rightarrow> string" where
  "getDesktopTitleString st blocked =
     (if blocked then ''Blocked''
      else if st = JStr ''disconnected'' then ''Connect''
      else if st = JStr ''connected'' then ''Reconnect''
      else '''')"

definition getStateString :: "js \<Rightarrow> js" where
  "getStateString st =
     (if st = JStr ''connected'' then JStr ''Connected''
      else if st = JStr ''disconnected'' then JStr ''Disconnected''
      else if st = JStr ''connecting'' then JStr ''Connecting''
      else if st = JStr ''reconnecting'' then JStr ''Reconnecting''
      else Undef)"

definition stable :: "js \<Rightarrow> bool" where
  "stable st \<longleftrightarrow> st = JStr ''connected'' \<or> st = JStr ''disconnected''"

definition in_progress :: "js \<Rightarrow> bool" where
  "in_progress st \<longleftrightarrow> st = JStr ''connecting'' \<or> st = JStr ''reconnecting''"

definition state_classes :: "string list" where
  "state_classes = [''grid-disconnected'', ''js-grid-disconnected'', ''grid-connected'', ''js-grid-connected'',
     ''grid-connecting'', ''js-grid-connecting'', ''grid-reconnecting'', ''js-grid-reconnecting'']"

definition add_class :: "string \<Rightarrow> string list \<Rightarrow> string list" where
  "add_class c cs = (if c \<in> set cs then cs else cs @ [c])"

text \<open>The icons a state selects: with the action \<open>connect\<close>, with the action \<open>reconnect\<close>, or both.\<close>

definition draw_icon :: "js \<Rightarrow> js \<Rightarrow> grid_icon \<Rightarrow> grid_icon" where
  "draw_icon own st ic =
     (if stable st then \<lparr> ic_hiddeable = True, ic_flash = False, ic_shown = False \<rparr>
      else if in_progress st \<and> st = own then \<lparr> ic_hiddeable = False, ic_flash = True, ic_shown = True \<rparr>
      else ic)"

text \<open>Setting an attribute to \<open>undefined\<close> leaves it as it is.\<close>

definition attr_set :: "js \<Rightarrow> js \<Rightarrow> js" where
  "attr_set old v = (if v = Undef then old else v)"

definition draw_state :: "bool \<Rightarrow> js \<Rightarrow> grid_cell \<Rightarrow> grid_cell" where
  "draw_state mobile st c =
     (let c1 = c\<lparr>dc_classes := filter (\<lambda>k. k \<notin> set state_classes) (dc_classes c), dc_state := attr_set (dc_state c) st\<rparr>;
          c2 = (if stable st \<or> in_progress st
                then (if mobile then c1\<lparr>dc_mobile_flash := in_progress st\<rparr>
                      else c1\<lparr>dc_connect := draw_icon (JStr ''connecting'') st (dc_connect c1),
                              dc_reconnect := draw_icon (JStr ''reconnecting'') st (dc_reconnect c1),
                              dc_shot_hover := in_progress st\<rparr>)\<lparr>dc_text_flash := in_progress st\<rparr>
                else c1);
          c3 = (if stable st \<and> \<not> mobile
                then c2\<lparr>dc_shot_on := (st = JStr ''connected''), dc_shot_off := (st = JStr ''disconnected'')\<rparr> else c2);
          c4 = (if mobile \<or> dc_blocked c3 then c3
                else if getDesktopTitleString st False \<noteq> ''''
                then c3\<lparr>dc_title := JStr (''[title]'' @ getDesktopTitleString st False)\<rparr> else c3)
      in c4\<lparr>dc_classes := add_class (''js-grid-'' @ js_str st) (add_class (''grid-'' @ js_str st) (dc_classes c4)),
            dc_text := attr_set (dc_text c4) (getStateString st)\<rparr>)"

definition cell_state :: "int \<Rightarrow> portal \<Rightarrow> js" where
  "cell_state i P = (case map_of (pv_cells P) i of None \<Rightarrow> Undef | Some c \<Rightarrow> dc_state c)"

definition shown_state :: "js \<Rightarrow> js \<Rightarrow> js" where
  "shown_state new cur =
     (if new = JStr ''connecting'' \<and> (cur = JStr ''connected'' \<or> cur = JStr ''reconnecting'')
      then JStr ''reconnecting'' else new)"

definition setDesktopState :: "int \<Rightarrow> js \<Rightarrow> portal \<Rightarrow> run" where
  "setDesktopState i new P =
     andThen (if stable new then set_model i (\<lambda>m. m\<lparr>dk_last := new\<rparr>) P else (P, None)) (\<lambda>P1.
       let st = shown_state new (cell_state i P1);
           P2 = P1\<lparr>pv_cells := AList.map_entry i (draw_state (pv_mobile P1) st) (pv_cells P1)\<rparr>
       in set_model i (\<lambda>m. m\<lparr>dk_state := st\<rparr>) P2)"

definition setVMState :: "int \<Rightarrow> js \<Rightarrow> portal \<Rightarrow> run" where
  "setVMState i st P = set_model i (\<lambda>m. m\<lparr>dk_vm := st\<rparr>) P"

fun setAllDesktopsState :: "desktop list \<Rightarrow> portal \<Rightarrow> run" where
  "setAllDesktopsState [] P = (P, None)"
| "setAllDesktopsState (m # ms) P = andThen (setDesktopState (dk_id m) (dk_state m) P) (setAllDesktopsState ms)"

text \<open>A cell as the template draws it. The models the loop visits are those of the collection; their ids
  are unique, so the state of a model does not change before its turn.\<close>

definition fresh_icon :: grid_icon where
  "fresh_icon = \<lparr> ic_hiddeable = True, ic_flash = False, ic_shown = False \<rparr>"

definition print_attr :: "js \<Rightarrow> js" where
  "print_attr v = JStr (if nullish v then '''' else js_str v)"

definition fresh_cell :: "desktop \<Rightarrow> grid_cell" where
  "fresh_cell m =
     \<lparr> dc_state = print_attr (dk_state m),
       dc_classes = [''grid-cell'', ''js-grid-cell''] @ (if dk_blocked m then [''blocked'', ''js-blocked''] else [''unblocked'', ''js-unblocked'']),
       dc_blocked = dk_blocked m, dc_connect = fresh_icon, dc_reconnect = fresh_icon, dc_shot_hover = False,
       dc_shot_on = (dk_state m = JStr ''connected''), dc_shot_off = (dk_state m \<noteq> JStr ''connected''),
       dc_text = print_attr (getStateString (dk_state m)), dc_text_flash = False, dc_mobile_flash = False,
       dc_title = JStr (''[title]'' @ getDesktopTitleString (dk_state m) (dk_blocked m)) \<rparr>"

definition desktops_renderList :: "portal \<Rightarrow> run" where
  "desktops_renderList P =
     (case pv_models P of
        None \<Rightarrow> (P, Some TypeError)
      | Some ms \<Rightarrow> setAllDesktopsState ms (P\<lparr>pv_cells := map (\<lambda>m. (dk_id m, fresh_cell m)) ms\<rparr>))"

section \<open>Connecting with the classic client\<close>

definition ok_then :: "js_error + 'a \<Rightarrow> ('a \<Rightarrow> js_error + 'b) \<Rightarrow> js_error + 'b" where
  "ok_then r f = (case r of Inl e \<Rightarrow> Inl e | Inr x \<Rightarrow> f x)"

text \<open>\<open>v.k1.k2\<close>.\<close>

fun js_path :: "js \<Rightarrow> string list \<Rightarrow> js_error + js" where
  "js_path v [] = Inr v"
| "js_path v (k # ks) = ok_then (js_prop v k) (\<lambda>w. js_path w ks)"

definition CLIENT_PARAMS_MAPPING :: "(string \<times> string) list" where
  "CLIENT_PARAMS_MAPPING =
     [(''connection'', ''client.link''), (''audio'', ''client.audio.enable''),
      (''fullscreen'', ''client.fullscreen''), (''printers'', ''client.printing.enable'')]"

fun mapped_options :: "js \<Rightarrow> (string \<times> string) list \<Rightarrow> js_error + (string \<times> string) list" where
  "mapped_options setup [] = Inr []"
| "mapped_options setup ((field, name) # ps) =
     ok_then (js_path setup [''settings'', field, ''value'']) (\<lambda>v.
       ok_then (mapped_options setup ps) (\<lambda>rest. Inr ((name, js_str v) # rest)))"

text \<open>\<open>$.each\<close> over a list of folders: the keys and values it visits.\<close>

fun js_items :: "js \<Rightarrow> js_error + (string \<times> js) list" where
  "js_items Undef = Inl TypeError"
| "js_items Null = Inl TypeError"
| "js_items (JArr xs) = Inr (zip (map (\<lambda>k. nat_str k) [0..<length xs]) xs)"
| "js_items (JObj ps) = Inr ps"
| "js_items (JStr s) = Inr (zip (map (\<lambda>k. nat_str k) [0..<length s]) (map (\<lambda>c. JStr [c]) s))"
| "js_items _ = Inr []"

fun js_join :: "js \<Rightarrow> js_error + string" where
  "js_join (JArr xs) = Inr (js_strs xs)"
| "js_join _ = Inl TypeError"

definition truthy_int :: "int option \<Rightarrow> bool" where
  "truthy_int n \<longleftrightarrow> n \<noteq> None \<and> n \<noteq> Some 0"

definition int_text :: "int option \<Rightarrow> string" where
  "int_text n = (case n of None \<Rightarrow> ''NaN'' | Some k \<Rightarrow> num_str k)"

definition folder_options :: "js \<Rightarrow> int option \<Rightarrow> js_error + (string \<times> string) list" where
  "folder_options setup shareFolders =
     (if truthy_int shareFolders
      then ok_then (js_path setup [''settings'', ''share_folders'', ''list'']) (\<lambda>l.
             ok_then (js_items l) (\<lambda>its. Inr (map (\<lambda>(k, v). (''client.share.'' @ k, js_str v)) its)))
      else Inr [])"

definition usb_options :: "js \<Rightarrow> int option \<Rightarrow> js_error + (string \<times> string) list" where
  "usb_options setup shareUsb =
     (if truthy_int shareUsb
      then ok_then (js_path setup [''settings'', ''share_usb'', ''list'']) (\<lambda>l.
             ok_then (js_join l) (\<lambda>s. Inr [(''client.usb.share_list'', s)]))
      else Inr [])"

definition client_options :: "int \<Rightarrow> js \<Rightarrow> js \<Rightarrow> js_error + (string \<times> string) list" where
  "client_options i setup token =
     ok_then (js_prop setup ''hostname'') (\<lambda>host.
     ok_then (mapped_options setup CLIENT_PARAMS_MAPPING) (\<lambda>mapped.
     ok_then (js_path setup [''settings'', ''share_folders'', ''value'']) (\<lambda>sf.
     ok_then (js_path setup [''settings'', ''share_usb'', ''value'']) (\<lambda>su.
     ok_then (folder_options setup (parseInt sf)) (\<lambda>folders.
     ok_then (usb_options setup (parseInt su)) (\<lambda>usb.
         Inr ([(''client.ssl.options.SSL_version'', ''TLSv1_2''), (''client.auto_connect'', ''1''),
               (''client.auto_connect.vm_id'', num_str i), (''client.auto_connect.token'', js_str token),
               (''client.host.name'', js_str host)] @ mapped @ folders @
              [(''client.usb.enable'', int_text (parseInt su))] @ usb)))))))"

definition query_text :: "(string \<times> string) list \<Rightarrow> string" where
  "query_text opts = concat (map (\<lambda>(n, v). n @ ''='' @ v @ '' '') opts)"

definition startConnectionTimeoutClassic :: "int \<Rightarrow> portal \<Rightarrow> portal" where
  "startConnectionTimeoutClassic i P =
     P\<lparr>pv_timeouts := AList.update i \<lparr> to_count = 0, to_handle = pv_next P \<rparr> (pv_timeouts P),
       pv_intervals := pv_intervals P @ [(pv_next P, i)], pv_next := Suc (pv_next P)\<rparr>"

definition connectDesktopClassic :: "int \<Rightarrow> js \<Rightarrow> js \<Rightarrow> portal \<Rightarrow> run" where
  "connectDesktopClassic i setup token P =
     (let P1 = startConnectionTimeoutClassic i P in
      case client_options i setup token of
        Inl e \<Rightarrow> (P1, Some e)
      | Inr opts \<Rightarrow>
          (let url = JStr (''qvd:'' @ query_text opts); P2 = P1\<lparr>pv_connecting := Some i\<rparr> in
           (emit [if pv_chrome P2 then Call ''open'' [url, JStr ''_self''] else Call ''protocolCheck'' [url]] P2, None)))"

definition connectDesktopFail :: "portal \<Rightarrow> run" where
  "connectDesktopFail P =
     (case pv_connecting P of
        None \<Rightarrow> (P, Some TypeError)
      | Some i \<Rightarrow>
          (case find_desk i P of
             None \<Rightarrow> (P, Some TypeError)
           | Some m \<Rightarrow> andThen (setDesktopState (dk_id m) (JStr ''disconnected'') P)
               (\<lambda>P1. (emit [OpenDialog ''dialogClientNotInstalled''] P1, None))))"

definition clear_interval :: "nat \<Rightarrow> portal \<Rightarrow> portal" where
  "clear_interval h P = P\<lparr>pv_intervals := AList.delete h (pv_intervals P)\<rparr>"

text \<open>One second of the interval with the handle \<open>h\<close>.\<close>

definition classic_tick :: "nat \<Rightarrow> portal \<Rightarrow> run" where
  "classic_tick h P =
     (case map_of (pv_intervals P) h of
        None \<Rightarrow> (P, None)
      | Some i \<Rightarrow>
          (case map_of (pv_timeouts P) i of
             None \<Rightarrow> (P, Some TypeError)
           | Some t \<Rightarrow>
               if cell_state i P = JStr ''connected'' then (clear_interval (to_handle t) P, None)
               else
                 (let P1 = P\<lparr>pv_timeouts := AList.update i (t\<lparr>to_count := Suc (to_count t)\<rparr>) (pv_timeouts P)\<rparr> in
                  if Suc (to_count t) \<ge> CONNECTION_TIMEOUT then
                    andThen (setDesktopState i (JStr ''disconnected'') P1) (\<lambda>P2.
                    andThen (connectDesktopFail P2) (\<lambda>P3.
                      ((clear_interval (to_handle t) P3)\<lparr>pv_timeouts := AList.delete i (pv_timeouts P3)\<rparr>, None)))
                  else (P1, None))))"

section \<open>Connecting with the HTML5 client\<close>

definition startConnectionTimeoutHTML5 :: "int \<Rightarrow> portal \<Rightarrow> portal" where
  "startConnectionTimeoutHTML5 i P = P\<lparr>pv_waits := pv_waits P @ [(pv_next P, i)], pv_next := Suc (pv_next P)\<rparr>"

definition connectDesktopHTML5 :: "int \<Rightarrow> js \<Rightarrow> portal \<Rightarrow> portal" where
  "connectDesktopHTML5 i token P =
     emit [Call ''open'' [JStr (''#desktops/'' @ num_str i @ ''/connect/'' @ js_str token)]] (startConnectionTimeoutHTML5 i P)"

text \<open>The delay of three seconds is over: the cookie is watched from now on.\<close>

definition html5_wait :: "nat \<Rightarrow> portal \<Rightarrow> portal" where
  "html5_wait h P =
     (case map_of (pv_waits P) h of
        None \<Rightarrow> P
      | Some i \<Rightarrow> P\<lparr>pv_waits := AList.delete h (pv_waits P), pv_watches := pv_watches P @ [(pv_next P, i)],
                    pv_next := Suc (pv_next P)\<rparr>)"

definition html5_tick :: "nat \<Rightarrow> portal \<Rightarrow> run" where
  "html5_tick h P =
     (case map_of (pv_watches P) h of
        None \<Rightarrow> (P, None)
      | Some i \<Rightarrow>
          if i \<in> set (pv_cookies P) then (P, None)
          else andThen (case pv_models P of
                          None \<Rightarrow> (P, Some TypeError)
                        | Some ms \<Rightarrow> (case find_desk i P of
                                       None \<Rightarrow> (P, None)
                                     | Some m \<Rightarrow> setDesktopState i (dk_last m) P))
                 (\<lambda>P1. (P1\<lparr>pv_watches := AList.delete h (pv_watches P1)\<rparr>, None)))"

section \<open>The button of a desktop\<close>

text \<open>The guard on an answer of the API: \<open>status && status != STATUS_SUCCESS_HTTP\<close>.\<close>

definition refused :: "js obj \<Rightarrow> bool" where
  "refused ans \<longleftrightarrow> truthy (get_attr ans ''status'') \<and> \<not> loose_eq (get_attr ans ''status'') (JNum 200)"

definition connectDesktop :: "int \<Rightarrow> portal \<Rightarrow> portal" where
  "connectDesktop i P = emit [Api (''desktops/'' @ num_str i @ ''/token'') Undef Undef ''token_answer''] P"

definition token_answer :: "int \<Rightarrow> js obj \<Rightarrow> portal \<Rightarrow> portal" where
  "token_answer i ans P =
     (if refused ans then P
      else emit [Api (''desktops/'' @ num_str i @ ''/setup'') Undef (get_attr ans ''token'') ''setup_answer''] P)"

definition store_seen :: "bool \<Rightarrow> nat \<Rightarrow> portal \<Rightarrow> portal" where
  "store_seen never days P =
     (if never then emit [SetCookie ''dontShowFirstConnectionMsg'' (JNum (int days))] (P\<lparr>pv_seen_msg := True\<rparr>) else P)"

text \<open>The dialog that explains the classic client; it is filled as soon as it opens.\<close>

definition showClassicClientMessage :: "int \<Rightarrow> portal \<Rightarrow> run" where
  "showClassicClientMessage i P =
     andThen (setDesktopState i (JStr ''disconnected'') P) (\<lambda>P1. (emit [OpenDialog ''dialogClientFirstMessage''] P1, None))"

datatype msg_button = BtnCancel | BtnDownload | BtnConnect

fun first_message_button :: "msg_button \<Rightarrow> bool \<Rightarrow> int \<Rightarrow> js \<Rightarrow> js \<Rightarrow> portal \<Rightarrow> run" where
  "first_message_button BtnCancel never i setup token P = (emit [CloseDialog] (store_seen never 365 P), None)"
| "first_message_button BtnDownload never i setup token P =
     (emit [Navigate ''#/downloads'', CloseDialog] (store_seen never 1 P), None)"
| "first_message_button BtnConnect never i setup token P =
     andThen (setDesktopState i (JStr ''connecting'') P) (\<lambda>P1.
     andThen (connectDesktopClassic i setup token (store_seen never 1 P1)) (\<lambda>P2. (emit [CloseDialog] P2, None)))"

definition setup_answer :: "int \<Rightarrow> js \<Rightarrow> js obj \<Rightarrow> portal \<Rightarrow> run" where
  "setup_answer i token ans P =
     (if refused ans then (P, None)
      else
        (case js_path (JObj ans) [''settings'', ''client'', ''value''] of
           Inl e \<Rightarrow> (P, Some e)
         | Inr client \<Rightarrow>
             andThen (setDesktopState i (JStr ''connecting'') P) (\<lambda>P1.
               if client = JStr ''classic'' then
                 (if pv_seen_msg P1 then connectDesktopClassic i (JObj ans) token P1 else showClassicClientMessage i P1)
               else if client = JStr ''html5'' then (connectDesktopHTML5 i token P1, None)
               else (P1, None))))"

section \<open>Messages of the websocket and the mouse\<close>

fun desktop_fields :: "int \<Rightarrow> js obj \<Rightarrow> portal \<Rightarrow> run" where
  "desktop_fields i [] P = (P, None)"
| "desktop_fields i ((field, v) # fs) P =
     andThen (if field = ''user_state'' then setDesktopState i v P
              else if field = ''vm_state'' then setVMState i v P else (P, None)) (desktop_fields i fs)"

text \<open>The message has an id, the number of a desktop.\<close>

definition changeWebsocketDesktops :: "int \<Rightarrow> js obj \<Rightarrow> portal \<Rightarrow> run" where
  "changeWebsocketDesktops i data P = desktop_fields i (AList.delete ''id'' data) P"

definition hide_hiddeable :: "grid_cell \<Rightarrow> grid_cell" where
  "hide_hiddeable c =
     c\<lparr>dc_connect := (dc_connect c)\<lparr>ic_shown := ic_shown (dc_connect c) \<and> \<not> ic_hiddeable (dc_connect c)\<rparr>,
       dc_reconnect := (dc_reconnect c)\<lparr>ic_shown := ic_shown (dc_reconnect c) \<and> \<not> ic_hiddeable (dc_reconnect c)\<rparr>\<rparr>"

text \<open>\<open>.js-gird-cell\<close>, the second selector of the code, finds nothing, so only the screenshots of the
  connected desktops lose their mark.\<close>

definition showGridIcon :: "int \<Rightarrow> portal \<Rightarrow> portal" where
  "showGridIcon i P =
     (let st = cell_state i P in
      if in_progress st then P
      else P\<lparr>pv_cells := map (\<lambda>(j, c).
              (let c1 = hide_hiddeable c;
                   c2 = (if j \<noteq> i then c1
                         else if st = JStr ''connected''
                         then c1\<lparr>dc_reconnect := (dc_reconnect c1)\<lparr>ic_shown := ic_shown (dc_reconnect c1) \<or> ic_hiddeable (dc_reconnect c1)\<rparr>\<rparr>
                         else c1\<lparr>dc_connect := (dc_connect c1)\<lparr>ic_shown := ic_shown (dc_connect c1) \<or> ic_hiddeable (dc_connect c1)\<rparr>\<rparr>);
                   c3 = (if dc_state c = JStr ''connected'' then c2\<lparr>dc_shot_hover := False\<rparr> else c2)
               in (j, if j = i then c3\<lparr>dc_shot_hover := True\<rparr> else c3))) (pv_cells P)\<rparr>)"

text \<open>The case of a desktop in progress ends with \<open>break\<close>, so its icons are treated as all others.\<close>

definition hideGridIcon :: "int \<Rightarrow> portal \<Rightarrow> portal" where
  "hideGridIcon i P = P\<lparr>pv_cells := AList.map_entry i (\<lambda>c. (hide_hiddeable c)\<lparr>dc_shot_hover := False\<rparr>) (pv_cells P)\<rparr>"

section \<open>Steps of the page\<close>

definition api_state :: "js \<Rightarrow> bool" where
  "api_state v \<longleftrightarrow> stable v \<or> v = JStr ''connecting''"

inductive desk_step :: "portal \<Rightarrow> portal \<Rightarrow> bool" where
  click: "desk_step P (connectDesktop i P)"
| got_token: "desk_step P (token_answer i ans P)"
| got_setup: "desk_step P (fst (setup_answer i tok ans P))"
| button: "desk_step P (fst (first_message_button b never i st tok P))"
| message: "list_all (\<lambda>(k, v). k = ''user_state'' \<longrightarrow> api_state v) data \<Longrightarrow>
    desk_step P (fst (changeWebsocketDesktops i data P))"
| protocol_fail: "desk_step P (fst (connectDesktopFail P))"
| tick: "desk_step P (fst (classic_tick h P))"
| wait_over: "desk_step P (html5_wait h P)"
| watch: "desk_step P (fst (html5_tick h P))"
| cookie: "desk_step P (P\<lparr>pv_cookies := cs\<rparr>)"
| mouse_in: "desk_step P (showGridIcon i P)"
| mouse_out: "desk_step P (hideGridIcon i P)"

text \<open>A list that was drawn when every desktop was connected or disconnected, and what follows.\<close>

inductive desk_reach :: "portal \<Rightarrow> bool" where
  drawn: "pv_models P = Some ms \<Longrightarrow> distinct (map dk_id ms) \<Longrightarrow> list_all (\<lambda>m. stable (dk_state m)) ms \<Longrightarrow>
    pv_timeouts P = [] \<Longrightarrow> pv_intervals P = [] \<Longrightarrow> desktops_renderList P = (P', None) \<Longrightarrow> desk_reach P'"
| later: "desk_reach P \<Longrightarrow> desk_step P Q \<Longrightarrow> desk_reach Q"

section \<open>What the primitive operations keep, the others keep\<close>

named_theorems desk_kept \<open>the timers are no concern of the state of a desktop\<close>

lemma set_model_kept [desk_kept]:
  "pv_timeouts (fst (set_model i f P)) = pv_timeouts P" "pv_intervals (fst (set_model i f P)) = pv_intervals P"
  "pv_next (fst (set_model i f P)) = pv_next P" "pv_cells (fst (set_model i f P)) = pv_cells P"
  "pv_mobile (fst (set_model i f P)) = pv_mobile P" "pv_connecting (fst (set_model i f P)) = pv_connecting P"
  "pv_out (fst (set_model i f P)) = pv_out P"
  by (simp_all add: set_model_def split: option.splits)

lemma setDesktopState_kept [desk_kept]:
  "pv_timeouts (fst (setDesktopState i st P)) = pv_timeouts P" "pv_intervals (fst (setDesktopState i st P)) = pv_intervals P"
  "pv_next (fst (setDesktopState i st P)) = pv_next P" "pv_mobile (fst (setDesktopState i st P)) = pv_mobile P"
  "pv_connecting (fst (setDesktopState i st P)) = pv_connecting P" "pv_out (fst (setDesktopState i st P)) = pv_out P"
  by (simp_all add: setDesktopState_def andThen_def Let_def desk_kept split: option.splits)

lemma connectDesktopFail_kept [desk_kept]:
  "pv_timeouts (fst (connectDesktopFail P)) = pv_timeouts P" "pv_intervals (fst (connectDesktopFail P)) = pv_intervals P"
  "pv_next (fst (connectDesktopFail P)) = pv_next P"
  by (simp_all add: connectDesktopFail_def andThen_def emit_def desk_kept split: option.splits)

text \<open>The operations of the view are built from a few changes of the state. An invariant that these keep
  is kept by every step.\<close>

locale portal_invariant =
  fixes I :: "portal \<Rightarrow> bool"
  assumes frame: "pv_models P = pv_models Q \<Longrightarrow> pv_cells P = pv_cells Q \<Longrightarrow> pv_mobile P = pv_mobile Q \<Longrightarrow>
      pv_timeouts P = pv_timeouts Q \<Longrightarrow> pv_intervals P = pv_intervals Q \<Longrightarrow> pv_next P \<le> pv_next Q \<Longrightarrow> I P \<Longrightarrow> I Q"
    and state: "I P \<Longrightarrow> api_state st \<Longrightarrow> I (fst (setDesktopState i st P))"
    and restored: "I P \<Longrightarrow> find_desk i P = Some m \<Longrightarrow> I (fst (setDesktopState i (dk_last m) P))"
    and vm: "I P \<Longrightarrow> I (fst (setVMState i v P))"
    and start: "I P \<Longrightarrow> I (startConnectionTimeoutClassic i P)"
    and counted: "I P \<Longrightarrow> map_of (pv_timeouts P) i = Some t \<Longrightarrow>
      I (P\<lparr>pv_timeouts := AList.update i (t\<lparr>to_count := n\<rparr>) (pv_timeouts P)\<rparr>)"
    and cleared: "I P \<Longrightarrow> map_of (pv_timeouts P) i = Some t \<Longrightarrow> I (clear_interval (to_handle t) P)"
    and forgotten: "I P \<Longrightarrow> I (P\<lparr>pv_timeouts := AList.delete i (pv_timeouts P)\<rparr>)"
    and mouse_on: "I P \<Longrightarrow> I (showGridIcon i P)"
    and mouse_off: "I P \<Longrightarrow> I (hideGridIcon i P)"
begin

lemma chained: "I (fst r) \<Longrightarrow> (\<And>P. I P \<Longrightarrow> I (fst (f P))) \<Longrightarrow> I (fst (andThen r f))"
  by (simp add: andThen_def split: option.splits)

lemma outputs: "I P \<Longrightarrow> I (emit es P)"
  by (rule frame [of P]) (simp_all add: emit_def)

lemma unchanged:
  "I P \<Longrightarrow> I (P\<lparr>pv_connecting := x\<rparr>)" "I P \<Longrightarrow> I (P\<lparr>pv_cookies := cs\<rparr>)" "I P \<Longrightarrow> I (P\<lparr>pv_seen_msg := b\<rparr>)"
  "I P \<Longrightarrow> I (P\<lparr>pv_watches := ws\<rparr>)"
  by (rule frame [of P]; simp)+

lemma seen: "I P \<Longrightarrow> I (store_seen never d P)"
  by (simp add: store_seen_def outputs unchanged)

lemma disconnected: "I P \<Longrightarrow> I (fst (setDesktopState i (JStr ''disconnected'') P))"
  by (rule state) (simp_all add: api_state_def stable_def)

lemma connecting: "I P \<Longrightarrow> I (fst (setDesktopState i (JStr ''connecting'') P))"
  by (rule state) (simp_all add: api_state_def)

lemma failed: "I P \<Longrightarrow> I (fst (connectDesktopFail P))"
  by (auto simp: connectDesktopFail_def intro!: chained disconnected outputs split: option.splits)

lemma classic: "I P \<Longrightarrow> I (fst (connectDesktopClassic i st tok P))"
  by (auto simp: connectDesktopClassic_def Let_def intro!: outputs unchanged start split: sum.splits)

lemma messaged: "I P \<Longrightarrow> I (fst (showClassicClientMessage i P))"
  by (auto simp: showClassicClientMessage_def intro!: chained disconnected outputs)

lemma html5: "I P \<Longrightarrow> I (connectDesktopHTML5 i tok P)"
  unfolding connectDesktopHTML5_def
  by (rule outputs, rule frame [of P]) (simp_all add: startConnectionTimeoutHTML5_def)

lemma answered: "I P \<Longrightarrow> I (fst (setup_answer i tok ans P))"
  unfolding setup_answer_def by (cases "js_path (JObj ans) [''settings'', ''client'', ''value'']")
    (simp_all add: chained connecting classic messaged html5 del: js_path.simps)

lemma pressed: "I P \<Longrightarrow> I (fst (first_message_button b never i st tok P))"
  by (cases b) (auto intro!: chained connecting classic outputs seen)

lemma fields_set:
  "I P \<Longrightarrow> list_all (\<lambda>(k, v). k = ''user_state'' \<longrightarrow> api_state v) data \<Longrightarrow> I (fst (desktop_fields i data P))"
proof (induction data arbitrary: P)
  case (Cons kv data)
  obtain k v where kv: "kv = (k, v)" by (cases kv)
  have "I (fst (if k = ''user_state'' then setDesktopState i v P else if k = ''vm_state'' then setVMState i v P else (P, None)))"
    using Cons.prems kv by (auto intro: state vm)
  moreover have "\<And>Q. I Q \<Longrightarrow> I (fst (desktop_fields i data Q))" using Cons by simp
  ultimately show ?case unfolding kv desktop_fields.simps by (rule chained)
qed simp

lemma ticked:
  assumes "I P" shows "I (fst (classic_tick h P))"
proof (cases "map_of (pv_intervals P) h")
  case None then show ?thesis using assms by (simp add: classic_tick_def)
next
  case (Some i)
  show ?thesis
  proof (cases "map_of (pv_timeouts P) i")
    case None then show ?thesis using assms Some by (simp add: classic_tick_def)
  next
    case t: (Some t)
    let ?P1 = "P\<lparr>pv_timeouts := AList.update i (t\<lparr>to_count := Suc (to_count t)\<rparr>) (pv_timeouts P)\<rparr>"
    have 1: "I ?P1" using assms t by (rule counted)
    have exp: "I ((clear_interval (to_handle t) Q)\<lparr>pv_timeouts := AList.delete i (pv_timeouts Q)\<rparr>)"
      if "I Q" "pv_timeouts Q = pv_timeouts ?P1" for Q
      using forgotten [OF cleared [of Q i "t\<lparr>to_count := Suc (to_count t)\<rparr>"], of i] that
      by (simp add: clear_interval_def)
    let ?r2 = "setDesktopState i (JStr ''disconnected'') ?P1"
    let ?r3 = "connectDesktopFail (fst ?r2)"
    have "I (fst ?r2)" using 1 by (rule disconnected)
    moreover from this have "I (fst ?r3)" by (rule failed)
    moreover from this have "I ((clear_interval (to_handle t) (fst ?r3))\<lparr>pv_timeouts := AList.delete i (pv_timeouts (fst ?r3))\<rparr>)"
      by (rule exp) (simp add: desk_kept)
    ultimately show ?thesis
      using Some t 1 cleared [OF assms t] by (simp add: classic_tick_def Let_def andThen_def split: option.splits)
  qed
qed

lemma waited: "I P \<Longrightarrow> I (html5_wait h P)"
  by (rule frame [of P]) (auto simp: html5_wait_def split: option.splits)

lemma watched: "I P \<Longrightarrow> I (fst (html5_tick h P))"
  by (auto simp: html5_tick_def intro!: chained unchanged restored split: option.splits)

lemma step_kept: "desk_step P Q \<Longrightarrow> I P \<Longrightarrow> I Q"
proof (induction rule: desk_step.induct)
  case (message data P i)
  then have "list_all (\<lambda>(k, v). k = ''user_state'' \<longrightarrow> api_state v) (AList.delete ''id'' data)"
    unfolding list_all_iff by (simp add: AList.delete_eq)
  then show ?case unfolding changeWebsocketDesktops_def using message(2) fields_set by blast
qed (auto simp: connectDesktop_def token_answer_def intro: outputs answered pressed failed ticked waited watched unchanged mouse_on mouse_off)

end

section \<open>Models and cells agree\<close>

definition desktop_states :: "string list" where
  "desktop_states = [''connected'', ''disconnected'', ''connecting'', ''reconnecting'']"

definition icon_ok :: "string \<Rightarrow> js \<Rightarrow> grid_icon \<Rightarrow> bool" where
  "icon_ok own st ic \<longleftrightarrow>
     (if st = JStr own then \<not> ic_hiddeable ic \<and> ic_flash ic \<and> ic_shown ic else ic_hiddeable ic \<and> \<not> ic_flash ic)"

definition cell_ok :: "bool \<Rightarrow> grid_cell \<Rightarrow> bool" where
  "cell_ok mobile c \<longleftrightarrow>
     (\<exists>x\<in>set desktop_states. dc_state c = JStr x) \<and>
     (\<forall>x\<in>set desktop_states. ''js-grid-'' @ x \<in> set (dc_classes c) \<longleftrightarrow> dc_state c = JStr x) \<and>
     dc_text c = getStateString (dc_state c) \<and> (dc_text_flash c \<longleftrightarrow> in_progress (dc_state c)) \<and>
     (if mobile then dc_mobile_flash c \<longleftrightarrow> in_progress (dc_state c)
      else icon_ok ''connecting'' (dc_state c) (dc_connect c) \<and> icon_ok ''reconnecting'' (dc_state c) (dc_reconnect c))"

definition desk_ok :: "portal \<Rightarrow> bool" where
  "desk_ok P \<longleftrightarrow> distinct (map fst (pv_cells P)) \<and>
     (\<forall>i c. map_of (pv_cells P) i = Some c \<longrightarrow>
        (\<exists>m. find_desk i P = Some m \<and> dk_state m = dc_state c \<and> stable (dk_last m)) \<and> cell_ok (pv_mobile P) c)"

lemma find_set_desk:
  assumes "\<And>m. dk_id (f m) = dk_id m"
  shows "find (\<lambda>m. dk_id m = j) (set_desk i f ms) =
    (if j = i then map_option f (find (\<lambda>m. dk_id m = i) ms) else find (\<lambda>m. dk_id m = j) ms)"
  by (induction ms) (auto simp: assms)

lemma find_set_model:
  assumes "\<And>m. dk_id (f m) = dk_id m"
  shows "find_desk j (fst (set_model i f P)) = (if j = i then map_option f (find_desk i P) else find_desk j P)"
  by (cases "pv_models P") (auto simp: set_model_def find_desk_def find_set_desk [OF assms] split: option.splits)

lemma set_model_error [simp]: "snd (set_model i f P) = None \<longleftrightarrow> find_desk i P \<noteq> None"
  by (simp add: set_model_def split: option.splits)

lemma find_desk_frame [simp]:
  "find_desk i (P\<lparr>pv_cells := cs\<rparr>) = find_desk i P" "find_desk i (P\<lparr>pv_timeouts := ts\<rparr>) = find_desk i P"
  "find_desk i (P\<lparr>pv_intervals := hs\<rparr>) = find_desk i P" "find_desk i (P\<lparr>pv_out := es\<rparr>) = find_desk i P"
  by (simp_all add: find_desk_def)

text \<open>What a call of \<open>setDesktopState\<close> does to a desktop that is there, and to one that is not.\<close>

lemma map_entry_none: "map_of ps k = None \<Longrightarrow> AList.map_entry k f ps = ps"
  by (induction ps) (auto split: if_splits)

lemma setDesktopState_found:
  fixes new :: js
  assumes "find_desk i P = Some m"
  defines "st \<equiv> shown_state new (cell_state i P)"
  shows "snd (setDesktopState i new P) = None"
    and "find_desk j (fst (setDesktopState i new P)) =
      (if j = i then Some (m\<lparr>dk_last := if stable new then new else dk_last m, dk_state := st\<rparr>) else find_desk j P)"
    and "pv_cells (fst (setDesktopState i new P)) = AList.map_entry i (draw_state (pv_mobile P) st) (pv_cells P)"
proof -
  let ?r = "if stable new then set_model i (\<lambda>m. m\<lparr>dk_last := new\<rparr>) P else (P, None)"
  have r: "snd ?r = None" "pv_cells (fst ?r) = pv_cells P" "pv_mobile (fst ?r) = pv_mobile P" "cell_state i (fst ?r) = cell_state i P"
    "find_desk j (fst ?r) = (if j = i then Some (m\<lparr>dk_last := if stable new then new else dk_last m\<rparr>) else find_desk j P)" for j
    using assms by (simp_all add: desk_kept find_set_model cell_state_def)
  have "setDesktopState i new P = set_model i (\<lambda>m. m\<lparr>dk_state := st\<rparr>)
     ((fst ?r)\<lparr>pv_cells := AList.map_entry i (draw_state (pv_mobile P) st) (pv_cells P)\<rparr>)"
    using r unfolding setDesktopState_def andThen_def st_def by (simp add: Let_def)
  then show "snd (setDesktopState i new P) = None"
    and "find_desk j (fst (setDesktopState i new P)) =
      (if j = i then Some (m\<lparr>dk_last := if stable new then new else dk_last m, dk_state := st\<rparr>) else find_desk j P)"
    and "pv_cells (fst (setDesktopState i new P)) = AList.map_entry i (draw_state (pv_mobile P) st) (pv_cells P)"
    using r(5) by (simp_all add: desk_kept find_set_model)
qed

lemma setDesktopState_missing:
  assumes "find_desk i P = None"
  shows "snd (setDesktopState i new P) = Some TypeError"
    and "map_of (pv_cells P) i = None \<Longrightarrow> fst (setDesktopState i new P) = P"
  using assms by (simp_all add: setDesktopState_def set_model_def andThen_def Let_def map_entry_none)

lemmas state_defs = stable_def in_progress_def getStateString_def shown_state_def api_state_def

lemma api_states: "api_state v \<longleftrightarrow> v = JStr ''connected'' \<or> v = JStr ''disconnected'' \<or> v = JStr ''connecting''"
  by (simp add: api_state_def stable_def)

lemma set_add_class [simp]: "set (add_class k ks) = insert k (set ks)"
  by (auto simp: add_class_def)

lemma drawn_class_set:
  "set (dc_classes (draw_state mobile (JStr y) c)) =
     {''js-grid-'' @ y, ''grid-'' @ y} \<union> {k \<in> set (dc_classes c). k \<notin> set state_classes}"
  by (auto simp: draw_state_def Let_def)

lemma state_class: "x \<in> set desktop_states \<Longrightarrow> ''js-grid-'' @ x \<in> set state_classes"
  unfolding desktop_states_def by (elim set_ConsD [THEN disjE]; simp add: state_classes_def)

lemma drawn_classes:
  "x \<in> set desktop_states \<Longrightarrow> ''js-grid-'' @ x \<in> set (dc_classes (draw_state mobile (JStr y) c)) \<longleftrightarrow> x = y"
  unfolding drawn_class_set using state_class by simp

lemma drawn_parts:
  "dc_state (draw_state mobile (JStr y) c) = JStr y"
  "dc_text (draw_state mobile (JStr y) c) = attr_set (dc_text c) (getStateString (JStr y))"
  "y \<in> set desktop_states \<Longrightarrow> dc_text_flash (draw_state mobile (JStr y) c) = in_progress (JStr y)"
  "y \<in> set desktop_states \<Longrightarrow> mobile \<Longrightarrow> dc_mobile_flash (draw_state mobile (JStr y) c) = in_progress (JStr y)"
  "y \<in> set desktop_states \<Longrightarrow> \<not> mobile \<Longrightarrow>
     dc_connect (draw_state mobile (JStr y) c) = draw_icon (JStr ''connecting'') (JStr y) (dc_connect c) \<and>
     dc_reconnect (draw_state mobile (JStr y) c) = draw_icon (JStr ''reconnecting'') (JStr y) (dc_reconnect c)"
  by (auto simp: draw_state_def Let_def attr_set_def desktop_states_def state_defs)

lemma icon_drawn:
  "own \<in> {''connecting'', ''reconnecting''} \<Longrightarrow> y \<in> set desktop_states \<Longrightarrow>
   stable (JStr y) \<or> y = own \<or> ic_hiddeable ic \<and> \<not> ic_flash ic \<Longrightarrow> icon_ok own (JStr y) (draw_icon (JStr own) (JStr y) ic)"
  by (auto simp: draw_icon_def icon_ok_def state_defs desktop_states_def)

lemma drawn_ok:
  assumes y: "y \<in> set desktop_states"
    and "\<not> mobile \<Longrightarrow> stable (JStr y) \<or> y = ''connecting'' \<or> ic_hiddeable (dc_connect c) \<and> \<not> ic_flash (dc_connect c)"
    and "\<not> mobile \<Longrightarrow> stable (JStr y) \<or> y = ''reconnecting'' \<or> ic_hiddeable (dc_reconnect c) \<and> \<not> ic_flash (dc_reconnect c)"
  shows "cell_ok mobile (draw_state mobile (JStr y) c)"
proof -
  have "getStateString (JStr y) \<noteq> Undef" using y by (auto simp: getStateString_def desktop_states_def)
  then show ?thesis
    using assms drawn_classes by (auto simp: cell_ok_def drawn_parts attr_set_def intro!: icon_drawn)
qed

lemma redrawn_ok:
  assumes c: "cell_ok mobile c" and "api_state new"
  shows "\<exists>y. shown_state new (dc_state c) = JStr y \<and> cell_ok mobile (draw_state mobile (JStr y) c)"
proof -
  obtain x where x: "x \<in> set desktop_states" "dc_state c = JStr x" using c by (auto simp: cell_ok_def)
  obtain n where n: "new = JStr n" "n = ''connected'' \<or> n = ''disconnected'' \<or> n = ''connecting''"
    using assms(2) unfolding api_states by blast
  have ic: "\<not> mobile \<Longrightarrow> x \<noteq> ''connecting'' \<Longrightarrow> ic_hiddeable (dc_connect c) \<and> \<not> ic_flash (dc_connect c)"
    "\<not> mobile \<Longrightarrow> x \<noteq> ''reconnecting'' \<Longrightarrow> ic_hiddeable (dc_reconnect c) \<and> \<not> ic_flash (dc_reconnect c)"
    using c x by (simp_all add: cell_ok_def icon_ok_def)
  show ?thesis
  proof (cases "n = ''connecting'' \<and> (x = ''connected'' \<or> x = ''reconnecting'')")
    case True
    then have "x \<noteq> ''connecting''" by auto
    then have "cell_ok mobile (draw_state mobile (JStr ''reconnecting'') c)"
      using ic(1) by (intro drawn_ok) (simp_all add: desktop_states_def)
    then show ?thesis using True n x by (simp add: shown_state_def)
  next
    case False
    then have "shown_state new (dc_state c) = JStr n" using n x by (auto simp: shown_state_def)
    moreover have "n \<in> set desktop_states" using n(2) by (auto simp: desktop_states_def)
    then have "cell_ok mobile (draw_state mobile (JStr n) c)"
      using n(2)
    proof (elim disjE)
      assume "n = ''connecting''"
      with False have "x \<noteq> ''reconnecting''" by blast
      with ic(2) \<open>n = ''connecting''\<close> \<open>n \<in> set desktop_states\<close> show ?thesis by (intro drawn_ok) simp_all
    qed (simp_all add: drawn_ok stable_def)
    ultimately show ?thesis by blast
  qed
qed

lemma desk_ok_frame:
  "pv_models P = pv_models Q \<Longrightarrow> pv_cells P = pv_cells Q \<Longrightarrow> pv_mobile P = pv_mobile Q \<Longrightarrow> desk_ok P \<Longrightarrow> desk_ok Q"
  by (simp add: desk_ok_def find_desk_def)

lemma desk_ok_state:
  assumes ok: "desk_ok P" and st: "api_state st"
  shows "desk_ok (fst (setDesktopState i st P))"
proof (cases "find_desk i P")
  case None
  have "map_of (pv_cells P) i = None"
  proof (rule ccontr)
    assume "map_of (pv_cells P) i \<noteq> None"
    then show False using ok None unfolding desk_ok_def by fastforce
  qed
  then show ?thesis using None ok by (simp add: setDesktopState_missing)
next
  case (Some m)
  let ?Q = "fst (setDesktopState i st P)"
  note F = setDesktopState_found [OF Some, where new = st]
  show ?thesis unfolding desk_ok_def
  proof (intro conjI allI impI)
    show "distinct (map fst (pv_cells ?Q))" using ok by (simp add: F desk_ok_def distinct_map_entry)
    fix j c assume c: "map_of (pv_cells ?Q) j = Some c"
    have "(\<exists>m. find_desk j ?Q = Some m \<and> dk_state m = dc_state c \<and> stable (dk_last m)) \<and> cell_ok (pv_mobile P) c"
    proof (cases "j = i")
      case False
      then have "map_of (pv_cells P) j = Some c" using c by (simp add: F map_of_map_entry split: option.splits)
      then show ?thesis using ok False by (simp add: desk_ok_def F)
    next
      case True
      then obtain c0 where c0: "map_of (pv_cells P) i = Some c0"
        "c = draw_state (pv_mobile P) (shown_state st (dc_state c0)) c0"
        using c by (auto simp: F map_of_map_entry cell_state_def split: option.splits)
      then have "cell_ok (pv_mobile P) c0" "stable (dk_last m)" using ok Some unfolding desk_ok_def by force+
      moreover obtain y where y: "shown_state st (dc_state c0) = JStr y" "cell_ok (pv_mobile P) (draw_state (pv_mobile P) (JStr y) c0)"
        using redrawn_ok [OF calculation(1) st] by blast
      ultimately show ?thesis using True c0 by (simp add: F cell_state_def drawn_parts)
    qed
    then show "\<exists>m. find_desk j ?Q = Some m \<and> dk_state m = dc_state c \<and> stable (dk_last m)" "cell_ok (pv_mobile ?Q) c"
      by (simp_all add: desk_kept)
  qed
qed

lemma desk_ok_no_cell:
  assumes ok: "desk_ok P" and "map_of (pv_cells P) i = None"
  shows "desk_ok (fst (setDesktopState i st P))"
proof (cases "find_desk i P")
  case (Some m)
  note F = setDesktopState_found [OF Some, where new = st]
  have "pv_cells (fst (setDesktopState i st P)) = pv_cells P" using assms(2) by (simp add: F map_entry_none)
  then show ?thesis using assms by (auto simp: desk_ok_def F desk_kept)
qed (use assms in \<open>simp add: setDesktopState_missing\<close>)

lemma desk_ok_restored:
  assumes ok: "desk_ok P" and m: "find_desk i P = Some m"
  shows "desk_ok (fst (setDesktopState i (dk_last m) P))"
proof (cases "map_of (pv_cells P) i")
  case (Some c)
  then have "stable (dk_last m)" using ok m unfolding desk_ok_def by fastforce
  then show ?thesis using desk_ok_state [OF ok] by (simp add: api_state_def)
qed (simp add: desk_ok_no_cell ok)

lemma desk_ok_vm: "desk_ok P \<Longrightarrow> desk_ok (fst (setVMState i v P))"
  by (fastforce simp: desk_ok_def setVMState_def find_set_model desk_kept)

lemma hide_hiddeable_parts [simp]:
  "dc_state (hide_hiddeable c) = dc_state c" "dc_classes (hide_hiddeable c) = dc_classes c"
  "dc_text (hide_hiddeable c) = dc_text c" "dc_text_flash (hide_hiddeable c) = dc_text_flash c"
  "dc_mobile_flash (hide_hiddeable c) = dc_mobile_flash c"
  "icon_ok own st (dc_connect (hide_hiddeable c)) = icon_ok own st (dc_connect c)"
  "icon_ok own st (dc_reconnect (hide_hiddeable c)) = icon_ok own st (dc_reconnect c)"
  by (auto simp: hide_hiddeable_def icon_ok_def)

lemma cell_ok_hidden: "cell_ok mobile (hide_hiddeable c) = cell_ok mobile c"
  by (simp add: cell_ok_def)

lemma cell_ok_hover [simp]: "cell_ok mobile (c\<lparr>dc_shot_hover := b\<rparr>) = cell_ok mobile c"
  by (simp add: cell_ok_def)

lemma icon_ok_show [simp]: "icon_ok own st (ic\<lparr>ic_shown := ic_shown ic \<or> ic_hiddeable ic\<rparr>) = icon_ok own st ic"
  by (auto simp: icon_ok_def)

lemma cell_ok_show [simp]:
  "cell_ok mobile (c\<lparr>dc_connect := (dc_connect c)\<lparr>ic_shown := ic_shown (dc_connect c) \<or> ic_hiddeable (dc_connect c)\<rparr>\<rparr>) = cell_ok mobile c"
  "cell_ok mobile (c\<lparr>dc_reconnect := (dc_reconnect c)\<lparr>ic_shown := ic_shown (dc_reconnect c) \<or> ic_hiddeable (dc_reconnect c)\<rparr>\<rparr>) = cell_ok mobile c"
  by (simp_all add: cell_ok_def)

text \<open>A change of the cells one by one that keeps their state and their correctness.\<close>

lemma desk_ok_cells:
  assumes ok: "desk_ok P" and keys: "map fst cs = map fst (pv_cells P)"
    and "\<And>j c'. map_of cs j = Some c' \<Longrightarrow>
      \<exists>c. map_of (pv_cells P) j = Some c \<and> dc_state c' = dc_state c \<and> cell_ok (pv_mobile P) c' = cell_ok (pv_mobile P) c"
  shows "desk_ok (P\<lparr>pv_cells := cs\<rparr>)"
  using assms unfolding desk_ok_def by fastforce

lemma desk_ok_mouse_out: "desk_ok P \<Longrightarrow> desk_ok (hideGridIcon i P)"
proof -
  assume ok: "desk_ok P"
  have keys: "map fst (AList.map_entry i f cs) = map fst cs" for f and cs :: "(int \<times> grid_cell) list"
    by (induction cs) auto
  show ?thesis unfolding hideGridIcon_def
    by (rule desk_ok_cells [OF ok keys]) (auto simp: map_of_map_entry cell_ok_hidden split: option.splits if_splits)
qed

lemma map_of_each: "map_of (map (\<lambda>(j, c). (j, f j c)) ps) k = map_option (f k) (map_of ps k)"
  by (induction ps) auto

lemma desk_ok_mouse_in: "desk_ok P \<Longrightarrow> desk_ok (showGridIcon i P)"
proof -
  assume ok: "desk_ok P"
  have keys: "map fst (map (\<lambda>(j, c). (j, f j c)) cs) = map fst cs" for f and cs :: "(int \<times> grid_cell) list"
    by (induction cs) auto
  show ?thesis
  proof (cases "in_progress (cell_state i P)")
    case False
    then show ?thesis unfolding showGridIcon_def Let_def if_not_P [OF False]
      by (intro desk_ok_cells [OF ok]) (auto simp: keys map_of_each cell_ok_hidden)
  qed (simp add: showGridIcon_def ok)
qed

interpretation cells: portal_invariant desk_ok
proof unfold_locales
  fix P i t n assume "desk_ok P"
  then show "desk_ok (P\<lparr>pv_timeouts := AList.update i (t\<lparr>to_count := n\<rparr>) (pv_timeouts P)\<rparr>)"
    "desk_ok (clear_interval (to_handle t) P)" "desk_ok (startConnectionTimeoutClassic i P)"
    "desk_ok (P\<lparr>pv_timeouts := AList.delete i (pv_timeouts P)\<rparr>)"
    by (auto elim: desk_ok_frame [rotated 3] simp: clear_interval_def startConnectionTimeoutClassic_def)
qed (auto intro: desk_ok_frame desk_ok_state desk_ok_restored desk_ok_vm desk_ok_mouse_in desk_ok_mouse_out)

text \<open>Drawing the list: every cell is right once its model has had its turn.\<close>

definition desk_ok_but :: "int set \<Rightarrow> portal \<Rightarrow> bool" where
  "desk_ok_but S P \<longleftrightarrow> distinct (map fst (pv_cells P)) \<and>
     (\<forall>i c. map_of (pv_cells P) i = Some c \<longrightarrow> find_desk i P \<noteq> None \<and>
        (i \<notin> S \<longrightarrow> (\<exists>m. find_desk i P = Some m \<and> dk_state m = dc_state c \<and> stable (dk_last m)) \<and> cell_ok (pv_mobile P) c))"

lemma stable_shown: "stable st \<Longrightarrow> \<exists>y\<in>set desktop_states. st = JStr y \<and> stable (JStr y) \<and> shown_state st cur = JStr y"
  by (auto simp: stable_def shown_state_def desktop_states_def)

lemma turn_ok:
  assumes P: "desk_ok_but S P" and m: "find_desk i P = Some m" and st: "stable st"
  shows "desk_ok_but (S - {i}) (fst (setDesktopState i st P))"
proof -
  note F = setDesktopState_found [OF m, where new = st]
  obtain y where y: "y \<in> set desktop_states" "stable (JStr y)" "shown_state st (cell_state i P) = JStr y"
    using stable_shown [OF st] by blast
  have new: "cell_ok (pv_mobile P) (draw_state (pv_mobile P) (JStr y) c)" for c
    using y by (intro drawn_ok) simp_all
  show ?thesis unfolding desk_ok_but_def
  proof (intro conjI allI impI)
    show "distinct (map fst (pv_cells (fst (setDesktopState i st P))))"
      using P by (simp add: F desk_ok_but_def distinct_map_entry)
  next
    fix j c assume "map_of (pv_cells (fst (setDesktopState i st P))) j = Some c"
    then have c: "map_of (AList.map_entry i (draw_state (pv_mobile P) (JStr y)) (pv_cells P)) j = Some c" by (simp add: F y)
    show "find_desk j (fst (setDesktopState i st P)) \<noteq> None"
      using P c unfolding F desk_ok_but_def by (auto simp: map_of_map_entry split: option.splits if_splits)
    assume j: "j \<notin> S - {i}"
    show "\<exists>m. find_desk j (fst (setDesktopState i st P)) = Some m \<and> dk_state m = dc_state c \<and> stable (dk_last m)"
      using P c j st unfolding F desk_ok_but_def
      by (cases "j = i") (auto simp: map_of_map_entry y drawn_parts split: option.splits)
    show "cell_ok (pv_mobile (fst (setDesktopState i st P))) c"
      using P c j unfolding desk_ok_but_def
      by (cases "j = i") (auto simp: map_of_map_entry desk_kept new split: option.splits)
  qed
qed

lemma turns_ok:
  assumes "desk_ok_but (dk_id ` set ms) P" and "list_all (\<lambda>m. stable (dk_state m) \<and> find_desk (dk_id m) P \<noteq> None) ms"
  shows "desk_ok_but {} (fst (setAllDesktopsState ms P)) \<and> snd (setAllDesktopsState ms P) = None"
  using assms
proof (induction ms arbitrary: P)
  case (Cons m ms)
  then obtain m0 where m0: "find_desk (dk_id m) P = Some m0" and st: "stable (dk_state m)" by auto
  note F = setDesktopState_found [OF m0, where new = "dk_state m"]
  let ?Q = "fst (setDesktopState (dk_id m) (dk_state m) P)"
  have "desk_ok_but (dk_id ` set ms) ?Q"
    using turn_ok [OF Cons.prems(1) m0 st] unfolding desk_ok_but_def by auto
  moreover have "list_all (\<lambda>m. stable (dk_state m) \<and> find_desk (dk_id m) ?Q \<noteq> None) ms"
    using Cons.prems(2) by (auto simp: list_all_iff F)
  ultimately show ?case using Cons.IH by (simp add: andThen_def F)
qed simp

lemma find_distinct: "distinct (map dk_id ms) \<Longrightarrow> m \<in> set ms \<Longrightarrow> find (\<lambda>x. dk_id x = dk_id m) ms = Some m"
  by (induction ms) (auto simp: image_iff)

lemma desktops_renderList_ok:
  assumes ms: "pv_models P = Some ms" "distinct (map dk_id ms)" "list_all (\<lambda>m. stable (dk_state m)) ms"
  shows "desk_ok (fst (desktops_renderList P)) \<and> snd (desktops_renderList P) = None"
proof -
  let ?P = "P\<lparr>pv_cells := map (\<lambda>m. (dk_id m, fresh_cell m)) ms\<rparr>"
  have found: "m \<in> set ms \<Longrightarrow> find_desk (dk_id m) ?P = Some m" for m
    using ms by (simp add: find_desk_def find_distinct)
  have "desk_ok_but (dk_id ` set ms) ?P"
    unfolding desk_ok_but_def
  proof (intro conjI allI impI)
    fix i c assume "map_of (pv_cells ?P) i = Some c"
    from map_of_SomeD [OF this] obtain m where m: "m \<in> set ms" "i = dk_id m" by auto
    then show "find_desk i ?P \<noteq> None" using found by simp
    assume "i \<notin> dk_id ` set ms"
    then show "\<exists>m. find_desk i ?P = Some m \<and> dk_state m = dc_state c \<and> stable (dk_last m)" "cell_ok (pv_mobile ?P) c"
      using m by blast+
  qed (use ms in \<open>simp add: o_def\<close>)
  moreover have "list_all (\<lambda>m. stable (dk_state m) \<and> find_desk (dk_id m) ?P \<noteq> None) ms"
    using ms(3) found by (auto simp: list_all_iff)
  ultimately have "desk_ok_but {} (fst (desktops_renderList P)) \<and> snd (desktops_renderList P) = None"
    using turns_ok ms by (simp add: desktops_renderList_def)
  then show ?thesis by (auto simp: desk_ok_but_def desk_ok_def)
qed

lemma desk_reach_ok: "desk_reach P \<Longrightarrow> desk_ok P"
proof (induction rule: desk_reach.induct)
  case (drawn P ms P')
  then show ?case using desktops_renderList_ok [of P ms] by simp
qed (rule cells.step_kept)


definition sample_portal :: portal where
  "sample_portal =
     \<lparr> pv_models = Some [\<lparr> dk_id = 4, dk_state = JStr ''disconnected'', dk_last = Undef, dk_vm = JStr ''running'', dk_blocked = False \<rparr>,
                         \<lparr> dk_id = 7, dk_state = JStr ''connected'', dk_last = Undef, dk_vm = JStr ''running'', dk_blocked = False \<rparr>],
       pv_cells = [], pv_mobile = False, pv_chrome = True, pv_timeouts = [], pv_intervals = [], pv_waits = [], pv_watches = [],
       pv_next = 0, pv_connecting = None, pv_seen_msg = True, pv_cookies = [], pv_out = [] \<rparr>"

definition drawn_portal :: portal where
  "drawn_portal = fst (desktops_renderList sample_portal)"

lemma drawn_portal_reached: "desk_reach drawn_portal"
  by (rule desk_reach.drawn [of sample_portal])
     (use desktops_renderList_ok [of sample_portal] in \<open>auto simp: sample_portal_def drawn_portal_def stable_def prod_eq_iff\<close>)

lemma drawn_portal_cell: "map_of (pv_cells drawn_portal) 4 \<noteq> None \<and> cell_state 4 drawn_portal = JStr ''disconnected''"
  by code_simp


section \<open>The timer of the classic client\<close>

definition handles_ok :: "portal \<Rightarrow> bool" where
  "handles_ok P \<longleftrightarrow> distinct (map fst (pv_intervals P)) \<and> (\<forall>h\<in>fst ` set (pv_intervals P). h < pv_next P) \<and>
     (\<forall>i t. map_of (pv_timeouts P) i = Some t \<longrightarrow> to_handle t < pv_next P)"

text \<open>An interval that still runs but whose handle is no longer in the table.\<close>

definition orphan :: "nat \<Rightarrow> int \<Rightarrow> portal \<Rightarrow> bool" where
  "orphan h i P \<longleftrightarrow> handles_ok P \<and> map_of (pv_intervals P) h = Some i \<and>
     (\<forall>j t. map_of (pv_timeouts P) j = Some t \<longrightarrow> to_handle t \<noteq> h)"

lemma mouse_kept [desk_kept]:
  "pv_timeouts (showGridIcon i P) = pv_timeouts P" "pv_intervals (showGridIcon i P) = pv_intervals P"
  "pv_next (showGridIcon i P) = pv_next P" "pv_timeouts (hideGridIcon i P) = pv_timeouts P"
  "pv_intervals (hideGridIcon i P) = pv_intervals P" "pv_next (hideGridIcon i P) = pv_next P"
  by (simp_all add: showGridIcon_def hideGridIcon_def Let_def)

lemma handles_frame:
  "pv_timeouts P = pv_timeouts Q \<Longrightarrow> pv_intervals P = pv_intervals Q \<Longrightarrow> pv_next P \<le> pv_next Q \<Longrightarrow> handles_ok P \<Longrightarrow> handles_ok Q"
  unfolding handles_ok_def by (metis order_less_le_trans)

lemma handles_start: "handles_ok P \<Longrightarrow> handles_ok (startConnectionTimeoutClassic i P)"
  unfolding handles_ok_def startConnectionTimeoutClassic_def by (auto simp: less_Suc_eq split: if_splits)

lemma handles_ops:
  assumes "handles_ok P"
  shows "map_of (pv_timeouts P) i = Some t \<Longrightarrow> handles_ok (P\<lparr>pv_timeouts := AList.update i (t\<lparr>to_count := n\<rparr>) (pv_timeouts P)\<rparr>)"
    and "handles_ok (clear_interval h P)"
    and "handles_ok (P\<lparr>pv_timeouts := AList.delete i (pv_timeouts P)\<rparr>)"
proof -
  have "set (AList.delete h (pv_intervals P)) \<subseteq> set (pv_intervals P)" by (auto simp: AList.delete_eq)
  then show "handles_ok (clear_interval h P)"
    using assms unfolding handles_ok_def clear_interval_def by (auto simp: distinct_delete dest: subsetD)
qed (use assms in \<open>auto simp: handles_ok_def split: if_splits\<close>)

lemma handles_same:
  "handles_ok (fst (setDesktopState i st P)) = handles_ok P" "handles_ok (fst (setVMState i v P)) = handles_ok P"
  "handles_ok (showGridIcon i P) = handles_ok P" "handles_ok (hideGridIcon i P) = handles_ok P"
  by (simp_all add: handles_ok_def desk_kept setVMState_def)

interpretation handles: portal_invariant handles_ok
  by unfold_locales (auto intro: handles_frame handles_start handles_ops simp: handles_same)

lemma orphan_frame:
  "pv_timeouts P = pv_timeouts Q \<Longrightarrow> pv_intervals P = pv_intervals Q \<Longrightarrow> pv_next P \<le> pv_next Q \<Longrightarrow> orphan h i P \<Longrightarrow> orphan h i Q"
  using handles_frame unfolding orphan_def by simp

lemma orphan_start: "orphan h i P \<Longrightarrow> orphan h i (startConnectionTimeoutClassic j P)"
proof -
  assume o1: "orphan h i P"
  then have "handles_ok (startConnectionTimeoutClassic j P)" by (simp add: orphan_def handles_start)
  moreover have "h < pv_next P"
    using o1 unfolding orphan_def handles_ok_def by (force dest: map_of_SomeD)
  ultimately show ?thesis using o1 by (auto simp: orphan_def startConnectionTimeoutClassic_def)
qed

lemma orphan_ops:
  assumes "orphan h i P"
  shows "map_of (pv_timeouts P) j = Some t \<Longrightarrow> orphan h i (P\<lparr>pv_timeouts := AList.update j (t\<lparr>to_count := n\<rparr>) (pv_timeouts P)\<rparr>)"
    and "map_of (pv_timeouts P) j = Some t \<Longrightarrow> orphan h i (clear_interval (to_handle t) P)"
    and "orphan h i (P\<lparr>pv_timeouts := AList.delete j (pv_timeouts P)\<rparr>)"
  using assms handles_ops unfolding orphan_def by (auto simp: clear_interval_def)

lemma orphan_same:
  "orphan h i (fst (setDesktopState j st P)) = orphan h i P" "orphan h i (fst (setVMState j v P)) = orphan h i P"
  "orphan h i (showGridIcon j P) = orphan h i P" "orphan h i (hideGridIcon j P) = orphan h i P"
  by (simp_all add: orphan_def desk_kept setVMState_def handles_same [unfolded setVMState_def])

interpretation orphans: portal_invariant "orphan h i" for h i
  by unfold_locales (auto intro: orphan_frame orphan_start orphan_ops simp: orphan_same)

lemma handles_init: "pv_intervals P = [] \<Longrightarrow> pv_timeouts P = [] \<Longrightarrow> handles_ok P"
  by (simp add: handles_ok_def)

lemma setAll_handles: "handles_ok P \<Longrightarrow> handles_ok (fst (setAllDesktopsState ms P))"
  by (induction ms arbitrary: P) (auto intro: handles.chained simp: handles_same)

lemma desk_reach_handles: "desk_reach P \<Longrightarrow> handles_ok P"
proof (induction rule: desk_reach.induct)
  case (drawn P ms P')
  have "handles_ok (P\<lparr>pv_cells := map (\<lambda>m. (dk_id m, fresh_cell m)) ms\<rparr>)" using drawn by (simp add: handles_init)
  then have "handles_ok (fst (desktops_renderList P))" using drawn(1) by (simp add: desktops_renderList_def setAll_handles)
  then show ?case using drawn by simp
qed (rule handles.step_kept)

text \<open>Connecting again to a desktop while the timer of the first attempt is running leaves that timer
  without an owner: whatever happens on the page from then on, it keeps firing every second, and as
  soon as the entry of the second attempt is gone it raises a TypeError each time.\<close>

theorem second_attempt_leaks_timer:
  assumes "desk_reach P" and "map_of (pv_timeouts P) i = Some t" and "map_of (pv_intervals P) (to_handle t) = Some i"
    and "\<forall>j u. map_of (pv_timeouts P) j = Some u \<and> to_handle u = to_handle t \<longrightarrow> j = i"
    and "desk_step\<^sup>*\<^sup>* (startConnectionTimeoutClassic i P) R"
  shows "map_of (pv_intervals R) (to_handle t) = Some i \<and>
    (map_of (pv_timeouts R) i = None \<longrightarrow> snd (classic_tick (to_handle t) R) = Some TypeError)"
proof -
  have h: "handles_ok P" using assms(1) by (rule desk_reach_handles)
  then have lt: "to_handle t < pv_next P" using assms(2) by (auto simp: handles_ok_def)
  have "orphan (to_handle t) i (startConnectionTimeoutClassic i P)"
    using handles_start [OF h] lt assms(3,4) by (auto simp: orphan_def startConnectionTimeoutClassic_def)
  with assms(5) have "orphan (to_handle t) i R"
    by (induction rule: rtranclp_induct) (auto intro: orphans.step_kept)
  then show ?thesis by (simp add: orphan_def classic_tick_def)
qed

text \<open>The timer counts up to the limit as long as the desktop is not connected.\<close>

definition waiting :: "nat \<Rightarrow> int \<Rightarrow> nat \<Rightarrow> portal \<Rightarrow> bool" where
  "waiting h i n P \<longleftrightarrow> map_of (pv_intervals P) h = Some i \<and> map_of (pv_timeouts P) i = Some \<lparr> to_count = n, to_handle = h \<rparr> \<and>
     cell_state i P \<noteq> JStr ''connected''"

fun ticks :: "nat \<Rightarrow> nat \<Rightarrow> portal \<Rightarrow> portal" where
  "ticks h 0 P = P"
| "ticks h (Suc n) P = ticks h n (fst (classic_tick h P))"

lemma ticks_add: "ticks h (m + n) P = ticks h n (ticks h m P)"
  by (induction m arbitrary: P) auto

lemma tick_counts:
  assumes "waiting h i n P" and "Suc n < CONNECTION_TIMEOUT"
  shows "waiting h i (Suc n) (fst (classic_tick h P)) \<and>
    fst (classic_tick h P) = P\<lparr>pv_timeouts := AList.update i \<lparr> to_count = Suc n, to_handle = h \<rparr> (pv_timeouts P)\<rparr>"
  using assms by (auto simp: waiting_def classic_tick_def Let_def cell_state_def)

lemma ticks_count:
  assumes "waiting h i n P" and "n + k < CONNECTION_TIMEOUT"
  shows "waiting h i (n + k) (ticks h k P) \<and> (\<exists>ts. ticks h k P = P\<lparr>pv_timeouts := ts\<rparr>)"
  using assms
proof (induction k arbitrary: n P)
  case 0
  have "P = P\<lparr>pv_timeouts := pv_timeouts P\<rparr>" by simp
  then show ?case using 0 by (metis add.right_neutral ticks.simps(1))
next
  case (Suc k)
  let ?Q = "fst (classic_tick h P)"
  have w: "waiting h i (Suc n) ?Q" and Q: "?Q = P\<lparr>pv_timeouts := AList.update i \<lparr> to_count = Suc n, to_handle = h \<rparr> (pv_timeouts P)\<rparr>"
    using tick_counts [OF Suc.prems(1)] Suc.prems(2) by auto
  obtain ts where 1: "waiting h i (Suc n + k) (ticks h k ?Q)" "ticks h k ?Q = ?Q\<lparr>pv_timeouts := ts\<rparr>"
    using Suc.IH [OF w] Suc.prems(2) by auto
  have "ticks h k ?Q = P\<lparr>pv_timeouts := ts\<rparr>" using 1(2) unfolding Q by simp
  then show ?case using 1(1) by auto
qed

lemma shown_disconnected [simp]: "shown_state (JStr ''disconnected'') cur = JStr ''disconnected''"
  by (simp add: shown_state_def)

lemma stable_disconnected [simp]: "stable (JStr ''disconnected'')"
  by (simp add: stable_def)

lemma fail_found:
  assumes "pv_connecting P = Some j" and "find_desk j P = Some m"
  shows "snd (connectDesktopFail P) = None"
    and "find_desk k (fst (connectDesktopFail P)) =
      (if k = j then Some (m\<lparr>dk_last := JStr ''disconnected'', dk_state := JStr ''disconnected''\<rparr>) else find_desk k P)"
    and "pv_out (fst (connectDesktopFail P)) = pv_out P @ [OpenDialog ''dialogClientNotInstalled'']"
proof -
  have id: "dk_id m = j" using assms(2) by (auto simp: find_desk_def find_Some_iff split: option.splits)
  note F = setDesktopState_found [OF assms(2), where new = "JStr ''disconnected''"]
  have "connectDesktopFail P = (emit [OpenDialog ''dialogClientNotInstalled''] (fst (setDesktopState j (JStr ''disconnected'') P)), None)"
    using assms F(1) by (simp add: connectDesktopFail_def id andThen_def)
  then show "snd (connectDesktopFail P) = None"
    and "find_desk k (fst (connectDesktopFail P)) =
      (if k = j then Some (m\<lparr>dk_last := JStr ''disconnected'', dk_state := JStr ''disconnected''\<rparr>) else find_desk k P)"
    and "pv_out (fst (connectDesktopFail P)) = pv_out P @ [OpenDialog ''dialogClientNotInstalled'']"
    using F by (simp_all add: emit_def desk_kept)
qed

lemma tick_expires:
  assumes w: "waiting h i 39 P" and m: "find_desk i P = Some m"
    and c: "pv_connecting P = Some j" and mj: "find_desk j P \<noteq> None"
  defines "R \<equiv> fst (classic_tick h P)"
  shows "map_of (pv_intervals R) h = None \<and> map_of (pv_timeouts R) i = None \<and>
    pv_out R = pv_out P @ [OpenDialog ''dialogClientNotInstalled''] \<and>
    (\<forall>k. map_option dk_state (find_desk k R) =
       (if k = i \<or> k = j then Some (JStr ''disconnected'') else map_option dk_state (find_desk k P)))"
proof -
  let ?t = "\<lparr> to_count = 39, to_handle = h \<rparr>"
  define P1 where "P1 = P\<lparr>pv_timeouts := AList.update i (?t\<lparr>to_count := Suc 39\<rparr>) (pv_timeouts P)\<rparr>"
  let ?P2 = "fst (setDesktopState i (JStr ''disconnected'') P1)"
  let ?P3 = "fst (connectDesktopFail ?P2)"
  have P1: "find_desk k P1 = find_desk k P" "pv_connecting P1 = pv_connecting P" "pv_out P1 = pv_out P" for k
    by (simp_all add: P1_def)
  have m1: "find_desk i P1 = Some m" using m by (simp add: P1)
  note F = setDesktopState_found [OF m1, where new = "JStr ''disconnected''"]
  obtain m2 where m2: "find_desk j ?P2 = Some m2" using mj by (cases "j = i") (auto simp: F P1)
  have "pv_connecting ?P2 = Some j" using c by (simp add: desk_kept P1)
  note G = fail_found [OF this m2]
  have R: "R = (clear_interval h ?P3)\<lparr>pv_timeouts := AList.delete i (pv_timeouts ?P3)\<rparr>"
    using w F(1) G(1) unfolding P1_def
    by (simp add: R_def waiting_def classic_tick_def Let_def CONNECTION_TIMEOUT_def andThen_def)
  have "map_option dk_state (find_desk k R) =
      (if k = i \<or> k = j then Some (JStr ''disconnected'') else map_option dk_state (find_desk k P))" for k
    using G(2) [of k] F(2) [of k] F(2) [of j] m2 unfolding R by (auto simp: clear_interval_def P1)
  moreover have "pv_out R = pv_out P @ [OpenDialog ''dialogClientNotInstalled'']"
    unfolding R using G(3) by (simp add: clear_interval_def desk_kept P1)
  ultimately show ?thesis unfolding R by (simp add: clear_interval_def)
qed

text \<open>C25. A desktop that does not get connected: forty seconds after the attempt the timer gives up. It has
  run for the last time, the desktop is shown as disconnected and the dialog about the missing client
  is open, once. But the desktop of the latest attempt, whichever it is, is shown as disconnected
  with it, also when it has been connected in the meantime.\<close>

theorem classic_timeout:
  assumes start: "waiting h i 0 P" and m: "find_desk i P \<noteq> None" and j: "pv_connecting P = Some j" "find_desk j P \<noteq> None"
  shows "(waiting h i n (ticks h n P) \<longleftrightarrow> n < CONNECTION_TIMEOUT) \<and>
      map_of (pv_intervals (ticks h CONNECTION_TIMEOUT P)) h = None \<and>
      pv_out (ticks h CONNECTION_TIMEOUT P) = pv_out P @ [OpenDialog ''dialogClientNotInstalled''] \<and>
      (\<forall>k. map_option dk_state (find_desk k (ticks h CONNECTION_TIMEOUT P)) =
         (if k = i \<or> k = j then Some (JStr ''disconnected'') else map_option dk_state (find_desk k P)))"
proof -
  obtain ts where w: "waiting h i 39 (ticks h 39 P)" "ticks h 39 P = P\<lparr>pv_timeouts := ts\<rparr>"
    using ticks_count [OF start, of 39] by (auto simp: CONNECTION_TIMEOUT_def)
  have T: "ticks h CONNECTION_TIMEOUT P = fst (classic_tick h (ticks h 39 P))"
    using ticks_add [of h 39 1 P] by (simp add: CONNECTION_TIMEOUT_def)
  obtain m0 where m0: "find_desk i (ticks h 39 P) = Some m0" using m w(2) by auto
  have j': "pv_connecting (ticks h 39 P) = Some j" "find_desk j (ticks h 39 P) \<noteq> None" using j w(2) by simp_all
  note E = tick_expires [OF w(1) m0 j']
  have fin: "map_of (pv_intervals (ticks h CONNECTION_TIMEOUT P)) h = None \<and>
      pv_out (ticks h CONNECTION_TIMEOUT P) = pv_out P @ [OpenDialog ''dialogClientNotInstalled''] \<and>
      (\<forall>k. map_option dk_state (find_desk k (ticks h CONNECTION_TIMEOUT P)) =
         (if k = i \<or> k = j then Some (JStr ''disconnected'') else map_option dk_state (find_desk k P)))"
    using E unfolding T w(2) by simp
  have idle: "map_of (pv_intervals Q) h = None \<Longrightarrow> ticks h k Q = Q" for k Q
    by (induction k) (simp_all add: classic_tick_def)
  have "waiting h i n (ticks h n P) \<longleftrightarrow> n < CONNECTION_TIMEOUT"
  proof (cases "n < CONNECTION_TIMEOUT")
    case False
    then have "ticks h n P = ticks h CONNECTION_TIMEOUT P"
      using ticks_add [of h CONNECTION_TIMEOUT "n - CONNECTION_TIMEOUT" P] fin by (simp add: idle)
    then show ?thesis using fin False by (simp add: waiting_def)
  qed (use ticks_count [OF start, of n] in simp)
  with fin show ?thesis by blast
qed

definition sample_setting :: "js \<Rightarrow> js list \<Rightarrow> js" where
  "sample_setting v l = JObj [(''list'', JArr l), (''value'', v)]"

definition sample_client :: "js obj" where
  "sample_client =
     [(''hostname'', JStr ''node1''),
      (''settings'', JObj [(''client'', sample_setting (JStr ''classic'') []), (''connection'', sample_setting (JStr ''adsl'') []),
         (''audio'', sample_setting (JNum 0) []), (''printers'', sample_setting (JNum 1) []),
         (''fullscreen'', sample_setting (JNum 0) []),
         (''share_folders'', sample_setting (JNum 1) [JStr ''/home/ana'', JStr ''/tmp'']),
         (''share_usb'', sample_setting (JNum 0) [])])]"

definition connecting_portal :: portal where
  "connecting_portal = fst (setup_answer 4 (JStr ''t0k3n'') sample_client drawn_portal)"

lemma sample_options: "\<exists>opts. client_options 4 (JObj sample_client) tok = Inr opts"
  by (simp add: client_options_def ok_then_def sample_client_def sample_setting_def get_attr_def CLIENT_PARAMS_MAPPING_def
      folder_options_def usb_options_def truthy_int_def)

lemma drawn_portal_eval:
  "pv_timeouts drawn_portal = []" "pv_intervals drawn_portal = []" "pv_next drawn_portal = 0" "pv_seen_msg drawn_portal"
  "find_desk 4 drawn_portal \<noteq> None" "cell_state 4 drawn_portal = JStr ''disconnected''"
  by code_simp+

lemma seen_kept [desk_kept]: "pv_seen_msg (fst (setDesktopState i st P)) = pv_seen_msg P"
  by (simp add: setDesktopState_def set_model_def andThen_def Let_def split: option.splits)

lemma connecting_portal_eval:
  "pv_timeouts connecting_portal = [(4, \<lparr> to_count = 0, to_handle = 0 \<rparr>)]" "pv_intervals connecting_portal = [(0, 4)]"
  "cell_state 4 connecting_portal = JStr ''connecting''" "pv_connecting connecting_portal = Some 4"
  "find_desk 4 connecting_portal \<noteq> None"
proof -
  obtain m where m: "find_desk 4 drawn_portal = Some m" using drawn_portal_eval(5) by auto
  let ?P1 = "fst (setDesktopState 4 (JStr ''connecting'') drawn_portal)"
  note F = setDesktopState_found [OF m, where new = "JStr ''connecting''"]
  obtain c where c: "map_of (pv_cells drawn_portal) 4 = Some c" using drawn_portal_cell by auto
  have st: "cell_state 4 ?P1 = JStr ''connecting''"
    using c drawn_portal_eval(6) by (simp add: cell_state_def F map_of_map_entry shown_state_def drawn_parts)
  obtain opts where opts: "client_options 4 (JObj sample_client) (JStr ''t0k3n'') = Inr opts" using sample_options by blast
  have "\<not> refused sample_client" by (simp add: refused_def sample_client_def get_attr_def)
  moreover have "js_path (JObj sample_client) [''settings'', ''client'', ''value''] = Inr (JStr ''classic'')"
    by (simp add: sample_client_def sample_setting_def get_attr_def ok_then_def)
  ultimately have P: "connecting_portal = fst (connectDesktopClassic 4 (JObj sample_client) (JStr ''t0k3n'') ?P1)"
    using F(1) drawn_portal_eval(4) unfolding connecting_portal_def setup_answer_def by (simp add: andThen_def desk_kept)
  have Q: "pv_timeouts ?P1 = []" "pv_intervals ?P1 = []" "pv_next ?P1 = 0" "find_desk 4 ?P1 \<noteq> None"
    using drawn_portal_eval by (simp_all add: desk_kept F)
  show "pv_timeouts connecting_portal = [(4, \<lparr> to_count = 0, to_handle = 0 \<rparr>)]" "pv_intervals connecting_portal = [(0, 4)]"
    "cell_state 4 connecting_portal = JStr ''connecting''" "pv_connecting connecting_portal = Some 4"
    "find_desk 4 connecting_portal \<noteq> None"
    unfolding P connectDesktopClassic_def using opts Q st
    by (simp_all add: Let_def emit_def startConnectionTimeoutClassic_def cell_state_def find_desk_def)
qed

lemma connecting_portal_reached: "desk_reach connecting_portal"
  unfolding connecting_portal_def using drawn_portal_reached by (rule desk_reach.later) (rule desk_step.got_setup)

theorem second_attempt_leaks_timer_witness:
  "map_of (pv_intervals (startConnectionTimeoutClassic 4 connecting_portal)) 0 = Some 4"
proof -
  let ?t = "\<lparr> to_count = 0, to_handle = 0 \<rparr>"
  have t: "map_of (pv_timeouts connecting_portal) 4 = Some ?t" by (simp add: connecting_portal_eval(1))
  have i: "map_of (pv_intervals connecting_portal) (to_handle ?t) = Some 4" by (simp add: connecting_portal_eval(2))
  have u: "\<forall>j u. map_of (pv_timeouts connecting_portal) j = Some u \<and> to_handle u = to_handle ?t \<longrightarrow> j = 4"
    by (simp add: connecting_portal_eval(1))
  show ?thesis using second_attempt_leaks_timer [OF connecting_portal_reached t i u rtranclp.rtrancl_refl] by simp
qed

theorem classic_timeout_witness:
  "map_option dk_state (find_desk 4 (ticks 0 CONNECTION_TIMEOUT connecting_portal)) = Some (JStr ''disconnected'') \<and>
   map_of (pv_intervals (ticks 0 CONNECTION_TIMEOUT connecting_portal)) 0 = None"
proof -
  have "waiting 0 4 0 connecting_portal" by (simp add: waiting_def connecting_portal_eval)
  from classic_timeout [OF this connecting_portal_eval(5,4,5), of 0] show ?thesis by simp
qed

section \<open>The address for the classic client\<close>

text \<open>The options are joined with blanks after them and no quoting. What a reader gets who takes the words
  of the text one by one and splits each at its first equals sign:\<close>

fun term_words :: "string \<Rightarrow> string \<Rightarrow> string list" where
  "term_words acc [] = []"
| "term_words acc (c # cs) = (if c = CHR '' '' then rev acc # term_words [] cs else term_words (c # acc) cs)"

definition option_of_word :: "string \<Rightarrow> string \<times> string" where
  "option_of_word w = (takeWhile (\<lambda>c. c \<noteq> CHR ''='') w, drop 1 (dropWhile (\<lambda>c. c \<noteq> CHR ''='') w))"

definition no_blank :: "string \<Rightarrow> bool" where
  "no_blank s \<longleftrightarrow> CHR '' '' \<notin> set s"

definition plain_name :: "string \<Rightarrow> bool" where
  "plain_name n \<longleftrightarrow> no_blank n \<and> CHR ''='' \<notin> set n"

lemma term_words_run: "no_blank w \<Longrightarrow> term_words acc (w @ CHR '' '' # s) = (rev acc @ w) # term_words [] s"
  by (induction w arbitrary: acc) (auto simp: no_blank_def)

lemma term_words_length: "length (term_words acc s) = length (filter (\<lambda>c. c = CHR '' '') s)"
  by (induction s arbitrary: acc) auto

lemma option_of_word_plain: "plain_name n \<Longrightarrow> option_of_word (n @ CHR ''='' # v) = (n, v)"
proof -
  assume "plain_name n"
  then have "c \<in> set n \<Longrightarrow> c \<noteq> CHR ''=''" for c by (auto simp: plain_name_def)
  then show ?thesis by (simp add: option_of_word_def takeWhile_append2 dropWhile_append2)
qed

lemma query_text_Cons: "query_text ((n, v) # opts) = (n @ CHR ''='' # v) @ CHR '' '' # query_text opts"
  by (simp add: query_text_def)

lemma query_words:
  assumes "list_all (\<lambda>(n, v). plain_name n) opts"
  shows "map option_of_word (term_words [] (query_text opts)) = opts \<longleftrightarrow> list_all (\<lambda>(n, v). no_blank v) opts"
proof
  assume "list_all (\<lambda>(n, v). no_blank v) opts"
  then show "map option_of_word (term_words [] (query_text opts)) = opts"
    using assms
  proof (induction opts)
    case (Cons nv opts)
    obtain n v where nv: "nv = (n, v)" by (cases nv)
    have "no_blank (n @ CHR ''='' # v)" using Cons.prems nv by (auto simp: plain_name_def no_blank_def)
    from term_words_run [OF this, of "[]" "query_text opts"] show ?case
      unfolding nv query_text_Cons using Cons nv by (simp add: option_of_word_plain)
  qed (simp add: query_text_def)
next
  let ?b = "\<lambda>s. length (filter (\<lambda>c. c = CHR '' '') s)"
  assume eq: "map option_of_word (term_words [] (query_text opts)) = opts"
  have len: "?b (query_text opts) = length opts" using arg_cong [OF eq, of length] by (simp add: term_words_length)
  have count: "?b (query_text xs) = length xs + (\<Sum>(n, v)\<leftarrow>xs. ?b n + ?b v)" for xs
    by (induction xs) (auto simp: query_text_def)
  have "(\<Sum>(n, v)\<leftarrow>opts. ?b n + ?b v) = 0" using len count [of opts] by simp
  then have "\<forall>x\<in>set opts. no_blank (snd x)" by (auto simp: case_prod_beta no_blank_def filter_empty_conv)
  then show "list_all (\<lambda>(n, v). no_blank v) opts" by (simp add: list_all_iff case_prod_beta)
qed

lemma ok_then_Inr: "ok_then r f = Inr y \<longleftrightarrow> (\<exists>x. r = Inr x \<and> f x = Inr y)"
  by (cases r) (simp_all add: ok_then_def)

lemma mapped_names: "mapped_options setup ps = Inr opts \<Longrightarrow> map fst opts = map snd ps"
  by (induction ps arbitrary: opts) (auto simp: ok_then_Inr)

lemma digits_plain: "plain_name (''client.share.'' @ nat_str k)"
proof -
  have "c \<in> set (nat_str k) \<Longrightarrow> is_digit c" for c using nat_str_digits [of k] by (simp add: list_all_iff)
  moreover have "\<not> is_digit CHR '' ''" "\<not> is_digit CHR ''=''" by (simp_all add: is_digit_def)
  ultimately have "CHR '' '' \<notin> set (nat_str k)" "CHR ''='' \<notin> set (nat_str k)" by blast+
  then show ?thesis by (simp add: plain_name_def no_blank_def)
qed

lemma option_names:
  assumes "client_options i setup tok = Inr opts" and "js_path setup [''settings'', ''share_folders'', ''list''] = Inr (JArr fs)"
  shows "list_all (\<lambda>(n, v). plain_name n) opts"
proof -
  obtain host mapped folders usb sf su where m: "mapped_options setup CLIENT_PARAMS_MAPPING = Inr mapped"
    and f: "folder_options setup (parseInt sf) = Inr folders" and u: "usb_options setup (parseInt su) = Inr usb"
    and os: "[(''client.ssl.options.SSL_version'', ''TLSv1_2''), (''client.auto_connect'', ''1''),
        (''client.auto_connect.vm_id'', num_str i), (''client.auto_connect.token'', js_str tok),
        (''client.host.name'', js_str host)] @ mapped @ folders @ [(''client.usb.enable'', int_text (parseInt su))] @ usb = opts"
    using assms(1) unfolding client_options_def ok_then_Inr Let_def sum.inject by blast
  have "list_all (\<lambda>(n, v). plain_name n) mapped"
    using mapped_names [OF m] by (auto simp: CLIENT_PARAMS_MAPPING_def plain_name_def no_blank_def)
  moreover have "list_all (\<lambda>(n, v). plain_name n) folders"
    using f assms(2) digits_plain
    by (auto simp: folder_options_def ok_then_Inr list_all_iff dest!: set_zip_leftD split: if_splits)
  moreover have "list_all (\<lambda>(n, v). plain_name n) usb"
    using u by (auto simp: usb_options_def ok_then_Inr plain_name_def no_blank_def split: if_splits)
  ultimately show ?thesis unfolding os [symmetric] by (simp add: plain_name_def no_blank_def)
qed

text \<open>The address the portal opens to start the classic client holds each option of the desktop as one
  word, and the words give the options back, exactly when no value has a blank in it; a shared folder
  with a blank in its name spoils the text.\<close>

theorem client_query_words:
  assumes "client_options i setup tok = Inr opts" and "js_path setup [''settings'', ''share_folders'', ''list''] = Inr (JArr fs)"
  shows "map option_of_word (term_words [] (query_text opts)) = opts \<longleftrightarrow> list_all (\<lambda>(n, v). no_blank v) opts"
  using assms by (intro query_words option_names)

theorem client_query_words_witness:
  "\<exists>opts. client_options 4 (JObj sample_client) (JStr ''t0k3n'') = Inr opts \<and> (''client.share.0'', ''/home/ana'') \<in> set opts \<and>
     map option_of_word (term_words [] (query_text opts)) = opts"
proof -
  obtain opts where o1: "client_options 4 (JObj sample_client) (JStr ''t0k3n'') = Inr opts" using sample_options by blast
  have "parseInt (JNum 1) = Some 1" "parseInt (JNum 0) = Some 0" by simp_all
  then have os: "opts = [(''client.ssl.options.SSL_version'', ''TLSv1_2''), (''client.auto_connect'', ''1''),
      (''client.auto_connect.vm_id'', num_str 4), (''client.auto_connect.token'', ''t0k3n''), (''client.host.name'', ''node1''),
      (''client.link'', ''adsl''), (''client.audio.enable'', num_str 0), (''client.fullscreen'', num_str 0),
      (''client.printing.enable'', num_str 1), (''client.share.'' @ nat_str 0, ''/home/ana''), (''client.share.'' @ nat_str 1, ''/tmp''),
      (''client.usb.enable'', num_str 0)]"
    using o1 by (simp add: client_options_def ok_then_def sample_client_def sample_setting_def get_attr_def
        CLIENT_PARAMS_MAPPING_def folder_options_def usb_options_def truthy_int_def int_text_def)
  have n: "nat_str 0 = ''0''" "nat_str 1 = ''1''" "num_str 4 = ''4''" "num_str 0 = ''0''" "num_str 1 = ''1''" by code_simp+
  have "js_path (JObj sample_client) [''settings'', ''share_folders'', ''list''] = Inr (JArr [JStr ''/home/ana'', JStr ''/tmp''])"
    by (simp add: sample_client_def sample_setting_def get_attr_def ok_then_def)
  from client_query_words [OF o1 this]
  have "map option_of_word (term_words [] (query_text opts)) = opts" unfolding os n by (simp add: no_blank_def)
  moreover have "(''client.share.0'', ''/home/ana'') \<in> set opts" unfolding os n by simp
  ultimately show ?thesis using o1 by blast
qed

section \<open>Outcomes of a connection\<close>

text \<open>The first message about the classic client marks the desktop as disconnected, whatever it was.\<close>

lemma setup_classic_unseen:
  assumes "\<not> refused ans" and "js_path (JObj ans) [''settings'', ''client'', ''value''] = Inr (JStr ''classic'')"
    and m: "find_desk i P = Some m" and "\<not> pv_seen_msg P"
  shows "snd (setup_answer i tok ans P) = None \<and>
    map_option dk_state (find_desk i (fst (setup_answer i tok ans P))) = Some (JStr ''disconnected'') \<and>
    map_option dk_last (find_desk i (fst (setup_answer i tok ans P))) = Some (JStr ''disconnected'') \<and>
    pv_out (fst (setup_answer i tok ans P)) = pv_out P @ [OpenDialog ''dialogClientFirstMessage''] \<and>
    pv_intervals (fst (setup_answer i tok ans P)) = pv_intervals P"
proof -
  note F = setDesktopState_found [OF m, where new = "JStr ''connecting''"]
  let ?P1 = "fst (setDesktopState i (JStr ''connecting'') P)"
  obtain m1 where m1: "find_desk i ?P1 = Some m1" by (simp add: F)
  note G = setDesktopState_found [OF m1, where new = "JStr ''disconnected''"]
  have "setup_answer i tok ans P = showClassicClientMessage i ?P1"
    using assms F(1) by (simp add: setup_answer_def andThen_def desk_kept del: js_path.simps)
  then show ?thesis
    using G by (simp add: showClassicClientMessage_def andThen_def emit_def desk_kept)
qed

text \<open>With the HTML5 client the button shows a connection in progress until the cookie of the other
  window is gone; then the first second restores the last stable state and ends the watch.\<close>

theorem html5_watch_ends:
  assumes P: "desk_reach P" and h: "map_of (pv_watches P) h = Some i" and c: "map_of (pv_cells P) i \<noteq> None"
  shows "(i \<in> set (pv_cookies P) \<longrightarrow> html5_tick h P = (P, None)) \<and>
    (i \<notin> set (pv_cookies P) \<longrightarrow>
      (\<exists>m m'. find_desk i P = Some m \<and> find_desk i (fst (html5_tick h P)) = Some m' \<and> dk_state m' = dk_last m \<and>
         stable (dk_state m') \<and> cell_state i (fst (html5_tick h P)) = dk_last m \<and>
         map_of (pv_watches (fst (html5_tick h P))) h = None \<and> snd (html5_tick h P) = None))"
proof (intro conjI impI)
  assume "i \<in> set (pv_cookies P)"
  then show "html5_tick h P = (P, None)" using h by (simp add: html5_tick_def)
next
  assume nc: "i \<notin> set (pv_cookies P)"
  obtain c0 where c0: "map_of (pv_cells P) i = Some c0" using c by auto
  then obtain m where m: "find_desk i P = Some m" "stable (dk_last m)"
    using desk_reach_ok [OF P] unfolding desk_ok_def by blast
  obtain ms where ms: "pv_models P = Some ms" using m(1) by (auto simp: find_desk_def split: option.splits)
  obtain y where y: "dk_last m = JStr y" "shown_state (dk_last m) (cell_state i P) = JStr y" using stable_shown [OF m(2)] by blast
  note F = setDesktopState_found [OF m(1), where new = "dk_last m"]
  let ?Q = "fst (setDesktopState i (dk_last m) P)"
  have t: "html5_tick h P = (?Q\<lparr>pv_watches := AList.delete h (pv_watches ?Q)\<rparr>, None)"
    using h nc ms m(1) F(1) by (simp add: html5_tick_def andThen_def)
  have "map_of (pv_cells ?Q) i = Some (draw_state (pv_mobile P) (JStr y) c0)" using c0 F(3) y(2) by (simp add: map_of_map_entry)
  then have st: "cell_state i ?Q = JStr y" by (simp add: cell_state_def drawn_parts)
  have frame: "find_desk i (?Q\<lparr>pv_watches := w\<rparr>) = find_desk i ?Q" "cell_state i (?Q\<lparr>pv_watches := w\<rparr>) = cell_state i ?Q" for w
    by (simp_all add: find_desk_def cell_state_def)
  show "\<exists>m m'. find_desk i P = Some m \<and> find_desk i (fst (html5_tick h P)) = Some m' \<and> dk_state m' = dk_last m \<and>
         stable (dk_state m') \<and> cell_state i (fst (html5_tick h P)) = dk_last m \<and>
         map_of (pv_watches (fst (html5_tick h P))) h = None \<and> snd (html5_tick h P) = None"
  proof -
    obtain m' where m': "find_desk i ?Q = Some m'" "dk_state m' = dk_last m" using F(2) [of i] y by simp
    then show ?thesis unfolding t fst_conv snd_conv frame using m st y(1) by (intro exI [of _ m] exI [of _ m']) simp
  qed
qed

definition watching_portal :: portal where
  "watching_portal = html5_wait 0 (fst (setup_answer 4 (JStr ''t0k3n'')
     [(''settings'', JObj [(''client'', sample_setting (JStr ''html5'') [])])] drawn_portal))"

lemma watching_portal_reached: "desk_reach watching_portal"
  unfolding watching_portal_def
  by (rule desk_reach.later [OF desk_reach.later [OF drawn_portal_reached desk_step.got_setup] desk_step.wait_over])

lemma watching_portal_eval:
  "map_of (pv_watches watching_portal) 1 = Some 4 \<and> map_of (pv_cells watching_portal) 4 \<noteq> None \<and> pv_cookies watching_portal = []"
  by code_simp

theorem html5_watch_ends_witness:
  "\<exists>m'. find_desk 4 (fst (html5_tick 1 watching_portal)) = Some m' \<and> stable (dk_state m') \<and>
     map_of (pv_watches (fst (html5_tick 1 watching_portal))) 1 = None"
  using html5_watch_ends [OF watching_portal_reached, of 1 4] watching_portal_eval by auto

end
