(* ===== verification/UpConnect.thy ===== *)
theory UpConnect
  imports UpDesktops SaveModel
begin

text \<open>
  The window of the user portal in which a desktop runs (\<open>up/lib/bb-views/up/desktop-connect.js\<close>), the
  keyboard layout it asks for (\<open>up/lib/util/util.js\<close>, \<open>up/lib/constants/constants-languages.js\<close>) and the data
  of the last connection (\<open>up/lib/bb-models/info-connection.js\<close>). The language of the browser is a parameter.
\<close>

section \<open>Keyboard layout\<close>

definition LAN_COUNTRIES :: "(string \<times> string) list" where
  "LAN_COUNTRIES =
     [(''af'', ''Afghanistan''), (''al'', ''Albania''), (''dz'', ''Algeria''), (''ar'', ''Argentina''),
      (''am'', ''Armenia''), (''au'', ''Australia''), (''at'', ''Austria''), (''az'', ''Azerbaijan''),
      (''bd'', ''Bangladesh''), (''by'', ''Belarus''), (''be'', ''Belgium''), (''bt'', ''Bhutan''),
      (''bo'', ''Bolivia''), (''ba'', ''Bosnia and herzegovina''), (''bw'', ''Botswana''),
      (''br'', ''Brazil''), (''bg'', ''Bulgaria''), (''kh'', ''Cambodia''), (''cm'', ''Cameroon''),
      (''ca'', ''Canada''), (''cl'', ''Chile''), (''cn'', ''China''), (''co'', ''Colombia''),
      (''cd'', ''Congo, the democratic republic of the''), (''cr'', ''Costa rica''), (''hr'', ''Croatia''),
      (''cu'', ''Cuba''), (''cz'', ''Czech republic''), (''dk'', ''Denmark''),
      (''do'', ''Dominican republic''), (''ec'', ''Ecuador''), (''sv'', ''El salvador''),
      (''ee'', ''Estonia''), (''et'', ''Ethiopia''), (''fo'', ''Faroe islands''), (''fi'', ''Finland''),
      (''fr'', ''France''), (''ge'', ''Georgia''), (''de'', ''Germany''), (''gh'', ''Ghana''),
      (''gr'', ''Greece''), (''gt'', ''Guatemala''), (''gn'', ''Guinea''), (''hn'', ''Honduras''),
      (''hu'', ''Hungary''), (''is'', ''Iceland''), (''in'', ''India''), (''id'', ''Indonesia''),
      (''ir'', ''Iran, islamic republic of''), (''iq'', ''Iraq''), (''ie'', ''Ireland''),
      (''il'', ''Israel''), (''it'', ''Italy''), (''jp'', ''Japan''), (''kz'', ''Kazakhstan''),
      (''ke'', ''Kenya''), (''kr'', ''Korea, republic of''), (''kg'', ''Kyrgyzstan''),
      (''la'', ''Lao people's democratic republic (laos)''), (''lv'', ''Latvia''), (''lt'', ''Lithuania''),
      (''mk'', ''Macedonia, the former yugoslav republic of''), (''my'', ''Malaysia''),
      (''mv'', ''Maldives''), (''ml'', ''Mali''), (''mt'', ''Malta''), (''mx'', ''Mexico''),
      (''md'', ''Moldova, republic of''), (''mn'', ''Mongolia''), (''me'', ''Montenegro''),
      (''ma'', ''Morocco''), (''mm'', ''Myanmar''), (''np'', ''Nepal''), (''nl'', ''Netherlands''),
      (''ni'', ''Nicaragua''), (''ng'', ''Nigeria''), (''no'', ''Norway''), (''pk'', ''Pakistan''),
      (''pa'', ''Panama''), (''py'', ''Paraguay''), (''pe'', ''Peru''), (''ph'', ''Philippines''),
      (''pl'', ''Poland''), (''pt'', ''Portugal''), (''pr'', ''Puerto rico''), (''ro'', ''Romania''),
      (''ru'', ''Russian federation''), (''sn'', ''Senegal''), (''rs'', ''Serbia''),
      (''sk'', ''Slovakia''), (''si'', ''Slovenia''), (''za'', ''South africa''), (''es'', ''Spain''),
      (''lk'', ''Sri lanka''), (''se'', ''Sweden''), (''ch'', ''Switzerland''),
      (''sy'', ''Syrian arab republic''), (''tw'', ''Taiwan''), (''tj'', ''Tajikistan''),
      (''tz'', ''Tanzania, united republic of''), (''th'', ''Thailand''), (''tg'', ''Togo''),
      (''tr'', ''Turkey''), (''tm'', ''Turkmenistan''), (''ua'', ''Ukraine''),
      (''gb'', ''United kingdom''), (''us'', ''United states''), (''uy'', ''Uruguay''),
      (''uz'', ''Uzbekistan''), (''ve'', ''Venezuela''), (''vn'', ''Viet nam'')]"

definition LAN_LATAM_CODES :: "string list" where
  "LAN_LATAM_CODES =
     [''ar'', ''bo'', ''cl'', ''co'', ''cr'', ''cu'', ''do'', ''ec'', ''sv'', ''gt'', ''hn'', ''mx'',
      ''ni'', ''pa'', ''py'', ''pe'', ''pr'', ''uy'', ''ve'']"

definition LAN_MAPPING_SHORT_2_TERRITORY :: "(string \<times> string) list" where
  "LAN_MAPPING_SHORT_2_TERRITORY =
     [(''en'', ''US''), (''ar'', ''ae''), (''zh'', ''cn''), (''gd'', ''ie''), (''ms'', ''my''),
      (''sv'', ''se'')]"

definition clean_language :: "string \<Rightarrow> string" where
  "clean_language lang =
     (if length lang = 2 then (case map_of LAN_MAPPING_SHORT_2_TERRITORY lang of Some t \<Rightarrow> t | None \<Rightarrow> lang)
      else if length lang = 5 then map lower_char (drop 3 lang)
      else lang)"

definition getKeyboardLayoutCode :: "string \<Rightarrow> string \<Rightarrow> string" where
  "getKeyboardLayoutCode navigatorLanguage kbLayout =
     (let kb = (if kbLayout = ''auto''
                then (let l = clean_language navigatorLanguage in
                      if map_of LAN_COUNTRIES l \<noteq> None then l else ''us'')
                else kbLayout)
      in if inArray kb LAN_LATAM_CODES \<noteq> -1 then ''latam'' else kb)"

section \<open>The window of a desktop\<close>

definition CL_NOT_READY :: nat where "CL_NOT_READY = 0"
definition CL_READY :: nat where "CL_READY = 1"

text \<open>\<open>cv_poll\<close> says whether the interval of the view runs, \<open>cv_listening\<close> whether its websocket has been
  opened and not asked to close.\<close>

record connect_view =
  cv_id :: js
  cv_vm :: js
  cv_level :: nat
  cv_poll :: bool
  cv_listening :: bool
  cv_cookie :: bool
  cv_setup :: "js option"
  cv_out :: "effect list"

definition cv_emit :: "effect list \<Rightarrow> connect_view \<Rightarrow> connect_view" where
  "cv_emit es V = V\<lparr>cv_out := cv_out V @ es\<rparr>"

definition cookie_name :: "js \<Rightarrow> string" where
  "cookie_name i = ''connectingDesktop-'' @ js_str i"

definition connect_initialize :: "js \<Rightarrow> connect_view" where
  "connect_initialize i =
     \<lparr> cv_id = i, cv_vm = Undef, cv_level = CL_NOT_READY, cv_poll = False, cv_listening = False, cv_cookie = True, cv_setup = None,
       cv_out = [Api (''desktops/'' @ js_str i) Undef Undef ''connect_fetched'', SetCookie (cookie_name i) (JBool True)] \<rparr>"

text \<open>The model has been read, with this state of its machine (\<open>undefined\<close> when the reading failed).\<close>

definition connect_fetched :: "js \<Rightarrow> connect_view \<Rightarrow> connect_view" where
  "connect_fetched st V = V\<lparr>cv_vm := st, cv_listening := True, cv_poll := True\<rparr>"

definition poll_tick :: "connect_view \<Rightarrow> connect_view" where
  "poll_tick V =
     (if \<not> cv_poll V then V
      else if cv_vm V = JStr ''stopped'' \<or> cv_vm V = JStr ''running''
      then cv_emit [Api (''desktops/'' @ js_str (cv_id V) @ ''/setup'') Undef Undef ''connect_setup'']
             (V\<lparr>cv_poll := False, cv_level := CL_READY\<rparr>)
      else cv_emit [Call ''loadingBlock'' [JStr ''Loading your Desktop''], Call ''updateProgressMessage'' [JStr ''Waiting for stable desktop state'']] V)"

definition changeUserState :: "js obj \<Rightarrow> connect_view \<Rightarrow> connect_view" where
  "changeUserState data V =
     (if \<not> loose_eq (get_attr data ''id'') (cv_id V) then V
      else
        (let V1 = V\<lparr>cv_vm := get_attr data ''vm_state''\<rparr> in
         if cv_level V1 \<noteq> CL_READY then V1
         else if get_attr data ''user_state'' = JStr ''connecting''
         then cv_emit [Call ''updateProgressMessage'' [JStr ''Waking up virtual machine'']] V1
         else if get_attr data ''user_state'' = JStr ''connected''
         then cv_emit [RemoveCookie (''connectingDesktop-'' @ js_str (get_attr data ''id'')), Call ''loadingUnblock'' [], Call ''stopProgress'' [],
                       Dom DomShow ''.noVNC_canvas'' Undef, Call ''closeAllWebsockets'' []]
                (V1\<lparr>cv_cookie := False, cv_listening := False\<rparr>)
         else V1))"

definition connect_setup :: "js obj \<Rightarrow> connect_view \<Rightarrow> connect_view" where
  "connect_setup ans V =
     (if refused ans then V else cv_emit [Call ''getTemplates'' [JStr ''spyDesktop'']] (V\<lparr>cv_setup := Some (JObj ans)\<rparr>))"

text \<open>The templates have arrived: the layout and the screen size of the setup go into the page.\<close>

definition connect_render :: "string \<Rightarrow> connect_view \<Rightarrow> js_error + effect list" where
  "connect_render lang V =
     (case cv_setup V of
        None \<Rightarrow> Inl TypeError
      | Some s \<Rightarrow>
          ok_then (js_path s [''settings'', ''kb_layout'', ''value'']) (\<lambda>kb.
          ok_then (js_path s [''settings'', ''fullscreen'', ''value'']) (\<lambda>full.
            Inr [Call ''spy_desktops'' [cv_id V, full, JStr (getKeyboardLayoutCode lang (js_str kb))],
                 Call ''loadingBlock'' [JStr ''Loading your Desktop''], Call ''updateProgressMessage'' [JStr ''Connecting with server'']])))"

definition beforeunload :: "connect_view \<Rightarrow> connect_view" where
  "beforeunload V = cv_emit [RemoveCookie (cookie_name (cv_id V))] (V\<lparr>cv_cookie := False\<rparr>)"

section \<open>Last connection\<close>

definition up_processResponse :: "js obj \<Rightarrow> js obj" where
  "up_processResponse r = map (\<lambda>(k, v). (k, escape_value v)) r"

fun split_char :: "char \<Rightarrow> string \<Rightarrow> string list" where
  "split_char d [] = [[]]"
| "split_char d (c # cs) =
     (if c = d then [] # split_char d cs
      else (case split_char d cs of [] \<Rightarrow> [[c]] | w # ws \<Rightarrow> (c # w) # ws))"

definition first_word :: "js \<Rightarrow> js_error + string" where
  "first_word v = (case v of JStr s \<Rightarrow> Inr (map lower_char (hd (split_char CHR '' '' s))) | _ \<Rightarrow> Inl TypeError)"

definition browser_icon :: "string \<Rightarrow> string option" where
  "browser_icon = map_of [(''chrome'', ''fa fa-chrome''), (''firefox'', ''fa fa-firefox''), (''ie'', ''fa fa-internet-explorer''),
     (''opera'', ''fa fa-opera''), (''safari'', ''fa fa-safari'')]"

definition os_icon :: "string \<Rightarrow> string option" where
  "os_icon = map_of [(''windows'', ''fa fa-windows''), (''winphone'', ''fa fa-windows''), (''mac'', ''fa fa-apple''), (''macosx'', ''fa fa-apple''),
     (''ios'', ''fa fa-apple''), (''linux'', ''fa fa-linux''), (''android'', ''fa fa-android''), (''chromeos'', ''fa fa-chrome''),
     (''firefoxos'', ''fa fa-firefox'')]"

definition device_icon :: "string \<Rightarrow> string option" where
  "device_icon = map_of [(''desktop'', ''fa fa-desktop''), (''tablet'', ''fa fa-tablet''), (''mobile'', ''fa fa-mobile'')]"

definition put_icon :: "string \<Rightarrow> string option \<Rightarrow> js obj \<Rightarrow> js obj" where
  "put_icon k ic r = (case ic of None \<Rightarrow> r | Some s \<Rightarrow> AList.update k (JStr s) r)"

definition lower_text :: "js \<Rightarrow> js_error + string" where
  "lower_text v = (case v of JStr s \<Rightarrow> Inr (map lower_char s) | _ \<Rightarrow> Inl TypeError)"

definition arr_str :: "string list \<Rightarrow> nat \<Rightarrow> js" where
  "arr_str ws n = (case arr_get ws n of None \<Rightarrow> Undef | Some w \<Rightarrow> JStr w)"

definition when_set :: "js obj \<Rightarrow> string \<Rightarrow> (js \<Rightarrow> js_error + js obj) \<Rightarrow> js_error + js obj" where
  "when_set r k f = (if truthy (get_attr r k) then f (get_attr r k) else Inr r)"

definition put_location :: "js obj \<Rightarrow> js_error + js obj" where
  "put_location r =
     when_set r ''location'' (\<lambda>v. case v of
         JStr s \<Rightarrow> (let cs = split_char CHR '','' s in
                    Inr (AList.update ''longitude'' (arr_str cs 1) (AList.update ''latitude'' (arr_str cs 0) r)))
       | _ \<Rightarrow> Inl TypeError)"

definition connection_processResponse :: "js obj \<Rightarrow> js_error + js obj" where
  "connection_processResponse r0 =
     (let r = up_processResponse r0 in
      ok_then (when_set r ''browser'' (\<lambda>v. ok_then (first_word v) (\<lambda>w. Inr (put_icon ''browserIcon'' (browser_icon w) r)))) (\<lambda>r.
      ok_then (when_set r ''os'' (\<lambda>v. ok_then (first_word v) (\<lambda>w. Inr (put_icon ''osIcon'' (os_icon w) r)))) (\<lambda>r.
      ok_then (when_set r ''device'' (\<lambda>v. ok_then (lower_text v) (\<lambda>w. Inr (put_icon ''deviceIcon'' (device_icon w) r)))) put_location)))"

text \<open>\<open>Up.C.getGeolocation\<close>: the header of every request, from which the server answers later.\<close>

definition getGeolocation :: "(string \<times> string) option \<Rightarrow> js" where
  "getGeolocation pos = (case pos of None \<Rightarrow> Undef | Some (lat, lng) \<Rightarrow> JStr (lat @ '','' @ lng))"

section \<open>Layouts\<close>

lemma layouts_eval:
  "map_of LAN_COUNTRIES ''us'' \<noteq> None \<and> ''us'' \<notin> set LAN_LATAM_CODES \<and>
   list_all (\<lambda>c. map_of LAN_COUNTRIES c \<noteq> None) LAN_LATAM_CODES \<and> map_of LAN_COUNTRIES ''ae'' = None \<and> map_of LAN_COUNTRIES ''US'' = None"
  by code_simp

text \<open>C27. The keyboard layout of a desktop is always one the server knows: whatever language the browser
  reports, and for every option of the form, it is the layout of one of the countries of the list, or
  the common Latin American layout for exactly the countries that share it. Two entries of the table
  of languages name no country of the list, so Arabic gets the layout of the United States.\<close>

theorem kb_layout_known:
  assumes "kb = ''auto'' \<or> kb \<in> set (map fst LAN_COUNTRIES)"
  shows "(getKeyboardLayoutCode lang kb = ''latam'' \<or>
      getKeyboardLayoutCode lang kb \<in> set (map fst LAN_COUNTRIES) - set LAN_LATAM_CODES) \<and>
    (kb \<noteq> ''auto'' \<longrightarrow> (getKeyboardLayoutCode lang kb = ''latam'' \<longleftrightarrow> kb \<in> set LAN_LATAM_CODES \<or> kb = ''latam'')) \<and>
    getKeyboardLayoutCode ''ar'' ''auto'' = ''us''"
proof -
  have us: "''us'' \<in> set (map fst LAN_COUNTRIES)" "''us'' \<notin> set LAN_LATAM_CODES"
    using layouts_eval by (auto simp: map_of_eq_None_iff)
  define k where "k = (if kb = ''auto'' then let l = clean_language lang in if map_of LAN_COUNTRIES l \<noteq> None then l else ''us'' else kb)"
  have code: "getKeyboardLayoutCode lang kb = (if k \<in> set LAN_LATAM_CODES then ''latam'' else k)"
    unfolding getKeyboardLayoutCode_def k_def Let_def by (simp only: inArray_eq_neg not_not)
  have "k \<in> set (map fst LAN_COUNTRIES)"
    using assms us unfolding k_def Let_def set_map map_of_eq_None_iff by (auto split: if_splits)
  then have 1: "getKeyboardLayoutCode lang kb = ''latam'' \<or>
      getKeyboardLayoutCode lang kb \<in> set (map fst LAN_COUNTRIES) - set LAN_LATAM_CODES"
    unfolding code by simp
  have 2: "kb \<noteq> ''auto'' \<longrightarrow> (getKeyboardLayoutCode lang kb = ''latam'' \<longleftrightarrow> kb \<in> set LAN_LATAM_CODES \<or> kb = ''latam'')"
    unfolding code k_def by simp
  have "clean_language ''ar'' = ''ae''" by (simp add: clean_language_def LAN_MAPPING_SHORT_2_TERRITORY_def)
  then have 3: "getKeyboardLayoutCode ''ar'' ''auto'' = ''us''"
    unfolding getKeyboardLayoutCode_def Let_def using layouts_eval us(2) by simp
  from 1 2 3 show ?thesis by blast
qed

theorem kb_layout_known_witness: "getKeyboardLayoutCode ''en'' ''mx'' = ''latam'' \<and> getKeyboardLayoutCode ''ar'' ''auto'' = ''us''"
proof -
  have "''mx'' \<in> set (map fst LAN_COUNTRIES)" "''mx'' \<in> set LAN_LATAM_CODES" by (simp_all add: LAN_COUNTRIES_def LAN_LATAM_CODES_def)
  then show ?thesis using kb_layout_known [of "''mx''" "''en''"] by simp
qed

section \<open>The window asks for the setup once\<close>

inductive cv_reach :: "connect_view \<Rightarrow> bool" where
  opened: "cv_reach (connect_initialize i)"
| fetched: "cv_reach V \<Longrightarrow> cv_level V = CL_NOT_READY \<Longrightarrow> \<not> cv_poll V \<Longrightarrow> cv_reach (connect_fetched st V)"
| polled: "cv_reach V \<Longrightarrow> cv_reach (poll_tick V)"
| told: "cv_reach V \<Longrightarrow> cv_poll V \<or> cv_level V = CL_READY \<Longrightarrow> cv_reach (changeUserState data V)"
| answered: "cv_reach V \<Longrightarrow> cv_level V = CL_READY \<Longrightarrow> cv_reach (connect_setup ans V)"

definition setup_asked :: "connect_view \<Rightarrow> nat" where
  "setup_asked V = length (filter (\<lambda>e. case e of Api a x y f \<Rightarrow> f = ''connect_setup'' | _ \<Rightarrow> False) (cv_out V))"

definition cv_ok :: "connect_view \<Rightarrow> bool" where
  "cv_ok V \<longleftrightarrow> setup_asked V = cv_level V \<and> cv_level V \<le> CL_READY \<and> (cv_poll V \<longrightarrow> cv_level V = CL_NOT_READY) \<and>
     (cv_cookie V \<or> cv_level V = CL_READY)"

lemma cv_reach_ok: "cv_reach V \<Longrightarrow> cv_ok V"
  by (induction rule: cv_reach.induct)
     (auto simp: cv_ok_def setup_asked_def connect_initialize_def connect_fetched_def poll_tick_def changeUserState_def
        connect_setup_def cv_emit_def CL_READY_def CL_NOT_READY_def Let_def)

text \<open>C26. The window of a desktop asks for the setup of the desktop at most once, and exactly when the state
  of its machine was stable at a tick of its interval. Until then a message of the websocket changes
  nothing but the state of the machine: a desktop that is announced as connected too early keeps the
  cookie and the loading screen, and a message without the state of the machine makes the window wait
  for another one.\<close>

theorem connect_setup_once:
  assumes "cv_reach V"
  shows "setup_asked V = (if cv_level V = CL_READY then 1 else 0) \<and> (cv_cookie V \<or> cv_level V = CL_READY) \<and>
    (cv_level V \<noteq> CL_READY \<longrightarrow> loose_eq (get_attr data ''id'') (cv_id V) \<longrightarrow>
       changeUserState data V = V\<lparr>cv_vm := get_attr data ''vm_state''\<rparr>) \<and>
    (cv_poll V \<longrightarrow> (cv_level (poll_tick V) = CL_READY \<longleftrightarrow> cv_vm V = JStr ''stopped'' \<or> cv_vm V = JStr ''running''))"
  using cv_reach_ok [OF assms]
  by (auto simp: cv_ok_def CL_READY_def CL_NOT_READY_def changeUserState_def poll_tick_def cv_emit_def)

theorem connect_setup_once_witness:
  "cv_level (poll_tick (connect_fetched (JStr ''running'') (connect_initialize (JStr ''4'')))) = CL_READY \<and>
   setup_asked (poll_tick (connect_fetched (JStr ''running'') (connect_initialize (JStr ''4'')))) = 1"
proof -
  let ?V = "connect_fetched (JStr ''running'') (connect_initialize (JStr ''4''))"
  have V: "cv_reach ?V" by (rule cv_reach.fetched [OF cv_reach.opened]) (simp_all add: connect_initialize_def)
  have "cv_level (poll_tick ?V) = CL_READY" using connect_setup_once [OF V] by (simp add: connect_fetched_def)
  then show ?thesis using connect_setup_once [OF cv_reach.polled [OF V]] by simp
qed

section \<open>The position of the browser comes back\<close>

definition coord_char :: "char \<Rightarrow> bool" where
  "coord_char c \<longleftrightarrow> is_digit c \<or> c \<in> set ''.-+e''"

lemma coord_char_plain: "coord_char c \<Longrightarrow> c \<noteq> CHR '','' \<and> esc_char c = [c]"
  by (auto simp: coord_char_def is_digit_def esc_char_def)

lemma escape_coords: "list_all (\<lambda>c. coord_char c \<or> c = CHR '','') s \<Longrightarrow> html_escape s = s"
proof (induction s)
  case (Cons c s)
  have "esc_char CHR '','' = '',''" by (simp add: esc_char_def)
  then have "esc_char c = [c]" using Cons.prems coord_char_plain by auto
  then show ?case using Cons by (simp add: html_escape_def)
qed (simp add: html_escape_def)

lemma split_char_none: "d \<notin> set s \<Longrightarrow> split_char d s = [s]"
  by (induction s) auto

lemma split_char_two: "d \<notin> set s \<Longrightarrow> split_char d (s @ d # t) = s # split_char d t"
  by (induction s) auto

lemma get_put_icon: "k \<noteq> j \<Longrightarrow> get_attr (put_icon k ic r) j = get_attr r j"
  by (simp add: put_icon_def get_attr_def split: option.splits)

lemma up_processResponse_get: "get_attr (up_processResponse r) k = escape_value (get_attr r k)"
  by (induction r) (auto simp: up_processResponse_def get_attr_def)

lemma when_set_location:
  assumes "ok_then (when_set r k (\<lambda>v. ok_then (g v) (\<lambda>w. Inr (put_icon k' (ic w) r)))) F = Inr r'" and "k' \<noteq> ''location''"
  shows "\<exists>r1. F r1 = Inr r' \<and> get_attr r1 ''location'' = get_attr r ''location''"
  using assms by (auto simp: when_set_def ok_then_Inr get_put_icon split: if_splits)

text \<open>The position the browser sends with its requests is the one the portal shows as that of the last
  connection: the text of the header, stored by the server and processed by the model, gives back the
  latitude and the longitude.\<close>

theorem geolocation_roundtrip:
  assumes "list_all coord_char lat" and "list_all coord_char lng" and "lat \<noteq> []"
    and "get_attr r ''location'' = getGeolocation (Some (lat, lng))" and "connection_processResponse r = Inr r'"
  shows "get_attr r' ''latitude'' = JStr lat \<and> get_attr r' ''longitude'' = JStr lng"
proof -
  have comma: "CHR '','' \<notin> set lat" "CHR '','' \<notin> set lng"
    using assms(1,2) coord_char_plain by (auto simp: list_all_iff)
  have "list_all (\<lambda>c. coord_char c \<or> c = CHR '','') (lat @ '','' @ lng)"
    using assms(1,2) by (auto simp: list_all_iff)
  then have loc: "get_attr (up_processResponse r) ''location'' = JStr (lat @ '','' @ lng)"
    using assms(4) by (simp add: up_processResponse_get getGeolocation_def escape_coords)
  obtain r1 where r1: "get_attr r1 ''location'' = JStr (lat @ '','' @ lng)" "put_location r1 = Inr r'"
    using assms(5) loc unfolding connection_processResponse_def Let_def
    by (fastforce dest!: when_set_location)
  then have "r' = AList.update ''longitude'' (JStr lng) (AList.update ''latitude'' (JStr lat) r1)"
    using assms(3) comma by (simp add: put_location_def when_set_def split_char_two split_char_none arr_str_def arr_get_def Let_def)
  then show ?thesis by (simp add: get_attr_def)
qed

theorem geolocation_roundtrip_witness:
  "\<exists>r'. connection_processResponse [(''browser'', JStr ''Firefox 52''), (''location'', JStr ''40.4,-3.7'')] = Inr r' \<and>
     get_attr r' ''latitude'' = JStr ''40.4'' \<and> get_attr r' ''longitude'' = JStr ''-3.7''"
proof -
  let ?r = "[(''browser'', JStr ''Firefox 52''), (''location'', JStr ''40.4,-3.7'')]"
  have "\<not> isl (connection_processResponse ?r)" by code_simp
  then obtain r' where r': "connection_processResponse ?r = Inr r'" by (cases "connection_processResponse ?r") auto
  have c: "list_all coord_char ''40.4''" "list_all coord_char ''-3.7''" by code_simp+
  have "get_attr ?r ''location'' = getGeolocation (Some (''40.4'', ''-3.7''))" by (simp add: get_attr_def getGeolocation_def)
  from geolocation_roundtrip [OF c _ this r'] r' show ?thesis by simp
qed

end
