(* ===== verification/UpWorkspaces.thy ===== *)
theory UpWorkspaces
  imports UpConnect
begin

text \<open>
  Workspaces and settings of the user portal (\<open>up/lib/crud/workspace.js\<close>, \<open>up/lib/bb-views/up/settings.js\<close>,
  \<open>up/lib/bb-views/proto-main.js\<close>, \<open>up/lib/bb-models/proto-model.js\<close>, and \<open>parseForm\<close>, \<open>validateForm\<close> and the
  editor of \<open>up/lib/interface/interface.js\<close>): choosing, cloning, editing and deleting a workspace, and what
  the editor of settings sends.

  A model is its attributes, an object; a collection is the list of its models. The editor is drawn by the
  template \<open>settings-editor-parameters.tpl\<close>; its fields are values of \<open>form_field\<close>.
\<close>

section \<open>Calls of the API\<close>

record up_call =
  uc_type :: string
  uc_url :: string
  uc_data :: js

fun getActionType :: "string \<Rightarrow> string option" where
  "getActionType action =
     (if action = ''create'' then Some ''POST'' else if action = ''update'' then Some ''PUT''
      else if action = ''delete'' then Some ''DELETE'' else None)"

definition getActionUrl :: "string \<Rightarrow> string \<Rightarrow> string \<Rightarrow> js \<Rightarrow> string option" where
  "getActionUrl base pre action i =
     (if action = ''create'' then Some (encodeURI (base @ pre))
      else if action = ''update'' then Some (encodeURI (base @ pre) @ (if truthy i then ''/'' @ js_str i else ''''))
      else if action = ''delete'' then Some (encodeURI (base @ pre @ ''/'' @ js_str i))
      else None)"

text \<open>\<open>save(attributes, options, action)\<close>, for the three actions the portal uses.\<close>

definition up_save :: "string \<Rightarrow> string \<Rightarrow> js \<Rightarrow> js obj \<Rightarrow> string \<Rightarrow> up_call option" where
  "up_save base pre i params action =
     (case (getActionType action, getActionUrl base pre action i) of
        (Some t, Some u) \<Rightarrow> Some \<lparr> uc_type = t, uc_url = u, uc_data = JObj params \<rparr>
      | _ \<Rightarrow> None)"

text \<open>The answer of a saving call; \<open>parse\<close> is \<open>JSON.parse\<close> of its text, \<open>None\<close> when it has none or is no JSON.\<close>

definition up_save_complete :: "int \<Rightarrow> string \<Rightarrow> js option \<Rightarrow> string \<times> string \<Rightarrow> bool \<Rightarrow> js \<times> effect list" where
  "up_save_complete httpStatus status parsed messages dialogOpen =
     (let response = (case parsed of Some v \<Rightarrow> v | None \<Rightarrow> JObj [(''status'', JNum httpStatus)]);
          ok = httpStatus = 200 \<and> status = ''success'';
          msg = (if ok then fst messages else snd messages);
          kind = (if ok then MsgSuccess else MsgError)
      in (response, [Call ''loadingUnblock'' []] @ (if dialogOpen then [CloseDialog] else []) @
                    [Call ''successCallback'' [response], ShowMessage (JStr msg) kind]))"

section \<open>Collections\<close>

definition find_where :: "string \<Rightarrow> js \<Rightarrow> js obj list \<Rightarrow> js obj option" where
  "find_where k v ms = find (\<lambda>m. get_attr m k = v) ms"

fun set_where :: "js \<Rightarrow> js obj \<Rightarrow> js obj list \<Rightarrow> js obj list" where
  "set_where i params [] = []"
| "set_where i params (m # ms) = (if get_attr m ''id'' = i then jq_extend m params # ms else m # set_where i params ms)"

section \<open>Workspaces\<close>

text \<open>\<open>activeWorkspace\<close> on the model with this id: the model is changed at once, the others are not.\<close>

definition activeWorkspace :: "string \<Rightarrow> int \<Rightarrow> js obj list \<Rightarrow> js_error + js obj list \<times> up_call option" where
  "activeWorkspace base i ms =
     (case find_where ''id'' (JNum i) ms of
        None \<Rightarrow> Inl TypeError
      | Some m \<Rightarrow> Inr (set_where (JNum i) [(''active'', JNum 1)] ms,
                       up_save base ''workspaces'' (JNum i) [(''active'', JNum 1)] ''update''))"

definition deleteWorkspace :: "bool \<Rightarrow> string \<Rightarrow> int \<Rightarrow> js obj list \<Rightarrow> js_error + up_call option" where
  "deleteWorkspace accepted base i ms =
     (if \<not> accepted then Inr None
      else (case find_where ''id'' (JNum i) ms of
              None \<Rightarrow> Inl TypeError
            | Some m \<Rightarrow> Inr (up_save base ''workspaces'' (get_attr m ''id'') [] ''delete'')))"

definition copy_suffix :: string where
  "copy_suffix = '' (copy)''"

definition text_len :: "js \<Rightarrow> nat" where
  "text_len v = (case v of JStr s \<Rightarrow> length s | _ \<Rightarrow> 0)"

text \<open>The loop of \<open>cloneWorkspace\<close>: the names at least as long as the candidate get fewer.\<close>

function clone_name :: "js list \<Rightarrow> string \<Rightarrow> string" where
  "clone_name names n = (if JStr n \<in> set names then clone_name names (n @ copy_suffix) else n)"
  by pat_completeness auto
termination
proof (relation "measure (\<lambda>(names, n). length (filter (\<lambda>x. length n \<le> text_len x) names))")
  fix names n assume n: "JStr n \<in> set names"
  have len: "length (n @ copy_suffix) = length n + 7" by (simp add: copy_suffix_def)
  have sub: "filter (\<lambda>x. length n + 7 \<le> text_len x) names =
      filter (\<lambda>x. length n + 7 \<le> text_len x) (filter (\<lambda>x. length n \<le> text_len x) names)"
    by (simp, rule filter_cong) auto
  have "JStr n \<in> set (filter (\<lambda>x. length n \<le> text_len x) names)" using n by (simp add: text_len_def)
  moreover have "\<not> length n + 7 \<le> text_len (JStr n)" by (simp add: text_len_def)
  ultimately have "length (filter (\<lambda>x. length n + 7 \<le> text_len x) (filter (\<lambda>x. length n \<le> text_len x) names)) <
      length (filter (\<lambda>x. length n \<le> text_len x) names)"
    by (rule length_filter_less)
  then show "((names, n @ copy_suffix), names, n) \<in> measure (\<lambda>(names, n). length (filter (\<lambda>x. length n \<le> text_len x) names))"
    unfolding sub [symmetric] in_measure case_prod_conv len .
qed simp

declare clone_name.simps [simp del]

definition cloneWorkspace :: "int \<Rightarrow> js obj list \<Rightarrow> js_error + js obj" where
  "cloneWorkspace i ms =
     (case find_where ''id'' (JNum i) ms of
        None \<Rightarrow> Inl TypeError
      | Some m \<Rightarrow>
          (let newName = clone_name (map (\<lambda>x. get_attr x ''name'') ms) (js_str (get_attr m ''name'') @ copy_suffix)
           in Inr (jq_extend m [(''name'', JStr newName), (''fixed'', JBool False), (''active'', JBool False)])))"

section \<open>Forms\<close>

record form_field =
  ff_name :: string
  ff_checkbox :: bool
  ff_textarea :: bool
  ff_value :: string
  ff_checked :: bool
  ff_subfield :: string
  ff_listof :: string

definition field_value :: "form_field \<Rightarrow> js" where
  "field_value f =
     (if ff_checkbox f then JNum (if ff_checked f then 1 else 0)
      else if ff_textarea f then JArr (if ff_value f = '''' then [] else map JStr (split_char CHR 0x0A (ff_value f)))
      else JStr (ff_value f))"

definition parse_field :: "form_field \<Rightarrow> js obj \<Rightarrow> js_error + js obj" where
  "parse_field f params =
     (if ff_subfield f = '''' then Inr (AList.update (ff_name f) (field_value f) params)
      else
        (let sub = ff_subfield f;
             name = (if ff_listof f \<noteq> '''' then ff_listof f else ff_name f);
             typ = (if ff_listof f \<noteq> '''' then ''list'' else ''value'');
             cur = (if truthy (get_attr params sub) then get_attr params sub else JObj [])
         in case cur of
              JObj ps \<Rightarrow>
                (let entry = (if truthy (get_attr ps name) then get_attr ps name
                              else JObj [(''value'', JStr ''''), (''list'', JArr [])])
                 in case entry of
                      JObj es \<Rightarrow> Inr (AList.update sub (JObj (AList.update name (JObj (AList.update typ (field_value f) es)) ps)) params)
                    | _ \<Rightarrow> Inl TypeError)
            | _ \<Rightarrow> Inl TypeError))"

fun parse_fields :: "form_field list \<Rightarrow> js obj \<Rightarrow> js_error + js obj" where
  "parse_fields [] params = Inr params"
| "parse_fields (f # fs) params = ok_then (parse_field f params) (parse_fields fs)"

definition parseForm :: "form_field list \<Rightarrow> js_error + js obj" where
  "parseForm fs = parse_fields fs []"

section \<open>Validation\<close>

record up_control =
  fc_required :: bool
  fc_visible :: bool
  fc_equal :: string
  fc_any :: bool
  fc_text :: string

definition blank_control :: "up_control \<Rightarrow> bool" where
  "blank_control c \<longleftrightarrow> fc_required c \<and> fc_visible c \<and> list_all (\<lambda>x. x = CHR '' '') (fc_text c)"

text \<open>The visible controls that have to be equal, with the values remembered by their group.\<close>

fun unequal :: "up_control list \<Rightarrow> (string \<times> string) list \<Rightarrow> bool" where
  "unequal [] seen = False"
| "unequal (c # cs) seen =
     (if fc_equal c = '''' \<or> \<not> fc_visible c then unequal cs seen
      else (case map_of seen (fc_equal c) of
              Some (x # xs) \<Rightarrow> fc_text c \<noteq> x # xs \<or> unequal cs seen
            | _ \<Rightarrow> unequal cs (AList.update (fc_equal c) (fc_text c) seen)))"

definition validateForm :: "up_control list \<Rightarrow> bool" where
  "validateForm cs \<longleftrightarrow> list_all (\<lambda>c. \<not> blank_control c) cs \<and> \<not> unequal cs [] \<and> list_all (\<lambda>c. fc_any c \<longrightarrow> fc_text c \<noteq> '''') cs"

section \<open>The editor of settings\<close>

text \<open>Which settings the editor shows: those of the element, or those of the active workspace for a desktop
  without settings of its own.\<close>

definition edition_settings :: "js obj list option \<Rightarrow> js obj \<Rightarrow> bool \<Rightarrow> js_error + js" where
  "edition_settings ws model settingsEnabled =
     (case ws of
        Some ms \<Rightarrow> if settingsEnabled then Inr (get_attr model ''settings'')
                   else (case find_where ''active'' (JNum 1) ms of
                           None \<Rightarrow> Inl TypeError | Some w \<Rightarrow> Inr (get_attr w ''settings''))
      | None \<Rightarrow> Inr (get_attr model ''settings''))"

definition renderEditionMode :: "js obj list option \<Rightarrow> js obj \<Rightarrow> js_error + js" where
  "renderEditionMode ws model =
     (let canBeDisabled = get_attr model ''settings_enabled'' \<noteq> Undef in
      ok_then (edition_settings ws model (\<not> canBeDisabled \<or> truthy (get_attr model ''settings_enabled''))) (\<lambda>s.
      ok_then (js_path s [''client'', ''value'']) (\<lambda>c. Inr s)))"

definition select_field :: "string \<Rightarrow> string list \<Rightarrow> string \<Rightarrow> form_field" where
  "select_field k opts v =
     \<lparr> ff_name = k, ff_checkbox = False, ff_textarea = False, ff_value = (if v \<in> set opts then v else hd opts), ff_checked = False,
       ff_subfield = ''settings'', ff_listof = '''' \<rparr>"

definition check_field :: "string \<Rightarrow> js \<Rightarrow> form_field" where
  "check_field k v =
     \<lparr> ff_name = k, ff_checkbox = True, ff_textarea = False, ff_value = ''1'', ff_checked = truthy_int (parseInt v),
       ff_subfield = ''settings'', ff_listof = '''' \<rparr>"

fun join_lines :: "string list \<Rightarrow> string" where
  "join_lines [] = ''''"
| "join_lines [w] = w"
| "join_lines (w # v # ws) = w @ CHR 0x0A # join_lines (v # ws)"

definition list_field :: "string \<Rightarrow> string \<Rightarrow> string list \<Rightarrow> form_field" where
  "list_field k owner ws =
     \<lparr> ff_name = k, ff_checkbox = False, ff_textarea = True, ff_value = join_lines ws, ff_checked = False,
       ff_subfield = ''settings'', ff_listof = owner \<rparr>"

text \<open>The settings the editor knows, and the fields the template draws for them.\<close>

record settings =
  st_client :: string
  st_connection :: string
  st_audio :: bool
  st_printers :: bool
  st_fullscreen :: bool
  st_kb_layout :: string
  st_share_folders :: bool
  st_folders :: "string list"
  st_share_usb :: bool
  st_usb :: "string list"

definition flag :: "bool \<Rightarrow> js" where
  "flag b = JNum (if b then 1 else 0)"

definition editor_fields :: "settings \<Rightarrow> form_field list" where
  "editor_fields s =
     [select_field ''client'' [''classic'', ''html5''] (st_client s),
      select_field ''connection'' [''adsl'', ''modem'', ''local''] (st_connection s),
      check_field ''audio'' (flag (st_audio s)), check_field ''printers'' (flag (st_printers s)),
      check_field ''fullscreen'' (flag (st_fullscreen s)),
      select_field ''kb_layout'' (''auto'' # map fst LAN_COUNTRIES) (st_kb_layout s),
      check_field ''share_folders'' (flag (st_share_folders s)), list_field ''share_folders_list'' ''share_folders'' (st_folders s),
      check_field ''share_usb'' (flag (st_share_usb s)), list_field ''share_usb_list'' ''share_usb'' (st_usb s)]"

definition entry :: "js \<Rightarrow> string list \<Rightarrow> js" where
  "entry v l = JObj [(''value'', v), (''list'', JArr (map JStr l))]"

text \<open>The settings as the API has them.\<close>

definition settings_js :: "settings \<Rightarrow> js obj" where
  "settings_js s =
     [(''client'', entry (JStr (st_client s)) []), (''connection'', entry (JStr (st_connection s)) []),
      (''audio'', entry (flag (st_audio s)) []), (''printers'', entry (flag (st_printers s)) []),
      (''fullscreen'', entry (flag (st_fullscreen s)) []), (''kb_layout'', entry (JStr (st_kb_layout s)) []),
      (''share_folders'', entry (flag (st_share_folders s)) (st_folders s)), (''share_usb'', entry (flag (st_share_usb s)) (st_usb s))]"

section \<open>The save buttons\<close>

definition save_workspace :: "string \<Rightarrow> string \<Rightarrow> up_control list \<Rightarrow> form_field list \<Rightarrow> js obj \<Rightarrow> js_error + (js obj \<times> up_call option) option" where
  "save_workspace base action cs fs model =
     (if \<not> validateForm cs then Inr None
      else ok_then (parseForm fs) (\<lambda>params.
        let m = jq_extend model params in
        Inr (Some (m, up_save base ''workspaces'' (get_attr m ''id'') (if action = ''create'' then m else params) action))))"

definition editWorkspace_save :: "string \<Rightarrow> up_control list \<Rightarrow> form_field list \<Rightarrow> js obj \<Rightarrow> js_error + (js obj \<times> up_call option) option" where
  "editWorkspace_save base cs fs model = save_workspace base ''update'' cs fs model"

definition newWorkspace_save :: "string \<Rightarrow> up_control list \<Rightarrow> form_field list \<Rightarrow> js obj \<Rightarrow> js_error + (js obj \<times> up_call option) option" where
  "newWorkspace_save base cs fs model = save_workspace base ''create'' cs fs model"

text \<open>The name of a desktop is its alias; an undefined alias does not get into the data of the call.\<close>

definition editDesktopSettings_save :: "string \<Rightarrow> form_field list \<Rightarrow> js obj \<Rightarrow> js_error + up_call option" where
  "editDesktopSettings_save base fs model =
     ok_then (parseForm fs) (\<lambda>params.
       let p1 = AList.delete ''name'' (if map_of params ''name'' = None then params else AList.update ''alias'' (get_attr params ''name'') params)
       in Inr (up_save base ''desktops'' (get_attr model ''id'') p1 ''update''))"

section \<open>Cloning\<close>

definition copies :: "nat \<Rightarrow> string \<Rightarrow> string" where
  "copies k n = n @ concat (replicate k copy_suffix)"

lemma copies_Suc: "copies (Suc k) n = copies k (n @ copy_suffix)"
  by (simp add: copies_def)

lemma copies_0 [simp]: "copies 0 n = n"
  by (simp add: copies_def)

lemma clone_name_spec:
  "\<exists>k. clone_name names n = copies k n \<and> JStr (copies k n) \<notin> set names \<and> (\<forall>j<k. JStr (copies j n) \<in> set names)"
proof (induction names n rule: clone_name.induct)
  case (1 names n)
  show ?case
  proof (cases "JStr n \<in> set names")
    case True
    with 1 obtain k where k: "clone_name names (n @ copy_suffix) = copies k (n @ copy_suffix)"
      "JStr (copies k (n @ copy_suffix)) \<notin> set names" "\<forall>j<k. JStr (copies j (n @ copy_suffix)) \<in> set names" by blast
    have "\<forall>j<Suc k. JStr (copies j n) \<in> set names"
      using True k(3) by (auto simp: less_Suc_eq_0_disj copies_Suc)
    then show ?thesis using True k by (intro exI [of _ "Suc k"]) (simp add: clone_name.simps [of names n] copies_Suc)
  next
    case False
    then show ?thesis by (intro exI [of _ 0]) (simp add: clone_name.simps [of names n])
  qed
qed

text \<open>Cloning a workspace ends with a name no workspace has: the name of the original with the least
  number of \<open> (copy)\<close> after it, one at least, that is free. The clone is neither fixed nor active and has
  everything else of the original, its settings and its id included.\<close>

theorem clone_fresh:
  assumes "find_where ''id'' (JNum i) ms = Some m" and "get_attr m ''name'' = JStr n"
  shows "\<exists>c k. cloneWorkspace i ms = Inr c \<and> get_attr c ''name'' = JStr (copies (Suc k) n) \<and>
    list_all (\<lambda>w. get_attr w ''name'' \<noteq> get_attr c ''name'') ms \<and>
    (\<forall>j<k. \<exists>w\<in>set ms. get_attr w ''name'' = JStr (copies (Suc j) n)) \<and>
    get_attr c ''fixed'' = JBool False \<and> get_attr c ''active'' = JBool False \<and>
    (\<forall>a. a \<notin> set [''name'', ''fixed'', ''active''] \<longrightarrow> get_attr c a = get_attr m a)"
proof -
  let ?names = "map (\<lambda>x. get_attr x ''name'') ms"
  obtain k where k: "clone_name ?names (n @ copy_suffix) = copies k (n @ copy_suffix)"
    "JStr (copies k (n @ copy_suffix)) \<notin> set ?names" "\<forall>j<k. JStr (copies j (n @ copy_suffix)) \<in> set ?names"
    using clone_name_spec by blast
  let ?c = "jq_extend m [(''name'', JStr (copies (Suc k) n)), (''fixed'', JBool False), (''active'', JBool False)]"
  have "cloneWorkspace i ms = Inr ?c"
    using assms k(1) by (simp add: cloneWorkspace_def copies_Suc)
  moreover have name: "get_attr ?c ''name'' = JStr (copies (Suc k) n)" "get_attr ?c ''fixed'' = JBool False"
    "get_attr ?c ''active'' = JBool False" "\<And>a. a \<notin> set [''name'', ''fixed'', ''active''] \<Longrightarrow> get_attr ?c a = get_attr m a"
    by (simp_all add: get_attr_def)
  moreover have "list_all (\<lambda>w. get_attr w ''name'' \<noteq> JStr (copies (Suc k) n)) ms"
    using k(2) by (auto simp: list_all_iff copies_Suc image_iff)
  moreover have "\<forall>j<k. \<exists>w\<in>set ms. get_attr w ''name'' = JStr (copies (Suc j) n)"
    using k(3) by (auto simp: copies_Suc image_iff eq_commute)
  ultimately show ?thesis by (intro exI [of _ ?c] exI [of _ k]) simp
qed

definition sample_workspaces :: "js obj list" where
  "sample_workspaces =
     [[(''id'', JNum 1), (''name'', JStr ''Home''), (''active'', JNum 1), (''settings'', JStr ''A'')],
      [(''id'', JNum 2), (''name'', JStr ''Home (copy)''), (''active'', JNum 0), (''settings'', JStr ''B'')]]"

theorem clone_fresh_witness:
  "\<exists>c k. cloneWorkspace 1 sample_workspaces = Inr c \<and> get_attr c ''name'' = JStr (copies (Suc k) ''Home'') \<and>
     list_all (\<lambda>w. get_attr w ''name'' \<noteq> get_attr c ''name'') sample_workspaces"
proof -
  have "find_where ''id'' (JNum 1) sample_workspaces = Some (hd sample_workspaces)" "get_attr (hd sample_workspaces) ''name'' = JStr ''Home''"
    by (simp_all add: find_where_def sample_workspaces_def get_attr_def)
  from clone_fresh [OF this] show ?thesis by blast
qed

section \<open>The active workspace\<close>

lemma find_where_first:
  "list_all (\<lambda>m. get_attr m k \<noteq> v) xs \<Longrightarrow> get_attr a k = v \<Longrightarrow> find_where k v (xs @ a # ys) = Some a"
  unfolding find_where_def by (induction xs) auto

lemma set_where_append:
  "list_all (\<lambda>m. get_attr m ''id'' \<noteq> i) xs \<Longrightarrow> set_where i p (xs @ ms) = xs @ set_where i p ms"
  by (induction xs) auto

text \<open>Choosing another workspace in the list of desktops sends the change to the API but leaves the earlier
  one marked as active in the page, where nothing is read again. The editor of a desktop without
  settings of its own then shows the settings of whichever of the two comes first in the list: those
  of the earlier workspace, if it does.\<close>

theorem stale_active_workspace:
  assumes ms: "ms = xs @ old # ys @ new # zs" and "distinct (map (\<lambda>m. get_attr m ''id'') ms)"
    and old: "get_attr old ''active'' = JNum 1" "list_all (\<lambda>m. get_attr m ''active'' \<noteq> JNum 1) xs"
    and new: "get_attr new ''id'' = JNum i" and "i \<noteq> 0"
  shows "\<exists>ms'. activeWorkspace base i ms = Inr (ms', Some \<lparr> uc_type = ''PUT'',
        uc_url = encodeURI (base @ ''workspaces'') @ ''/'' @ num_str i, uc_data = JObj [(''active'', JNum 1)] \<rparr>) \<and>
      edition_settings (Some ms') d False = Inr (get_attr old ''settings'')"
proof -
  have before: "list_all (\<lambda>m. get_attr m ''id'' \<noteq> JNum i) (xs @ old # ys)"
    using assms(2) new unfolding ms by (auto simp: list_all_iff image_iff)
  then have "find_where ''id'' (JNum i) ms = Some new"
    using find_where_first [of "''id''" "JNum i" "xs @ old # ys" new zs] new ms by simp
  moreover have "set_where (JNum i) [(''active'', JNum 1)] ms = xs @ old # ys @ jq_extend new [(''active'', JNum 1)] # zs"
    using set_where_append [OF before, of _ "new # zs"] new ms by simp
  moreover have "find_where ''active'' (JNum 1) (xs @ old # qs) = Some old" for qs
    using old by (rule find_where_first [rotated])
  ultimately show ?thesis
    using assms(6) by (simp add: activeWorkspace_def up_save_def getActionUrl_def edition_settings_def)
qed

theorem stale_active_workspace_witness:
  "\<exists>ms'. activeWorkspace ''/api/'' 2 sample_workspaces = Inr (ms', Some \<lparr> uc_type = ''PUT'',
        uc_url = encodeURI ''/api/workspaces'' @ ''/'' @ num_str 2, uc_data = JObj [(''active'', JNum 1)] \<rparr>) \<and>
      edition_settings (Some ms') [] False = Inr (JStr ''A'')"
  using stale_active_workspace [of sample_workspaces "[]" "hd sample_workspaces" "[]" "sample_workspaces ! 1" "[]" 2 "''/api/''" "[]"]
  by (simp add: sample_workspaces_def get_attr_def)

section \<open>Drawing and reading the editor\<close>

lemma split_join_lines:
  "list_all (\<lambda>w. CHR 0x0A \<notin> set w) ws \<Longrightarrow> ws \<noteq> [] \<Longrightarrow> split_char CHR 0x0A (join_lines ws) = ws"
  by (induction ws rule: join_lines.induct) (auto simp: split_char_none split_char_two)

definition lines_ok :: "string list \<Rightarrow> bool" where
  "lines_ok ws \<longleftrightarrow> list_all (\<lambda>w. CHR 0x0A \<notin> set w \<and> w \<noteq> '''') ws"

lemma list_field_value: "lines_ok ws \<Longrightarrow> field_value (list_field k owner ws) = JArr (map JStr ws)"
proof (cases "ws = []")
  case False
  assume ok: "lines_ok ws"
  then have "join_lines ws \<noteq> ''''" using False by (cases ws rule: join_lines.cases) (auto simp: lines_ok_def)
  moreover have "split_char CHR 0x0A (join_lines ws) = ws"
    using ok False by (intro split_join_lines) (auto simp: lines_ok_def list_all_iff)
  ultimately show ?thesis by (simp add: field_value_def list_field_def)
qed (simp add: field_value_def list_field_def)

lemma check_field_value: "field_value (check_field k (flag b)) = flag b"
  by (simp add: field_value_def check_field_def flag_def truthy_int_def)

lemma select_field_value: "v \<in> set opts \<Longrightarrow> field_value (select_field k opts v) = JStr v"
  by (simp add: field_value_def select_field_def)

text \<open>One field of the editor: a value of a new setting, or the list of a setting whose value came before.\<close>

lemma parse_value_field:
  assumes "ff_subfield f = ''settings''" "ff_listof f = ''''" "get_attr params ''settings'' = JObj ps" "get_attr ps (ff_name f) = Undef"
  shows "parse_field f params =
    Inr (AList.update ''settings'' (JObj (AList.update (ff_name f) (JObj [(''value'', field_value f), (''list'', JArr [])]) ps)) params)"
  using assms by (simp add: parse_field_def)

lemma parse_list_field:
  assumes "ff_subfield f = ''settings''" "ff_listof f = k" "k \<noteq> ''''" "get_attr params ''settings'' = JObj ps"
    "get_attr ps k = JObj [(''value'', v), (''list'', l)]"
  shows "parse_field f params =
    Inr (AList.update ''settings'' (JObj (AList.update k (JObj [(''value'', v), (''list'', field_value f)]) ps)) params)"
  using assms by (simp add: parse_field_def)

definition settings_ok :: "settings \<Rightarrow> bool" where
  "settings_ok s \<longleftrightarrow> st_client s \<in> set [''classic'', ''html5''] \<and> st_connection s \<in> set [''adsl'', ''modem'', ''local''] \<and>
     st_kb_layout s \<in> set (''auto'' # map fst LAN_COUNTRIES) \<and> lines_ok (st_folders s) \<and> lines_ok (st_usb s)"

lemma editor_values:
  assumes "settings_ok s"
  shows "map field_value (editor_fields s) =
    [JStr (st_client s), JStr (st_connection s), flag (st_audio s), flag (st_printers s), flag (st_fullscreen s), JStr (st_kb_layout s),
     flag (st_share_folders s), JArr (map JStr (st_folders s)), flag (st_share_usb s), JArr (map JStr (st_usb s))]"
  using assms unfolding settings_ok_def editor_fields_def list.map
  by (simp only: list_field_value check_field_value select_field_value)

lemma field_parts [simp]:
  "ff_name (select_field k opts v) = k" "ff_subfield (select_field k opts v) = ''settings''" "ff_listof (select_field k opts v) = ''''"
  "ff_name (check_field k b) = k" "ff_subfield (check_field k b) = ''settings''" "ff_listof (check_field k b) = ''''"
  "ff_name (list_field k w ws) = k" "ff_subfield (list_field k w ws) = ''settings''" "ff_listof (list_field k w ws) = w"
  by (simp_all add: select_field_def check_field_def list_field_def)


definition sample_settings :: settings where
  "sample_settings =
     \<lparr> st_client = ''classic'', st_connection = ''modem'', st_audio = True, st_printers = False, st_fullscreen = True, st_kb_layout = ''auto'',
       st_share_folders = True, st_folders = [''/home/ana'', ''/tmp/my files''], st_share_usb = False, st_usb = [] \<rparr>"


section \<open>What the form checks\<close>

definition grouped :: "up_control \<Rightarrow> bool" where
  "grouped c \<longleftrightarrow> fc_equal c \<noteq> '''' \<and> fc_visible c"

text \<open>Groups agree when there is one value per group that its controls have.\<close>

definition agree :: "up_control list \<Rightarrow> (string \<times> string) list \<Rightarrow> (string \<Rightarrow> string) \<Rightarrow> bool" where
  "agree cs seen g \<longleftrightarrow> (\<forall>k v. map_of seen k = Some v \<longrightarrow> g k = v) \<and> (\<forall>c\<in>set cs. grouped c \<longrightarrow> g (fc_equal c) = fc_text c)"

lemma agree_Cons: "agree (c # cs) seen g \<longleftrightarrow> (grouped c \<longrightarrow> g (fc_equal c) = fc_text c) \<and> agree cs seen g"
  by (auto simp: agree_def)

lemma agree_update: "map_of seen k = None \<Longrightarrow> agree cs (AList.update k v seen) g \<longleftrightarrow> g k = v \<and> agree cs seen g"
  by (auto simp: agree_def)

lemma unequal_agree:
  assumes "\<forall>c\<in>set cs. grouped c \<longrightarrow> fc_text c \<noteq> ''''" and "\<forall>k v. map_of seen k = Some v \<longrightarrow> v \<noteq> ''''"
  shows "\<not> unequal cs seen \<longleftrightarrow> (\<exists>g. agree cs seen g)"
  using assms
proof (induction cs arbitrary: seen)
  case Nil
  have "agree [] seen (\<lambda>k. case map_of seen k of Some v \<Rightarrow> v | None \<Rightarrow> '''')" by (simp add: agree_def)
  then show ?case by auto
next
  case (Cons c cs)
  consider "\<not> grouped c" | "grouped c" "map_of seen (fc_equal c) = None" | v where "grouped c" "map_of seen (fc_equal c) = Some v"
    by (cases "map_of seen (fc_equal c)") auto
  then show ?case
  proof cases
    case 1
    then have "unequal (c # cs) seen = unequal cs seen" by (auto simp: grouped_def)
    then show ?thesis using Cons 1 by (simp add: agree_Cons)
  next
    case 2
    then have u: "unequal (c # cs) seen = unequal cs (AList.update (fc_equal c) (fc_text c) seen)" by (auto simp: grouped_def)
    have "\<forall>k v. map_of (AList.update (fc_equal c) (fc_text c) seen) k = Some v \<longrightarrow> v \<noteq> ''''"
      using Cons.prems 2 by simp
    then have "\<not> unequal cs (AList.update (fc_equal c) (fc_text c) seen) \<longleftrightarrow>
        (\<exists>g. agree cs (AList.update (fc_equal c) (fc_text c) seen) g)"
      using Cons by simp
    then show ?thesis unfolding u agree_update [OF 2(2)] using 2(1) by (simp add: agree_Cons)
  next
    case 3
    then obtain x xs where v: "v = x # xs" using Cons.prems(2) by (cases v) auto
    have u: "unequal (c # cs) seen \<longleftrightarrow> fc_text c \<noteq> v \<or> unequal cs seen" using 3 v by (simp add: grouped_def)
    have "agree cs seen g \<Longrightarrow> g (fc_equal c) = v" for g using 3 by (simp add: agree_def)
    then show ?thesis unfolding u using Cons 3 by (auto simp: agree_Cons)
  qed
qed

text \<open>The form of the portal is accepted exactly when no required control is blank, every group of controls
  that must agree has one value, and every select that needs a choice has one, provided that no
  control of a group is empty: an empty one is not compared with those after it.\<close>

theorem validateForm_spec:
  assumes "\<forall>c\<in>set cs. grouped c \<longrightarrow> fc_text c \<noteq> ''''"
  shows "validateForm cs \<longleftrightarrow> list_all (\<lambda>c. \<not> blank_control c \<and> (fc_any c \<longrightarrow> fc_text c \<noteq> '''')) cs \<and>
    (\<exists>g. \<forall>c\<in>set cs. grouped c \<longrightarrow> g (fc_equal c) = fc_text c)"
  using unequal_agree [OF assms, of "[]"] by (auto simp: validateForm_def list_all_iff agree_def)

end
