(* ===== verification/UpSession.thy ===== *)
theory UpSession
  imports UpDesktops Router
begin

text \<open>
  The session of the user portal: \<open>Up.C\<close> (\<open>up/lib/session/config.js\<close>), \<open>Up.L\<close> (\<open>up/lib/session/login.js\<close>), the calls
  of \<open>Up.A\<close> it makes (\<open>up/lib/actions/actions.js\<close>), the login form (\<open>up/lib/bb-views/login/login.js\<close>) and the
  router (\<open>up/lib/bb-router/router.js\<close>), on the state of a browser page.

  A request under way is an element of \<open>U_pending\<close>; its answer (\<open>xhr\<close>) comes at any time and in any order. An
  aborted request is one answered with status 0 and no text: when a route aborts the requests of
  the page before, their callbacks run before the new view is made, and touch nothing that
  \<open>performRoute\<close> did before, so aborting is answering first and navigating then. Templates are static files
  and are taken as loaded. An exception ends the handler and leaves what it had changed before.
\<close>

section \<open>The page\<close>

text \<open>The requests of the session. \<open>LoginReq\<close> carries the credentials in its body.\<close>

datatype up_req =
    ConfigReq
  | AccountReq
  | InfoReq
  | InfoLogin
  | LoginReq js js
  | ProfileReq
  | LogoutReq
  | ViewReq

record up_page =
  U_apiUrl :: js
  U_apiWSUrl :: js
  U_login :: js
  U_password :: js
  U_sid :: js
  U_acls :: js
  U_account :: js
  U_block :: js
  U_tenantBlock :: js
  U_tenantID :: js
  U_tenantName :: js
  U_lag :: js
  U_multitenant :: js
  U_retrieved :: js
  U_loggedIn :: bool
  U_view :: string
  U_params :: js
  U_router :: bool
  U_hash :: string
  U_mobile :: bool
  U_cookie :: "js option"
  U_pending :: "up_req list"
  U_out :: "effect list"

type_synonym up_act = "up_page \<times> js_error option"

text \<open>What the browser and jQuery make of an answer: whether it is a success for jQuery, its status, and
  the value of its text as JSON (\<open>None\<close> when it is not JSON).\<close>

record xhr =
  x_ok :: bool
  x_status :: int
  x_statusText :: string
  x_readyState :: int
  x_json :: "js option"

definition xhr_obj :: "xhr \<Rightarrow> js" where
  "xhr_obj x = JObj [(''readyState'', JNum (x_readyState x)), (''status'', JNum (x_status x)),
                     (''statusText'', JStr (x_statusText x))]"

text \<open>The value the callbacks get: the object of a success, the request itself otherwise.\<close>

definition response_of :: "xhr \<Rightarrow> js" where
  "response_of x = (if x_ok x then (case x_json x of Some v \<Rightarrow> v | None \<Rightarrow> Undef) else xhr_obj x)"

definition up_emit :: "effect list \<Rightarrow> up_page \<Rightarrow> up_page" where
  "up_emit es p = p\<lparr>U_out := U_out p @ es\<rparr>"

definition send :: "up_req \<Rightarrow> up_page \<Rightarrow> up_page" where
  "send r p = p\<lparr>U_pending := U_pending p @ [r]\<rparr>"

section \<open>Addresses and the configuration file\<close>

definition up_initApiAddress :: "up_page \<Rightarrow> up_page" where
  "up_initApiAddress p =
     (let url = js_str (U_apiUrl p) @ ''/api/'';
          ws = (if take 5 url = ''https'' then ''wss'' @ drop 5 url else ''ws'' @ drop 4 url)
      in p\<lparr>U_apiUrl := JStr url, U_apiWSUrl := JStr (ws @ ''ws/'')\<rparr>)"

definition up_getBaseUrl :: "string \<Rightarrow> up_page \<Rightarrow> string" where
  "up_getBaseUrl action p = js_str (U_apiUrl p) @ action"

definition up_setConfigToken :: "string \<Rightarrow> js \<Rightarrow> up_page \<Rightarrow> up_page" where
  "up_setConfigToken tok v p = (if inArray tok [''apiUrl''] = -1 then p else p\<lparr>U_apiUrl := v\<rparr>)"

text \<open>The tokens of a file that is an object; the keys of other values (the positions of an array or of a
  text) are not allowed tokens, and there is nothing to walk in \<open>null\<close>.\<close>

definition store_tokens :: "js \<Rightarrow> up_page \<Rightarrow> up_act" where
  "store_tokens v p =
     (case v of
        JObj ps \<Rightarrow> (fold (\<lambda>(k, x). up_setConfigToken k x) ps p, None)
      | Null \<Rightarrow> (p, Some TypeError)
      | Undef \<Rightarrow> (p, Some TypeError)
      | _ \<Rightarrow> (p, None))"

definition default_address :: "string \<Rightarrow> string \<Rightarrow> up_page \<Rightarrow> up_page" where
  "default_address origin port p =
     (if truthy (U_apiUrl p) then p
      else p\<lparr>U_apiUrl := JStr (if port = '''' then origin @ '':443'' else origin)\<rparr>)"

definition up_rememberLogin :: "up_page \<Rightarrow> up_page" where
  "up_rememberLogin p =
     send AccountReq (up_emit [Call ''ajax'' [JStr ''GET'', JStr (encodeURI (up_getBaseUrl ''account'' p))]] p)"

definition readConfigFile_complete :: "string \<Rightarrow> string \<Rightarrow> xhr \<Rightarrow> up_page \<Rightarrow> up_act" where
  "readConfigFile_complete origin port x p =
     (case x_json x of
        None \<Rightarrow> (up_rememberLogin p, None)
      | Some v \<Rightarrow>
          andThen (store_tokens v p) (\<lambda>p1.
            (up_rememberLogin (up_initApiAddress (default_address origin port p1)), None)))"

section \<open>Sessions\<close>

definition up_logOut :: "up_page \<Rightarrow> up_page" where
  "up_logOut p =
     up_emit [Call ''stopServerClock'' []]
       (p\<lparr>U_loggedIn := False, U_sid := JStr '''', U_login := JStr '''', U_acls := JArr []\<rparr>)"

definition up_isLogged :: "up_page \<Rightarrow> bool \<times> up_page" where
  "up_isLogged p = (if U_loggedIn p then (True, p) else (False, up_logOut p))"

definition up_logIn :: "up_page \<Rightarrow> up_page" where
  "up_logIn p =
     (let p1 = p\<lparr>U_loggedIn := True\<rparr>
      in if U_hash p \<in> {''#/login'', ''#/logout'', ''#logout''}
         then up_emit [Navigate ''#''] (p1\<lparr>U_hash := ''#''\<rparr>) else up_emit [Reload] p1)"

text \<open>\<open>Up.I.Mobile.loadSection\<close>, at the end of the drawing of every view: in the desktop version nothing.\<close>

definition up_loadSection :: "js \<Rightarrow> up_page \<Rightarrow> up_page" where
  "up_loadSection section p =
     (if \<not> U_mobile p then p
      else (let (ok, p1) = up_isLogged p
            in if \<not> ok then p1
               else if section = JStr ''menu'' then up_emit [Call ''slideToggle'' []] p1
               else up_emit [Call ''slideUp'' [], Call ''renderHeaderMobile'' [section]] p1))"

text \<open>Making a view: a message left by the page before is shown once. The login form asks the API for its
  public information.\<close>

definition up_new_view :: "string \<Rightarrow> js \<Rightarrow> up_page \<Rightarrow> up_page" where
  "up_new_view v params p =
     (let p1 = (case U_cookie p of
                  None \<Rightarrow> p
                | Some m \<Rightarrow> up_emit [Call ''showMessage'' [m], RemoveCookie ''messageToShow''] (p\<lparr>U_cookie := None\<rparr>));
          p2 = up_emit [Call ''new'' [JStr v, params]] (p1\<lparr>U_view := v, U_params := params\<rparr>)
      in if v = ''LoginView''
         then send InfoReq (up_emit [Call ''ajax'' [JStr ''GET'', JStr (encodeURI (up_getBaseUrl ''info'' p2))]] p2)
         else p2)"

definition up_loadLogin :: "up_page \<Rightarrow> up_page" where
  "up_loadLogin p =
     up_new_view ''LoginView'' (JObj []) (up_emit [Call ''initTranslate'' [], Call ''renderMain'' []] p)"

text \<open>The handler \<open>complete\<close> of every request that has none of its own.\<close>

definition up_complete :: "(string \<Rightarrow> string) \<Rightarrow> xhr \<Rightarrow> up_page \<Rightarrow> up_page" where
  "up_complete t x p =
     (if x_status x = 200 then p
      else if x_status x = 401 then up_loadLogin p
      else up_emit [ShowMessage (JStr (t ''Unexpected error'' @ '': '' @ num_str (x_status x) @ '' - '' @ x_statusText x)) MsgError] p)"

section \<open>Routes\<close>

definition up_routes :: "(seg list \<times> string) list" where
  "up_routes =
     [([Lit ''logout''], ''logout''), ([Lit ''desktops''], ''desktops''),
      ([Lit ''desktops'', Par, Lit ''connect'', Par], ''connectDesktop''),
      ([Lit ''settings''], ''settings''), ([Lit ''downloads''], ''downloads''), ([Lit ''info''], ''info''),
      ([Lit ''help''], ''help''), ([Lit ''documentation''], ''documentation''),
      ([Lit ''documentation'', Lit ''search'', Par], ''documentationSearch''),
      ([Lit ''documentation'', Par], ''documentationGuide''),
      ([Lit ''documentation'', Par, Par], ''documentationGuide''),
      ([Lit ''profile''], ''profile'')]"

text \<open>The handlers of the routes; every other address has the one of the desktops.\<close>

definition up_route_handler :: "string \<Rightarrow> string list \<Rightarrow> route_action" where
  "up_route_handler name args =
     (if name = ''logout'' then RouteLogout
      else if name = ''connectDesktop'' then
        RouteTo '''' ''DesktopConnectView''
          (JObj (case args of i # k # _ \<Rightarrow> [(''id'', JStr i), (''token'', JStr k)] | _ \<Rightarrow> []))
      else if name = ''settings'' then RouteTo ''settings'' ''SettingsView'' (JObj [])
      else if name = ''downloads'' then RouteTo ''downloads'' ''DownloadsView'' (JObj [])
      else if name = ''info'' then RouteTo ''info'' ''InfoView'' (JObj [])
      else if name = ''help'' then RouteTo ''help'' ''HelpView'' (JObj [])
      else if name = ''documentation'' then RouteTo ''documentation'' ''DocView'' (JObj [])
      else if name = ''documentationGuide'' then
        RouteTo ''documentation'' ''DocView''
          (JObj (case args of
                   [g] \<Rightarrow> [(''guide'', JStr g), (''section'', Null)]
                 | g # s # _ \<Rightarrow> [(''guide'', JStr g), (''section'', JStr s)]
                 | [] \<Rightarrow> []))
      else if name = ''documentationSearch'' then
        RouteTo ''documentation'' ''DocView'' (JObj (case args of k # _ \<Rightarrow> [(''searchKey'', JStr k)] | [] \<Rightarrow> []))
      else if name = ''profile'' then RouteTo ''profile'' ''ProfileView'' (JObj [])
      else RouteTo ''desktops'' ''DesktopsView'' (JObj []))"

definition up_route_of :: "string \<Rightarrow> route_action" where
  "up_route_of h = (let (name, args) = find_route up_routes (split_slash (fragment_of h)) in up_route_handler name args)"

text \<open>Nobody asks whether the user is logged in. The first argument is not used.\<close>

definition up_performRoute :: "string \<Rightarrow> js obj \<Rightarrow> up_page \<Rightarrow> up_page" where
  "up_performRoute view params p =
     (let e1 = [Dom DomHide ''.js-filter-notes'' Null, Call ''showLoading'' []] @
               (if U_view p = '''' then [] else [Call ''undelegateEvents'' [], Call ''closeAllWebsockets'' [], Call ''clearSpies'' []]) @
               [Call ''abortRequests'' []];
          nav = (if fragment_of (U_hash p) = '''' then ''desktops'' else fragment_of (U_hash p));
          params1 = (if U_mobile p then AList.update ''currentNav'' (JStr nav) params else params)
      in up_new_view view (JObj params1) (up_emit e1 p))"

definition up_dispatch :: "up_page \<Rightarrow> up_page" where
  "up_dispatch p =
     (case up_route_of (U_hash p) of
        RouteLogout \<Rightarrow>
          send LogoutReq (up_emit [Call ''ajax'' [JStr ''POST'', JStr (encodeURI (up_getBaseUrl ''logout'' p))]] p)
      | RouteTo m v params \<Rightarrow> up_performRoute v (case params of JObj ps \<Rightarrow> ps | _ \<Rightarrow> []) p)"

section \<open>Answers\<close>

text \<open>Making the router dispatches the address of the page.\<close>

definition up_afterLogin :: "up_page \<Rightarrow> up_page" where
  "up_afterLogin p =
     (let p1 = up_emit [Call ''initTranslate'' [], Call ''renderMain'' []] p
      in if U_router p1 then p1 else (up_dispatch p1)\<lparr>U_router := True\<rparr>)"

text \<open>The answer to \<open>account\<close>: \<open>performAction\<close> calls back with the object of a success or with the request itself.\<close>

definition account_answer :: "xhr \<Rightarrow> up_page \<Rightarrow> up_act" where
  "account_answer x p =
     (let r = response_of x;
          p1 = (if x_ok x \<and> truthy (case r of JObj ps \<Rightarrow> get_attr ps ''sid'' | _ \<Rightarrow> Undef)
                then p\<lparr>U_sid := (case r of JObj ps \<Rightarrow> get_attr ps ''sid'' | _ \<Rightarrow> Undef)\<rparr> else p)
      in case js_prop r ''status'' of
           Inl e \<Rightarrow> (p, Some e)
         | Inr st \<Rightarrow>
             if x_ok x \<and> js_prop r ''readyState'' = Inr (JNum 0) then (p, None) else
             (let p2 = up_emit [Call ''configureVisibility'' []] (p1\<lparr>U_account := r\<rparr>)
              in (if loose_eq st (JNum 401) then up_loadLogin p2 else up_afterLogin (p2\<lparr>U_loggedIn := True\<rparr>), None)))"

text \<open>The login form, with the public information of the API: the page of errors when it cannot be reached.\<close>

definition login_template :: "js \<Rightarrow> js_error + string" where
  "login_template r =
     (case js_prop r ''readyState'' of
        Inl e \<Rightarrow> Inl e
      | Inr rs \<Rightarrow>
          (case js_prop r ''status'' of
             Inl e \<Rightarrow> Inl e
           | Inr st \<Rightarrow> Inr (if loose_eq rs (JNum 0) \<or> loose_eq st (JNum 404) then ''error/refresh'' else ''login/login'')))"

fun login_link :: "js \<Rightarrow> js_error + js" where
  "login_link (JObj ps) =
     (let public = (if truthy (get_attr ps ''public_configuration'') then get_attr ps ''public_configuration'' else JObj [])
      in case public of
           JObj qs \<Rightarrow>
             (let login = (if truthy (get_attr qs ''login'') then get_attr qs ''login'' else JObj [])
              in case login of
                   JObj ls \<Rightarrow> Inr (if truthy (get_attr ls ''link'') then get_attr ls ''link'' else JObj [])
                 | JArr _ \<Rightarrow> Inr (JObj [])
                 | _ \<Rightarrow> Inl TypeError)
         | JArr _ \<Rightarrow> Inr (JObj [])
         | _ \<Rightarrow> Inl TypeError)"
| "login_link _ = Inr (JObj [])"

definition login_render :: "js \<Rightarrow> up_page \<Rightarrow> up_act" where
  "login_render r p =
     (case js_prop r ''multitenant'' of
        Inl e \<Rightarrow> (p, Some e)
      | Inr m \<Rightarrow>
          (let p1 = p\<lparr>U_multitenant := (if truthy m then m else JBool True)\<rparr>
           in case (login_template r, login_link r) of
                (Inr tpl, Inr link) \<Rightarrow>
                  (up_loadSection Undef (up_emit [Call ''template'' [JStr tpl, link], Call ''updateLoginOnMenu'' []] p1), None)
              | (Inl e, _) \<Rightarrow> (p1, Some e)
              | (_, Inl e) \<Rightarrow> (p1, Some e)))"

text \<open>The button of the form. An empty password field gives \<open>undefined\<close>.\<close>

definition up_tryLogin :: "string \<Rightarrow> string \<Rightarrow> up_page \<Rightarrow> up_page" where
  "up_tryLogin user password p =
     (if user = '''' then up_emit [ShowMessage (JStr ''Empty user'') MsgError] p
      else
        (let p1 = p\<lparr>U_login := JStr user, U_password := (if password = '''' then Undef else JStr password)\<rparr>
         in send InfoLogin (up_emit [Call ''ajax'' [JStr ''GET'', JStr (encodeURI (up_getBaseUrl ''info'' p1))]] p1)))"

definition up_apiLogIn :: "up_page \<Rightarrow> up_page" where
  "up_apiLogIn p =
     send (LoginReq (U_login p) (U_password p))
       (up_emit [Call ''ajax'' [JStr ''POST'', JStr (encodeURI (up_getBaseUrl ''login'' p)),
           JStr (json (JObj [(''login'', U_login p), (''password'', U_password p)]))]] p)"

text \<open>The answer to the credentials. Assigning the status to a value that is not an object has no effect.\<close>

fun put_status :: "js \<Rightarrow> js \<Rightarrow> js" where
  "put_status v (JObj ps) = JObj (AList.update ''status'' v ps)"
| "put_status v r = r"

definition login_answer :: "(string \<Rightarrow> string) \<Rightarrow> xhr \<Rightarrow> up_page \<Rightarrow> up_act" where
  "login_answer t x p =
     (if x_ok x then
        (case response_of x of
           Undef \<Rightarrow> (p\<lparr>U_retrieved := Undef\<rparr>, Some TypeError)
         | Null \<Rightarrow> (p\<lparr>U_retrieved := Null\<rparr>, Some TypeError)
         | r \<Rightarrow> (send ProfileReq (up_emit [Call ''ajax'' [JStr ''GET'', JStr (encodeURI (up_getBaseUrl ''account'' p))]]
                  (p\<lparr>U_retrieved := put_status (JNum (if x_status x = 200 then 0 else x_status x)) r\<rparr>)), None))
      else
        (case x_json x of
           None \<Rightarrow> (p, Some SyntaxError)
         | Some v \<Rightarrow>
             (case js_prop v ''message'' of
                Inl e \<Rightarrow> (p, Some e)
              | Inr m \<Rightarrow>
                  (p\<lparr>U_cookie := Some (JObj [(''message'', JStr (t ''Error logging in'' @ '': '' @ js_str m)), (''messageType'', JStr ''error'')])\<rparr>,
                   None))))"

text \<open>\<open>Up.Models.Profile\<close> stores the account; its request has a handler \<open>complete\<close> of its own, which goes on with the
  login whatever the answer is. \<open>lag\<close> is the difference between the clocks, as the browser computes it
  from the date of the server.\<close>

definition r_get :: "up_page \<Rightarrow> string \<Rightarrow> js" where
  "r_get p k = (case U_retrieved p of JObj ps \<Rightarrow> get_attr ps k | _ \<Rightarrow> Undef)"

definition store_login :: "(js \<Rightarrow> js) \<Rightarrow> up_page \<Rightarrow> up_page" where
  "store_login lag p =
     p\<lparr>U_sid := (if truthy (r_get p ''sid'') then r_get p ''sid'' else U_sid p),
       U_acls := r_get p ''acls'', U_login := r_get p ''admin_name'',
       U_block := r_get p ''admin_block'', U_tenantBlock := r_get p ''tenant_block'',
       U_tenantID := r_get p ''tenant_id'', U_tenantName := r_get p ''tenant_name'',
       U_lag := lag (r_get p ''server_datetime'')\<rparr>"

definition up_checkLogin :: "(js \<Rightarrow> js) \<Rightarrow> up_page \<Rightarrow> up_act" where
  "up_checkLogin lag p0 =
     (let p = p0\<lparr>U_password := JStr ''''\<rparr>
      in case js_prop (U_retrieved p) ''status'' of
           Inl e \<Rightarrow> (p, Some e)
         | Inr st \<Rightarrow>
             (if loose_eq st (JNum 401) then
                up_emit [ShowMessage st MsgError] (up_new_view ''LoginView'' (JObj []) (up_emit [Call ''renderMain'' []] p))
              else if loose_eq st (JNum 0) \<and> loose_eq (r_get p ''statusText'') (JStr ''error'') then
                (if truthy (U_sid p) then up_emit [Reload] (up_logOut p) else p)
              else if loose_eq st (JNum 500) then up_emit [ShowMessage (r_get p ''statusText'') MsgError] p
              else if \<not> truthy (U_login p) then
                up_afterLogin (up_emit [ShowMessage (r_get p ''message'') MsgError, Call ''configureVisibility'' []] p)
              else
                (let p1 = up_emit [Call ''configureVisibility'' []] (store_login lag p);
                     p2 = (if U_view p1 = ''LoginView'' then up_emit [Call ''renderMain'' []] (up_logIn p1) else p1)
                 in up_afterLogin p2), None))"

definition profile_answer :: "(js \<Rightarrow> js) \<Rightarrow> xhr \<Rightarrow> up_page \<Rightarrow> up_act" where
  "profile_answer lag x p = up_checkLogin lag (if x_ok x then p\<lparr>U_account := response_of x\<rparr> else p)"

definition logout_answer :: "(string \<Rightarrow> string) \<Rightarrow> xhr \<Rightarrow> up_page \<Rightarrow> up_page" where
  "logout_answer t x p =
     (if x_ok x
      then up_performRoute ''LoginView'' []
             (up_emit [Call ''configureVisibility'' [], Call ''renderMain'' []] (up_logOut p))
      else up_emit [ShowMessage (JStr (t ''Error logging out'')) MsgError] p)"

text \<open>The site the page was loaded from, the translations and the clock.\<close>

record up_env =
  e_origin :: string
  e_port :: string
  e_t :: "string \<Rightarrow> string"
  e_lag :: "js \<Rightarrow> js"

fun handle :: "up_env \<Rightarrow> up_req \<Rightarrow> xhr \<Rightarrow> up_page \<Rightarrow> up_act" where
  "handle E ConfigReq x p = readConfigFile_complete (e_origin E) (e_port E) x p"
| "handle E AccountReq x p = andThen (account_answer x p) (\<lambda>p1. (up_complete (e_t E) x p1, None))"
| "handle E InfoReq x p = andThen (login_render (response_of x) p) (\<lambda>p1. (up_complete (e_t E) x p1, None))"
| "handle E InfoLogin x p = (up_complete (e_t E) x (up_apiLogIn p), None)"
| "handle E (LoginReq l w) x p = andThen (login_answer (e_t E) x p) (\<lambda>p1. (up_complete (e_t E) x p1, None))"
| "handle E ProfileReq x p = profile_answer (e_lag E) x p"
| "handle E LogoutReq x p = (up_complete (e_t E) x (logout_answer (e_t E) x p), None)"
| "handle E ViewReq x p = (up_complete (e_t E) x p, None)"

definition up_answer :: "up_env \<Rightarrow> nat \<Rightarrow> xhr \<Rightarrow> up_page \<Rightarrow> up_act" where
  "up_answer E n x p =
     (if n < length (U_pending p)
      then handle E (U_pending p ! n) x (p\<lparr>U_pending := take n (U_pending p) @ drop (Suc n) (U_pending p)\<rparr>)
      else (p, None))"

definition up_init :: "string \<Rightarrow> bool \<Rightarrow> js option \<Rightarrow> up_page" where
  "up_init hash mobile cookie =
     \<lparr>U_apiUrl = JStr '''', U_apiWSUrl = Undef, U_login = JStr '''', U_password = JStr '''', U_sid = JStr '''',
      U_acls = JArr [], U_account = Undef, U_block = Undef, U_tenantBlock = Undef, U_tenantID = JNum (-1),
      U_tenantName = Undef, U_lag = Undef, U_multitenant = Undef, U_retrieved = Undef, U_loggedIn = False,
      U_view = '''', U_params = JObj [], U_router = False, U_hash = hash, U_mobile = mobile, U_cookie = cookie,
      U_pending = [ConfigReq], U_out = [Call ''ajax'' [JStr ''GET'', JStr ''config.json'']]\<rparr>"

text \<open>A page from its loading on: the answers of the requests in any order, the login form, navigation once there is
  a router, the drawing of views and the requests they make. The list has what came from outside.\<close>

datatype up_event = Answered up_req xhr | Tried string string | Went string | Drawn | Asked

inductive up_reach :: "up_env \<Rightarrow> up_event list \<Rightarrow> up_page \<Rightarrow> bool" for E where
  loaded: "up_reach E [] (up_init hash mobile cookie)"
| answer: "up_reach E evs p \<Longrightarrow> n < length (U_pending p) \<Longrightarrow>
    up_reach E (evs @ [Answered (U_pending p ! n) x]) (fst (up_answer E n x p))"
| try_login: "up_reach E evs p \<Longrightarrow> U_view p = ''LoginView'' \<Longrightarrow> up_reach E (evs @ [Tried u w]) (up_tryLogin u w p)"
| hashchange: "up_reach E evs p \<Longrightarrow> U_router p \<Longrightarrow> up_reach E (evs @ [Went h]) (up_dispatch (p\<lparr>U_hash := h\<rparr>))"
| drawn: "up_reach E evs p \<Longrightarrow> U_view p \<noteq> '''' \<Longrightarrow> up_reach E (evs @ [Drawn]) (up_loadSection s p)"
| asked: "up_reach E evs p \<Longrightarrow> U_view p \<noteq> '''' \<Longrightarrow> up_reach E (evs @ [Asked]) (send ViewReq p)"

section \<open>What an answer of the API opens\<close>

text \<open>The answers after which the portal is shown: any answer to \<open>account\<close> but an unauthorised one, and accepted
  credentials.\<close>

fun opens :: "up_event \<Rightarrow> bool" where
  "opens (Answered AccountReq x) \<longleftrightarrow> (case js_prop (response_of x) ''status'' of Inl e \<Rightarrow> False | Inr st \<Rightarrow> \<not> loose_eq st (JNum 401))"
| "opens (Answered (LoginReq l w) x) \<longleftrightarrow> x_ok x"
| "opens _ \<longleftrightarrow> False"

definition closed_page :: "up_page \<Rightarrow> bool" where
  "closed_page p \<longleftrightarrow> \<not> U_router p \<and> \<not> U_loggedIn p \<and> ProfileReq \<notin> set (U_pending p) \<and> U_view p \<in> {'''', ''LoginView''}"

lemma up_emit_sel [simp]:
  "U_router (up_emit es p) = U_router p" "U_loggedIn (up_emit es p) = U_loggedIn p" "U_pending (up_emit es p) = U_pending p"
  "U_view (up_emit es p) = U_view p" "U_hash (up_emit es p) = U_hash p" "U_mobile (up_emit es p) = U_mobile p"
  "U_password (up_emit es p) = U_password p" "U_login (up_emit es p) = U_login p" "U_retrieved (up_emit es p) = U_retrieved p"
  "U_sid (up_emit es p) = U_sid p" "U_acls (up_emit es p) = U_acls p" "U_out (up_emit es p) = U_out p @ es"
  "U_cookie (up_emit es p) = U_cookie p" "U_apiUrl (up_emit es p) = U_apiUrl p"
  by (simp_all add: up_emit_def)

lemma send_sel [simp]:
  "U_router (send r p) = U_router p" "U_loggedIn (send r p) = U_loggedIn p" "U_pending (send r p) = U_pending p @ [r]"
  "U_view (send r p) = U_view p" "U_hash (send r p) = U_hash p" "U_mobile (send r p) = U_mobile p"
  "U_password (send r p) = U_password p" "U_login (send r p) = U_login p" "U_retrieved (send r p) = U_retrieved p"
  "U_sid (send r p) = U_sid p" "U_acls (send r p) = U_acls p" "U_out (send r p) = U_out p" "U_cookie (send r p) = U_cookie p"
  "U_apiUrl (send r p) = U_apiUrl p"
  by (simp_all add: send_def)

lemma up_new_view_sel [simp]:
  "U_router (up_new_view v ps p) = U_router p" "U_loggedIn (up_new_view v ps p) = U_loggedIn p"
  "U_pending (up_new_view v ps p) = U_pending p @ (if v = ''LoginView'' then [InfoReq] else [])"
  "U_view (up_new_view v ps p) = v" "U_hash (up_new_view v ps p) = U_hash p" "U_mobile (up_new_view v ps p) = U_mobile p"
  "U_password (up_new_view v ps p) = U_password p" "U_login (up_new_view v ps p) = U_login p"
  "U_sid (up_new_view v ps p) = U_sid p" "U_acls (up_new_view v ps p) = U_acls p" "U_cookie (up_new_view v ps p) = None"
  by (simp_all add: up_new_view_def Let_def split: option.splits)

lemma up_loadLogin_sel [simp]:
  "U_router (up_loadLogin p) = U_router p" "U_loggedIn (up_loadLogin p) = U_loggedIn p"
  "U_pending (up_loadLogin p) = U_pending p @ [InfoReq]" "U_view (up_loadLogin p) = ''LoginView''"
  "U_password (up_loadLogin p) = U_password p" "U_cookie (up_loadLogin p) = None"
  by (simp_all add: up_loadLogin_def)

lemma up_complete_200 [simp]: "x_status x = 200 \<Longrightarrow> up_complete t x p = p"
  by (simp add: up_complete_def)

lemma up_complete_sel [simp]:
  "U_router (up_complete t x p) = U_router p" "U_loggedIn (up_complete t x p) = U_loggedIn p"
  "U_password (up_complete t x p) = U_password p"
  by (simp_all add: up_complete_def)

lemma up_performRoute_sel [simp]:
  "U_router (up_performRoute v ps p) = U_router p" "U_loggedIn (up_performRoute v ps p) = U_loggedIn p"
  "U_pending (up_performRoute v ps p) = U_pending p @ (if v = ''LoginView'' then [InfoReq] else [])"
  "U_view (up_performRoute v ps p) = v" "U_password (up_performRoute v ps p) = U_password p"
  "U_sid (up_performRoute v ps p) = U_sid p" "U_acls (up_performRoute v ps p) = U_acls p" "U_login (up_performRoute v ps p) = U_login p"
  by (simp_all add: up_performRoute_def Let_def)

lemma andThen_fst: "fst (andThen r f) = (if snd r = None then fst (f (fst r)) else fst r)"
  by (simp add: andThen_def split: option.splits)

lemma closed_complete: "closed_page p \<Longrightarrow> closed_page (up_complete t x p)"
  by (simp add: closed_page_def up_complete_def)

lemma closed_section: "closed_page p \<Longrightarrow> closed_page (up_loadSection s p)"
  by (simp add: closed_page_def up_loadSection_def up_isLogged_def up_logOut_def Let_def)

lemma closed_config: "closed_page p \<Longrightarrow> closed_page (fst (readConfigFile_complete site port x p))"
proof -
  have set: "closed_page (up_setConfigToken k v q) = closed_page q" for k v q
    unfolding up_setConfigToken_def by (cases "inArray k [''apiUrl''] = -1") (simp_all add: closed_page_def del: inArray_eq_neg)
  have tok: "closed_page (fold (\<lambda>(k, x). up_setConfigToken k x) ps q) = closed_page q" for ps q
    by (induction ps arbitrary: q) (simp_all add: set split_beta)
  have "closed_page q \<Longrightarrow> closed_page (up_rememberLogin q)" for q
    by (simp add: closed_page_def up_rememberLogin_def)
  moreover have "closed_page q \<Longrightarrow> closed_page (up_initApiAddress (default_address site port q))" for q
    by (simp add: closed_page_def up_initApiAddress_def default_address_def Let_def)
  moreover assume "closed_page p"
  ultimately show ?thesis
    by (auto simp: readConfigFile_complete_def store_tokens_def andThen_def tok split: option.splits js.splits)
qed

lemma closed_account: "closed_page p \<Longrightarrow> \<not> opens (Answered AccountReq x) \<Longrightarrow> closed_page (fst (account_answer x p))"
proof (cases "js_prop (response_of x) ''status''")
  case (Inl e)
  then show "closed_page p \<Longrightarrow> ?thesis" by (simp add: account_answer_def Let_def)
next
  case (Inr st)
  assume p: "closed_page p" and "\<not> opens (Answered AccountReq x)"
  then have 401: "loose_eq st (JNum 401)" using Inr by simp
  have "closed_page (up_loadLogin (up_emit es (q\<lparr>U_account := r\<rparr>)))" if "closed_page q" for q es r
    using that by (simp add: closed_page_def)
  moreover have "closed_page (p\<lparr>U_sid := v\<rparr>)" for v using p by (simp add: closed_page_def)
  ultimately show ?thesis using p Inr 401
    unfolding account_answer_def Let_def by (simp del: up_loadLogin_sel loose_eq.simps)
qed

lemma closed_render: "closed_page p \<Longrightarrow> closed_page (fst (login_render r p))"
proof -
  assume p: "closed_page p"
  then have "closed_page (up_emit es (p\<lparr>U_multitenant := m\<rparr>))" "closed_page (p\<lparr>U_multitenant := m\<rparr>)" for m es
    by (simp_all add: closed_page_def)
  then show ?thesis using p
    by (auto simp: login_render_def Let_def closed_section split: sum.splits)
qed

lemma closed_handle:
  assumes "closed_page p" and "r \<noteq> ProfileReq" and "\<not> opens (Answered r x)"
  shows "closed_page (fst (handle E r x p))"
proof (cases r)
  case ConfigReq
  then show ?thesis using closed_config [OF assms(1)] by simp
next
  case AccountReq
  then show ?thesis using closed_account [OF assms(1)] assms(3) by (simp add: andThen_fst closed_complete)
next
  case InfoReq
  then show ?thesis using closed_render [OF assms(1)] by (simp add: andThen_fst closed_complete)
next
  case InfoLogin
  then show ?thesis using assms(1) by (auto simp: closed_page_def up_complete_def up_apiLogIn_def)
next
  case (LoginReq l w)
  then have "closed_page (fst (login_answer (e_t E) x p))"
    using assms by (auto simp: login_answer_def closed_page_def split: option.splits sum.splits)
  then show ?thesis using LoginReq by (simp add: andThen_fst closed_complete)
next
  case LogoutReq
  have "closed_page (logout_answer (e_t E) x p)"
    using assms(1) by (simp add: logout_answer_def closed_page_def up_logOut_def)
  then show ?thesis using LogoutReq by (simp add: closed_complete)
next
  case ViewReq
  then show ?thesis using assms(1) by (simp add: closed_complete)
qed (use assms(2) in simp)

lemma closed_answer:
  assumes "closed_page p" and n: "n < length (U_pending p)" and "\<not> opens (Answered (U_pending p ! n) x)"
  shows "closed_page (fst (up_answer E n x p))"
proof -
  have "U_pending p ! n \<noteq> ProfileReq" using assms(1) nth_mem [OF n] by (auto simp: closed_page_def)
  moreover have "closed_page (p\<lparr>U_pending := take n (U_pending p) @ drop (Suc n) (U_pending p)\<rparr>)"
    using assms(1) by (auto simp: closed_page_def dest: in_set_takeD in_set_dropD)
  ultimately show ?thesis using closed_handle assms(3) n by (simp add: up_answer_def)
qed

lemma closed_reach:
  assumes "up_reach E evs p" and "list_all (\<lambda>e. \<not> opens e) evs"
  shows "closed_page p"
  using assms
proof (induction rule: up_reach.induct)
  case (loaded hash mobile cookie)
  then show ?case by (simp add: up_init_def closed_page_def)
next
  case (answer evs p n x)
  then show ?case using closed_answer [of p n x E] by simp
next
  case (try_login evs p u w)
  then show ?case by (auto simp: closed_page_def up_tryLogin_def Let_def)
next
  case (hashchange evs p h)
  then show ?case by (simp add: closed_page_def)
next
  case (drawn evs p s)
  then show ?case by (simp add: closed_section)
next
  case (asked evs p)
  then show ?case by (simp add: closed_page_def)
qed


section \<open>Accounts, credentials and logging out\<close>

lemma xhr_status [simp]: "js_prop (xhr_obj x) ''status'' = Inr (JNum (x_status x))" "js_prop (xhr_obj x) ''readyState'' = Inr (JNum (x_readyState x))"
  by (simp_all add: xhr_obj_def get_attr_def)

lemma up_afterLogin_sel [simp]:
  "U_router (up_afterLogin p)" "U_loggedIn (up_afterLogin p) = U_loggedIn p" "U_password (up_afterLogin p) = U_password p"
  by (simp_all add: up_afterLogin_def up_dispatch_def Let_def split: route_action.splits)

lemma up_dispatch_view: "up_route_of (U_hash p) = RouteTo m v ps \<Longrightarrow> U_view (up_dispatch p) = v"
  by (simp add: up_dispatch_def)

lemma up_afterLogin_view:
  "\<not> U_router p \<Longrightarrow> up_route_of (U_hash p) = RouteTo m v ps \<Longrightarrow> U_view (up_afterLogin p) = v"
  by (simp add: up_afterLogin_def up_dispatch_view)

lemma up_answer_single:
  "U_pending p = [r] \<Longrightarrow> up_answer E 0 x p = handle E r x (p\<lparr>U_pending := []\<rparr>)"
  by (simp add: up_answer_def)

text \<open>The request for the account when the page is loaded fails open: unless the answer is exactly
  unauthorised, which leads to the login form, the user counts as logged in and the view of the address is shown,
  also when the server could not be reached or failed.\<close>

theorem account_fails_open:
  assumes "U_pending p = [AccountReq]" and "\<not> U_router p" and "\<not> x_ok x"
  shows "(x_status x = 401 \<longrightarrow> U_view (fst (up_answer E 0 x p)) = ''LoginView'' \<and>
      U_loggedIn (fst (up_answer E 0 x p)) = U_loggedIn p \<and> \<not> U_router (fst (up_answer E 0 x p))) \<and>
    (x_status x \<noteq> 401 \<and> up_route_of (U_hash p) = RouteTo m v ps \<longrightarrow>
      U_loggedIn (fst (up_answer E 0 x p)) \<and> U_router (fst (up_answer E 0 x p)) \<and> U_view (fst (up_answer E 0 x p)) = v)"
proof -
  let ?p = "up_emit [Call ''configureVisibility'' []] (p\<lparr>U_pending := [], U_account := xhr_obj x\<rparr>)"
  have r: "response_of x = xhr_obj x" using assms(3) by (simp add: response_of_def)
  have ans: "fst (up_answer E 0 x p) =
      up_complete (e_t E) x (if x_status x = 401 then up_loadLogin ?p else up_afterLogin (?p\<lparr>U_loggedIn := True\<rparr>))"
    using assms r by (simp add: up_answer_single account_answer_def andThen_def nullish_def)
  have "U_view (up_complete (e_t E) x q) = U_view q" if "x_status x \<noteq> 401" for q
    using that by (simp add: up_complete_def)
  then show ?thesis using up_afterLogin_view [of "?p\<lparr>U_loggedIn := True\<rparr>" m v ps] assms(2)
    by (auto simp: ans up_complete_def)
qed

definition sample_env :: up_env where
  "sample_env = \<lparr>e_origin = ''https://qvd'', e_port = '''', e_t = id, e_lag = \<lambda>d. JNum 0\<rparr>"

definition sample_up :: up_page where
  "sample_up = (up_init ''#/settings'' False None)\<lparr>U_apiUrl := JStr ''https://qvd:443/api/'', U_pending := [AccountReq]\<rparr>"

definition unreachable :: xhr where
  "unreachable = \<lparr>x_ok = False, x_status = 0, x_statusText = ''error'', x_readyState = 0, x_json = None\<rparr>"

theorem account_fails_open_witness:
  "U_loggedIn (fst (up_answer sample_env 0 unreachable sample_up)) \<and>
   U_view (fst (up_answer sample_env 0 unreachable sample_up)) = ''SettingsView''"
proof -
  have h: "U_hash sample_up = ''#/settings''" and p: "U_pending sample_up = [AccountReq]" "\<not> U_router sample_up"
    by (simp_all add: sample_up_def up_init_def)
  have x: "\<not> x_ok unreachable" "x_status unreachable \<noteq> 401" by (simp_all add: unreachable_def)
  have "up_route_of ''#/settings'' = RouteTo ''settings'' ''SettingsView'' (JObj [])" by code_simp
  then show ?thesis
    using account_fails_open [OF p x(1), where E = sample_env and m = "''settings''" and v = "''SettingsView''" and ps = "JObj []"] x(2) h by simp
qed

lemma desktops_route: "up_route_of ''#'' = RouteTo ''desktops'' ''DesktopsView'' (JObj [])"
  by code_simp

lemma up_dispatch_out: "set (U_out p) \<subseteq> set (U_out (up_dispatch p))"
  by (auto simp: up_dispatch_def up_performRoute_def up_new_view_def Let_def split: route_action.splits option.splits)

lemma up_afterLogin_out: "set (U_out p) \<subseteq> set (U_out (up_afterLogin p))"
  using up_dispatch_out by (fastforce simp: up_afterLogin_def Let_def)

lemma up_logIn_sel [simp]:
  "U_loggedIn (up_logIn p)" "U_router (up_logIn p) = U_router p" "U_password (up_logIn p) = U_password p"
  "U_hash (up_logIn p) = (if U_hash p \<in> {''#/login'', ''#/logout'', ''#logout''} then ''#'' else U_hash p)"
  by (simp_all add: up_logIn_def Let_def)

text \<open>The last answer of a login with accepted credentials.\<close>

lemma accepted_login:
  assumes "U_pending p = [ProfileReq]" "U_view p = ''LoginView''" "U_login p = JStr u"
    "U_retrieved p = JObj (AList.update ''status'' (JNum 0) ps)" "get_attr ps ''statusText'' = Undef" "u \<noteq> ''''"
  shows "\<exists>p3. up_answer E 0 a p = (p3, None) \<and> U_loggedIn p3 \<and> U_router p3 \<and> U_password p3 = JStr '''' \<and>
    (if U_hash p \<in> {''#/login'', ''#/logout'', ''#logout''} then \<not> U_router p \<longrightarrow> U_view p3 = ''DesktopsView''
     else Reload \<in> set (U_out p3))"
proof -
  let ?q = "(if x_ok a then p\<lparr>U_pending := [], U_account := response_of a\<rparr> else p\<lparr>U_pending := []\<rparr>)\<lparr>U_password := JStr ''''\<rparr>"
  let ?s = "up_emit [Call ''configureVisibility'' []] (store_login (e_lag E) ?q)"
  let ?p3 = "up_afterLogin (up_emit [Call ''renderMain'' []] (up_logIn ?s))"
  have st: "js_prop (U_retrieved ?q) ''status'' = Inr (JNum 0)" and tx: "r_get ?q ''statusText'' = Undef"
    using assms(4,5) by (simp_all add: get_attr_def r_get_def)
  have v: "U_view ?s = ''LoginView''" "U_hash ?s = U_hash p" "U_router ?s = U_router p" "U_password ?s = JStr ''''"
    using assms(2) by (simp_all add: store_login_def)
  have "up_answer E 0 a p = (?p3, None)"
    using assms(3,6) st tx v(1)
    by (simp add: up_answer_single [OF assms(1)] profile_answer_def up_checkLogin_def Let_def nullish_def del: inArray_eq_neg)
  moreover have "Reload \<in> set (U_out ?p3)" if "U_hash p \<notin> {''#/login'', ''#/logout'', ''#logout''}"
    using that v(2) up_afterLogin_out [of "up_emit [Call ''renderMain'' []] (up_logIn ?s)"] by (auto simp: up_logIn_def Let_def)
  moreover have "U_view ?p3 = ''DesktopsView''" if "U_hash p \<in> {''#/login'', ''#/logout'', ''#logout''}" "\<not> U_router p"
    using that v desktops_route by (intro up_afterLogin_view) auto
  ultimately show ?thesis using v(4) by auto
qed

text \<open>C31. What credentials lead to. The form sends them after asking for the public information; accepted ones make a
  session with the password forgotten, and the page is reloaded, or the desktops are shown when the address is one
  of the login or logout ones and there is no router yet. Refused ones leave the user out, with the password
  still in memory.\<close>

theorem login_outcome:
  assumes p: "U_view p = ''LoginView''" "U_pending p = []" and "u \<noteq> ''''" "w \<noteq> ''''" and "x_status i = 200"
  shows "\<exists>p1. up_answer E 0 i (up_tryLogin u w p) = (p1, None) \<and> U_pending p1 = [LoginReq (JStr u) (JStr w)] \<and>
    (x_ok x \<and> x_status x = 200 \<and> x_json x = Some (JObj ps) \<and> get_attr ps ''statusText'' = Undef \<longrightarrow>
      (\<exists>p2 p3. up_answer E 0 x p1 = (p2, None) \<and> U_pending p2 = [ProfileReq] \<and> up_answer E 0 a p2 = (p3, None) \<and>
        U_loggedIn p3 \<and> U_router p3 \<and> U_password p3 = JStr '''' \<and>
        (if U_hash p \<in> {''#/login'', ''#/logout'', ''#logout''} then \<not> U_router p \<longrightarrow> U_view p3 = ''DesktopsView''
         else Reload \<in> set (U_out p3)))) \<and>
    (\<not> x_ok x \<longrightarrow> U_loggedIn (fst (up_answer E 0 x p1)) = U_loggedIn p \<and> U_password (fst (up_answer E 0 x p1)) = JStr w)"
proof -
  let ?p1 = "up_apiLogIn ((up_tryLogin u w p)\<lparr>U_pending := []\<rparr>)"
  have t: "U_pending (up_tryLogin u w p) = [InfoLogin]" using assms by (simp add: up_tryLogin_def Let_def)
  have 1: "up_answer E 0 i (up_tryLogin u w p) = (?p1, None)" using assms(5) by (simp add: up_answer_single [OF t])
  have P1: "U_pending ?p1 = [LoginReq (JStr u) (JStr w)]" "U_view ?p1 = ''LoginView''" "U_hash ?p1 = U_hash p" "U_router ?p1 = U_router p"
    "U_login ?p1 = JStr u" "U_password ?p1 = JStr w" "U_loggedIn ?p1 = U_loggedIn p"
    using assms by (simp_all add: up_apiLogIn_def up_tryLogin_def Let_def)
  have ref: "U_loggedIn (fst (up_answer E 0 x ?p1)) = U_loggedIn p \<and> U_password (fst (up_answer E 0 x ?p1)) = JStr w" if "\<not> x_ok x"
    using that P1 by (simp add: up_answer_single [OF P1(1)] login_answer_def andThen_def split: option.splits sum.splits)
  have acc: "\<exists>p2 p3. up_answer E 0 x ?p1 = (p2, None) \<and> U_pending p2 = [ProfileReq] \<and> up_answer E 0 a p2 = (p3, None) \<and>
        U_loggedIn p3 \<and> U_router p3 \<and> U_password p3 = JStr '''' \<and>
        (if U_hash p \<in> {''#/login'', ''#/logout'', ''#logout''} then \<not> U_router p \<longrightarrow> U_view p3 = ''DesktopsView''
         else Reload \<in> set (U_out p3))"
    if x: "x_ok x" "x_status x = 200" "x_json x = Some (JObj ps)" "get_attr ps ''statusText'' = Undef"
  proof -
    obtain p2 where 2: "up_answer E 0 x ?p1 = (p2, None)" "U_pending p2 = [ProfileReq]" "U_view p2 = ''LoginView''"
      "U_hash p2 = U_hash p" "U_router p2 = U_router p" "U_login p2 = JStr u" "U_retrieved p2 = JObj (AList.update ''status'' (JNum 0) ps)"
      using x P1 by (simp add: up_answer_single [OF P1(1)] login_answer_def andThen_def response_of_def)
    then obtain p3 where "up_answer E 0 a p2 = (p3, None)" "U_loggedIn p3" "U_router p3" "U_password p3 = JStr ''''"
      "if U_hash p \<in> {''#/login'', ''#/logout'', ''#logout''} then \<not> U_router p \<longrightarrow> U_view p3 = ''DesktopsView'' else Reload \<in> set (U_out p3)"
      using accepted_login [OF 2(2,3,6,7) x(4) \<open>u \<noteq> ''''\<close>, of E a] by auto
    then show ?thesis using 2(1,2) by blast
  qed
  show ?thesis using 1 P1(1) ref acc by blast
qed

definition ok_answer :: "js \<Rightarrow> xhr" where
  "ok_answer v = \<lparr>x_ok = True, x_status = 200, x_statusText = ''OK'', x_readyState = 4, x_json = Some v\<rparr>"

theorem login_outcome_witness:
  "\<exists>p1 p2 p3. up_answer sample_env 0 (ok_answer (JObj [])) (up_tryLogin ''anne'' ''pw'' (sample_up\<lparr>U_view := ''LoginView'', U_pending := []\<rparr>)) = (p1, None) \<and>
     up_answer sample_env 0 (ok_answer (JObj [(''sid'', JStr ''42'')])) p1 = (p2, None) \<and>
     up_answer sample_env 0 (ok_answer (JObj [])) p2 = (p3, None) \<and> U_loggedIn p3 \<and> Reload \<in> set (U_out p3)"
proof -
  let ?p = "sample_up\<lparr>U_view := ''LoginView'', U_pending := []\<rparr>"
  have p: "U_view ?p = ''LoginView''" "U_pending ?p = []" "U_hash ?p = ''#/settings''"
    by (simp_all add: sample_up_def up_init_def)
  have ok: "x_status (ok_answer v) = 200" "x_ok (ok_answer v)" "x_json (ok_answer v) = Some v" for v
    by (simp_all add: ok_answer_def)
  have "get_attr [(''sid'', JStr ''42'')] ''statusText'' = Undef" by (simp add: get_attr_def)
  then show ?thesis
    using login_outcome [OF p(1,2) _ _ ok(1), where u = "''anne''" and w = "''pw''" and E = sample_env and
        x = "ok_answer (JObj [(''sid'', JStr ''42'')])" and ps = "[(''sid'', JStr ''42'')]" and a = "ok_answer (JObj [])"] p(3) ok
    by fastforce
qed

lemma sample_opened:
  "\<exists>p. up_reach sample_env [Answered ConfigReq (ok_answer (JObj [])), Answered AccountReq unreachable] p \<and> U_loggedIn p"
proof -
  let ?p = "up_init ''#'' False None"
  let ?q = "fst (up_answer sample_env 0 (ok_answer (JObj [])) ?p)"
  have p: "U_pending ?p = [ConfigReq]" "\<not> U_router ?p" "U_hash ?p = ''#''" by (simp_all add: up_init_def)
  have q: "U_pending ?q = [AccountReq]" "\<not> U_router ?q" "U_hash ?q = ''#''"
    using p by (simp_all add: up_answer_single [OF p(1)] readConfigFile_complete_def store_tokens_def ok_answer_def andThen_def
        up_rememberLogin_def up_initApiAddress_def default_address_def Let_def)
  have "up_reach sample_env [Answered ConfigReq (ok_answer (JObj []))] ?q"
    using up_reach.answer [OF up_reach.loaded, of 0 "''#''" False None sample_env "ok_answer (JObj [])"] p(1) by simp
  from up_reach.answer [OF this, of 0 unreachable] q(1)
  have r: "up_reach sample_env [Answered ConfigReq (ok_answer (JObj [])), Answered AccountReq unreachable] (fst (up_answer sample_env 0 unreachable ?q))"
    by simp
  have "x_status unreachable \<noteq> 401 \<and> \<not> x_ok unreachable" by (simp add: unreachable_def)
  then have "U_loggedIn (fst (up_answer sample_env 0 unreachable ?q))"
    by (simp add: up_answer_single [OF q(1)] account_answer_def andThen_def nullish_def response_of_def)
  with r show ?thesis by blast
qed


section \<open>Logging out and navigating\<close>

text \<open>Logging out forgets the session and shows the login form, and a session that the API refuses shows it too, but
  keeps counting as logged in; and in both cases an address typed afterwards opens its view, because
  no route asks for a session. What protects the data is the API alone.\<close>

theorem navigation_unguarded:
  assumes "n < length (U_pending p)" and "x_ok x" "x_status x = 200" "x_status y = 401"
    and "up_route_of h = RouteTo m v ps"
  shows "(U_pending p ! n = LogoutReq \<longrightarrow>
      (let q = fst (up_answer E n x p) in U_view q = ''LoginView'' \<and> \<not> U_loggedIn q \<and> U_sid q = JStr '''' \<and> U_acls q = JArr [] \<and>
        U_view (up_dispatch (q\<lparr>U_hash := h\<rparr>)) = v)) \<and>
    (U_pending p ! n = ViewReq \<longrightarrow>
      (let q = fst (up_answer E n y p) in U_view q = ''LoginView'' \<and> U_loggedIn q = U_loggedIn p \<and>
        U_view (up_dispatch (q\<lparr>U_hash := h\<rparr>)) = v))"
  using assms by (simp add: up_answer_def logout_answer_def up_logOut_def Let_def up_dispatch_view up_complete_def)

text \<open>The links of the menus of the portal (\<open>up/lib/settings/menu.js\<close>) lead to views of their own, not to the default.\<close>

definition up_menu_links :: "(string \<times> string) list" where
  "up_menu_links =
     [(''desktops'', ''#/desktops''), (''settings'', ''#/settings''), (''downloads'', ''#/downloads''), (''info'', ''#/info''),
      (''help'', ''#/help''), (''profile'', ''#/profile''), (''logout'', ''#/logout'')]"

theorem portal_links_routed:
  "list_all (\<lambda>(k, l). case up_route_of l of RouteTo m v ps \<Rightarrow> m = k | RouteLogout \<Rightarrow> k = ''logout'') up_menu_links"
  by code_simp

text \<open>The addresses of the API: with a configured address, the one of its socket is in the scheme that fits; without one
  the portal takes its own site, with port 443 when the site names none, whatever its scheme.\<close>

theorem up_addresses:
  assumes "sec = '''' \<or> sec = ''s''" and "U_apiUrl p = JStr (''http'' @ sec @ ''://'' @ rest) \<or>
      \<not> truthy (U_apiUrl p) \<and> origin @ (if port = '''' then '':443'' else '''') = ''http'' @ sec @ ''://'' @ rest"
  shows "U_apiUrl (up_initApiAddress (default_address origin port p)) = JStr (''http'' @ sec @ ''://'' @ rest @ ''/api/'') \<and>
    U_apiWSUrl (up_initApiAddress (default_address origin port p)) = JStr (''ws'' @ sec @ ''://'' @ rest @ ''/api/ws/'')"
proof -
  have a: "U_apiUrl (default_address origin port p) = JStr (''http'' @ sec @ ''://'' @ rest)"
    using assms(2) by (auto simp: default_address_def split: if_splits)
  show ?thesis using assms(1) by (auto simp: up_initApiAddress_def a Let_def)
qed

end
