(* ===== verification/Templates.thy ===== *)
theory Templates
  imports Prelude
begin

text \<open>
  The templates of the pages: which ones a view needs (\<open>getTemplateList\<close> of \<open>wat/lib/interface/interface-templates.js\<close>
  and \<open>up/lib/interface/interface-templates.js\<close>), and how they are loaded (\<open>getTemplates\<close> of
  \<open>wat/lib/actions/actions.js\<close> and \<open>up/lib/actions/actions.js\<close>, which are the same).

  A template is kept under a key of \<open>Wat.TPL\<close>; its text is cached as a script element of the page, whose
  identifier is the name of the file with \<open>-\<close> for \<open>/\<close>. The loads of a view run in parallel, their answers come
  in any order, and the callback of the view runs when all of them have come.
\<close>

section \<open>Which templates a view needs\<close>

record template =
  tp_name :: string
  tp_cache :: bool

type_synonym templates = "template obj"

abbreviation tpl :: "string \<Rightarrow> template" where
  "tpl n \<equiv> \<lparr>tp_name = n, tp_cache = True\<rparr>"

abbreviation fresh_tpl :: "string \<Rightarrow> template" where
  "fresh_tpl n \<equiv> \<lparr>tp_name = n, tp_cache = False\<rparr>"

definition QVD_OBJS_CREATABLE :: "string list" where
  "QVD_OBJS_CREATABLE = [''user'', ''vm'', ''host'', ''osf'', ''di'', ''administrator'', ''role'', ''tenant'']"

definition QVD_OBJS_EDITABLE :: "string list" where
  "QVD_OBJS_EDITABLE =
     [''user'', ''vm'', ''host'', ''osf'', ''di'', ''administrator'', ''role'', ''tenant'', ''configwat'', ''package'']"

definition QVD_OBJS_MASSIVE_EDITABLE :: "string list" where
  "QVD_OBJS_MASSIVE_EDITABLE = [''user'', ''vm'', ''host'', ''osf'', ''di'', ''administrator'', ''role'', ''tenant'']"

definition QVD_OBJS_EMBEDDED_VIEWS :: "string list obj" where
  "QVD_OBJS_EMBEDDED_VIEWS = [(''osf'', [''di''])]"

text \<open>The tables with fixed entries, in four groups.\<close>

definition starting_templates :: "string \<Rightarrow> templates" where
  "starting_templates code =
     (if code = ''starting'' then
        [(''main'', tpl ''common/main''), (''footer'', tpl ''common/footer''), (''menu'', tpl ''common/menu''),
         (''editorCommon'', tpl ''editor/common''), (''editorCommonProperties'', tpl ''editor/common-properties''),
         (''relatedDoc'', tpl ''doc/related-links''), (''viewCustomize'', tpl ''view/customize''),
         (''viewCustomizerTool'', tpl ''config/customizer-tool''),
         (''viewFormCustomize'', tpl ''view/customize-form''), (''errorRefresh'', tpl ''error/refresh''),
         (''warn404'', tpl ''error/404'')]
      else if code = ''conflict'' then
        [(''deleteDependency'', tpl ''dialog/conflict-delete-dependency'')]
      else if code = ''home'' then
        [(''home'', tpl ''home/home''), (''homeVMsExpire'', tpl ''home/vms-expire'')]
      else if code = ''login'' then
        [(''login'', tpl ''login/login'')]
      else [])"

definition details_templates :: "string \<Rightarrow> templates" where
  "details_templates qvdObj =
     [(''detailsCommon'', tpl ''details/common''), (''detailsFieldsCommon'', tpl ''details/common-fields''),
      (''detailsCommonProperties'', tpl ''details/common-properties''),
      (''details'', tpl (''details/'' @ qvdObj)), (''detailsSide'', tpl (''details/'' @ qvdObj @ ''-side'')),
      (''detailsFields'', tpl (''details/'' @ qvdObj @ ''-fields'')),
      (''layoutDesktop'', tpl ''details/layout-desktop''), (''layoutMobile'', tpl ''details/layout-mobile'')] @
     (if qvdObj = ''di'' then [(''futureTagsNote'', tpl ''details/di-future-tags-row-note'')] else [])"

definition doc_templates :: "string \<Rightarrow> string \<Rightarrow> string \<Rightarrow> string \<Rightarrow> templates" where
  "doc_templates code lan guide templateName =
     (if code = ''doc'' then
        [(''docSection'', tpl ''doc/doc''), (''docSearch'', tpl ''doc/doc-search''),
         (''docSearchResult'', tpl ''doc/doc-search-result'')]
      else if code = ''docSection'' then
        [(''docSection'', fresh_tpl (''doc/guides/'' @ lan @ ''/'' @ guide))]
      else if code = ''confirm'' then
        [(''confirmTemplate'', fresh_tpl templateName)]
      else [])"

definition editor_templates :: "string \<Rightarrow> templates" where
  "editor_templates qvdObj =
     (if inArray qvdObj QVD_OBJS_EDITABLE \<noteq> -1 then [(''editor_'' @ qvdObj, tpl (''editor/'' @ qvdObj))] else [])"

definition put_tpl :: "string \<Rightarrow> string \<Rightarrow> templates \<Rightarrow> templates" where
  "put_tpl k n ts = AList.update k (tpl n) ts"

definition list_templates :: "string \<Rightarrow> templates" where
  "list_templates qvdObj =
     (let t0 =
       [(''listCommonList'', tpl ''list/common''), (''listCommonBlock'', tpl ''list/common-block''),
        (''selectChecks'', tpl ''dialog/select-checks''), (''sortingRow'', tpl ''list/sorting-row''),
        (''selectedOptionsMenu'', tpl ''list/selected-options-menu'')];
          t1 = (if inArray qvdObj QVD_OBJS_CREATABLE \<noteq> -1 then put_tpl (''editorNew_'' @ qvdObj) (''creator/'' @ qvdObj) t0 else t0);
          t2 = (if qvdObj = ''osf'' then put_tpl ''editorNew_di'' ''creator/di'' t1
                else if qvdObj = ''di'' then put_tpl ''diInfoIcons'' ''list/di-info-icons'' t1 else t1);
          t3 = put_tpl (''list_'' @ qvdObj) (''list/'' @ qvdObj) t2;
          t4 = (if inArray qvdObj QVD_OBJS_MASSIVE_EDITABLE \<noteq> -1 then put_tpl ''editorMassive'' (''editor/'' @ qvdObj @ ''-massive'') t3 else t3)
      in fold (\<lambda>e. put_tpl (''embedded_'' @ qvdObj @ ''_'' @ e) (''list/embedded-'' @ qvdObj @ ''-'' @ e))
           (case map_of QVD_OBJS_EMBEDDED_VIEWS qvdObj of None \<Rightarrow> [] | Some es \<Rightarrow> es) t4)"

definition profile_templates :: "string \<Rightarrow> templates" where
  "profile_templates qvdObj = put_tpl (''editor_'' @ qvdObj) (''editor/'' @ qvdObj) [(''profile'', tpl ''profile/profile'')]"

definition setup_templates :: "string \<Rightarrow> templates" where
  "setup_templates code =
     (if code = ''about'' then
        [(''about'', tpl ''doc/about'')]
      else if code = ''commonDI'' then
        [(''editorAffectedVM'', tpl ''editor/affected-vms''),
         (''editorAffectedVMList'', tpl ''editor/affected-vms-list''),
         (''diProgressBar'', tpl ''details/di-progress-bar'')]
      else if code = ''qvdConfig'' then
        [(''editorNew_config'', tpl ''creator/conf-token''), (''qvdConfig'', tpl ''config/qvd''),
         (''qvdConfigTokens'', tpl ''config/qvd-tokens'')]
      else if code = ''viewsDefault'' then
        [(''resetViewsDefault'', tpl ''editor/reset-views-default'')]
      else if code = ''viewsMine'' then
        [(''resetViewsMine'', tpl ''editor/reset-views-mine'')]
      else if code = ''commonAdministrator'' then
        [(''inheritanceToolsRoles'', tpl ''details/role-inheritance-tools-roles'')]
      else if code = ''detailsAdministrator'' then
        [(''aclsAdmins'', tpl ''details/administrator-acls-tree'')]
      else if code = ''properties'' then
        [(''property'', tpl ''list/property''), (''propertyObjSelector'', tpl ''list/property-obj-selector''),
         (''listProperty'', tpl ''list/property-list''), (''editorNew_property'', tpl ''creator/property''),
         (''editor_property'', tpl ''editor/property''), (''editorPropertyObjects'', tpl ''editor/property-objects'')]
      else if code = ''commonRole'' then
        [(''inheritanceToolsRoles'', tpl ''details/role-inheritance-tools-roles''),
         (''inheritanceToolsTemplates'', tpl ''details/role-inheritance-tools-templates''),
         (''inheritanceToolsTemplatesMatrix'', tpl ''details/role-inheritance-tools-templates-matrix'')]
      else if code = ''detailsRole'' then
        [(''inheritanceList'', tpl ''details/role-inheritance-list''),
         (''aclsRoles'', tpl ''details/role-acls-tree'')]
      else [])"

definition platform_templates :: "string \<Rightarrow> templates" where
  "platform_templates code =
     (if code = ''tenantDetails'' then
        [(''deleteTenantDialog'', tpl ''dialog/delete-tenant''),
         (''deleteTenantDialogElements'', tpl ''dialog/delete-tenant-elements''),
         (''deleteTenantDialogEmpty'', tpl ''dialog/delete-tenant-empty'')]
      else if code = ''spyVM'' then
        [(''spyVM'', tpl ''common/vms-spy'')]
      else if code = ''vmDetails'' then
        [(''vmDetailsExpiration'', tpl ''details/vm-expiration'')]
      else if code = ''vmList'' then
        [(''vmListExpiration'', tpl ''list/vm-expiration'')]
      else if code = ''osDetails'' then
        [(''osConfiguration'', tpl ''details/osd''), (''osConfiguration_hook'', tpl ''details/osd-hook''),
         (''osConfiguration_os'', tpl ''details/osd-os''), (''osConfiguration_pkg'', tpl ''details/osd-pkg''),
         (''osConfiguration_shortcut'', tpl ''details/osd-shortcut''),
         (''osConfiguration_vma'', tpl ''details/osd-vma''),
         (''osConfiguration_wallpaper'', tpl ''details/osd-wallpaper''),
         (''osConfigurationEditor'', tpl ''editor/osd''),
         (''osConfigurationEditorAppearance'', tpl ''editor/osd-appearance''),
         (''osConfigurationEditorApps'', tpl ''editor/osd-applications''),
         (''osConfigurationEditorPackages'', tpl ''editor/osd-packages''),
         (''osConfigurationEditorSettings'', tpl ''editor/osd-settings''),
         (''osConfigurationEditorShortcuts'', tpl ''editor/osd-shortcuts''),
         (''osConfigurationEditorShortcutsRows'', tpl ''editor/osd-shortcuts-rows''),
         (''osConfigurationEditorShortcutsRowsEdit'', tpl ''editor/osd-shortcuts-rows-edit''),
         (''osConfigurationEditorHooks'', tpl ''editor/osd-hooks''),
         (''osConfigurationEditorHooksManager'', tpl ''editor/osd-hooks-manager''),
         (''osConfigurationEditorHooksRows'', tpl ''editor/osd-hooks-rows''),
         (''osConfigurationEditorHooksRowsEdit'', tpl ''editor/osd-hooks-rows-edit''),
         (''osConfigurationEditorAssets'', tpl ''editor/osd-assets''),
         (''osConfigurationEditorAssetsOptions'', tpl ''editor/osd-assets-options''),
         (''osConfigurationEditorAssetsRows'', tpl ''editor/osd-assets-rows''),
         (''osConfigurationEditorAssetsUploadControl'', tpl ''editor/osd-assets-upload-control''),
         (''packageBlockWrapper'', tpl ''list/package-block-wrapper'')]
      else if code = ''importOSsettings'' then
        [(''importableOSFDI'', tpl ''list/importable-osf-di'')]
      else [])"

text \<open>\<open>getTemplateList(code, params)\<close> of the panel, with the parameters a code reads.\<close>

record tpl_params =
  tq_qvdObj :: string
  tq_lan :: string
  tq_guide :: string
  tq_templateName :: string

definition getTemplateList :: "string \<Rightarrow> tpl_params \<Rightarrow> templates" where
  "getTemplateList code P =
     (if code \<in> {''starting'', ''conflict'', ''home'', ''login''} then starting_templates code
      else if code = ''details'' then details_templates (tq_qvdObj P)
      else if code \<in> {''doc'', ''docSection'', ''confirm''}
      then doc_templates code (tq_lan P) (tq_guide P) (tq_templateName P)
      else if code = ''commonEditors'' then editor_templates (tq_qvdObj P)
      else if code = ''list'' then list_templates (tq_qvdObj P)
      else if code = ''profile'' then profile_templates (tq_qvdObj P)
      else setup_templates code @ platform_templates code)"

text \<open>The same of the portal.\<close>

definition up_getTemplateList :: "string \<Rightarrow> tpl_params \<Rightarrow> templates" where
  "up_getTemplateList code P =
     (if code = ''starting'' then
        [(''main'', tpl ''common/main''), (''menu'', tpl ''common/menu''), (''header'', tpl ''common/header''),
         (''headerMobile'', tpl ''common/header-mobile''), (''relatedDoc'', tpl ''doc/related-links'')]
      else if code = ''settings'' then
        [(''settingsRow'', tpl ''settings/settings-row''), (''settingsList'', tpl ''settings/settings-list''),
         (''settingsOptions'', tpl ''settings/settings-options'')]
      else if code = ''desktops'' then
        [(''workspacesSelectOption'', tpl ''desktops/workspaces-select-option''),
         (''dialogClientNotInstalled'', tpl ''dialog/client-not-installed''),
         (''dialogClientFirstMessage'', tpl ''dialog/client-first-message''),
         (''list-grid_desktops'', tpl ''desktops/desktops-grid'')]
      else if code = ''spyDesktop'' then
        [(''spy_desktops'', tpl ''desktops/desktops-spy'')]
      else if code = ''downloads'' then
        [(''downloads'', tpl ''downloads/downloads'')]
      else if code = ''info'' then
        [(''infoConnection'', tpl ''info/connection'')]
      else if code = ''help'' then
        [(''help'', tpl ''help/help'')]
      else if code = ''login'' then
        [(''login'', tpl ''login/login''), (''errorRefresh'', tpl ''error/refresh'')]
      else if code = ''doc'' then
        [(''docSection'', tpl ''doc/doc''), (''docSearch'', tpl ''doc/doc-search''),
         (''docSearchResult'', tpl ''doc/doc-search-result'')]
      else if code = ''docSection'' then
        [(''docSection'', fresh_tpl (''doc/guides/'' @ tq_lan P @ ''/'' @ tq_guide P))]
      else if code = ''confirm'' then
        [(''confirmTemplate'', fresh_tpl (tq_templateName P))]
      else if code = ''list'' then
        put_tpl (tq_qvdObj P @ ''CommonBlock'') (tq_qvdObj P @ ''/'' @ tq_qvdObj P @ ''-block'')
        [(''settingsEditor'', tpl ''settings/settings-editor''),
         (''settingsEditorParameters'', tpl ''settings/settings-editor-parameters'')]
      else if code = ''profile'' then
        [(''profile'', tpl ''profile/profile'')]
      else [])"

section \<open>Loading\<close>

text \<open>A view that waits for its templates: what it asked for, how many have come, and how often its callback ran.\<close>

record tpl_job =
  jb_table :: templates
  jb_count :: nat
  jb_calls :: nat

text \<open>A load under way: the view it belongs to, the key and the template.\<close>

record tpl_load =
  lo_job :: nat
  lo_key :: string
  lo_tpl :: template

text \<open>The script elements of the page, \<open>Wat.TPL\<close>, the loads under way and the views. An identifier that occurs twice
  stands for the element that came first.\<close>

record loader =
  ld_head :: "(string \<times> string) list"
  ld_store :: "(string \<times> string) list"
  ld_pending :: "tpl_load list"
  ld_jobs :: "tpl_job list"

definition templateNameHash :: "string \<Rightarrow> string" where
  "templateNameHash n = ''template_'' @ map (\<lambda>c. if c = CHR ''/'' then CHR ''-'' else c) n"

definition count_template :: "nat \<Rightarrow> loader \<Rightarrow> loader" where
  "count_template j L =
     L\<lparr>ld_jobs := (ld_jobs L)[j := (let J = ld_jobs L ! j; c = Suc (jb_count J)
        in J\<lparr>jb_count := c, jb_calls := jb_calls J + (if c \<ge> length (jb_table J) then 1 else 0)\<rparr>)]\<rparr>"

definition store_template :: "string \<Rightarrow> string \<Rightarrow> loader \<Rightarrow> loader" where
  "store_template k s L = L\<lparr>ld_store := AList.update k s (ld_store L)\<rparr>"

text \<open>The loop over the table: a template in the page is taken from there, the others are asked for.\<close>

definition get_template :: "nat \<Rightarrow> string \<times> template \<Rightarrow> loader \<Rightarrow> loader" where
  "get_template j kt L =
     (case (map_of (ld_head L) (templateNameHash (tp_name (snd kt))), tp_cache (snd kt)) of
        (Some s, True) \<Rightarrow> count_template j (store_template (fst kt) s L)
      | _ \<Rightarrow> L\<lparr>ld_pending := ld_pending L @ [\<lparr>lo_job = j, lo_key = fst kt, lo_tpl = snd kt\<rparr>]\<rparr>)"

definition getTemplates :: "templates \<Rightarrow> loader \<Rightarrow> loader" where
  "getTemplates ts L =
     fold (get_template (length (ld_jobs L))) ts
       (L\<lparr>ld_jobs := ld_jobs L @ [\<lparr>jb_table = ts, jb_count = 0, jb_calls = 0\<rparr>]\<rparr>)"

text \<open>The answer to a load, with the text of the file, and a load that failed, which nobody counts.\<close>

definition drop_load :: "nat \<Rightarrow> loader \<Rightarrow> loader" where
  "drop_load i L = L\<lparr>ld_pending := take i (ld_pending L) @ drop (Suc i) (ld_pending L)\<rparr>"

definition cache_template :: "template \<Rightarrow> string \<Rightarrow> loader \<Rightarrow> loader" where
  "cache_template t s L =
     (if tp_cache t then L\<lparr>ld_head := ld_head L @ [(templateNameHash (tp_name t), s)]\<rparr> else L)"

definition template_loaded :: "(string \<Rightarrow> string) \<Rightarrow> nat \<Rightarrow> loader \<Rightarrow> loader" where
  "template_loaded body i L =
     (let l = ld_pending L ! i; s = body (tp_name (lo_tpl l))
      in count_template (lo_job l) (store_template (lo_key l) s (cache_template (lo_tpl l) s (drop_load i L))))"

definition ld_init :: loader where
  "ld_init = \<lparr>ld_head = [], ld_store = [], ld_pending = [], ld_jobs = []\<rparr>"

text \<open>The loading of templates in a page: views ask for their tables, and the answers come in any order. The list has the
  loads that failed.\<close>

inductive ld_reach :: "(string \<Rightarrow> string) \<Rightarrow> tpl_load list \<Rightarrow> loader \<Rightarrow> bool" for body where
  empty_page: "ld_reach body [] ld_init"
| asks: "ld_reach body fs L \<Longrightarrow> distinct (map fst ts) \<Longrightarrow> ld_reach body fs (getTemplates ts L)"
| comes: "ld_reach body fs L \<Longrightarrow> i < length (ld_pending L) \<Longrightarrow> ld_reach body fs (template_loaded body i L)"
| fails: "ld_reach body fs L \<Longrightarrow> i < length (ld_pending L) \<Longrightarrow> ld_reach body (ld_pending L ! i # fs) (drop_load i L)"

section \<open>The callback of a view\<close>

definition of_job :: "nat \<Rightarrow> tpl_load list \<Rightarrow> nat" where
  "of_job j ls = length (filter (\<lambda>l. lo_job l = j) ls)"

text \<open>The accounts of one view, when \<open>n\<close> templates of its table have not been looked at yet.\<close>

definition job_ok :: "nat \<Rightarrow> tpl_load list \<Rightarrow> nat \<Rightarrow> loader \<Rightarrow> bool" where
  "job_ok n fs j L \<longleftrightarrow>
     (let J = ld_jobs L ! j in jb_count J + of_job j (ld_pending L) + of_job j fs + n = length (jb_table J) \<and>
        jb_calls J = (if jb_table J \<noteq> [] \<and> jb_count J = length (jb_table J) then 1 else 0))"

definition loader_ok :: "nat \<Rightarrow> tpl_load list \<Rightarrow> loader \<Rightarrow> bool" where
  "loader_ok n fs L \<longleftrightarrow>
     (\<forall>j < length (ld_jobs L). job_ok (if j = length (ld_jobs L) - 1 then n else 0) fs j L) \<and>
     (\<forall>l \<in> set (ld_pending L) \<union> set fs. lo_job l < length (ld_jobs L))"

lemma of_job_simps [simp]: "of_job j [] = 0" "of_job j (l # ls) = (if lo_job l = j then 1 else 0) + of_job j ls"
  "of_job j (ls @ ms) = of_job j ls + of_job j ms"
  by (simp_all add: of_job_def)

lemma of_job_drop:
  "i < length ls \<Longrightarrow> of_job j ls = (if lo_job (ls ! i) = j then 1 else 0) + of_job j (take i ls @ drop (Suc i) ls)"
  by (subst (1) id_take_nth_drop [of i ls]) simp_all

lemma of_job_fresh: "\<forall>l \<in> set ls. lo_job l < n \<Longrightarrow> of_job n ls = 0"
  by (auto simp: of_job_def filter_empty_conv)

lemma count_sel [simp]:
  "ld_pending (count_template j L) = ld_pending L" "length (ld_jobs (count_template j L)) = length (ld_jobs L)"
  "ld_head (count_template j L) = ld_head L" "ld_store (count_template j L) = ld_store L"
  by (simp_all add: count_template_def)

lemma store_sel [simp]:
  "ld_pending (store_template k s L) = ld_pending L" "ld_jobs (store_template k s L) = ld_jobs L"
  "ld_head (store_template k s L) = ld_head L" "ld_store (store_template k s L) = AList.update k s (ld_store L)"
  by (simp_all add: store_template_def)

lemma drop_sel [simp]:
  "ld_pending (drop_load i L) = take i (ld_pending L) @ drop (Suc i) (ld_pending L)" "ld_jobs (drop_load i L) = ld_jobs L"
  "ld_head (drop_load i L) = ld_head L" "ld_store (drop_load i L) = ld_store L"
  by (simp_all add: drop_load_def)

lemma cache_sel [simp]:
  "ld_pending (cache_template t s L) = ld_pending L" "ld_jobs (cache_template t s L) = ld_jobs L"
  "ld_store (cache_template t s L) = ld_store L"
  by (simp_all add: cache_template_def)

lemma job_ok_count:
  assumes "j < length (ld_jobs L)" and "job_ok (Suc n) fs j L"
  shows "job_ok n fs j (count_template j L)"
  using assms by (auto simp: job_ok_def count_template_def Let_def)

lemma job_ok_other: "i \<noteq> j \<Longrightarrow> job_ok n fs j (count_template i L) = job_ok n fs j L"
  by (simp add: job_ok_def count_template_def)

lemma job_ok_store [simp]: "job_ok n fs j (store_template k s L) = job_ok n fs j L"
  by (simp add: job_ok_def)

lemma job_ok_pending:
  "job_ok (Suc n) fs j L \<Longrightarrow> lo_job l = j \<Longrightarrow> job_ok n fs j (L\<lparr>ld_pending := ld_pending L @ [l]\<rparr>)"
  by (simp add: job_ok_def Let_def)

lemma loader_ok_last:
  assumes "Suc j = length (ld_jobs L)"
  shows "loader_ok n fs L \<longleftrightarrow> job_ok n fs j L \<and> (\<forall>i < j. job_ok 0 fs i L) \<and> (\<forall>l \<in> set (ld_pending L) \<union> set fs. lo_job l < Suc j)"
proof -
  have "(\<forall>i < Suc j. job_ok (if i = Suc j - 1 then n else 0) fs i L) \<longleftrightarrow> job_ok n fs j L \<and> (\<forall>i < j. job_ok 0 fs i L)"
    by (auto simp: less_Suc_eq)
  then show ?thesis unfolding loader_ok_def assms [symmetric] by blast
qed

lemma get_template_ok:
  assumes L: "loader_ok (Suc n) fs L" and j: "Suc j = length (ld_jobs L)"
  shows "loader_ok n fs (get_template j kt L) \<and> length (ld_jobs (get_template j kt L)) = length (ld_jobs L)"
proof (cases "map_of (ld_head L) (templateNameHash (tp_name (snd kt))) \<noteq> None \<and> tp_cache (snd kt)")
  case True
  then obtain s where g: "get_template j kt L = count_template j (store_template (fst kt) s L)"
    by (auto simp: get_template_def)
  have "Suc j = length (ld_jobs (get_template j kt L))" unfolding g using j by simp
  moreover have "job_ok n fs j (get_template j kt L)"
    unfolding g using L j by (intro job_ok_count) (simp_all add: loader_ok_last)
  ultimately show ?thesis using L j unfolding g by (simp add: loader_ok_last job_ok_other)
next
  case False
  then have g: "get_template j kt L = L\<lparr>ld_pending := ld_pending L @ [\<lparr>lo_job = j, lo_key = fst kt, lo_tpl = snd kt\<rparr>]\<rparr>"
    by (auto simp: get_template_def split: option.splits bool.splits)
  have "job_ok 0 fs i (get_template j kt L)" if "i < j" "job_ok 0 fs i L" for i
    using that unfolding g by (simp add: job_ok_def)
  moreover have "job_ok n fs j (get_template j kt L)"
    unfolding g using L j by (intro job_ok_pending) (simp_all add: loader_ok_last)
  ultimately show ?thesis using L j unfolding g by (simp add: loader_ok_last)
qed

lemma get_templates_ok:
  "loader_ok (length ts) fs L \<Longrightarrow> Suc j = length (ld_jobs L) \<Longrightarrow>
   loader_ok 0 fs (fold (get_template j) ts L) \<and> length (ld_jobs (fold (get_template j) ts L)) = length (ld_jobs L)"
proof (induction ts arbitrary: L)
  case (Cons kt ts)
  then show ?case using get_template_ok [of "length ts" fs L j kt] by simp
qed simp

lemma new_job_ok:
  assumes "loader_ok 0 fs L"
  shows "loader_ok (length ts) fs (L\<lparr>ld_jobs := ld_jobs L @ [\<lparr>jb_table = ts, jb_count = 0, jb_calls = 0\<rparr>]\<rparr>)"
proof -
  let ?n = "length (ld_jobs L)"
  have "of_job ?n (ld_pending L) = 0" "of_job ?n fs = 0"
    using assms by (auto simp: loader_ok_def intro: of_job_fresh)
  then show ?thesis using assms
    by (auto simp: loader_ok_def job_ok_def Let_def nth_append less_Suc_eq)
qed

lemma drop_ok:
  assumes "loader_ok 0 fs L" and i: "i < length (ld_pending L)"
  shows "loader_ok 0 (ld_pending L ! i # fs) (drop_load i L)"
proof -
  have "job_ok 0 (ld_pending L ! i # fs) j (drop_load i L)" if "job_ok 0 fs j L" for j
    using that of_job_drop [OF i, of j] by (simp add: job_ok_def Let_def)
  moreover have "lo_job (ld_pending L ! i) < length (ld_jobs L)"
    using assms nth_mem [OF i] by (auto simp: loader_ok_def)
  ultimately show ?thesis using assms(1)
    by (auto simp: loader_ok_def dest: in_set_takeD in_set_dropD)
qed

lemma loaded_ok:
  assumes L: "loader_ok 0 fs L" and i: "i < length (ld_pending L)"
  shows "loader_ok 0 fs (template_loaded body i L)"
proof -
  let ?l = "ld_pending L ! i" and ?j = "lo_job (ld_pending L ! i)"
  let ?M = "cache_template (lo_tpl ?l) (body (tp_name (lo_tpl ?l))) (drop_load i L)"
  have t: "template_loaded body i L = count_template ?j (store_template (lo_key ?l) (body (tp_name (lo_tpl ?l))) ?M)"
    by (simp add: template_loaded_def Let_def)
  have j: "?j < length (ld_jobs L)" using L nth_mem [OF i] by (auto simp: loader_ok_def)
  have "job_ok 0 fs k (template_loaded body i L)" if "k < length (ld_jobs L)" for k
  proof -
    have k: "job_ok 0 fs k L" using L that by (auto simp: loader_ok_def split: if_splits)
    show ?thesis
    proof (cases "k = ?j")
      case True
      have "job_ok (Suc 0) fs k ?M"
        using k of_job_drop [OF i, of k] True by (auto simp: job_ok_def Let_def)
      then show ?thesis unfolding t using True j by (simp add: job_ok_count)
    next
      case False
      then show ?thesis unfolding t using k of_job_drop [OF i, of k]
        by (simp add: job_ok_other) (simp add: job_ok_def Let_def)
    qed
  qed
  then show ?thesis using L unfolding t
    by (auto simp: loader_ok_def dest: in_set_takeD in_set_dropD)
qed

lemma ld_reach_ok: "ld_reach body fs L \<Longrightarrow> loader_ok 0 fs L"
proof (induction rule: ld_reach.induct)
  case empty_page
  then show ?case by (simp add: loader_ok_def ld_init_def)
next
  case (asks fs L ts)
  then show ?case using get_templates_ok [OF new_job_ok [OF asks.IH]] by (simp add: getTemplates_def)
qed (simp_all add: loaded_ok drop_ok)

lemma callback_run:
  assumes "ld_reach body fs L" and "j < length (ld_jobs L)" and "J = ld_jobs L ! j"
  shows "jb_calls J \<le> 1 \<and>
    (jb_calls J = 1 \<longleftrightarrow> jb_table J \<noteq> [] \<and> (\<forall>l \<in> set (ld_pending L) \<union> set fs. lo_job l \<noteq> j))"
proof -
  have J: "job_ok 0 fs j L" using ld_reach_ok [OF assms(1)] assms(2) by (auto simp: loader_ok_def split: if_splits)
  have z: "of_job j ls = 0 \<longleftrightarrow> (\<forall>l \<in> set ls. lo_job l \<noteq> j)" for ls
    by (auto simp: of_job_def filter_empty_conv)
  have "jb_count J = length (jb_table J) \<longleftrightarrow> of_job j (ld_pending L) = 0 \<and> of_job j fs = 0"
    using J assms(3) by (auto simp: job_ok_def Let_def)
  then show ?thesis using J assms(3) unfolding z by (auto simp: job_ok_def Let_def)
qed

section \<open>What the callback finds\<close>

lemma tables_count [simp]: "map jb_table (ld_jobs (count_template j L)) = map jb_table (ld_jobs L)"
proof (cases "j < length (ld_jobs L)")
  case True
  then have "(map jb_table (ld_jobs L))[j := jb_table (ld_jobs L ! j)] = map jb_table (ld_jobs L)"
    by (metis length_map list_update_id nth_map)
  then show ?thesis by (simp add: count_template_def map_update Let_def)
qed (simp add: count_template_def list_update_beyond)

lemma tables_get [simp]: "map jb_table (ld_jobs (get_template j kt L)) = map jb_table (ld_jobs L)"
  by (auto simp: get_template_def split: option.splits bool.splits)

lemma tables_fold [simp]: "map jb_table (ld_jobs (fold (get_template j) ts L)) = map jb_table (ld_jobs L)"
  by (induction ts arbitrary: L) simp_all

lemma tables_getTemplates: "map jb_table (ld_jobs (getTemplates ts L)) = map jb_table (ld_jobs L) @ [ts]"
  by (simp add: getTemplates_def)

lemma length_getTemplates: "length (ld_jobs (getTemplates ts L)) = Suc (length (ld_jobs L))"
  using arg_cong [OF tables_getTemplates [of ts L], of length] by simp

lemma tables_loaded: "map jb_table (ld_jobs (template_loaded body i L)) = map jb_table (ld_jobs L)"
  by (simp add: template_loaded_def Let_def)

lemma set_drop_nth: "i < length xs \<Longrightarrow> set xs = insert (xs ! i) (set (take i xs @ drop (Suc i) xs))"
  by (subst (1) id_take_nth_drop [of i xs]) auto

text \<open>Tables in which a key always stands for the same template, and names that do not share an identifier.\<close>

locale named_templates =
  fixes tables :: "templates set" and nm :: "string \<Rightarrow> string"
  assumes named: "ts \<in> tables \<Longrightarrow> (k, t) \<in> set ts \<Longrightarrow> tp_name t = nm k"
    and hashed: "ts \<in> tables \<Longrightarrow> us \<in> tables \<Longrightarrow> (k, t) \<in> set ts \<Longrightarrow> (l, u) \<in> set us \<Longrightarrow>
      templateNameHash (tp_name t) = templateNameHash (tp_name u) \<Longrightarrow> tp_name t = tp_name u"
begin

definition entry :: "string \<Rightarrow> template \<Rightarrow> bool" where
  "entry k t \<longleftrightarrow> (\<exists>ts \<in> tables. (k, t) \<in> set ts)"

lemma entry_name: "entry k t \<Longrightarrow> tp_name t = nm k"
  using named by (auto simp: entry_def)

lemma entry_hash: "entry k t \<Longrightarrow> entry l u \<Longrightarrow> templateNameHash (tp_name t) = templateNameHash (tp_name u) \<Longrightarrow> tp_name t = tp_name u"
  using hashed unfolding entry_def by blast

definition texts_ok :: "(string \<Rightarrow> string) \<Rightarrow> loader \<Rightarrow> bool" where
  "texts_ok body L \<longleftrightarrow>
     (\<forall>h s. (h, s) \<in> set (ld_head L) \<longrightarrow> (\<exists>k t. entry k t \<and> h = templateNameHash (tp_name t) \<and> s = body (tp_name t))) \<and>
     (\<forall>k s. map_of (ld_store L) k = Some s \<longrightarrow> s = body (nm k)) \<and>
     (\<forall>l \<in> set (ld_pending L). entry (lo_key l) (lo_tpl l))"

definition stored :: "loader \<Rightarrow> tpl_load list \<Rightarrow> nat \<Rightarrow> string \<Rightarrow> bool" where
  "stored L fs j k \<longleftrightarrow> map_of (ld_store L) k \<noteq> None \<or> (\<exists>l \<in> set (ld_pending L) \<union> set fs. lo_job l = j \<and> lo_key l = k)"

lemma texts_head:
  "texts_ok body L \<Longrightarrow> entry k t \<Longrightarrow> map_of (ld_head L) (templateNameHash (tp_name t)) = Some s \<Longrightarrow> s = body (nm k)"
proof -
  assume L: "texts_ok body L" and e: "entry k t" and s: "map_of (ld_head L) (templateNameHash (tp_name t)) = Some s"
  then obtain l u where u: "entry l u" "templateNameHash (tp_name t) = templateNameHash (tp_name u)" "s = body (tp_name u)"
    using map_of_SomeD [OF s] unfolding texts_ok_def by blast
  show ?thesis using entry_hash [OF e u(1,2)] entry_name [OF e] u(3) by simp
qed

lemma texts_get:
  assumes "texts_ok body L" and "entry (fst kt) (snd kt)"
  shows "texts_ok body (get_template j kt L)"
proof (cases "map_of (ld_head L) (templateNameHash (tp_name (snd kt))) \<noteq> None \<and> tp_cache (snd kt)")
  case True
  then obtain s where s: "map_of (ld_head L) (templateNameHash (tp_name (snd kt))) = Some s" by auto
  then have "get_template j kt L = count_template j (store_template (fst kt) s L)" using True by (simp add: get_template_def)
  then show ?thesis using assms(1) texts_head [OF assms s] by (simp add: texts_ok_def)
next
  case False
  then have "get_template j kt L = L\<lparr>ld_pending := ld_pending L @ [\<lparr>lo_job = j, lo_key = fst kt, lo_tpl = snd kt\<rparr>]\<rparr>"
    by (auto simp: get_template_def split: option.splits bool.splits)
  then show ?thesis using assms by (simp add: texts_ok_def)
qed

lemma stored_get: "stored L fs i k \<Longrightarrow> stored (get_template j kt L) fs i k"
  by (auto simp: stored_def get_template_def split: option.splits bool.splits)

lemma get_stored: "stored (get_template j kt L) fs j (fst kt)"
  by (auto simp: stored_def get_template_def split: option.splits bool.splits)

lemma texts_fold:
  "texts_ok body L \<Longrightarrow> \<forall>kt \<in> set ts. entry (fst kt) (snd kt) \<Longrightarrow> texts_ok body (fold (get_template j) ts L)"
  by (induction ts arbitrary: L) (simp_all add: texts_get)

lemma stored_fold: "stored L fs i k \<Longrightarrow> stored (fold (get_template j) ts L) fs i k"
  by (induction ts arbitrary: L) (simp_all add: stored_get)

lemma fold_stored: "k \<in> fst ` set ts \<Longrightarrow> stored (fold (get_template j) ts L) fs j k"
proof (induction ts arbitrary: L)
  case (Cons kt ts)
  then show ?case using stored_fold [OF get_stored] by (cases "k = fst kt") auto
qed simp

lemma texts_reach:
  assumes "ld_reach body fs L" and "set (map jb_table (ld_jobs L)) \<subseteq> tables"
  shows "texts_ok body L \<and> (\<forall>j < length (ld_jobs L). \<forall>k \<in> fst ` set (map jb_table (ld_jobs L) ! j). stored L fs j k)"
  using assms
proof (induction rule: ld_reach.induct)
  case empty_page
  then show ?case by (simp add: texts_ok_def ld_init_def)
next
  case (asks fs L ts)
  let ?L = "L\<lparr>ld_jobs := ld_jobs L @ [\<lparr>jb_table = ts, jb_count = 0, jb_calls = 0\<rparr>]\<rparr>" and ?n = "length (ld_jobs L)"
  have IH: "texts_ok body L" "\<forall>j < ?n. \<forall>k \<in> fst ` set (map jb_table (ld_jobs L) ! j). stored L fs j k"
    using asks by (auto simp: tables_getTemplates)
  have "texts_ok body ?L" using IH(1) by (simp add: texts_ok_def)
  moreover have "\<forall>kt \<in> set ts. entry (fst kt) (snd kt)" using asks.prems by (auto simp: tables_getTemplates entry_def)
  ultimately have "texts_ok body (getTemplates ts L)" by (simp add: getTemplates_def texts_fold)
  moreover have "stored (getTemplates ts L) fs j k" if "j < Suc ?n" "k \<in> fst ` set ((map jb_table (ld_jobs L) @ [ts]) ! j)" for j k
  proof (cases "j = ?n")
    case True
    then show ?thesis using that fold_stored [of k ts ?n ?L fs] by (simp add: getTemplates_def nth_append)
  next
    case False
    then have "j < ?n" "k \<in> fst ` set (map jb_table (ld_jobs L) ! j)" using that by (simp_all add: nth_append)
    then have "stored L fs j k" using IH(2) by blast
    then have "stored ?L fs j k" by (simp add: stored_def)
    then show ?thesis by (simp add: getTemplates_def stored_fold)
  qed
  ultimately show ?case unfolding tables_getTemplates length_getTemplates by simp
next
  case (comes fs L i)
  let ?l = "ld_pending L ! i"
  have l: "?l \<in> set (ld_pending L)" using comes.hyps(2) by simp
  have IH: "texts_ok body L" "\<forall>j < length (ld_jobs L). \<forall>k \<in> fst ` set (map jb_table (ld_jobs L) ! j). stored L fs j k"
    using comes by (simp_all add: tables_loaded)
  have e: "entry (lo_key ?l) (lo_tpl ?l)" using IH(1) l by (simp add: texts_ok_def)
  then have "\<exists>k t. entry k t \<and> templateNameHash (tp_name (lo_tpl ?l)) = templateNameHash (tp_name t) \<and>
      body (tp_name (lo_tpl ?l)) = body (tp_name t)" by blast
  then have "texts_ok body (template_loaded body i L)"
    using IH(1) l entry_name [OF e] unfolding texts_ok_def template_loaded_def Let_def
    by (auto simp: cache_template_def dest: in_set_takeD in_set_dropD)
  moreover have "stored (template_loaded body i L) fs j k" if "stored L fs j k" for j k
    using that set_drop_nth [OF comes.hyps(2)] by (auto simp: stored_def template_loaded_def Let_def)
  moreover have "length (ld_jobs (template_loaded body i L)) = length (ld_jobs L)"
    using arg_cong [OF tables_loaded [of body i L], of length] by simp
  ultimately show ?case using IH(2) unfolding tables_loaded by simp
next
  case (fails fs L i)
  have "texts_ok body (drop_load i L)"
    using fails by (auto simp: texts_ok_def dest: in_set_takeD in_set_dropD)
  moreover have "stored (drop_load i L) (ld_pending L ! i # fs) j k" if "stored L fs j k" for j k
    using that set_drop_nth [OF fails.hyps(2)] by (auto simp: stored_def)
  ultimately show ?case using fails by simp
qed

text \<open>When the callback of a view has run, every key of its table holds the text of its file.\<close>

lemma callback_texts:
  assumes "ld_reach body fs L" and "set (map jb_table (ld_jobs L)) \<subseteq> tables"
    and j: "j < length (ld_jobs L)" and "jb_calls (ld_jobs L ! j) = 1" and k: "(k, t) \<in> set (jb_table (ld_jobs L ! j))"
  shows "map_of (ld_store L) k = Some (body (tp_name t))"
proof -
  have T: "texts_ok body L" "stored L fs j k" using texts_reach [OF assms(1,2)] j k by force+
  have "\<forall>l \<in> set (ld_pending L) \<union> set fs. lo_job l \<noteq> j" using callback_run [OF assms(1) j refl] assms(4) by simp
  then obtain s where "map_of (ld_store L) k = Some s" using T(2) unfolding stored_def by auto
  moreover have "tp_name t = nm k" using assms(2) j k by (intro named) auto
  ultimately show ?thesis using T(1) by (simp add: texts_ok_def)
qed

end

text \<open>C32. The callback of a view runs exactly once, when all its templates have come, whatever the order of the answers and
  the loads of other views; it never runs when a template cannot be loaded or when the table is empty.\<close>

theorem callback_once:
  assumes "ld_reach body fs L" and "j < length (ld_jobs L)" and "J = ld_jobs L ! j"
  shows "jb_calls J \<le> 1 \<and>
    (jb_calls J = 1 \<longleftrightarrow> jb_table J \<noteq> [] \<and> (\<forall>l \<in> set (ld_pending L) \<union> set fs. lo_job l \<noteq> j))"
  using callback_run [OF assms] .

section \<open>The tables of the two applications\<close>

text \<open>The tables the views of the portal ask for, and those of the panel that do not depend on a kind of element.
  Confirmations and sections of the guides are named by the caller and are left out here.\<close>

definition with_obj :: "string \<Rightarrow> tpl_params" where
  "with_obj q = \<lparr>tq_qvdObj = q, tq_lan = '''', tq_guide = '''', tq_templateName = ''''\<rparr>"

definition up_tables :: "templates list" where
  "up_tables =
     map (\<lambda>c. up_getTemplateList c (with_obj ''''))
       [''starting'', ''settings'', ''desktops'', ''spyDesktop'', ''downloads'', ''info'', ''help'', ''login'', ''doc'', ''profile''] @
     map (\<lambda>q. up_getTemplateList ''list'' (with_obj q)) [''desktops'', ''settings'']"

definition wat_tables :: "templates list" where
  "wat_tables =
     map (\<lambda>c. getTemplateList c (with_obj ''''))
       [''starting'', ''conflict'', ''home'', ''login'', ''about'', ''commonDI'', ''qvdConfig'', ''viewsDefault'', ''viewsMine'',
        ''detailsAdministrator'', ''properties'', ''commonRole'', ''detailsRole'', ''tenantDetails'', ''spyVM'', ''vmDetails'', ''vmList'',
        ''osDetails''] @
     map (\<lambda>q. getTemplateList ''commonEditors'' (with_obj q)) QVD_OBJS_EDITABLE"

definition name_in :: "templates list \<Rightarrow> string \<Rightarrow> string" where
  "name_in tss k = (case map_of (concat tss) k of Some t \<Rightarrow> tp_name t | None \<Rightarrow> '''')"

text \<open>Each key stands for one name.\<close>

fun functional_in :: "(string \<times> string) list \<Rightarrow> templates \<Rightarrow> bool" where
  "functional_in seen [] \<longleftrightarrow> True"
| "functional_in seen ((k, t) # ts) \<longleftrightarrow>
     (case map_of seen k of None \<Rightarrow> functional_in ((k, tp_name t) # seen) ts | Some n \<Rightarrow> n = tp_name t \<and> functional_in seen ts)"

lemma functional_in_names:
  "functional_in seen ts \<Longrightarrow> (k, t) \<in> set ts \<Longrightarrow>
   tp_name t = (case map_of seen k of Some n \<Rightarrow> n | None \<Rightarrow> (case map_of ts k of Some u \<Rightarrow> tp_name u | None \<Rightarrow> ''''))"
  by (induction seen ts rule: functional_in.induct) (fastforce split: option.splits if_splits)+

text \<open>Names of a file in one directory that has no dash are told apart by their identifiers.\<close>

fun simple_name :: "string \<Rightarrow> bool" where
  "simple_name [] \<longleftrightarrow> False"
| "simple_name (c # n) \<longleftrightarrow> (if c = CHR ''/'' then CHR ''/'' \<notin> set n else c \<noteq> CHR ''-'' \<and> simple_name n)"

lemma same_hash:
  "simple_name n \<Longrightarrow> simple_name m \<Longrightarrow> templateNameHash n = templateNameHash m \<Longrightarrow> n = m"
proof -
  let ?h = "map (\<lambda>c. if c = CHR ''/'' then CHR ''-'' else c)"
  have base: "?h n = ?h m \<Longrightarrow> CHR ''/'' \<notin> set n \<Longrightarrow> CHR ''/'' \<notin> set m \<Longrightarrow> n = m" for n m
    by (induction n arbitrary: m) (auto split: if_splits)
  have "simple_name n \<Longrightarrow> simple_name m \<Longrightarrow> ?h n = ?h m \<Longrightarrow> n = m"
  proof (induction n arbitrary: m)
    case (Cons c n)
    from Cons.prems(3) obtain d m' where m: "m = d # m'" and cd: "(if c = CHR ''/'' then CHR ''-'' else c) = (if d = CHR ''/'' then CHR ''-'' else d)"
      and nm: "?h n = ?h m'" by (cases m) auto
    show ?case
    proof (cases "c = CHR ''/''")
      case True
      then have "d = CHR ''/''" using cd Cons.prems(2) m by (auto split: if_splits)
      then show ?thesis using True base [OF nm] Cons.prems(1,2) m by simp
    next
      case False
      then have "c \<noteq> CHR ''-''" "simple_name n" using Cons.prems(1) by auto
      then have "d = c" using False cd by (auto split: if_splits)
      then show ?thesis using False Cons.IH [OF \<open>simple_name n\<close> _ nm] Cons.prems(2) m by simp
    qed
  qed simp
  then show "simple_name n \<Longrightarrow> simple_name m \<Longrightarrow> templateNameHash n = templateNameHash m \<Longrightarrow> n = m"
    unfolding templateNameHash_def same_append_eq by blast
qed

lemma named_templatesI:
  assumes "functional_in [] (concat tss)" and simple: "list_all (list_all (\<lambda>kt. simple_name (tp_name (snd kt)))) tss"
  shows "named_templates (set tss) (name_in tss)"
proof
  show "tp_name t = name_in tss k" if "ts \<in> set tss" "(k, t) \<in> set ts" for ts k t
    using functional_in_names [OF assms(1), of k t] that by (auto simp: name_in_def)
  have s: "simple_name (tp_name t)" if "ts \<in> set tss" "(k, t) \<in> set ts" for ts k t
    using simple that unfolding list_all_iff by force
  show "tp_name t = tp_name u"
    if "ts \<in> set tss" "us \<in> set tss" "(k, t) \<in> set ts" "(l, u) \<in> set us" "templateNameHash (tp_name t) = templateNameHash (tp_name u)" for ts us k t l u
    by (rule same_hash [OF s [OF that(1,3)] s [OF that(2,4)] that(5)])
qed

lemma up_tables_names: "functional_in [] (concat up_tables)"
  by code_simp

lemma up_tables_simple: "list_all (list_all (\<lambda>kt. simple_name (tp_name (snd kt)))) up_tables"
  by code_simp

lemma wat_tables_names: "functional_in [] (concat wat_tables)"
  by code_simp

lemma wat_tables_simple: "list_all (list_all (\<lambda>kt. simple_name (tp_name (snd kt)))) wat_tables"
  by code_simp

interpretation up_named: named_templates "set up_tables" "name_in up_tables"
  by (rule named_templatesI [OF up_tables_names up_tables_simple])

interpretation wat_named: named_templates "set wat_tables" "name_in wat_tables"
  by (rule named_templatesI [OF wat_tables_names wat_tables_simple])


text \<open>Answers in a given order of the positions they have among the loads under way.\<close>

definition come :: "(string \<Rightarrow> string) \<Rightarrow> nat list \<Rightarrow> loader \<Rightarrow> loader" where
  "come body is L = fold (template_loaded body) is L"

lemma come_reach:
  "ld_reach body fs L \<Longrightarrow> \<forall>n < length is. is ! n + n < length (ld_pending L) \<Longrightarrow> ld_reach body fs (come body is L)"
proof (induction "is" arbitrary: L)
  case (Cons i "is")
  have i: "i < length (ld_pending L)" using Cons.prems(2) by force
  have p: "length (ld_pending (template_loaded body i L)) = length (ld_pending L) - 1"
    using i by (simp add: template_loaded_def Let_def)
  have "\<forall>n < length is. is ! n + n < length (ld_pending (template_loaded body i L))"
    using Cons.prems(2) unfolding p by force
  then have "ld_reach body fs (come body is (template_loaded body i L))"
    using Cons.IH [OF ld_reach.comes [OF Cons.prems(1) i]] by blast
  then show ?case by (simp add: come_def)
qed (simp add: come_def)

text \<open>What such a sequence leaves, without the accounts of the views.\<close>

fun picks :: "nat list \<Rightarrow> 'a list \<Rightarrow> 'a list \<times> 'a list" where
  "picks [] ls = ([], ls)"
| "picks (i # is) ls = map_prod ((#) (ls ! i)) id (picks is (take i ls @ drop (Suc i) ls))"

lemma come_all:
  "ld_pending (come body is L) = snd (picks is (ld_pending L)) \<and>
   ld_store (come body is L) = fold (\<lambda>l. AList.update (lo_key l) (body (tp_name (lo_tpl l)))) (fst (picks is (ld_pending L))) (ld_store L) \<and>
   map jb_table (ld_jobs (come body is L)) = map jb_table (ld_jobs L)"
proof (induction "is" arbitrary: L)
  case (Cons i "is")
  have c: "come body (i # is) L = come body is (template_loaded body i L)" by (simp add: come_def)
  have "ld_pending (template_loaded body i L) = take i (ld_pending L) @ drop (Suc i) (ld_pending L)"
    "ld_store (template_loaded body i L) = AList.update (lo_key (ld_pending L ! i)) (body (tp_name (lo_tpl (ld_pending L ! i)))) (ld_store L)"
    by (simp_all add: template_loaded_def Let_def)
  then show ?case using Cons.IH [of "template_loaded body i L"] unfolding c by (simp add: tables_loaded)
qed (simp add: come_def)

lemmas come_sel = come_all [THEN conjunct1] come_all [THEN conjunct2, THEN conjunct1] come_all [THEN conjunct2, THEN conjunct2]

definition loads :: "nat \<Rightarrow> templates \<Rightarrow> tpl_load list" where
  "loads j ts = map (\<lambda>kt. \<lparr>lo_job = j, lo_key = fst kt, lo_tpl = snd kt\<rparr>) ts"

lemma empty_head_loads:
  assumes "ld_head L = []"
  shows "ld_pending (getTemplates ts L) = ld_pending L @ loads (length (ld_jobs L)) ts \<and> ld_head (getTemplates ts L) = [] \<and>
    ld_store (getTemplates ts L) = ld_store L"
proof -
  have "ld_head M = [] \<Longrightarrow> ld_pending (fold (get_template j) ts M) = ld_pending M @ loads j ts \<and> ld_head (fold (get_template j) ts M) = [] \<and>
    ld_store (fold (get_template j) ts M) = ld_store M" for M j
    by (induction ts arbitrary: M) (simp_all add: get_template_def loads_def)
  then show ?thesis using assms by (simp add: getTemplates_def)
qed

lemma details_plain:
  "q \<noteq> ''di'' \<Longrightarrow> details_templates q =
     [(''detailsCommon'', tpl ''details/common''), (''detailsFieldsCommon'', tpl ''details/common-fields''),
      (''detailsCommonProperties'', tpl ''details/common-properties''),
      (''details'', tpl (''details/'' @ q)), (''detailsSide'', tpl (''details/'' @ q @ ''-side'')),
      (''detailsFields'', tpl (''details/'' @ q @ ''-fields'')),
      (''layoutDesktop'', tpl ''details/layout-desktop''), (''layoutMobile'', tpl ''details/layout-mobile'')]"
  by (simp add: details_templates_def)

text \<open>The tables of the details share their keys among the kinds of element. When the details of one kind are opened before the
  templates of another kind have come, an answer to the view that was left can come last, and then the callback
  of the new view finds the template of the other kind.\<close>

theorem details_templates_race:
  assumes "q \<noteq> ''di''" and "r \<noteq> ''di''"
  shows "\<exists>L. ld_reach body [] L \<and> map jb_table (ld_jobs L) = [details_templates q, details_templates r] \<and>
    jb_calls (ld_jobs L ! 1) = 1 \<and> map_of (ld_store L) ''details'' = Some (body (''details/'' @ q))"
proof -
  let ?Q = "getTemplates (details_templates q) ld_init"
  let ?S = "getTemplates (details_templates r) ?Q" and ?is = "[8, 8, 8, 8, 8, 8, 8, 3, 7] :: nat list"
  let ?L = "come body ?is ?S"
  have jobs: "map jb_table (ld_jobs ?S) = [details_templates q, details_templates r]" "length (ld_jobs ?Q) = 1"
    unfolding tables_getTemplates length_getTemplates by (simp_all add: ld_init_def)
  have S: "ld_pending ?S = loads 0 (details_templates q) @ loads 1 (details_templates r)" "ld_store ?S = []"
    using empty_head_loads [of ld_init "details_templates q"] empty_head_loads [of ?Q "details_templates r"] jobs(2)
    by (simp_all add: ld_init_def)
  have "ld_reach body [] ?S" using assms by (intro ld_reach.intros) (simp_all add: details_plain)
  moreover have "length (ld_pending ?S) = 16" unfolding S using assms by (simp add: details_plain loads_def)
  ultimately have reach: "ld_reach body [] ?L" by (intro come_reach) (auto simp: less_Suc_eq numeral_eq_Suc)
  have tab: "map jb_table (ld_jobs ?L) = [details_templates q, details_templates r]" by (simp add: come_sel jobs)
  have "length (map jb_table (ld_jobs ?L)) = 2" unfolding tab by simp
  then have one: "1 < length (ld_jobs ?L)" unfolding length_map by simp
  have "map jb_table (ld_jobs ?L) ! 1 = details_templates r" unfolding tab by simp
  then have two: "jb_table (ld_jobs ?L ! 1) \<noteq> []" unfolding nth_map [OF one] using assms(2) by (simp add: details_plain)
  have "\<forall>l \<in> set (ld_pending ?L). lo_job l \<noteq> 1" "map_of (ld_store ?L) ''details'' = Some (body (''details/'' @ q))"
    unfolding come_sel S using assms by (simp_all add: details_plain loads_def)
  then show ?thesis using reach tab callback_run [OF reach one refl] two by auto
qed

section \<open>Examples\<close>

theorem details_templates_race_witness:
  "\<exists>L. ld_reach id [] L \<and> jb_calls (ld_jobs L ! 1) = 1 \<and> map_of (ld_store L) ''details'' = Some ''details/vm''"
  using details_templates_race [of "''vm''" "''user''" id] by auto

lemma login_loaded:
  "\<exists>L. ld_reach id [] L \<and> length (ld_jobs L) = 1 \<and> jb_table (ld_jobs L ! 0) = up_getTemplateList ''login'' (with_obj '''') \<and>
     jb_calls (ld_jobs L ! 0) = 1"
proof -
  let ?ts = "[(''login'', tpl ''login/login''), (''errorRefresh'', tpl ''error/refresh'')]"
  let ?L = "come id [1, 0] (getTemplates ?ts ld_init)"
  have ts: "up_getTemplateList ''login'' (with_obj '''') = ?ts" by code_simp
  have S: "ld_pending (getTemplates ?ts ld_init) = loads 0 ?ts"
    using empty_head_loads [of ld_init ?ts] by (simp add: ld_init_def)
  have "ld_reach id [] (getTemplates ?ts ld_init)" by (intro ld_reach.intros) simp_all
  then have reach: "ld_reach id [] ?L" by (intro come_reach) (auto simp: less_Suc_eq S loads_def)
  have "map jb_table (ld_jobs ?L) = [?ts]" by (simp add: come_sel tables_getTemplates ld_init_def)
  then have one: "length (ld_jobs ?L) = 1" "jb_table (ld_jobs ?L ! 0) = ?ts" by auto
  have "set (ld_pending ?L) = {}" unfolding come_sel S by (simp add: loads_def)
  moreover have "0 < length (ld_jobs ?L)" using one(1) by simp
  ultimately have "jb_calls (ld_jobs ?L ! 0) = 1" using callback_run [OF reach _ refl, of 0] one(2) by auto
  then show ?thesis unfolding ts using reach one by blast
qed

theorem callback_once_witness:
  "\<exists>L. ld_reach id [] L \<and> jb_calls (ld_jobs L ! 0) = 1 \<and> (\<forall>l \<in> set (ld_pending L). lo_job l \<noteq> 0)"
proof -
  obtain L where L: "ld_reach id [] L" "length (ld_jobs L) = 1" "jb_calls (ld_jobs L ! 0) = 1"
    using login_loaded by blast
  have "0 < length (ld_jobs L)" using L(2) by simp
  from callback_once [OF L(1) this refl] L(3) have "\<forall>l \<in> set (ld_pending L). lo_job l \<noteq> 0" by simp
  then show ?thesis using L(1,3) by blast
qed


end
