(* ===== verification/Messages.thy ===== *)
theory Messages
  imports WsUpdates
begin

text \<open>
  The box of messages of the two applications, \<open>Wat.I.M\<close> and \<open>Up.I.M\<close> (\<open>interface/interface-messages.js\<close>), with the events
  of the mouse on it (\<open>messageBinds\<close> of \<open>binds/binds.js\<close>): which text a failed call gets, and which timers close
  the box. The two modules differ in the messages they close by themselves and in how they group failures.

  \<open>t\<close> is the translation of i18next. Texts of the API are put into the page as they come.
\<close>

section \<open>Keys of an object in the order they are walked\<close>

text \<open>The keys that are natural numbers come first, in ascending order, and then the others in the order of insertion.\<close>

definition key_num :: "string \<Rightarrow> int option" where
  "key_num k = (case digits_num k of None \<Rightarrow> None | Some n \<Rightarrow> if num_str n = k then Some n else None)"

definition walk_order :: "(string \<times> 'a) list \<Rightarrow> (string \<times> 'a) list" where
  "walk_order ps =
     sort_key (\<lambda>p. the (key_num (fst p))) (filter (\<lambda>p. key_num (fst p) \<noteq> None) ps) @
     filter (\<lambda>p. key_num (fst p) = None) ps"

lemma mset_walk_order [simp]: "mset (walk_order ps) = mset ps"
proof -
  have "mset (filter P ps) + mset (filter (\<lambda>p. \<not> P p) ps) = mset ps" for P :: "string \<times> 'a \<Rightarrow> bool"
    by (induction ps) auto
  from this [of "\<lambda>p. key_num (fst p) \<noteq> None"] show ?thesis by (simp add: walk_order_def)
qed

lemma set_walk_order [simp]: "set (walk_order ps) = set ps"
  by (metis mset_walk_order set_mset_mset)

section \<open>The text of failures\<close>

record failure =
  fl_id :: string
  fl_status :: js
  fl_message :: js

definition failure_of :: "string \<times> js \<Rightarrow> js_error + failure" where
  "failure_of p =
     (case (js_prop (snd p) ''status'', js_prop (snd p) ''message'') of
        (Inr s, Inr m) \<Rightarrow> Inr \<lparr>fl_id = fst p, fl_status = s, fl_message = m\<rparr>
      | (Inl e, _) \<Rightarrow> Inl e
      | (_, Inl e) \<Rightarrow> Inl e)"

fun failures_of :: "(string \<times> js) list \<Rightarrow> js_error + failure list" where
  "failures_of [] = Inr []"
| "failures_of (p # ps) =
     (case failure_of p of Inl e \<Rightarrow> Inl e | Inr f \<Rightarrow> map_sum id (Cons f) (failures_of ps))"

text \<open>The lists of identifiers by key, as the loop fills them.\<close>

definition add_failure :: "(failure \<Rightarrow> string) \<Rightarrow> failure \<Rightarrow> (string \<times> string list) list \<Rightarrow> (string \<times> string list) list" where
  "add_failure key f g =
     AList.update (key f) ((case map_of g (key f) of None \<Rightarrow> [] | Some ids \<Rightarrow> ids) @ [fl_id f]) g"

definition group_failures :: "(failure \<Rightarrow> string) \<Rightarrow> failure list \<Rightarrow> (string \<times> string list) list" where
  "group_failures key fs = fold (add_failure key) fs []"

definition failures_text :: "failure list \<Rightarrow> (string \<times> string) list" where
  "failures_text fs = fold (\<lambda>f. AList.update (js_str (fl_status f)) (js_str (fl_message f))) fs []"

text \<open>The list of the page: \<open>cls\<close> is the class of the icon of the menu, \<open>row\<close> the name in the row of an element.\<close>

definition failure_item :: "string \<Rightarrow> (string \<Rightarrow> string) \<Rightarrow> string \<Rightarrow> string" where
  "failure_item cls row i =
     ''<li class=\"'' @ cls @ ''\">'' @ (if row i = '''' then ''(ID: '' @ i @ '')'' else row i) @ ''</li>''"

definition failure_group :: "string \<Rightarrow> (string \<Rightarrow> string) \<Rightarrow> string \<Rightarrow> string list \<Rightarrow> string" where
  "failure_group cls row msg ids =
     ''<li><i class=\"fa fa-angle-double-right strong\" data-i18n=\"'' @ msg @ ''\">'' @ msg @ ''</i><ul>'' @
     concat (map (failure_item cls row) ids) @ ''</ul></li>''"

definition getTextFromFailures :: "string \<Rightarrow> (string \<Rightarrow> string) \<Rightarrow> failure list \<Rightarrow> string" where
  "getTextFromFailures cls row fs =
     ''<ul>'' @
     concat (map (\<lambda>(st, ids). failure_group cls row (case map_of (failures_text fs) st of Some m \<Rightarrow> m | None \<Rightarrow> ''undefined'') ids)
       (walk_order (group_failures (\<lambda>f. js_str (fl_status f)) fs))) @
     ''</ul>''"

definition up_getTextFromFailures :: "string \<Rightarrow> (string \<Rightarrow> string) \<Rightarrow> failure list \<Rightarrow> string" where
  "up_getTextFromFailures cls row fs =
     ''<ul>'' @
     concat (map (\<lambda>(msg, ids). failure_group cls row msg ids) (walk_order (group_failures (\<lambda>f. js_str (fl_message f)) fs))) @
     ''</ul>''"

section \<open>The box\<close>

record message =
  mg_message :: js
  mg_type :: string
  mg_expanded :: js

text \<open>What differs between the applications: the types that are closed automatically, the text of the message of a
  response, and the list of failures.\<close>

record msg_style =
  ms_auto :: "string \<Rightarrow> bool"
  ms_strong :: "js \<Rightarrow> string"
  ms_failures :: "failure list \<Rightarrow> string"

definition wat_style :: "string \<Rightarrow> (string \<Rightarrow> string) \<Rightarrow> msg_style" where
  "wat_style cls row =
     \<lparr>ms_auto = (\<lambda>ty. ty \<noteq> ''error'' \<and> ty \<noteq> ''warning''),
      ms_strong = (\<lambda>m. ''<strong data-i18n=\"'' @ js_str m @ ''\">'' @ js_str m @ ''</strong> <br/><br/>''),
      ms_failures = getTextFromFailures cls row\<rparr>"

text \<open>In the portal \<open>api_t\<close> is the translation of a response of the API, without its prefix.\<close>

definition up_style :: "(string \<Rightarrow> string) \<Rightarrow> string \<Rightarrow> (string \<Rightarrow> string) \<Rightarrow> msg_style" where
  "up_style api_t cls row =
     \<lparr>ms_auto = (\<lambda>ty. ty = ''success''),
      ms_strong = (\<lambda>m. ''<strong>'' @ api_t (js_str m) @ ''</strong> <br/><br/>''),
      ms_failures = up_getTextFromFailures cls row\<rparr>"

definition response_failures :: "msg_style \<Rightarrow> js \<Rightarrow> js_error + string" where
  "response_failures S response =
     (case js_prop response ''failures'' of
        Inl e \<Rightarrow> Inl e
      | Inr (JObj []) \<Rightarrow> Inr ''''
      | Inr (JObj ps) \<Rightarrow> map_sum id (\<lambda>fs. ms_failures S fs @ ''<br/>'') (failures_of (walk_order ps))
      | Inr _ \<Rightarrow> Inr '''')"

definition processMessage :: "msg_style \<Rightarrow> message \<Rightarrow> js \<Rightarrow> js_error + message" where
  "processMessage S msg response =
     (if \<not> truthy response then Inr msg
      else
        (case js_prop response ''message'' of
           Inl e \<Rightarrow> Inl e
         | Inr rm \<Rightarrow>
             (let m1 = (if truthy (mg_message msg) then msg else msg\<lparr>mg_message := rm\<rparr>)
              in if mg_type msg \<noteq> ''error'' then Inr m1
                 else
                   (let e0 = (if truthy (mg_expanded msg) then js_str (mg_expanded msg) else '''');
                        e1 = (if \<not> loose_eq rm (mg_message m1) \<and> truthy rm then e0 @ ms_strong S rm else e0)
                    in map_sum id (\<lambda>fs. m1\<lparr>mg_expanded := JStr (e1 @ fs)\<rparr>) (response_failures S response)))))"

text \<open>The container: whether it is shown, its class, the article of the expanded part (if any) with its visibility, and
  the timers. A handle that was cleared or has fired stays in \<open>messageTimeout\<close>.\<close>

record msg_box =
  mb_shown :: bool
  mb_type :: string
  mb_summary :: string
  mb_article :: "(string \<times> bool) option"
  mb_handle :: "nat option"
  mb_timers :: "nat list"
  mb_next :: nat

definition clearMessageTimeout :: "msg_box \<Rightarrow> msg_box" where
  "clearMessageTimeout b =
     (case mb_handle b of None \<Rightarrow> b | Some h \<Rightarrow> b\<lparr>mb_timers := removeAll h (mb_timers b)\<rparr>)"

definition start_timeout :: "msg_box \<Rightarrow> msg_box" where
  "start_timeout b = b\<lparr>mb_handle := Some (mb_next b), mb_timers := mb_timers b @ [mb_next b], mb_next := Suc (mb_next b)\<rparr>"

definition setMessageTimeout :: "msg_box \<Rightarrow> msg_box" where
  "setMessageTimeout b = start_timeout (clearMessageTimeout b)"

definition closeMessage :: "msg_box \<Rightarrow> msg_box" where
  "closeMessage b = (clearMessageTimeout b)\<lparr>mb_shown := False\<rparr>"

definition showMessage :: "msg_style \<Rightarrow> (string \<Rightarrow> string) \<Rightarrow> message \<Rightarrow> js \<Rightarrow> msg_box \<Rightarrow> js_error + msg_box" where
  "showMessage S t msg response b =
     (case processMessage S msg response of
        Inl e \<Rightarrow> Inl e
      | Inr m \<Rightarrow>
          (let b1 = (clearMessageTimeout b)\<lparr>mb_shown := True, mb_type := mg_type m, mb_summary := t (js_str (mg_message m)),
                      mb_article := (if truthy (mg_expanded m) then Some (js_str (mg_expanded m), False) else None)\<rparr>
           in Inr (if ms_auto S (mg_type m) then start_timeout b1 else b1)))"

text \<open>A timer that runs out, and the events of the mouse. Without an article \<open>css('display')\<close> is \<open>undefined\<close>, which is
  not \<open>none\<close>.\<close>

definition timer_fires :: "nat \<Rightarrow> msg_box \<Rightarrow> msg_box" where
  "timer_fires h b = closeMessage (b\<lparr>mb_timers := removeAll h (mb_timers b)\<rparr>)"

definition toggleExtendedMessage :: "msg_box \<Rightarrow> msg_box" where
  "toggleExtendedMessage b =
     (clearMessageTimeout b)\<lparr>mb_article := map_option (\<lambda>(s, vis). (s, \<not> vis)) (mb_article b)\<rparr>"

definition hoverInMessage :: "msg_box \<Rightarrow> msg_box" where
  "hoverInMessage b = clearMessageTimeout b"

definition hoverOutMessage :: "msg_box \<Rightarrow> msg_box" where
  "hoverOutMessage b =
     (case mb_article b of
        Some (s, False) \<Rightarrow> if mb_type b \<noteq> ''error'' then setMessageTimeout b else b
      | _ \<Rightarrow> b)"

section \<open>Failures are listed once\<close>

lemma map_of_add_failure:
  "map_of (add_failure key f g) k =
     (if k = key f then Some ((case map_of g k of None \<Rightarrow> [] | Some ids \<Rightarrow> ids) @ [fl_id f]) else map_of g k)"
  by (simp add: add_failure_def)

lemma group_fold:
  "map_of (fold (add_failure key) fs g) k =
     (let ids = map fl_id (filter (\<lambda>f. key f = k) fs)
      in if ids = [] then map_of g k else Some ((case map_of g k of None \<Rightarrow> [] | Some is \<Rightarrow> is) @ ids))"
proof (induction fs arbitrary: g)
  case (Cons f fs)
  then show ?case by (auto simp: map_of_add_failure Let_def split: option.splits)
qed simp

lemma group_distinct: "distinct (map fst g) \<Longrightarrow> distinct (map fst (fold (add_failure key) fs g))"
  by (induction fs arbitrary: g) (simp_all add: add_failure_def)

text \<open>The groups are those of the failures with the same key, in the order of the failures.\<close>

lemma group_failures_spec:
  "(k, ids) \<in> set (group_failures key fs) \<longleftrightarrow> ids \<noteq> [] \<and> ids = map fl_id (filter (\<lambda>f. key f = k) fs)"
proof -
  have d: "distinct (map fst (group_failures key fs))" unfolding group_failures_def by (rule group_distinct) simp
  have "(k, ids) \<in> set (group_failures key fs) \<longleftrightarrow> map_of (group_failures key fs) k = Some ids"
    using d by (simp add: map_of_eq_Some_iff)
  also have "\<dots> \<longleftrightarrow> ids \<noteq> [] \<and> ids = map fl_id (filter (\<lambda>f. key f = k) fs)"
    unfolding group_failures_def group_fold by (auto simp: Let_def)
  finally show ?thesis .
qed

lemma failures_text_last:
  "map_of (failures_text fs) st =
     (case rev (filter (\<lambda>f. js_str (fl_status f) = st) fs) of [] \<Rightarrow> None | f # _ \<Rightarrow> Some (js_str (fl_message f)))"
proof -
  have "map_of (fold (\<lambda>f. AList.update (js_str (fl_status f)) (js_str (fl_message f))) fs g) st =
     (case rev (filter (\<lambda>f. js_str (fl_status f) = st) fs) of [] \<Rightarrow> map_of g st | f # _ \<Rightarrow> Some (js_str (fl_message f)))" for g
  proof (induction fs arbitrary: g)
    case (Cons f fs)
    then show ?case by (auto split: list.splits simp: Cons_eq_append_conv append_eq_Cons_conv)
  qed simp
  from this [of "[]"] show ?thesis unfolding failures_text_def by (simp only: map_of.simps)
qed

text \<open>Every failed element is listed once. The panel lists it under its status, with the message of the last failure of
  that status; the portal under its own message.\<close>

theorem failures_listed:
  assumes "f \<in> set fs"
  shows "(\<exists>!g. g \<in> set (walk_order (group_failures (\<lambda>f. js_str (fl_status f)) fs)) \<and> fst g = js_str (fl_status f)) \<and>
    (\<forall>st ids. (st, ids) \<in> set (walk_order (group_failures (\<lambda>f. js_str (fl_status f)) fs)) \<longrightarrow>
       ids = map fl_id (filter (\<lambda>f. js_str (fl_status f) = st) fs) \<and>
       map_of (failures_text fs) st = Some (js_str (fl_message (last (filter (\<lambda>f. js_str (fl_status f) = st) fs))))) \<and>
    (\<forall>m ids. (m, ids) \<in> set (walk_order (group_failures (\<lambda>f. js_str (fl_message f)) fs)) \<longrightarrow>
       ids = map fl_id (filter (\<lambda>f. js_str (fl_message f) = m) fs))"
proof (intro conjI allI impI)
  show "\<exists>!g. g \<in> set (walk_order (group_failures (\<lambda>f. js_str (fl_status f)) fs)) \<and> fst g = js_str (fl_status f)"
  proof (rule ex1I [of _ "(js_str (fl_status f), map fl_id (filter (\<lambda>g. js_str (fl_status g) = js_str (fl_status f)) fs))"])
    show "(js_str (fl_status f), map fl_id (filter (\<lambda>g. js_str (fl_status g) = js_str (fl_status f)) fs))
        \<in> set (walk_order (group_failures (\<lambda>f. js_str (fl_status f)) fs)) \<and>
      fst (js_str (fl_status f), map fl_id (filter (\<lambda>g. js_str (fl_status g) = js_str (fl_status f)) fs)) = js_str (fl_status f)"
      using assms by (auto simp: group_failures_spec filter_empty_conv)
  qed (auto simp: group_failures_spec)
next
  fix st ids assume "(st, ids) \<in> set (walk_order (group_failures (\<lambda>f. js_str (fl_status f)) fs))"
  then have g: "ids \<noteq> [] \<and> ids = map fl_id (filter (\<lambda>f. js_str (fl_status f) = st) fs)" unfolding set_walk_order group_failures_spec .
  then show "ids = map fl_id (filter (\<lambda>f. js_str (fl_status f) = st) fs)" ..
  let ?F = "filter (\<lambda>f. js_str (fl_status f) = st) fs"
  have "?F \<noteq> []" using g by force
  then obtain as z where F: "?F = as @ [z]" by (metis rev_exhaust)
  show "map_of (failures_text fs) st = Some (js_str (fl_message (last ?F)))" unfolding failures_text_last F by simp
qed (simp add: group_failures_spec)

section \<open>Which timers close the box\<close>

text \<open>The life of the box: messages, a timer that runs out, the button to close it, and the mouse.\<close>

definition box_init :: msg_box where
  "box_init = \<lparr>mb_shown = False, mb_type = '''', mb_summary = '''', mb_article = None, mb_handle = None, mb_timers = [], mb_next = 0\<rparr>"

inductive box_reach :: "msg_style \<Rightarrow> (string \<Rightarrow> string) \<Rightarrow> msg_box \<Rightarrow> bool" for S t where
  hidden: "box_reach S t box_init"
| shows_message: "box_reach S t b \<Longrightarrow> showMessage S t m r b = Inr b' \<Longrightarrow> box_reach S t b'"
| times_out: "box_reach S t b \<Longrightarrow> h \<in> set (mb_timers b) \<Longrightarrow> box_reach S t (timer_fires h b)"
| closes: "box_reach S t b \<Longrightarrow> box_reach S t (closeMessage b)"
| toggles: "box_reach S t b \<Longrightarrow> mb_shown b \<Longrightarrow> box_reach S t (toggleExtendedMessage b)"
| hovers_in: "box_reach S t b \<Longrightarrow> mb_shown b \<Longrightarrow> box_reach S t (hoverInMessage b)"
| hovers_out: "box_reach S t b \<Longrightarrow> mb_shown b \<Longrightarrow> box_reach S t (hoverOutMessage b)"

text \<open>At most one timer runs, the one of the handle, and none on an error.\<close>

definition box_ok :: "msg_box \<Rightarrow> bool" where
  "box_ok b \<longleftrightarrow> (mb_timers b = [] \<or> (\<exists>h. mb_handle b = Some h \<and> mb_timers b = [h] \<and> mb_shown b \<and> mb_type b \<noteq> ''error''))"

lemma clear_sel [simp]:
  "mb_shown (clearMessageTimeout b) = mb_shown b" "mb_type (clearMessageTimeout b) = mb_type b"
  "mb_handle (clearMessageTimeout b) = mb_handle b" "mb_article (clearMessageTimeout b) = mb_article b"
  by (simp_all add: clearMessageTimeout_def split: option.splits)

lemma clear_ok: "box_ok b \<Longrightarrow> mb_timers (clearMessageTimeout b) = []"
  by (auto simp: box_ok_def clearMessageTimeout_def split: option.splits)

locale message_box =
  fixes S :: msg_style
  assumes errors_stay: "\<not> ms_auto S ''error''"
begin

lemma show_ok: "box_ok b \<Longrightarrow> showMessage S t m r b = Inr b' \<Longrightarrow> box_ok b'"
proof -
  assume b: "box_ok b" and s: "showMessage S t m r b = Inr b'"
  from s obtain m' where "processMessage S m r = Inr m'" by (auto simp: showMessage_def split: sum.splits)
  then show ?thesis using s clear_ok [OF b] errors_stay
    by (auto simp: showMessage_def Let_def box_ok_def start_timeout_def split: if_splits)
qed

lemma reach_ok: "box_reach S t b \<Longrightarrow> box_ok b"
proof (induction rule: box_reach.induct)
  case hidden
  then show ?case by (simp add: box_ok_def box_init_def)
next
  case (shows_message b m r b')
  then show ?case using show_ok by blast
next
  case (times_out b h)
  then have "box_ok (b\<lparr>mb_timers := removeAll h (mb_timers b)\<rparr>)" by (auto simp: box_ok_def)
  then show ?case using clear_ok by (simp add: timer_fires_def closeMessage_def box_ok_def)
next
  case (closes b)
  then show ?case using clear_ok [of b] by (simp add: closeMessage_def box_ok_def)
next
  case (toggles b)
  then show ?case using clear_ok [of b] by (simp add: toggleExtendedMessage_def box_ok_def)
next
  case (hovers_in b)
  then show ?case using clear_ok [of b] by (simp add: hoverInMessage_def box_ok_def)
next
  case (hovers_out b)
  then show ?case using clear_ok [of b]
    by (auto simp: hoverOutMessage_def setMessageTimeout_def start_timeout_def box_ok_def split: option.splits bool.splits)
qed

end

interpretation wat_box: message_box "wat_style cls row"
  by unfold_locales (simp add: wat_style_def)

interpretation up_box: message_box "up_style api_t cls row"
  by unfold_locales (simp add: up_style_def)


text \<open>A message without an expanded part that the mouse has passed over is not closed any more: leaving it does not set its timer
  again, although the timer was taken away on entering.\<close>

theorem hovered_message_stays:
  assumes "box_reach (wat_style cls row) t b" and "mb_article b = None"
  shows "mb_timers (hoverOutMessage (hoverInMessage b)) = []"
  using clear_ok [OF wat_box.reach_ok [OF assms(1)]] assms(2) by (simp add: hoverInMessage_def hoverOutMessage_def)

definition saved_message :: message where
  "saved_message = \<lparr>mg_message = JStr ''Successfully updated'', mg_type = ''success'', mg_expanded = Undef\<rparr>"

lemma saved_reached:
  "\<exists>b. box_reach (wat_style [] (\<lambda>i. [])) id b \<and> mb_timers b = [0] \<and> mb_article b = None"
proof -
  obtain b where "showMessage (wat_style [] (\<lambda>i. [])) id saved_message Undef box_init = Inr b" "mb_timers b = [0]" "mb_article b = None"
    by (simp add: showMessage_def processMessage_def saved_message_def clearMessageTimeout_def box_init_def start_timeout_def wat_style_def)
  then show ?thesis using box_reach.shows_message [OF box_reach.hidden] by blast
qed


theorem hovered_message_stays_witness:
  "\<exists>b. mb_timers b = [0] \<and> mb_timers (hoverOutMessage (hoverInMessage b)) = []"
  using saved_reached hovered_message_stays by blast

theorem failures_listed_witness:
  "(''3'', [''10'']) \<in> set (walk_order (group_failures (\<lambda>f. js_str (fl_status f))
      [\<lparr>fl_id = ''10'', fl_status = JNum 3, fl_message = JStr ''a''\<rparr>])) \<and>
   map_of (failures_text [\<lparr>fl_id = ''10'', fl_status = JNum 3, fl_message = JStr ''a''\<rparr>]) ''3'' = Some ''a''"
proof -
  let ?f = "\<lparr>fl_id = ''10'', fl_status = JNum 3, fl_message = JStr ''a''\<rparr>"
  have s: "js_str (fl_status ?f) = ''3''" by code_simp
  have "(''3'', [''10'']) \<in> set (walk_order (group_failures (\<lambda>f. js_str (fl_status f)) [?f]))" using s by (simp add: group_failures_spec)
  moreover from this have "map_of (failures_text [?f]) ''3'' =
      Some (js_str (fl_message (last (filter (\<lambda>f. js_str (fl_status f) = ''3'') [?f]))))"
    using failures_listed [of ?f "[?f]"] by force
  ultimately show ?thesis using s by simp
qed

end
