(* ===== verification/Properties.thy ===== *)
theory Properties
  imports WsUpdates
begin

text \<open>
  The view of the properties (\<open>wat/lib/bb-views/wat-management/property.js\<close>): a table with a row for each property and a check box
  for each kind of element that can have it, filtered by a kind. A click on a box sends a call of the API that
  creates or deletes the link between property and kind; the answer changes the row.

  The calls under way are \<open>pw_pending\<close>. The other side is the API's own code: \<open>link_server\<close> is the table of links
  (\<open>ext/QVD-DB\<close>, \<open>QVD_Object_Property_List.pm\<close>), \<open>serve\<close> what the two calls do to it (\<open>ext/QVD-API\<close>, \<open>API.pm\<close>) and what they
  answer, \<open>link_id\<close> what the list of properties holds for each kind (\<open>Property_List.pm\<close>). The two sides disagree on what the
  answer of a creation holds, and the theorems show what follows.
\<close>

section \<open>The view\<close>

text \<open>\<open>bx_in\<close> is the attribute with the identifier of the link, 0 when there is none.\<close>

record prop_box =
  bx_checked :: bool
  bx_in :: int

record prop_row =
  pr_classes :: "string list"
  pr_shown :: bool
  pr_boxes :: "(string \<times> prop_box) list"

datatype prop_req = CreateLink int string | DeleteLink int int string

record prop_view =
  pw_filter :: string
  pw_rows :: "(int \<times> prop_row) list"
  pw_zero :: bool
  pw_pending :: "prop_req list"
  pw_messages :: "string list"
  pw_thrown :: "js_error list"

definition prop_objs :: "bool \<Rightarrow> string list" where
  "prop_objs hostPropertiesEnabled =
     [''user'', ''vm''] @ (if hostPropertiesEnabled then [''host''] else []) @ [''osf'', ''di'']"

text \<open>The constant \<open>QVD_OBJS_WITH_PROPERTIES\<close>.\<close>

definition prop_kinds :: "string list" where
  "prop_kinds = [''user'', ''vm'', ''host'', ''osf'', ''di'']"

text \<open>The list as the template draws it: a property comes from the API with the identifiers of its links.\<close>

definition draw_row :: "bool \<Rightarrow> string \<Rightarrow> (string \<Rightarrow> int) \<Rightarrow> prop_row" where
  "draw_row host selectedObj ins =
     \<lparr>pr_classes = filter (\<lambda>q. ins q \<noteq> 0) prop_kinds,
      pr_shown = (selectedObj \<notin> set prop_kinds \<or> ins selectedObj \<noteq> 0),
      pr_boxes = map (\<lambda>q. (q, \<lparr>bx_checked = (ins q \<noteq> 0), bx_in = ins q\<rparr>)) (prop_objs host)\<rparr>"

definition renderPropertyList :: "bool \<Rightarrow> string \<Rightarrow> (int \<times> (string \<Rightarrow> int)) list \<Rightarrow> prop_view" where
  "renderPropertyList host selectedObj props =
     \<lparr>pw_filter = selectedObj, pw_rows = map (\<lambda>(p, ins). (p, draw_row host selectedObj ins)) props,
      pw_zero = (props = []), pw_pending = [], pw_messages = [], pw_thrown = []\<rparr>"

definition on_row :: "int \<Rightarrow> (prop_row \<Rightarrow> prop_row) \<Rightarrow> prop_view \<Rightarrow> prop_view" where
  "on_row p f V = V\<lparr>pw_rows := AList.map_entry p f (pw_rows V)\<rparr>"

definition on_box :: "string \<Rightarrow> (prop_box \<Rightarrow> prop_box) \<Rightarrow> prop_row \<Rightarrow> prop_row" where
  "on_box q f r = r\<lparr>pr_boxes := AList.map_entry q f (pr_boxes r)\<rparr>"

definition no_class :: "string \<Rightarrow> prop_view \<Rightarrow> bool" where
  "no_class q V = list_all (\<lambda>(p, r). q \<notin> set (pr_classes r)) (pw_rows V)"

text \<open>Choosing a kind in the select.\<close>

definition changeObjSelect :: "string \<Rightarrow> prop_view \<Rightarrow> prop_view" where
  "changeObjSelect s V =
     (if s = ''all''
      then V\<lparr>pw_filter := s, pw_rows := map (\<lambda>(p, r). (p, r\<lparr>pr_shown := True\<rparr>)) (pw_rows V), pw_zero := (pw_rows V = [])\<rparr>
      else V\<lparr>pw_filter := s, pw_rows := map (\<lambda>(p, r). (p, r\<lparr>pr_shown := (s \<in> set (pr_classes r))\<rparr>)) (pw_rows V),
             pw_zero := no_class s V\<rparr>)"

text \<open>A click: the browser flips the box, and the handler sends the call.\<close>

definition checkProperty :: "int \<Rightarrow> string \<Rightarrow> prop_view \<Rightarrow> prop_view" where
  "checkProperty p q V =
     (case map_of (pw_rows V) p of
        None \<Rightarrow> V
      | Some r \<Rightarrow>
          (case map_of (pr_boxes r) q of
             None \<Rightarrow> V
           | Some b \<Rightarrow>
               (on_row p (on_box q (\<lambda>b. b\<lparr>bx_checked := \<not> bx_checked b\<rparr>)) V)\<lparr>pw_pending := pw_pending V @
                  [if \<not> bx_checked b then CreateLink p q else DeleteLink (bx_in b) p q]\<rparr>))"

text \<open>The answers: a success with the identifiers of its rows, or a refusal. The handler of a creation reads the first row; without one it
  throws, after the message and the class.\<close>

datatype prop_answer = Denied | Rows "int list"

definition say :: "string \<Rightarrow> prop_view \<Rightarrow> prop_view" where
  "say m V = V\<lparr>pw_messages := pw_messages V @ [m]\<rparr>"

fun property_answer :: "prop_req \<Rightarrow> prop_answer \<Rightarrow> prop_view \<Rightarrow> prop_view" where
  "property_answer (CreateLink p q) (Rows ids) V =
     (let V1 = on_row p (\<lambda>r. r\<lparr>pr_classes := (if q \<in> set (pr_classes r) then pr_classes r else pr_classes r @ [q])\<rparr>)
                 (say ''Successfully created'' V)
      in case ids of
           [] \<Rightarrow> V1\<lparr>pw_thrown := pw_thrown V1 @ [TypeError]\<rparr>
         | n # _ \<Rightarrow> on_row p (on_box q (\<lambda>b. b\<lparr>bx_in := n\<rparr>)) V1)"
| "property_answer (DeleteLink i p q) (Rows ids) V =
     (let V1 = on_row p (\<lambda>r. r\<lparr>pr_classes := removeAll q (pr_classes r)\<rparr>) (say ''Successfully deleted'' V);
          V2 = (if pw_filter V1 = q
                then (on_row p (\<lambda>r. r\<lparr>pr_shown := False\<rparr>) V1)\<lparr>pw_zero := (pw_zero V1 \<or> no_class q V1)\<rparr> else V1)
      in on_row p (on_box q (\<lambda>b. b\<lparr>bx_in := 0\<rparr>)) V2)"
| "property_answer (CreateLink p q) Denied V = say ''Error creating'' V"
| "property_answer (DeleteLink i p q) Denied V = say ''Error deleting'' V"

text \<open>The API: a table of links with its own identifiers, at most one for a property and a kind. A creation answers without rows
  (\<open>assign_property\<close>); a deletion of nothing is refused with the code 1300.\<close>

record link_server =
  ln_links :: "(int \<times> int \<times> string) list"
  ln_next :: int

definition linked :: "link_server \<Rightarrow> int \<Rightarrow> string \<Rightarrow> bool" where
  "linked s p q \<longleftrightarrow> (p, q) \<in> snd ` set (ln_links s)"

definition assign_property :: "int \<Rightarrow> string \<Rightarrow> link_server \<Rightarrow> link_server \<times> prop_answer" where
  "assign_property p q s =
     (if linked s p q then (s, Denied)
      else (s\<lparr>ln_links := (ln_next s, p, q) # ln_links s, ln_next := ln_next s + 1\<rparr>, Rows []))"

definition delete_links :: "int \<Rightarrow> string \<Rightarrow> link_server \<Rightarrow> link_server \<times> prop_answer" where
  "delete_links i q s =
     (let found = filter (\<lambda>l. fst l = i \<and> snd (snd l) = q) (ln_links s)
      in if found = [] then (s, Denied) else (s\<lparr>ln_links := filter (\<lambda>l. l \<notin> set found) (ln_links s)\<rparr>, Rows []))"

fun serve :: "prop_req \<Rightarrow> link_server \<Rightarrow> link_server \<times> prop_answer" where
  "serve (CreateLink p q) s = assign_property p q s"
| "serve (DeleteLink i p q) s = delete_links i q s"

text \<open>The attributes \<open>in_user\<close>, \<open>in_vm\<close> and so on of a property.\<close>

definition link_id :: "link_server \<Rightarrow> int \<Rightarrow> string \<Rightarrow> int" where
  "link_id s p q = (case find (\<lambda>l. snd l = (p, q)) (ln_links s) of None \<Rightarrow> 0 | Some l \<Rightarrow> fst l)"

definition box_of :: "prop_view \<Rightarrow> int \<Rightarrow> string \<Rightarrow> prop_box option" where
  "box_of V p q = Option.bind (map_of (pw_rows V) p) (\<lambda>r. map_of (pr_boxes r) q)"

text \<open>The first call under way is answered: served, or refused without effect (a session that ended, a privilege, a foreign key).\<close>

definition property_served :: "prop_view \<Rightarrow> link_server \<Rightarrow> prop_view \<times> link_server" where
  "property_served V s =
     (case pw_pending V of
        [] \<Rightarrow> (V, s)
      | r # rs \<Rightarrow> (let (s1, a) = serve r s in (property_answer r a (V\<lparr>pw_pending := rs\<rparr>), s1)))"

definition property_refused :: "prop_view \<Rightarrow> prop_view" where
  "property_refused V = (case pw_pending V of [] \<Rightarrow> V | r # rs \<Rightarrow> property_answer r Denied (V\<lparr>pw_pending := rs\<rparr>))"

definition denied :: "prop_view \<Rightarrow> link_server \<Rightarrow> bool" where
  "denied V s = (case pw_pending V of [] \<Rightarrow> False | r # rs \<Rightarrow> snd (serve r s) = Denied)"

section \<open>Rounds of clicks and answers\<close>

definition server_ok :: "link_server \<Rightarrow> bool" where
  "server_ok s \<longleftrightarrow> distinct (map fst (ln_links s)) \<and> distinct (map snd (ln_links s)) \<and> (\<forall>l \<in> set (ln_links s). 0 < fst l \<and> fst l < ln_next s) \<and> 0 < ln_next s"

text \<open>A box that is checked is one of a link, and has either its identifier or none.\<close>

definition boxes_agree :: "prop_view \<Rightarrow> link_server \<Rightarrow> bool" where
  "boxes_agree V s \<longleftrightarrow>
     (\<forall>p q b. box_of V p q = Some b \<longrightarrow> (bx_checked b \<longleftrightarrow> linked s p q) \<and>
        (bx_in b = 0 \<or> bx_checked b \<and> (bx_in b, p, q) \<in> set (ln_links s)))"

text \<open>The class that a row has for each kind tells whether it is linked.\<close>

definition classes_agree :: "prop_view \<Rightarrow> link_server \<Rightarrow> bool" where
  "classes_agree V s \<longleftrightarrow>
     (\<forall>p r. map_of (pw_rows V) p = Some r \<longrightarrow> (\<forall>q \<in> set prop_kinds. q \<in> set (pr_classes r) \<longleftrightarrow> linked s p q))"

text \<open>The rows that are shown are those of the chosen kind, and the note is shown when there are none.\<close>

definition rows_fit :: "prop_view \<Rightarrow> bool" where
  "rows_fit V \<longleftrightarrow> distinct (map fst (pw_rows V)) \<and>
     (\<forall>p r. map_of (pw_rows V) p = Some r \<longrightarrow> (pr_shown r \<longleftrightarrow> pw_filter V = ''all'' \<or> pw_filter V \<in> set (pr_classes r))) \<and>
     (pw_zero V \<longleftrightarrow> (\<forall>p r. map_of (pw_rows V) p = Some r \<longrightarrow> \<not> pr_shown r)) \<and>
     (\<forall>p r. map_of (pw_rows V) p = Some r \<longrightarrow> map_of (pr_boxes r) ''all'' = None)"

text \<open>A view drawn from what the API has, and used without haste: a click on a row that is shown waits for its answer, which may be
  a refusal (\<open>clean\<close> tells that none was), and the kind is chosen when no call is under way.\<close>

inductive prop_reach :: "bool \<Rightarrow> prop_view \<Rightarrow> link_server \<Rightarrow> bool" where
  drawn: "server_ok s \<Longrightarrow> distinct ps \<Longrightarrow> prop_reach True (renderPropertyList host ''all'' (map (\<lambda>p. (p, link_id s p)) ps)) s"
| chosen: "prop_reach clean V s \<Longrightarrow> prop_reach clean (changeObjSelect k V) s"
| served: "prop_reach clean V s \<Longrightarrow> map_of (pw_rows V) p = Some r \<Longrightarrow> pr_shown r \<Longrightarrow>
    property_served (checkProperty p q V) s = (V', s') \<Longrightarrow> prop_reach (clean \<and> \<not> denied (checkProperty p q V) s) V' s'"
| refused: "prop_reach clean V s \<Longrightarrow> map_of (pw_rows V) p = Some r \<Longrightarrow> pr_shown r \<Longrightarrow>
    prop_reach False (property_refused (checkProperty p q V)) s"

lemma map_of_on_row [simp]: "map_of (pw_rows (on_row p f V)) = (map_of (pw_rows V))(p := map_option f (map_of (pw_rows V) p))"
  by (auto simp: on_row_def map_of_map_entry split: option.splits)

lemma map_of_on_box [simp]: "map_of (pr_boxes (on_box q f r)) = (map_of (pr_boxes r))(q := map_option f (map_of (pr_boxes r) q))"
  by (auto simp: on_box_def map_of_map_entry split: option.splits)

lemma on_sel [simp]:
  "pw_filter (on_row p f V) = pw_filter V" "pw_zero (on_row p f V) = pw_zero V" "pw_pending (on_row p f V) = pw_pending V"
  "pw_rows (say m V) = pw_rows V" "pw_filter (say m V) = pw_filter V" "pw_zero (say m V) = pw_zero V" "pw_pending (say m V) = pw_pending V"
  "pr_classes (on_box q g r) = pr_classes r" "pr_shown (on_box q g r) = pr_shown r"
  by (simp_all add: on_row_def say_def on_box_def)

lemma distinct_on_row [simp]: "distinct (map fst (pw_rows (on_row p f V))) = distinct (map fst (pw_rows V))"
proof -
  have "map fst (AList.map_entry p f rs) = map fst rs" for rs :: "(int \<times> prop_row) list"
    by (induction rs) auto
  then show ?thesis by (simp add: on_row_def)
qed

lemma no_class_iff:
  "distinct (map fst (pw_rows V)) \<Longrightarrow> no_class q V \<longleftrightarrow> (\<forall>p r. map_of (pw_rows V) p = Some r \<longrightarrow> q \<notin> set (pr_classes r))"
  by (auto simp: no_class_def list_all_iff)

text \<open>The two rounds, on the row and on the links.\<close>

lemma create_round:
  assumes "map_of (pw_rows V) p = Some r" "map_of (pr_boxes r) q = Some b" "\<not> bx_checked b" "pw_pending V = []"
    and "\<not> linked s p q" and "property_served (checkProperty p q V) s = (V', s')"
  shows "\<exists>r'. map_of (pw_rows V') = (map_of (pw_rows V))(p \<mapsto> r') \<and> set (pr_classes r') = insert q (set (pr_classes r)) \<and>
    pr_shown r' = pr_shown r \<and> map_of (pr_boxes r') = (map_of (pr_boxes r))(q \<mapsto> \<lparr>bx_checked = True, bx_in = bx_in b\<rparr>) \<and>
    pw_filter V' = pw_filter V \<and> pw_zero V' = pw_zero V \<and> pw_pending V' = [] \<and> pw_thrown V' = pw_thrown V @ [TypeError] \<and>
    (distinct (map fst (pw_rows V)) \<longrightarrow> distinct (map fst (pw_rows V'))) \<and>
    s' = s\<lparr>ln_links := (ln_next s, p, q) # ln_links s, ln_next := ln_next s + 1\<rparr>"
proof -
  let ?W = "on_row p (on_box q (\<lambda>b. b\<lparr>bx_checked := \<not> bx_checked b\<rparr>)) V"
  have c: "checkProperty p q V = ?W\<lparr>pw_pending := [CreateLink p q]\<rparr>" using assms(1-4) by (simp add: checkProperty_def)
  have rows: "pw_rows (X\<lparr>pw_pending := ps\<rparr>) = pw_rows X" for X ps by simp
  have V': "V' = property_answer (CreateLink p q) (Rows []) (?W\<lparr>pw_pending := []\<rparr>)"
    and s': "s' = s\<lparr>ln_links := (ln_next s, p, q) # ln_links s, ln_next := ln_next s + 1\<rparr>"
    using assms(5,6) unfolding c by (simp_all add: property_served_def assign_property_def)
  have t: "pw_rows (X\<lparr>pw_thrown := es\<rparr>) = pw_rows X" "pw_thrown (on_row p f X) = pw_thrown X" "pw_thrown (say m X) = pw_thrown X" for X es f m
    by (simp_all add: on_row_def say_def)
  show ?thesis unfolding V' s' using assms(1-3) by (auto simp: rows t Let_def fun_eq_iff)
qed

lemma delete_round:
  assumes "map_of (pw_rows V) p = Some r" "map_of (pr_boxes r) q = Some b" "bx_checked b" "pw_pending V = []"
    and "distinct (map fst (pw_rows V))" and "\<not> denied (checkProperty p q V) s" "property_served (checkProperty p q V) s = (V', s')"
  shows "\<exists>r'. map_of (pw_rows V') = (map_of (pw_rows V))(p \<mapsto> r') \<and> set (pr_classes r') = set (pr_classes r) - {q} \<and>
    pr_shown r' = (pr_shown r \<and> pw_filter V \<noteq> q) \<and>
    map_of (pr_boxes r') = (map_of (pr_boxes r))(q \<mapsto> \<lparr>bx_checked = False, bx_in = 0\<rparr>) \<and>
    pw_filter V' = pw_filter V \<and>
    pw_zero V' = (pw_zero V \<or> pw_filter V = q \<and> (\<forall>p' r1. map_of (pw_rows V') p' = Some r1 \<longrightarrow> q \<notin> set (pr_classes r1))) \<and>
    pw_pending V' = [] \<and> distinct (map fst (pw_rows V')) \<and>
    (\<exists>l \<in> set (ln_links s). fst l = bx_in b \<and> snd (snd l) = q) \<and>
    s' = s\<lparr>ln_links := filter (\<lambda>l. \<not> (fst l = bx_in b \<and> snd (snd l) = q)) (ln_links s)\<rparr>"
proof -
  let ?W = "on_row p (on_box q (\<lambda>b. b\<lparr>bx_checked := \<not> bx_checked b\<rparr>)) V"
  have c: "checkProperty p q V = ?W\<lparr>pw_pending := [DeleteLink (bx_in b) p q]\<rparr>" using assms(1-4) by (simp add: checkProperty_def)
  have rows: "pw_rows (X\<lparr>pw_pending := ps\<rparr>) = pw_rows X" "pw_rows (X\<lparr>pw_zero := z\<rparr>) = pw_rows X"
    "pw_filter (X\<lparr>pw_pending := ps\<rparr>) = pw_filter X" for X ps z by simp_all
  let ?A = "on_row p (\<lambda>r. r\<lparr>pr_classes := removeAll q (pr_classes r)\<rparr>) (say ''Successfully deleted'' (?W\<lparr>pw_pending := []\<rparr>))"
  let ?found = "filter (\<lambda>l. fst l = bx_in b \<and> snd (snd l) = q) (ln_links s)"
  have f: "?found \<noteq> []" using assms(6) unfolding c by (auto simp: denied_def delete_links_def)
  then have ex: "\<exists>l \<in> set (ln_links s). fst l = bx_in b \<and> snd (snd l) = q" by (auto simp: filter_empty_conv)
  have del: "filter (\<lambda>l. l \<notin> set ?found) (ln_links s) = filter (\<lambda>l. \<not> (fst l = bx_in b \<and> snd (snd l) = q)) (ln_links s)"
    by (rule filter_cong) auto
  have serve: "serve (DeleteLink (bx_in b) p q) s =
      (s\<lparr>ln_links := filter (\<lambda>l. \<not> (fst l = bx_in b \<and> snd (snd l) = q)) (ln_links s)\<rparr>, Rows [])"
    unfolding serve.simps delete_links_def Let_def if_not_P [OF f] del ..
  have V': "V' = property_answer (DeleteLink (bx_in b) p q) (Rows []) (?W\<lparr>pw_pending := []\<rparr>)"
    and s': "s' = s\<lparr>ln_links := filter (\<lambda>l. \<not> (fst l = bx_in b \<and> snd (snd l) = q)) (ln_links s)\<rparr>"
    using assms(7) unfolding c by (simp_all add: property_served_def serve del: serve.simps)
  have d: "distinct (map fst (pw_rows ?A))" using assms(5) by (simp add: rows)
  have M: "map_of (pw_rows ?A) = (map_of (pw_rows V))(p \<mapsto> (on_box q (\<lambda>b. b\<lparr>bx_checked := \<not> bx_checked b\<rparr>) r)\<lparr>pr_classes := removeAll q (pr_classes r)\<rparr>)"
    using assms(1) by (simp add: rows fun_eq_iff)
  have z: "no_class q ?A \<longleftrightarrow> (\<forall>p' r1. ((map_of (pw_rows V))(p \<mapsto> r\<lparr>pr_classes := removeAll q (pr_classes r)\<rparr>)) p' = Some r1 \<longrightarrow> q \<notin> set (pr_classes r1))"
    unfolding no_class_iff [OF d] M by auto
  show ?thesis
  proof (cases "pw_filter V = q")
    case True
    then show ?thesis unfolding V' s' using assms(1-3) d z ex
      by (auto simp: rows Let_def fun_eq_iff M split: if_splits)
  next
    case False
    then show ?thesis unfolding V' s' using assms(1-3) d ex by (auto simp: rows Let_def fun_eq_iff M)
  qed
qed

lemma box_cases:
  assumes "map_of (pw_rows V) p = Some r"
  obtains (none) "checkProperty p q V = V" "map_of (pr_boxes r) q = None"
  | (off) b where "map_of (pr_boxes r) q = Some b" "\<not> bx_checked b"
  | (on) b where "map_of (pr_boxes r) q = Some b" "bx_checked b"
  using assms by (cases "map_of (pr_boxes r) q") (auto simp: checkProperty_def)

lemma map_of_rows: "map_of (map (\<lambda>(p, r). (p, f r)) rs) p = map_option f (map_of rs p)"
  by (induction rs) auto

lemma keys_of_rows: "map fst (map (\<lambda>(p, r). (p, f r)) rs) = map fst rs"
  by (induction rs) auto

lemma no_rows_iff: "rs = [] \<longleftrightarrow> (\<forall>p r. map_of rs p \<noteq> Some r)"
  by (cases rs) auto

lemma none_shown_iff:
  assumes "\<And>z. pr_shown (f z)"
  shows "(\<forall>p r. map_option f (m p) = Some r \<longrightarrow> \<not> pr_shown r) \<longleftrightarrow> (\<forall>p r. m p \<noteq> Some r)"
  using assms by (metis map_option_eq_Some)

lemma all_rows_iff: "(\<forall>p r. map_option f (m p) = Some r \<longrightarrow> P p r) \<longleftrightarrow> (\<forall>p z. m p = Some z \<longrightarrow> P p (f z))"
  by auto

lemma drawn_rows_fit:
  assumes "distinct (map fst props)"
  shows "rows_fit (renderPropertyList host ''all'' props)"
proof -
  have sh: "pr_shown (draw_row host ''all'' ins)" for ins by (simp add: draw_row_def prop_kinds_def)
  have bx: "map_of (pr_boxes (draw_row host k ins)) ''all'' = None" for k ins
    by (simp add: draw_row_def prop_objs_def)
  show ?thesis
    unfolding rows_fit_def renderPropertyList_def prop_view.simps map_of_rows keys_of_rows none_shown_iff [OF sh] no_rows_iff [symmetric]
    using assms by (auto simp: sh bx simp del: map_of_eq_Some_iff)
qed

lemma chosen_rows_fit:
  assumes "rows_fit V"
  shows "rows_fit (changeObjSelect k V)"
proof -
  have d: "distinct (map fst (pw_rows V))" and bx: "\<And>p r. map_of (pw_rows V) p = Some r \<Longrightarrow> map_of (pr_boxes r) ''all'' = None"
    using assms by (simp_all add: rows_fit_def del: map_of_eq_Some_iff)
  have sh: "pr_shown (r\<lparr>pr_shown := True\<rparr>)" for r :: prop_row by simp
  have sel: "pw_filter (V\<lparr>pw_filter := k, pw_rows := rs, pw_zero := z\<rparr>) = k" "pw_rows (V\<lparr>pw_filter := k, pw_rows := rs, pw_zero := z\<rparr>) = rs"
    "pw_zero (V\<lparr>pw_filter := k, pw_rows := rs, pw_zero := z\<rparr>) = z" for k rs z by simp_all
  show ?thesis
  proof (cases "k = ''all''")
    case True
    show ?thesis
      unfolding rows_fit_def changeObjSelect_def if_P [OF True] sel map_of_rows keys_of_rows none_shown_iff [OF sh]
        no_rows_iff [symmetric]
      using d bx True by (auto simp del: map_of_eq_Some_iff)
  next
    case False
    show ?thesis
      unfolding rows_fit_def changeObjSelect_def if_not_P [OF False] sel no_class_iff [OF d] map_of_rows keys_of_rows all_rows_iff
      using d bx False by (auto simp del: map_of_eq_Some_iff)
  qed
qed

lemma refused_box:
  assumes "map_of (pw_rows V) p = Some r" "map_of (pr_boxes r) q = Some b" "pw_pending V = []"
  shows "map_of (pw_rows (property_refused (checkProperty p q V))) =
      (map_of (pw_rows V))(p \<mapsto> on_box q (\<lambda>b. b\<lparr>bx_checked := \<not> bx_checked b\<rparr>) r)"
    "pw_filter (property_refused (checkProperty p q V)) = pw_filter V" "pw_zero (property_refused (checkProperty p q V)) = pw_zero V"
    "pw_pending (property_refused (checkProperty p q V)) = []"
    "map fst (pw_rows (property_refused (checkProperty p q V))) = map fst (pw_rows V)"
proof -
  have k: "map fst (AList.map_entry p f rs) = map fst rs" for f and rs :: "(int \<times> prop_row) list" by (induction rs) auto
  let ?W = "on_row p (on_box q (\<lambda>b. b\<lparr>bx_checked := \<not> bx_checked b\<rparr>)) V"
  have "property_refused (checkProperty p q V) =
      say (if bx_checked b then ''Error deleting'' else ''Error creating'') (?W\<lparr>pw_pending := []\<rparr>)"
    using assms by (simp add: checkProperty_def property_refused_def)
  moreover have "pw_rows (X\<lparr>pw_pending := ps\<rparr>) = pw_rows X" "pw_filter (X\<lparr>pw_pending := ps\<rparr>) = pw_filter X"
    "pw_zero (X\<lparr>pw_pending := ps\<rparr>) = pw_zero X" for X :: prop_view and ps by simp_all
  moreover have "map fst (pw_rows ?W) = map fst (pw_rows V)" by (simp add: on_row_def k)
  ultimately show "map_of (pw_rows (property_refused (checkProperty p q V))) =
      (map_of (pw_rows V))(p \<mapsto> on_box q (\<lambda>b. b\<lparr>bx_checked := \<not> bx_checked b\<rparr>) r)"
    "pw_filter (property_refused (checkProperty p q V)) = pw_filter V" "pw_zero (property_refused (checkProperty p q V)) = pw_zero V"
    "pw_pending (property_refused (checkProperty p q V)) = []"
    "map fst (pw_rows (property_refused (checkProperty p q V))) = map fst (pw_rows V)"
    using assms(1) by (simp_all add: fun_eq_iff)
qed

lemma refused_rows_fit:
  assumes V: "rows_fit V" "pw_pending V = []" and r: "map_of (pw_rows V) p = Some r"
  shows "rows_fit (property_refused (checkProperty p q V)) \<and> pw_pending (property_refused (checkProperty p q V)) = []"
  using r
proof (cases rule: box_cases [where q = q])
  case none
  then show ?thesis using V by (simp add: property_refused_def)
next
  case (off b)
  from refused_box [OF r off(1) V(2)] V(1) r off show ?thesis
    unfolding rows_fit_def by (auto simp del: map_of_eq_Some_iff split: if_splits)
next
  case (on b)
  from refused_box [OF r on(1) V(2)] V(1) r on show ?thesis
    unfolding rows_fit_def by (auto simp del: map_of_eq_Some_iff split: if_splits)
qed

text \<open>A call that the API refuses is one kind of refusal.\<close>

lemma denied_served:
  assumes "denied V s"
  shows "property_served V s = (property_refused V, s)"
proof -
  obtain r rs where p: "pw_pending V = r # rs" and d: "snd (serve r s) = Denied"
    using assms by (auto simp: denied_def split: list.splits)
  have "serve r s = (s, Denied)" using d
    by (cases r) (auto simp: assign_property_def delete_links_def Let_def split: if_splits)
  then show ?thesis by (simp add: property_served_def property_refused_def p)
qed

lemma served_rows_fit:
  assumes V: "rows_fit V" "pw_pending V = []" and r: "map_of (pw_rows V) p = Some r" "pr_shown r"
    and s: "property_served (checkProperty p q V) s = (V', s')"
  shows "rows_fit V' \<and> pw_pending V' = []"
proof (cases "denied (checkProperty p q V) s")
  case True
  then show ?thesis using s denied_served [OF True] refused_rows_fit [OF V r(1), of q] by simp
next
  case nd: False
  show ?thesis using r(1)
  proof (cases rule: box_cases [where q = q])
    case none
    then show ?thesis using V s by (simp add: property_served_def)
  next
    case (off b)
    have nl: "\<not> linked s p q" using nd r(1) off V(2) by (auto simp: denied_def checkProperty_def assign_property_def)
    from create_round [OF r(1) off V(2) nl s] V(1) r off show ?thesis
      unfolding rows_fit_def by (auto simp del: map_of_eq_Some_iff split: if_splits)
  next
    case (on b)
    have d: "distinct (map fst (pw_rows V))" using V(1) by (simp add: rows_fit_def)
    have z: "\<not> pw_zero V" and fit: "\<And>p r. map_of (pw_rows V) p = Some r \<Longrightarrow> pr_shown r \<longleftrightarrow> pw_filter V = ''all'' \<or> pw_filter V \<in> set (pr_classes r)"
      and bx: "\<And>p r. map_of (pw_rows V) p = Some r \<Longrightarrow> map_of (pr_boxes r) ''all'' = None"
      using V(1) r unfolding rows_fit_def by blast+
    have q: "q \<noteq> ''all''" using bx [OF r(1)] on by auto
    obtain r' where r': "map_of (pw_rows V') = (map_of (pw_rows V))(p \<mapsto> r')" "set (pr_classes r') = set (pr_classes r) - {q}"
        "pr_shown r' = (pr_shown r \<and> pw_filter V \<noteq> q)" "map_of (pr_boxes r') = (map_of (pr_boxes r))(q \<mapsto> \<lparr>bx_checked = False, bx_in = 0\<rparr>)" "pw_filter V' = pw_filter V"
        "pw_zero V' = (pw_zero V \<or> pw_filter V = q \<and> (\<forall>p' r1. map_of (pw_rows V') p' = Some r1 \<longrightarrow> q \<notin> set (pr_classes r1)))"
        "pw_pending V' = []" "distinct (map fst (pw_rows V'))"
      using delete_round [OF r(1) on V(2) d nd s] by blast
    have bx1: "map_of (pr_boxes r') ''all'' = None" using bx [OF r(1)] q unfolding r'(4) by simp
    have fit': "pr_shown x \<longleftrightarrow> pw_filter V' = ''all'' \<or> pw_filter V' \<in> set (pr_classes x)" if "map_of (pw_rows V') p' = Some x" for p' x
      using that fit r q r'(1,2,3,5) by (cases "p' = p") (auto simp del: map_of_eq_Some_iff)
    have bx': "map_of (pr_boxes x) ''all'' = None" if "map_of (pw_rows V') p' = Some x" for p' x
      using that bx r'(1) bx1 by (cases "p' = p") (auto simp del: map_of_eq_Some_iff)
    have z': "pw_zero V' \<longleftrightarrow> (\<forall>p' x. map_of (pw_rows V') p' = Some x \<longrightarrow> \<not> pr_shown x)"
    proof (cases "pw_filter V = q")
      case True
      then have "pr_shown x \<longleftrightarrow> q \<in> set (pr_classes x)" if "map_of (pw_rows V') p' = Some x" for p' x
        using fit' [OF that] q r'(5) by simp
      then show ?thesis using True z unfolding r'(6) by blast
    next
      case False
      have "map_of (pw_rows V') p = Some r'" "pr_shown r'" using r' r False by auto
      then show ?thesis using False z r'(6) by blast
    qed
    show ?thesis unfolding rows_fit_def using r'(7,8) fit' bx' z' by blast
  qed
qed

text \<open>The boxes and the links.\<close>

lemma box_drawn:
  "box_of (renderPropertyList host k props) p q = Some b \<Longrightarrow>
     \<exists>ins. (p, ins) \<in> set props \<and> b = \<lparr>bx_checked = (ins q \<noteq> 0), bx_in = ins q\<rparr>"
  by (auto simp: box_of_def renderPropertyList_def map_of_rows draw_row_def map_of_map_restrict restrict_map_def
      simp del: map_of_eq_Some_iff dest!: map_of_SomeD split: bind_splits)

lemma link_id_spec:
  assumes "server_ok s"
  shows "link_id s p q \<noteq> 0 \<longleftrightarrow> linked s p q" "linked s p q \<Longrightarrow> (link_id s p q, p, q) \<in> set (ln_links s)"
proof -
  show m: "(link_id s p q, p, q) \<in> set (ln_links s)" if "linked s p q"
  proof (cases "find (\<lambda>l. snd l = (p, q)) (ln_links s)")
    case None
    then show ?thesis using that by (auto simp: find_None_iff linked_def)
  next
    case (Some l)
    then have "l \<in> set (ln_links s)" "snd l = (p, q)" by (auto simp: find_Some_iff)
    moreover have "link_id s p q = fst l" using Some by (simp add: link_id_def)
    ultimately show ?thesis by (metis prod.collapse)
  qed
  have "link_id s p q = 0" if "\<not> linked s p q"
  proof -
    have "find (\<lambda>l. snd l = (p, q)) (ln_links s) = None" using that by (force simp: find_None_iff linked_def)
    then show ?thesis by (simp add: link_id_def)
  qed
  moreover have "link_id s p q \<noteq> 0" if "linked s p q" using m [OF that] assms unfolding server_ok_def by force
  ultimately show "link_id s p q \<noteq> 0 \<longleftrightarrow> linked s p q" by blast
qed

lemma drawn_agree:
  assumes "server_ok s"
  shows "boxes_agree (renderPropertyList host k (map (\<lambda>p. (p, link_id s p)) ps)) s"
    "classes_agree (renderPropertyList host k (map (\<lambda>p. (p, link_id s p)) ps)) s"
proof -
  let ?props = "map (\<lambda>p. (p, link_id s p)) ps"
  show "boxes_agree (renderPropertyList host k ?props) s"
    unfolding boxes_agree_def
  proof (intro allI impI)
    fix p q b
    assume "box_of (renderPropertyList host k ?props) p q = Some b"
    then have "b = \<lparr>bx_checked = (link_id s p q \<noteq> 0), bx_in = link_id s p q\<rparr>" using box_drawn by fastforce
    then show "(bx_checked b \<longleftrightarrow> linked s p q) \<and> (bx_in b = 0 \<or> bx_checked b \<and> (bx_in b, p, q) \<in> set (ln_links s))"
      using link_id_spec [OF assms, of p q] by auto
  qed
  show "classes_agree (renderPropertyList host k ?props) s"
    unfolding classes_agree_def renderPropertyList_def prop_view.simps map_of_rows all_rows_iff
  proof (intro allI impI ballI)
    fix p ins q
    assume "map_of ?props p = Some ins" and q: "q \<in> set prop_kinds"
    then have "ins = link_id s p" by (auto dest!: map_of_SomeD)
    then show "(q \<in> set (pr_classes (draw_row host k ins))) = linked s p q"
      using q link_id_spec(1) [OF assms, of p q] by (simp add: draw_row_def)
  qed
qed

lemma box_chosen [simp]: "box_of (changeObjSelect k V) p q = box_of V p q"
  by (cases "map_of (pw_rows V) p") (simp_all add: box_of_def changeObjSelect_def map_of_rows)

lemma agree_chosen [simp]: "boxes_agree (changeObjSelect k V) s = boxes_agree V s"
  by (simp only: boxes_agree_def box_chosen)

lemma classes_chosen [simp]: "classes_agree (changeObjSelect k V) s = classes_agree V s"
proof -
  have "\<exists>f. map_of (pw_rows (changeObjSelect k V)) = (\<lambda>p. map_option f (map_of (pw_rows V) p)) \<and> (\<forall>r. pr_classes (f r) = pr_classes r)"
  proof (cases "k = ''all''")
    case True
    then show ?thesis
      by (intro exI [where x = "\<lambda>r. r\<lparr>pr_shown := True\<rparr>"]) (simp add: changeObjSelect_def map_of_rows fun_eq_iff)
  next
    case False
    then show ?thesis
      by (intro exI [where x = "\<lambda>r. r\<lparr>pr_shown := k \<in> set (pr_classes r)\<rparr>"]) (simp add: changeObjSelect_def map_of_rows fun_eq_iff)
  qed
  then obtain f where f: "map_of (pw_rows (changeObjSelect k V)) = (\<lambda>p. map_option f (map_of (pw_rows V) p))"
    "\<And>r. pr_classes (f r) = pr_classes r" by blast
  show ?thesis unfolding classes_agree_def f(1) all_rows_iff f(2) ..
qed

lemma pending_chosen [simp]: "pw_pending (changeObjSelect k V) = pw_pending V"
  by (simp add: changeObjSelect_def)

lemma linked_iff: "linked s p q \<longleftrightarrow> (\<exists>i. (i, p, q) \<in> set (ln_links s))"
  by (force simp: linked_def)

lemma boxes_agreeD:
  "boxes_agree V s \<Longrightarrow> map_of (pw_rows V) p = Some r \<Longrightarrow> map_of (pr_boxes r) q = Some b \<Longrightarrow>
     (bx_checked b \<longleftrightarrow> linked s p q) \<and> (bx_in b = 0 \<or> bx_checked b \<and> (bx_in b, p, q) \<in> set (ln_links s))"
proof -
  assume a: "boxes_agree V s" and r: "map_of (pw_rows V) p = Some r" "map_of (pr_boxes r) q = Some b"
  from r have "box_of V p q = Some b" by (simp add: box_of_def)
  with a show ?thesis unfolding boxes_agree_def by blast
qed

lemma served_agree:
  assumes ok: "server_ok s" "boxes_agree V s" "classes_agree V s" and V: "pw_pending V = []" "distinct (map fst (pw_rows V))"
    and r: "map_of (pw_rows V) p = Some r" and nd: "\<not> denied (checkProperty p q V) s"
    and s: "property_served (checkProperty p q V) s = (V', s')"
  shows "server_ok s' \<and> boxes_agree V' s' \<and> classes_agree V' s'"
  using r
proof (cases rule: box_cases [where q = q])
  case none
  then show ?thesis using V ok s by (simp add: property_served_def)
next
  case (off b)
  let ?n = "ln_next s"
  have nl: "\<not> linked s p q" and z: "bx_in b = 0" using boxes_agreeD [OF ok(2) r off(1)] off(2) by auto
  obtain r' where r': "map_of (pw_rows V') = (map_of (pw_rows V))(p \<mapsto> r')"
      "map_of (pr_boxes r') = (map_of (pr_boxes r))(q \<mapsto> \<lparr>bx_checked = True, bx_in = 0\<rparr>)" "set (pr_classes r') = insert q (set (pr_classes r))"
    and s': "s' = s\<lparr>ln_links := (?n, p, q) # ln_links s, ln_next := ?n + 1\<rparr>"
    using create_round [OF r off V(1) nl s] z by auto
  have box: "box_of V' p' q' = (if p' = p \<and> q' = q then Some \<lparr>bx_checked = True, bx_in = 0\<rparr> else box_of V p' q')" for p' q'
    using r by (simp add: box_of_def r'(1,2))
  have l: "linked s' p' q' \<longleftrightarrow> p' = p \<and> q' = q \<or> linked s p' q'" for p' q' by (auto simp: linked_def s')
  have "?n \<notin> fst ` set (ln_links s)" using ok(1) unfolding server_ok_def by force
  then have "server_ok s'" using ok(1) nl unfolding server_ok_def linked_def s' by fastforce
  moreover have "boxes_agree V' s'" using ok(2) unfolding boxes_agree_def box l by (auto simp: s')
  moreover have "classes_agree V' s'" using ok(3) r unfolding classes_agree_def r'(1) l
    by (auto simp: r'(3) simp del: map_of_eq_Some_iff split: if_splits)
  ultimately show ?thesis by blast
next
  case (on b)
  obtain r' where r': "map_of (pw_rows V') = (map_of (pw_rows V))(p \<mapsto> r')"
      "map_of (pr_boxes r') = (map_of (pr_boxes r))(q \<mapsto> \<lparr>bx_checked = False, bx_in = 0\<rparr>)" "set (pr_classes r') = set (pr_classes r) - {q}"
    and ex: "\<exists>l \<in> set (ln_links s). fst l = bx_in b \<and> snd (snd l) = q"
    and s': "s' = s\<lparr>ln_links := filter (\<lambda>l. \<not> (fst l = bx_in b \<and> snd (snd l) = q)) (ln_links s)\<rparr>"
    using delete_round [OF r on V nd s] by blast
  have "bx_in b \<noteq> 0" using ex ok(1) unfolding server_ok_def by force
  then have b: "(bx_in b, p, q) \<in> set (ln_links s)" using boxes_agreeD [OF ok(2) r on(1)] by simp
  have inj: "inj_on fst (set (ln_links s))" "inj_on snd (set (ln_links s))"
    using ok(1) by (simp_all add: server_ok_def distinct_map)
  have box: "box_of V' p' q' = (if p' = p \<and> q' = q then Some \<lparr>bx_checked = False, bx_in = 0\<rparr> else box_of V p' q')" for p' q'
    using r by (simp add: box_of_def r'(1,2))
  have keep: "(i, p', q') \<in> set (ln_links s') \<longleftrightarrow> (i, p', q') \<in> set (ln_links s) \<and> \<not> (p' = p \<and> q' = q)" for i p' q'
  proof (cases "(i, p', q') \<in> set (ln_links s)")
    case True
    have "i = bx_in b \<longleftrightarrow> p' = p \<and> q' = q"
      using inj_on_eq_iff [OF inj(1) True b] inj_on_eq_iff [OF inj(2) True b] by simp
    then show ?thesis using True by (simp add: s')
  qed (simp add: s')
  have "server_ok s'" using ok(1) unfolding server_ok_def s' by (simp add: distinct_map_filter)
  moreover have "boxes_agree V' s'" using ok(2) unfolding boxes_agree_def box linked_iff keep by auto
  moreover have "linked s' p' q' \<longleftrightarrow> linked s p' q' \<and> \<not> (p' = p \<and> q' = q)" for p' q' unfolding linked_iff keep by blast
  then have "classes_agree V' s'" using ok(3) r unfolding classes_agree_def r'(1)
    by (auto simp: r'(3) simp del: map_of_eq_Some_iff split: if_splits)
  ultimately show ?thesis by blast
qed

section \<open>What the administrator sees\<close>

lemma prop_reach_inv:
  "prop_reach clean V s \<Longrightarrow> rows_fit V \<and> pw_pending V = [] \<and> (clean \<longrightarrow> server_ok s \<and> boxes_agree V s \<and> classes_agree V s)"
proof (induction rule: prop_reach.induct)
  case (drawn s ps host)
  have "distinct (map fst (map (\<lambda>p. (p, link_id s p)) ps))" using drawn(2) by (simp add: comp_def)
  moreover have "pw_pending (renderPropertyList host ''all'' ps') = []" for ps' by (simp add: renderPropertyList_def)
  ultimately show ?case using drawn_rows_fit drawn_agree [OF drawn(1)] drawn(1) by blast
next
  case (chosen clean V s k)
  then show ?case using chosen_rows_fit [of V k] by simp
next
  case (served clean V s p r q V' s')
  have d: "distinct (map fst (pw_rows V))" using served.IH unfolding rows_fit_def by blast
  show ?case using served served_rows_fit [of V p r q s V' s'] served_agree [of s V p r q V' s'] d by blast
next
  case (refused clean V s p r q)
  then show ?case using refused_rows_fit by blast
qed


text \<open>A refused call leaves the box wrong: the browser flipped it at the click, the answer only shows a message, and so the box tells the
  opposite of what the API keeps.\<close>

lemma refused_box_lies:
  assumes "prop_reach True V s" "box_of V p q = Some b"
  shows "box_of (property_refused (checkProperty p q V)) p q = Some (b\<lparr>bx_checked := \<not> bx_checked b\<rparr>) \<and> bx_checked b = linked s p q"
proof -
  have inv: "pw_pending V = []" "boxes_agree V s" using prop_reach_inv [OF assms(1)] by blast+
  obtain r where r: "map_of (pw_rows V) p = Some r" "map_of (pr_boxes r) q = Some b"
    using assms(2) by (auto simp: box_of_def split: bind_splits)
  show ?thesis using refused_box(1) [OF r inv(1)] boxes_agreeD [OF inv(2) r] r
    by (simp add: box_of_def)
qed

text \<open>C35. A link created in the view cannot be taken back in it. The API's answer to the creation has no row, the handler throws a TypeError
  where it reads the identifier, and the box keeps none; the next click on the box asks to delete the link 0, which the API refuses, and the
  box ends unchecked while the link is there.\<close>

theorem created_link_stuck:
  assumes "prop_reach True V s" "map_of (pw_rows V) p = Some r" "pr_shown r" "map_of (pr_boxes r) q = Some b" "\<not> bx_checked b"
    and "property_served (checkProperty p q V) s = (V1, s1)" "property_served (checkProperty p q V1) s1 = (V2, s2)"
  shows "prop_reach True V1 s1 \<and> linked s1 p q \<and> box_of V1 p q = Some \<lparr>bx_checked = True, bx_in = 0\<rparr> \<and>
    pw_thrown V1 = pw_thrown V @ [TypeError] \<and> pw_pending (checkProperty p q V1) = [DeleteLink 0 p q] \<and>
    s2 = s1 \<and> box_of V2 p q = Some \<lparr>bx_checked = False, bx_in = 0\<rparr>"
proof -
  have inv: "pw_pending V = []" "boxes_agree V s" using prop_reach_inv [OF assms(1)] by blast+
  have nl: "\<not> linked s p q" and z: "bx_in b = 0" using boxes_agreeD [OF inv(2) assms(2,4)] assms(5) by auto
  obtain r' where r': "map_of (pw_rows V1) = (map_of (pw_rows V))(p \<mapsto> r')"
      "map_of (pr_boxes r') = (map_of (pr_boxes r))(q \<mapsto> \<lparr>bx_checked = True, bx_in = 0\<rparr>)" "pw_thrown V1 = pw_thrown V @ [TypeError]"
      "pw_pending V1 = []" and s1: "s1 = s\<lparr>ln_links := (ln_next s, p, q) # ln_links s, ln_next := ln_next s + 1\<rparr>"
    using create_round [OF assms(2,4,5) inv(1) nl assms(6)] z by auto
  have "\<not> denied (checkProperty p q V) s" using nl assms(2,4,5) inv(1) by (simp add: denied_def checkProperty_def assign_property_def)
  then have reach: "prop_reach True V1 s1" using served [OF assms(1-3,6)] by simp
  have l: "linked s1 p q" by (simp add: linked_def s1)
  have box: "map_of (pw_rows V1) p = Some r'" "map_of (pr_boxes r') q = Some \<lparr>bx_checked = True, bx_in = 0\<rparr>" by (simp_all add: r'(1,2))
  have pend: "pw_pending (checkProperty p q V1) = [DeleteLink 0 p q]" using box r'(4) by (simp add: checkProperty_def)
  have "server_ok s1" using prop_reach_inv [OF reach] by blast
  then have "\<not> (\<exists>l \<in> set (ln_links s1). fst l = 0 \<and> snd (snd l) = q)" unfolding server_ok_def by force
  then have "delete_links 0 q s1 = (s1, Denied)" by (auto simp: delete_links_def filter_empty_conv)
  then have "denied (checkProperty p q V1) s1" by (simp add: denied_def pend)
  then have V2: "V2 = property_refused (checkProperty p q V1)" "s2 = s1" using denied_served assms(7) by auto
  have "box_of V1 p q = Some \<lparr>bx_checked = True, bx_in = 0\<rparr>" using box by (simp add: box_of_def)
  then have "box_of V2 p q = Some \<lparr>bx_checked = False, bx_in = 0\<rparr>" using refused_box_lies [OF reach] unfolding V2 by simp
  then show ?thesis using reach l box r'(3) pend V2(2) by (simp add: box_of_def)
qed

section \<open>Examples\<close>

definition ex_links :: link_server where
  "ex_links = \<lparr>ln_links = [(7, 1, ''vm'')], ln_next = 8\<rparr>"

definition ex_props :: prop_view where
  "ex_props = changeObjSelect ''vm'' (renderPropertyList False ''all'' (map (\<lambda>p. (p, link_id ex_links p)) [1, 2]))"

lemma ex_props_reach: "prop_reach True ex_props ex_links"
  unfolding ex_props_def by (intro chosen drawn) (auto simp: server_ok_def ex_links_def)

lemma ex_props_row: "map_of (pw_rows ex_props) 1 \<noteq> None" "map_option pr_shown (map_of (pw_rows ex_props) 1) = Some True"
    "map_option pr_shown (map_of (pw_rows ex_props) 2) = Some False"
    "box_of ex_props 1 ''vm'' = Some \<lparr>bx_checked = True, bx_in = 7\<rparr>" "box_of ex_props 1 ''user'' = Some \<lparr>bx_checked = False, bx_in = 0\<rparr>"
  by (simp_all add: ex_props_def ex_links_def link_id_def changeObjSelect_def renderPropertyList_def draw_row_def prop_objs_def prop_kinds_def box_of_def)


lemma created_link_stuck_witness:
  "case property_served (checkProperty 1 ''user'' ex_props) ex_links of (V1, s1) \<Rightarrow>
   (case property_served (checkProperty 1 ''user'' V1) s1 of (V2, s2) \<Rightarrow>
      linked s2 1 ''user'' \<and> box_of V2 1 ''user'' = Some \<lparr>bx_checked = False, bx_in = 0\<rparr>)"
proof -
  obtain r where r: "map_of (pw_rows ex_props) 1 = Some r" "pr_shown r" using ex_props_row(1,2) by auto
  then have b: "map_of (pr_boxes r) ''user'' = Some \<lparr>bx_checked = False, bx_in = 0\<rparr>" using ex_props_row(5) by (simp add: box_of_def)
  obtain V1 s1 where 1: "property_served (checkProperty 1 ''user'' ex_props) ex_links = (V1, s1)" by fastforce
  obtain V2 s2 where 2: "property_served (checkProperty 1 ''user'' V1) s1 = (V2, s2)" by fastforce
  have "\<not> bx_checked \<lparr>bx_checked = False, bx_in = 0\<rparr>" by simp
  from created_link_stuck [OF ex_props_reach r b this 1 2]
  have "linked s2 1 ''user'' \<and> box_of V2 1 ''user'' = Some \<lparr>bx_checked = False, bx_in = 0\<rparr>" by blast
  then show ?thesis unfolding 1 prod.case 2 .
qed

end
