(* ===== verification/Selects.thy ===== *)
theory Selects
  imports Defaults Messages
begin

text \<open>
  The select controls that are filled by the API (\<open>Wat.A.fillSelect\<close>, \<open>actions/actions.js\<close>) and the bar of filters of a
  list that is built of them (\<open>fetchFilters\<close>, \<open>changeTenant\<close>, \<open>resetSelectFiltersByTenant\<close> of \<open>bb-views/proto-list.js\<close>,
  \<open>getFilterStartingOptions\<close> and \<open>getFilterSelectedId\<close> of \<open>interface/interface.js\<close>).

  A select holds starting options, known beforehand, and the options of the rows of an answer. The filter of the tenant is
  disabled while any select of the bar waits for its answer. Identifiers are texts without quotes, as the markup takes
  them; what the class of a control looks like and the texts shown while it loads are left out.
\<close>

section \<open>Options\<close>

record sel_option =
  op_val :: string
  op_text :: string
  op_attrs :: "(string \<times> string) list"
  op_group :: "string option"
  op_selected :: bool

record fill_params =
  fp_starting :: "js obj option"
  fp_selected :: js
  fp_nameAsId :: bool
  fp_auto :: "string option"
  fp_action :: "string option"
  fp_fields :: "string list option"
  fp_extra :: "string list"
  fp_filters :: "js option"
  fp_order :: "js option"
  fp_groupBy :: "string option"
  fp_group :: "string option"
  fp_orderFirst :: "string list"

definition is_selected :: "fill_params \<Rightarrow> js \<Rightarrow> bool" where
  "is_selected p i \<longleftrightarrow> fp_selected p \<noteq> Undef \<and> loose_eq (fp_selected p) i"

definition starting_options :: "fill_params \<Rightarrow> sel_option list" where
  "starting_options p =
     (case fp_starting p of
        None \<Rightarrow> []
      | Some ps \<Rightarrow> map (\<lambda>(k, v). \<lparr>op_val = k, op_text = js_str v, op_attrs = [], op_group = None, op_selected = is_selected p (JStr k)\<rparr>)
                     (walk_order ps))"

text \<open>The request: with an automatic action the fields and the order are replaced. A field to group by is pushed to the
  fields, which must be there. \<open>None\<close> is a select without an action.\<close>

definition fill_request :: "wat_c \<Rightarrow> fill_params \<Rightarrow> js_error + string option" where
  "fill_request C p =
     (if fp_auto p = None \<and> fp_action p = None then Inr None
      else
        (let nameField = (if fp_auto p = Some ''di'' then ''disk_image'' else ''name'');
             action = (case fp_auto p of Some a \<Rightarrow> a @ ''_get_list'' | None \<Rightarrow> the (fp_action p));
             fields = (case fp_auto p of Some a \<Rightarrow> Some ([''id'', nameField] @ fp_extra p) | None \<Rightarrow> fp_fields p);
             order = (case fp_auto p of
                        Some a \<Rightarrow> Some (JObj [(''field'', JStr nameField), (''order'', JStr ''-asc'')])
                      | None \<Rightarrow> fp_order p);
             url = getBaseUrl C '''' @ ''&action='' @ action @
                   (case fp_filters p of Some f \<Rightarrow> ''&filters='' @ json f | None \<Rightarrow> '''') @
                   (case order of Some d \<Rightarrow> ''&order_by='' @ json d | None \<Rightarrow> '''')
         in case (fp_groupBy p, fields) of
              (Some g, None) \<Rightarrow> Inl TypeError
            | (Some g, Some fs) \<Rightarrow> Inr (Some (encodeURI (url @ ''&fields='' @ json (JArr (map JStr (fs @ [g]))))))
            | (None, Some fs) \<Rightarrow> Inr (Some (encodeURI (url @ ''&fields='' @ json (JArr (map JStr fs)))))
            | (None, None) \<Rightarrow> Inr (Some (encodeURI url))))"

text \<open>The rows of an answer. The identifiers met so far are \<open>stored\<close>; one that is a starting option is passed over.\<close>

definition row_name :: "js obj \<Rightarrow> js" where
  "row_name r = (if truthy (get_attr r ''disk_image'') then get_attr r ''disk_image'' else get_attr r ''name'')"

definition row_id :: "fill_params \<Rightarrow> js obj \<Rightarrow> js" where
  "row_id p r = (if fp_nameAsId p then row_name r else get_attr r ''id'')"

definition in_starting :: "fill_params \<Rightarrow> js \<Rightarrow> bool" where
  "in_starting p i = (case fp_starting p of None \<Rightarrow> False | Some ps \<Rightarrow> truthy (get_attr ps (js_str i)))"

definition row_option :: "fill_params \<Rightarrow> js obj \<Rightarrow> sel_option" where
  "row_option p r =
     \<lparr>op_val = js_str (row_id p r), op_text = js_str (row_name r),
      op_attrs = map (\<lambda>x. (''data-'' @ x, if nullish (get_attr r x) then '''' else js_str (get_attr r x))) (fp_extra p),
      op_group = (case fp_groupBy p of Some g \<Rightarrow> Some (js_str (get_attr r g)) | None \<Rightarrow> fp_group p),
      op_selected = is_selected p (row_id p r)\<rparr>"

fun fetched :: "fill_params \<Rightarrow> js list \<Rightarrow> js obj list \<Rightarrow> sel_option list" where
  "fetched p stored [] = []"
| "fetched p stored (r # rs) =
     (if in_starting p (row_id p r) then fetched p stored rs
      else if inArray (row_id p r) stored \<noteq> -1 then fetched p stored rs
      else row_option p r # fetched p (stored @ [row_id p r]) rs)"

text \<open>Options that are grouped by a field are appended group by group.\<close>

definition group_key :: "sel_option \<Rightarrow> string" where
  "group_key d = (case op_group d of Some g \<Rightarrow> g | None \<Rightarrow> '''')"

definition add_option :: "sel_option \<Rightarrow> sel_option list obj \<Rightarrow> sel_option list obj" where
  "add_option d gs = AList.update (group_key d) ((case map_of gs (group_key d) of None \<Rightarrow> [] | Some ds \<Rightarrow> ds) @ [d]) gs"

definition arranged :: "fill_params \<Rightarrow> sel_option list \<Rightarrow> sel_option list" where
  "arranged p ds =
     (if fp_groupBy p = None then ds else concat (map snd (walk_order (fold add_option ds []))))"

text \<open>The rows that are wanted first: each name is looked for in one pass, which moves what it finds to the front.\<close>

definition move_front :: "string \<Rightarrow> nat \<Rightarrow> js obj list \<Rightarrow> js obj list" where
  "move_front name i rows =
     (if i < length rows \<and> get_attr (rows ! i) ''name'' = JStr name
      then rows ! i # take i rows @ drop (Suc i) rows else rows)"

definition move_all :: "string \<Rightarrow> js obj list \<Rightarrow> js obj list" where
  "move_all name rows = fold (move_front name) [0..<length rows] rows"

definition order_first :: "string list \<Rightarrow> js obj list \<Rightarrow> js obj list" where
  "order_first names rows = fold move_all (rev names) rows"

text \<open>The two halves of \<open>fillSelect\<close>: what the select holds when the request is sent, and when it is answered.\<close>

definition fill_start :: "fill_params \<Rightarrow> sel_option list \<Rightarrow> sel_option list" where
  "fill_start p old = (case fp_starting p of None \<Rightarrow> old | Some ps \<Rightarrow> starting_options p)"

definition fill_answer :: "fill_params \<Rightarrow> js obj list \<Rightarrow> sel_option list \<Rightarrow> sel_option list" where
  "fill_answer p rows old = old @ arranged p (fetched p [] (order_first (fp_orderFirst p) rows))"

lemma mset_arranged [simp]: "mset (arranged p ds) = mset ds"
proof -
  have upd: "mset (concat (map snd (AList.update k v gs))) + mset (case map_of gs k of None \<Rightarrow> [] | Some w \<Rightarrow> w) =
      mset v + mset (concat (map snd gs))" if "distinct (map fst gs)" for k v and gs :: "sel_option list obj"
    using that
  proof (induction gs)
    case (Cons g gs)
    obtain k1 w where g: "g = (k1, w)" by (cases g)
    show ?case
    proof (cases "k1 = k")
      case True
      then show ?thesis by (simp add: g ac_simps)
    next
      case False
      then show ?thesis using Cons by (simp add: g)
    qed
  qed simp
  have add: "mset (concat (map snd (add_option d gs))) = mset (concat (map snd gs)) + {#d#} \<and> distinct (map fst (add_option d gs))"
    if "distinct (map fst gs)" for d gs
    using upd [OF that, of "group_key d" "(case map_of gs (group_key d) of None \<Rightarrow> [] | Some ds \<Rightarrow> ds) @ [d]"] that
    by (simp add: add_option_def distinct_update)
  have "mset (concat (map snd (fold add_option ds gs))) = mset (concat (map snd gs)) + mset ds" if "distinct (map fst gs)" for gs
    using that
  proof (induction ds arbitrary: gs)
    case (Cons d ds)
    then show ?case using add [OF Cons.prems, of d] by simp
  qed simp
  from this [of "[]"] have "mset (concat (map snd (fold add_option ds []))) = mset ds" by simp
  moreover have "mset (concat (map snd (walk_order gs))) = mset (concat (map snd gs))" for gs :: "sel_option list obj"
  proof -
    have "mset (concat (map snd xs)) = (\<Sum>y\<in>#mset xs. mset (snd y))" for xs :: "sel_option list obj" by (induction xs) auto
    then show ?thesis by (simp only: mset_walk_order)
  qed
  ultimately show ?thesis by (simp add: arranged_def)
qed

definition named :: "string \<Rightarrow> js obj \<Rightarrow> bool" where
  "named n r \<longleftrightarrow> get_attr r ''name'' = JStr n"

text \<open>After the first \<open>k\<close> steps of a pass what was found is in front, the latest first.\<close>

lemma move_all_steps:
  "k \<le> length rows \<Longrightarrow> fold (move_front n) [0..<k] rows =
     rev (filter (named n) (take k rows)) @ filter (\<lambda>r. \<not> named n r) (take k rows) @ drop k rows"
proof (induction k)
  case (Suc k)
  let ?F = "filter (named n) (take k rows)" and ?G = "filter (\<lambda>r. \<not> named n r) (take k rows)"
  let ?rest = "rev ?F @ ?G"
  have len: "length ?rest = k"
    using sum_length_filter_compl [of "named n" "take k rows"] Suc.prems by simp
  have IH: "fold (move_front n) [0..<k] rows = ?rest @ rows ! k # drop (Suc k) rows"
    using Suc by (simp add: Cons_nth_drop_Suc)
  have at: "(?rest @ rows ! k # ds) ! k = rows ! k" for ds using nth_append_length [of ?rest "rows ! k" ds] unfolding len .
  have tk: "take k (?rest @ x) = ?rest" and dr: "drop (Suc k) (?rest @ y # x) = x" for x y
    using len by simp_all
  have tS: "take (Suc k) rows = take k rows @ [rows ! k]" using Suc.prems by (simp add: take_Suc_conv_app_nth)
  have "fold (move_front n) [0..<Suc k] rows = move_front n k (?rest @ rows ! k # drop (Suc k) rows)" using IH by simp
  also have "\<dots> = rev (filter (named n) (take (Suc k) rows)) @ filter (\<lambda>r. \<not> named n r) (take (Suc k) rows) @ drop (Suc k) rows"
  proof (cases "named n (rows ! k)")
    case True
    then show ?thesis unfolding move_front_def at tk dr tS using len by (simp add: named_def)
  next
    case False
    then show ?thesis unfolding move_front_def at tk dr tS by (simp add: named_def)
  qed
  finally show ?case .
qed simp

lemma move_all_spec: "move_all n rows = rev (filter (named n) rows) @ filter (\<lambda>r. \<not> named n r) rows"
  using move_all_steps [of "length rows" rows n] by (simp add: move_all_def)

lemma filter_concat_other:
  "n \<notin> set ns \<Longrightarrow> filter (named n) (concat (map (\<lambda>m. rev (filter (named m) rows)) ns)) = []"
  by (induction ns) (auto simp: filter_empty_conv named_def)

lemma filter_concat_same:
  "n \<notin> set ns \<Longrightarrow> filter (\<lambda>r. \<not> named n r) (concat (map (\<lambda>m. rev (filter (named m) rows)) ns)) =
     concat (map (\<lambda>m. rev (filter (named m) rows)) ns)"
  by (intro filter_True) (auto simp: named_def)

lemma order_first_spec:
  "distinct names \<Longrightarrow> order_first names rows =
     concat (map (\<lambda>n. rev (filter (named n) rows)) names) @ filter (\<lambda>r. \<forall>n \<in> set names. \<not> named n r) rows"
proof (induction names)
  case Nil
  then show ?case by (simp add: order_first_def)
next
  case (Cons n names)
  have "order_first (n # names) rows = move_all n (order_first names rows)" by (simp add: order_first_def)
  moreover have "filter (named n) (filter (\<lambda>r. \<forall>m \<in> set names. \<not> named m r) rows) = filter (named n) rows"
    using Cons.prems by (auto simp: named_def intro: filter_cong)
  ultimately show ?case using Cons
    by (simp add: move_all_spec filter_concat_other filter_concat_same) (auto intro: filter_cong)
qed

lemma set_order_first [simp]: "set (order_first names rows) = set rows"
proof -
  have "set (move_all n rs) = set rs" for n rs by (auto simp: move_all_spec)
  then have "set (fold move_all ns rs) = set rs" for ns rs by (induction ns arbitrary: rs) auto
  then show ?thesis by (simp add: order_first_def)
qed

lemma fetched_vals:
  "op_val ` set (fetched p st rows) = js_str ` {i \<in> row_id p ` set rows. \<not> in_starting p i \<and> i \<notin> set st}"
  by (induction p st rows rule: fetched.induct) (auto simp: row_option_def)

lemma distinct_fetched:
  "inj_on js_str (row_id p ` set rows \<union> set st) \<Longrightarrow> distinct (map op_val (fetched p st rows))"
proof (induction p st rows rule: fetched.induct)
  case (2 p st r rs)
  show ?case
  proof (cases "in_starting p (row_id p r) \<or> row_id p r \<in> set st")
    case True
    then show ?thesis using 2(1,2) inj_on_subset [OF "2.prems"] by (auto simp: insert_commute)
  next
    case False
    have inj: "inj_on js_str (row_id p ` set rs \<union> set (st @ [row_id p r]))" by (rule inj_on_subset [OF "2.prems"]) auto
    have "js_str (row_id p r) \<notin> op_val ` set (fetched p (st @ [row_id p r]) rs)"
    proof
      assume "js_str (row_id p r) \<in> op_val ` set (fetched p (st @ [row_id p r]) rs)"
      then obtain i where i: "i \<in> row_id p ` set rs" "i \<notin> set (st @ [row_id p r])" "js_str (row_id p r) = js_str i"
        unfolding fetched_vals by blast
      have "row_id p r = i" by (rule inj_onD [OF inj i(3)]) (use i(1) in auto)
      then show False using i(2) by simp
    qed
    then show ?thesis using False 2(3) inj by (simp add: row_option_def)
  qed
qed simp

text \<open>C40. A select that is filled holds each of its starting options and each row of the answer exactly once, whatever it held before: a row
  that repeats an identifier, or has that of a starting option, gets no option of its own.\<close>

theorem fill_options:
  assumes "fp_starting p = Some ps" "distinct (map fst ps)" "list_all (\<lambda>(k, v). truthy v) ps"
    and "inj_on js_str (row_id p ` set rows)"
  shows "distinct (map op_val (fill_answer p rows (fill_start p old))) \<and>
    op_val ` set (fill_answer p rows (fill_start p old)) = fst ` set ps \<union> js_str ` row_id p ` set rows"
proof -
  let ?S = "starting_options p" and ?F = "fetched p [] (order_first (fp_orderFirst p) rows)"
  have st: "fill_start p old = ?S" using assms(1) by (simp add: fill_start_def)
  have vS: "map op_val ?S = map fst (walk_order ps)"
    unfolding starting_options_def assms(1) option.case map_map by (rule map_cong) auto
  have dS: "distinct (map op_val ?S)" using assms(2) unfolding vS
    by (subst mset_eq_imp_distinct_iff [of _ "map fst ps"]) simp_all
  have sS: "op_val ` set ?S = fst ` set ps" using arg_cong [OF vS, of set] by simp
  have inst: "in_starting p i \<longleftrightarrow> js_str i \<in> fst ` set ps" for i
  proof (cases "map_of ps (js_str i)")
    case None
    then have "js_str i \<notin> fst ` set ps" by (simp add: map_of_eq_None_iff)
    then show ?thesis using assms(1) None by (simp add: in_starting_def get_attr_def)
  next
    case (Some v)
    then have "(js_str i, v) \<in> set ps" by (rule map_of_SomeD)
    then show ?thesis using assms(1,3) Some by (force simp: in_starting_def get_attr_def list_all_iff)
  qed
  have sF: "op_val ` set ?F = js_str ` row_id p ` set rows - fst ` set ps" unfolding fetched_vals set_order_first by (auto simp: inst)
  have dF: "distinct (map op_val ?F)" using assms(4) by (intro distinct_fetched) simp
  have sA: "set (arranged p ?F) = set ?F" by (metis mset_arranged set_mset_mset)
  have dA: "distinct (map op_val (arranged p ?F))" using dF
    by (subst mset_eq_imp_distinct_iff [of _ "map op_val ?F"]) simp_all
  have "set (map op_val ?S) \<inter> set (map op_val (arranged p ?F)) = {}" unfolding set_map sS sA sF by blast
  moreover have "op_val ` set (?S @ arranged p ?F) = fst ` set ps \<union> js_str ` row_id p ` set rows"
    unfolding set_append image_Un sS sA sF by blast
  ultimately show ?thesis unfolding fill_answer_def st using dS dA by simp
qed

section \<open>The bar of filters\<close>

definition getFilterStartingOptions :: "js \<Rightarrow> js obj option" where
  "getFilterStartingOptions options =
     (case options of
        JArr ds \<Rightarrow> Some (fold (\<lambda>d. AList.update (js_str (get_attr (obj_of_js d) ''value'')) (get_attr (obj_of_js d) ''text'')) ds [])
      | _ \<Rightarrow> None)"

definition getFilterSelectedId :: "js \<Rightarrow> js" where
  "getFilterSelectedId options =
     (case options of
        JArr ds \<Rightarrow>
          (case find (\<lambda>d. truthy (get_attr (obj_of_js d) ''selected'')) ds of
             Some d \<Rightarrow> get_attr (obj_of_js d) ''value''
           | None \<Rightarrow> JNum FILTER_ALL)
      | _ \<Rightarrow> Undef)"

text \<open>The constants of the kinds of element, and the filter of the tenant that \<open>setFilters\<close> adds for a superadmin.\<close>

definition QVD_OBJS_EXIST_IN_SUPERTENANT :: "string list" where
  "QVD_OBJS_EXIST_IN_SUPERTENANT = [''role'', ''administrator'', ''property'']"

definition QVD_OBJS_EXIST_OUT_TENANT :: "string list" where
  "QVD_OBJS_EXIST_OUT_TENANT = [''role'']"

definition tenant_filter_js :: "js obj" where
  "tenant_filter_js =
     [(''filterField'', JStr ''tenant_id''), (''type'', JStr ''select''), (''text'', JStr ''Tenant''), (''displayDesktop'', JBool True),
      (''displayMobile'', JBool True), (''class'', JStr ''chosen-advanced''), (''fillable'', JBool True),
      (''fixable'', JStr ''only-positive''), (''waitLoading'', JBool True),
      (''options'', JArr [JObj [(''value'', JNum FILTER_ALL), (''text'', JStr ''All''), (''selected'', JBool True)]])]"

definition setFilters_js :: "wat_c \<Rightarrow> string \<Rightarrow> js obj" where
  "setFilters_js C q =
     (let table = (case map_of all_formFilters q of Some t \<Rightarrow> t | None \<Rightarrow> []);
          fs = filter (\<lambda>(k, e). purgeConfigData C [(k, filter_of_js (obj_of_js e))] \<noteq> []) table
      in if shows_tenant C q then jq_extend [(''tenant'', JObj tenant_filter_js)] fs else fs)"

text \<open>The state. \<open>fb_tenant\<close> is the filter of the collection by tenant, \<open>fb_loading\<close> the selects with the attribute \<open>data-loading\<close>,
  \<open>fb_pending\<close> the requests that are not answered, each with the select that it fills.\<close>

record filter_bar =
  fb_obj :: string
  fb_conf :: "js obj"
  fb_mobile :: bool
  fb_filters :: "js obj"
  fb_tenant :: js
  fb_options :: "sel_option list obj"
  fb_loading :: "string list"
  fb_disabled :: "string list"
  fb_pending :: "(string \<times> fill_params) list"

definition classified :: "string \<Rightarrow> bool" where
  "classified n \<longleftrightarrow> inArray n QVD_OBJS_CLASSIFIED_BY_TENANT \<noteq> -1"

definition is_select :: "js obj \<Rightarrow> bool" where
  "is_select a \<longleftrightarrow> get_attr a ''type'' = JStr ''select''"

definition shown_in :: "bool \<Rightarrow> js obj \<Rightarrow> bool" where
  "shown_in mobile a \<longleftrightarrow> truthy (get_attr a (if mobile then ''displayMobile'' else ''displayDesktop''))"

text \<open>The templates mark only the selects of the wide screen, which are in the page on a small one too.\<close>

definition marked :: "string \<Rightarrow> filter_bar \<Rightarrow> string list" where
  "marked attr B = map fst (filter (\<lambda>(n, e). shown_in False (obj_of_js e) \<and> is_select (obj_of_js e) \<and> truthy (get_attr (obj_of_js e) attr)) (fb_conf B))"

definition tenant_depent :: "filter_bar \<Rightarrow> string list" where
  "tenant_depent = marked ''tenantDepent''"

definition waiting_loading :: "filter_bar \<Rightarrow> string list" where
  "waiting_loading = marked ''waitLoading''"

definition set_options :: "string \<Rightarrow> (sel_option list \<Rightarrow> sel_option list) \<Rightarrow> filter_bar \<Rightarrow> filter_bar" where
  "set_options n f B = B\<lparr>fb_options := AList.update n (f (case map_of (fb_options B) n of None \<Rightarrow> [] | Some ds \<Rightarrow> ds)) (fb_options B)\<rparr>"

definition disable :: "string \<Rightarrow> filter_bar \<Rightarrow> filter_bar" where
  "disable n B = B\<lparr>fb_disabled := List.insert n (fb_disabled B)\<rparr>"

definition enable :: "string \<Rightarrow> filter_bar \<Rightarrow> filter_bar" where
  "enable n B = B\<lparr>fb_disabled := removeAll n (fb_disabled B)\<rparr>"

text \<open>What is asked for a select.\<close>

definition fetch_params :: "wat_c \<Rightarrow> filter_bar \<Rightarrow> string \<Rightarrow> js obj \<Rightarrow> fill_params" where
  "fetch_params C B n a =
     (let options = get_attr a ''options'';
          chosen = get_attr (fb_filters B) (str_attr a ''filterField'');
          starting = getFilterStartingOptions options;
          narrowed = isSuperadmin C \<and> classified n
      in \<lparr>fp_starting = (if inArray (fb_obj B) QVD_OBJS_EXIST_OUT_TENANT \<noteq> -1
                         then Some (jq_extend (case starting of None \<Rightarrow> [] | Some ps \<Rightarrow> ps) [(num_str COMMON_TENANT_ID, JStr ''None (Common)'')])
                         else starting),
          fp_selected = (if truthy chosen then chosen else getFilterSelectedId options),
          fp_nameAsId = truthy (get_attr a ''nameAsId''),
          fp_auto = (if truthy (get_attr a ''fillAction'') then None else Some n),
          fp_action = str_of_js (get_attr a ''fillAction''),
          fp_fields = None, fp_extra = [],
          fp_filters = (if narrowed \<and> truthy (fb_tenant B) then Some (JObj [(''tenant_id'', fb_tenant B)]) else None),
          fp_order = Some (JObj [(''field'', JArr (map JStr ((if classified n then [''tenant_name''] else []) @
                                     [if n = ''di'' then ''disk_image'' else ''name'']))), (''order'', JStr ''-asc'')]),
          fp_groupBy = (if narrowed \<and> \<not> truthy (fb_tenant B) then Some ''tenant_name'' else None),
          fp_group = None, fp_orderFirst = []\<rparr>)"

text \<open>Sending the request of a select: \<open>fillSelect\<close> up to its answer.\<close>

definition fillSelect :: "wat_c \<Rightarrow> string \<Rightarrow> fill_params \<Rightarrow> filter_bar \<Rightarrow> js_error + filter_bar" where
  "fillSelect C n p B =
     (case fill_request C p of
        Inl e \<Rightarrow> Inl e
      | Inr None \<Rightarrow> Inr (set_options n (fill_start p) B)
      | Inr (Some url) \<Rightarrow>
          (let B1 = disable n (set_options n (fill_start p) B) in Inr (B1\<lparr>fb_pending := fb_pending B1 @ [(n, p)]\<rparr>)))"

text \<open>A filter that is not filled shows the value that the view is filtered by.\<close>

definition mark_option :: "js \<Rightarrow> sel_option list \<Rightarrow> sel_option list" where
  "mark_option v ds =
     (if \<not> nullish v \<and> js_str v \<in> op_val ` set ds then map (\<lambda>d. d\<lparr>op_selected := (op_val d = js_str v)\<rparr>) ds else ds)"

fun fetch_loop :: "wat_c \<Rightarrow> bool \<Rightarrow> js obj \<Rightarrow> filter_bar \<Rightarrow> js_error + filter_bar" where
  "fetch_loop C cls [] B = Inr B"
| "fetch_loop C cls ((n, e) # rest) B =
     (let a = obj_of_js e
      in if \<not> shown_in (fb_mobile B) a \<or> \<not> classified n \<and> cls then fetch_loop C cls rest B
         else if truthy (get_attr a ''fillable'') then
           (if is_select a then
              (case fillSelect C n (fetch_params C B n a) (B\<lparr>fb_loading := List.insert n (fb_loading B)\<rparr>) of
                 Inl x \<Rightarrow> Inl x
               | Inr B1 \<Rightarrow> fetch_loop C cls rest B1)
            else fetch_loop C cls rest B)
         else fetch_loop C cls rest (set_options n (mark_option (get_attr (fb_filters B) (str_attr a ''filterField''))) B))"

definition fetchFilters :: "wat_c \<Rightarrow> bool \<Rightarrow> filter_bar \<Rightarrow> js_error + filter_bar" where
  "fetchFilters C cls B = fetch_loop C cls (fb_conf B) B"

text \<open>The answer of a select, the first of its requests under way. The filter of the tenant is enabled when nothing loads any more;
  the supertenant is no choice in it, but for administrators, roles and properties. A request that fails only shows a message.\<close>

definition take_pending :: "string \<times> fill_params \<Rightarrow> filter_bar \<Rightarrow> filter_bar" where
  "take_pending r B = B\<lparr>fb_pending := remove1 r (fb_pending B)\<rparr>"

definition fill_success :: "wat_c \<Rightarrow> string \<times> fill_params \<Rightarrow> js obj list \<Rightarrow> filter_bar \<Rightarrow> filter_bar" where
  "fill_success C r rows B =
     (let n = fst r;
          B1 = set_options n (fill_answer (snd r) rows) (take_pending r B);
          B2 = B1\<lparr>fb_loading := removeAll n (fb_loading B1)\<rparr>;
          B3 = (if \<not> isSuperadmin C \<or> waiting_loading B2 = [] \<or> n \<noteq> ''tenant'' then enable n B2 else B2);
          B4 = (if waiting_loading B3 \<noteq> [] \<and> fb_loading B3 = [] then enable ''tenant'' B3 else B3)
      in if inArray (fb_obj B4) QVD_OBJS_EXIST_IN_SUPERTENANT = -1 \<and> n = ''tenant''
         then set_options ''tenant'' (filter (\<lambda>d. op_val d \<noteq> ''0'')) B4 else B4)"

definition fill_error :: "string \<times> fill_params \<Rightarrow> filter_bar \<Rightarrow> filter_bar" where
  "fill_error r B = take_pending r B"

text \<open>Choosing a tenant: what depends on it is emptied and asked for again, and only then the list is filtered by the tenant.\<close>

definition select_value :: "string \<Rightarrow> sel_option list \<Rightarrow> sel_option list" where
  "select_value v ds = map (\<lambda>d. d\<lparr>op_selected := (op_val d = v)\<rparr>) ds"

definition resetSelectFiltersByTenant :: "filter_bar \<Rightarrow> filter_bar" where
  "resetSelectFiltersByTenant B =
     fold (\<lambda>(n, e) B. if truthy (get_attr (obj_of_js e) ''fillable'') \<and> is_select (obj_of_js e) \<and> classified n
                      then set_options n (\<lambda>_. []) B else B) (fb_conf B) B"

definition filter_by_tenant :: "js \<Rightarrow> filter_bar \<Rightarrow> filter_bar" where
  "filter_by_tenant v B = B\<lparr>fb_tenant := (if loose_eq v (JNum FILTER_ALL) \<or> nullish v then Undef else v)\<rparr>"

definition reset_depent :: "filter_bar \<Rightarrow> filter_bar" where
  "reset_depent B =
     (let B1 = (if tenant_depent B \<noteq> [] then disable ''tenant'' B else B)
      in resetSelectFiltersByTenant (fold (\<lambda>n. set_options n (select_value (num_str FILTER_ALL))) (tenant_depent B1) B1))"

definition list_changeTenant :: "wat_c \<Rightarrow> js \<Rightarrow> filter_bar \<Rightarrow> js_error + filter_bar" where
  "list_changeTenant C v B = map_sum id (filter_by_tenant v) (fetchFilters C True (reset_depent B))"

text \<open>The bar as the template draws it, before its selects are fetched.\<close>

definition template_options :: "bool \<Rightarrow> js obj \<Rightarrow> sel_option list" where
  "template_options mobile a =
     (case get_attr a ''options'' of
        JArr ds \<Rightarrow>
          if truthy (get_attr a ''fillable'') \<and> \<not> mobile then []
          else map (\<lambda>d. \<lparr>op_val = js_str (get_attr (obj_of_js d) ''value''), op_text = js_str (get_attr (obj_of_js d) ''text''), op_attrs = [],
                      op_group = None, op_selected = truthy (get_attr (obj_of_js d) ''selected'')\<rparr>) ds
      | _ \<Rightarrow> [])"

definition draw_bar :: "wat_c \<Rightarrow> string \<Rightarrow> bool \<Rightarrow> js obj \<Rightarrow> js \<Rightarrow> filter_bar" where
  "draw_bar C q mobile filters tenant =
     (let conf = setFilters_js C q
      in \<lparr>fb_obj = q, fb_conf = conf, fb_mobile = mobile, fb_filters = filters, fb_tenant = tenant,
          fb_options = map (\<lambda>(n, e). (n, template_options mobile (obj_of_js e))) conf, fb_loading = [],
          fb_disabled = map fst (filter (\<lambda>(n, e). shown_in False (obj_of_js e) \<and> is_select (obj_of_js e) \<and>
                          truthy (get_attr (obj_of_js e) ''waitLoading'')) conf),
          fb_pending = []\<rparr>)"

text \<open>Answers in any order, failures, and changes of the tenant when its control is enabled; the flag tells that no request failed.\<close>

inductive bar_reach :: "wat_c \<Rightarrow> bool \<Rightarrow> filter_bar \<Rightarrow> bool" for C where
  shown: "fetchFilters C False (draw_bar C q mobile filters tenant) = Inr B \<Longrightarrow> bar_reach C True B"
| filled: "bar_reach C sound B \<Longrightarrow> r \<in> set (fb_pending B) \<Longrightarrow> bar_reach C sound (fill_success C r rows B)"
| failed: "bar_reach C sound B \<Longrightarrow> r \<in> set (fb_pending B) \<Longrightarrow> bar_reach C False (fill_error r B)"
| changed: "bar_reach C sound B \<Longrightarrow> ''tenant'' \<in> fst ` set (fb_conf B) \<Longrightarrow> ''tenant'' \<notin> set (fb_disabled B) \<Longrightarrow>
    list_changeTenant C v B = Inr B' \<Longrightarrow> bar_reach C sound B'"

section \<open>The tables of filters\<close>

text \<open>What the bar needs of an entry: a select with an action of its own is not grouped by tenant, and one that is filled has starting
  options.\<close>

definition fetchable :: "string \<Rightarrow> js obj \<Rightarrow> bool" where
  "fetchable n a \<longleftrightarrow>
     (if truthy (get_attr a ''fillAction'') then \<not> classified n \<and> str_of_js (get_attr a ''fillAction'') \<noteq> None else True) \<and>
     (if truthy (get_attr a ''fillable'') then (case get_attr a ''options'' of JArr ds \<Rightarrow> True | _ \<Rightarrow> False) else True)"

text \<open>A select that is marked as dependent on the tenant is one that is asked for again when the tenant changes.\<close>

definition wanted_entry :: "bool \<Rightarrow> bool \<Rightarrow> string \<Rightarrow> js obj \<Rightarrow> bool" where
  "wanted_entry cls mobile n a \<longleftrightarrow>
     shown_in mobile a \<and> (classified n \<or> \<not> cls) \<and> truthy (get_attr a ''fillable'') \<and> is_select a"

definition dependent :: "js obj \<Rightarrow> bool" where
  "dependent a \<longleftrightarrow> shown_in False a \<and> is_select a \<and> truthy (get_attr a ''tenantDepent'')"

definition entry_ok :: "string \<Rightarrow> js obj \<Rightarrow> bool" where
  "entry_ok n a \<longleftrightarrow> fetchable n a \<and> n \<noteq> ''tenant'' \<and> \<not> truthy (get_attr a ''waitLoading'') \<and>
     (if dependent a then wanted_entry True False n a else True)"

text \<open>The converse, which makes the filter of the tenant wait for them.\<close>

definition entry_guarded :: "string \<Rightarrow> js obj \<Rightarrow> bool" where
  "entry_guarded n a \<longleftrightarrow> (if wanted_entry True False n a \<or> wanted_entry True True n a then dependent a else True)"

lemma tables_ok: "list_all (\<lambda>(q, t). distinct (map fst t) \<and> list_all (\<lambda>(n, e). entry_ok n (obj_of_js e)) t) all_formFilters"
  by code_simp

lemma tables_guarded:
  "list_all (\<lambda>(q, t). q \<in> set [''log'', ''host''] \<or> list_all (\<lambda>(n, e). entry_guarded n (obj_of_js e)) t) all_formFilters"
  by code_simp

lemma update_new: "k \<notin> fst ` set al \<Longrightarrow> AList.update k v al = al @ [(k, v)]"
  by (induction al) auto

lemma jq_extend_disjoint: "distinct (map fst b) \<Longrightarrow> fst ` set a \<inter> fst ` set b = {} \<Longrightarrow> jq_extend a b = a @ b"
proof (induction b arbitrary: a)
  case (Cons p b)
  have n: "fst p \<notin> fst ` set a" using Cons.prems by auto
  have "fst ` set (a @ [p]) \<inter> fst ` set b = {}" using Cons.prems by auto
  from Cons.IH [OF _ this] Cons.prems(1) show ?case by (simp add: jq_extend_def update_new [OF n])
qed simp

definition conf_ok :: "string \<Rightarrow> js obj \<Rightarrow> bool" where
  "conf_ok q conf \<longleftrightarrow>
     (\<exists>fs. conf = (''tenant'', JObj tenant_filter_js) # fs \<and> distinct (map fst fs) \<and> list_all (\<lambda>(n, e). entry_ok n (obj_of_js e)) fs \<and>
        (if q = ''log'' then True else list_all (\<lambda>(n, e). entry_guarded n (obj_of_js e)) fs))"

lemma setFilters_tenant:
  assumes "shows_tenant C q"
  shows "\<exists>fs. setFilters_js C q = (''tenant'', JObj tenant_filter_js) # fs \<and> distinct (map fst fs) \<and>
    set fs \<subseteq> set (case map_of all_formFilters q of Some t \<Rightarrow> t | None \<Rightarrow> []) \<and> list_all (\<lambda>(n, e). entry_ok n (obj_of_js e)) fs"
proof -
  let ?t = "case map_of all_formFilters q of Some t \<Rightarrow> t | None \<Rightarrow> []"
  let ?fs = "filter (\<lambda>(k, e). purgeConfigData C [(k, filter_of_js (obj_of_js e))] \<noteq> []) ?t"
  have t: "distinct (map fst ?t) \<and> list_all (\<lambda>(n, e). entry_ok n (obj_of_js e)) ?t"
  proof (cases "map_of all_formFilters q")
    case (Some t)
    then have m: "(q, t) \<in> set all_formFilters" by (rule map_of_SomeD)
    show ?thesis using tables_ok m unfolding list_all_iff Some by auto
  qed simp
  have d: "distinct (map fst ?fs)" using t by (simp add: distinct_map_filter)
  have e: "list_all (\<lambda>(n, e). entry_ok n (obj_of_js e)) ?fs" using t by (auto simp: list_all_iff)
  then have "''tenant'' \<notin> fst ` set ?fs" by (force simp: list_all_iff entry_ok_def)
  then have "setFilters_js C q = (''tenant'', JObj tenant_filter_js) # ?fs"
    using assms d by (simp add: setFilters_js_def Let_def jq_extend_disjoint)
  moreover have "set ?fs \<subseteq> set ?t" by (rule filter_is_subset)
  ultimately show ?thesis using d e by blast
qed

lemma conf_ok_setFilters:
  assumes "shows_tenant C q"
  shows "conf_ok q (setFilters_js C q)"
proof -
  obtain fs where fs: "setFilters_js C q = (''tenant'', JObj tenant_filter_js) # fs" "distinct (map fst fs)"
    "set fs \<subseteq> set (case map_of all_formFilters q of Some t \<Rightarrow> t | None \<Rightarrow> [])" "list_all (\<lambda>(n, e). entry_ok n (obj_of_js e)) fs"
    using setFilters_tenant [OF assms] by blast
  have q: "q \<noteq> ''host''" using assms by (auto simp: shows_tenant_def QVD_OBJS_CLASSIFIED_BY_TENANT_def)
  have "list_all (\<lambda>(n, e). entry_guarded n (obj_of_js e)) fs" if "q \<noteq> ''log''"
  proof (cases "map_of all_formFilters q")
    case (Some t)
    then have m: "(q, t) \<in> set all_formFilters" by (rule map_of_SomeD)
    then have "list_all (\<lambda>(n, e). entry_guarded n (obj_of_js e)) t" using tables_guarded q that unfolding list_all_iff by auto
    then show ?thesis using fs(3) unfolding Some by (auto simp: list_all_iff)
  qed (use fs(3) in simp)
  then show ?thesis using fs(1,2,4) unfolding conf_ok_def by auto
qed

section \<open>The selects of the bar\<close>

lemma fill_request_ok:
  assumes "fetchable n a"
  shows "\<exists>url. fill_request C (fetch_params C B n a) = Inr (Some url)"
proof (cases "truthy (get_attr a ''fillAction'')")
  case True
  then have "\<not> classified n" "str_of_js (get_attr a ''fillAction'') \<noteq> None" using assms by (simp_all add: fetchable_def)
  then show ?thesis using True by (simp add: fill_request_def fetch_params_def Let_def)
next
  case False
  then show ?thesis by (simp add: fill_request_def fetch_params_def Let_def)
qed

lemma starting_fetch:
  assumes "fetchable n a" "truthy (get_attr a ''fillable'')"
  shows "fp_starting (fetch_params C B n a) \<noteq> None"
  using assms by (auto simp: fetchable_def fetch_params_def Let_def getFilterStartingOptions_def split: js.splits)

text \<open>What does not change while requests are sent.\<close>

definition same_bar :: "filter_bar \<Rightarrow> filter_bar \<Rightarrow> bool" where
  "same_bar B B' \<longleftrightarrow> fb_obj B' = fb_obj B \<and> fb_conf B' = fb_conf B \<and> fb_mobile B' = fb_mobile B \<and> fb_filters B' = fb_filters B \<and>
     fb_tenant B' = fb_tenant B"

lemma fetch_params_same: "same_bar B B' \<Longrightarrow> fetch_params C B' n a = fetch_params C B n a"
  by (simp add: same_bar_def fetch_params_def)

lemma set_options_sel [simp]:
  "fb_pending (set_options n f B) = fb_pending B" "fb_loading (set_options n f B) = fb_loading B"
  "fb_disabled (set_options n f B) = fb_disabled B" "same_bar B (set_options n f B)"
  by (simp_all add: set_options_def same_bar_def)

lemma map_of_set_options:
  "map_of (fb_options (set_options n f B)) m =
     (if m = n then Some (f (case map_of (fb_options B) n of None \<Rightarrow> [] | Some ds \<Rightarrow> ds)) else map_of (fb_options B) m)"
  by (simp add: set_options_def update_conv')

definition wanted :: "bool \<Rightarrow> bool \<Rightarrow> js obj \<Rightarrow> (string \<times> js) list" where
  "wanted cls mobile = filter (\<lambda>(n, e). wanted_entry cls mobile n (obj_of_js e))"

lemma fetch_loop_result:
  assumes "list_all (\<lambda>(n, e). fetchable n (obj_of_js e)) rest" "distinct (map fst rest)"
  shows "\<exists>B'. fetch_loop C cls rest B = Inr B' \<and> same_bar B B' \<and>
    fb_pending B' = fb_pending B @ map (\<lambda>(n, e). (n, fetch_params C B n (obj_of_js e))) (wanted cls (fb_mobile B) rest) \<and>
    set (fb_loading B') = set (fb_loading B) \<union> fst ` set (wanted cls (fb_mobile B) rest) \<and>
    set (fb_disabled B') = set (fb_disabled B) \<union> fst ` set (wanted cls (fb_mobile B) rest) \<and>
    (\<forall>(n, e) \<in> set (wanted cls (fb_mobile B) rest). map_of (fb_options B') n = Some (starting_options (fetch_params C B n (obj_of_js e)))) \<and>
    (\<forall>n. n \<notin> fst ` set rest \<longrightarrow> map_of (fb_options B') n = map_of (fb_options B) n)"
  using assms
proof (induction rest arbitrary: B)
  case Nil
  then show ?case by (simp add: wanted_def same_bar_def)
next
  case (Cons x rest)
  obtain n e where x: "x = (n, e)" by (cases x)
  let ?a = "obj_of_js e"
  have prems: "list_all (\<lambda>(n, e). fetchable n (obj_of_js e)) rest" "distinct (map fst rest)" "fetchable n ?a" "n \<notin> fst ` set rest"
    using Cons.prems x by auto
  show ?case
  proof (cases "wanted_entry cls (fb_mobile B) n ?a")
    case True
    let ?p = "fetch_params C B n ?a" and ?L = "B\<lparr>fb_loading := List.insert n (fb_loading B)\<rparr>"
    let ?B1 = "disable n (set_options n (fill_start ?p) ?L)\<lparr>fb_pending := fb_pending B @ [(n, ?p)]\<rparr>"
    obtain url where url: "fill_request C ?p = Inr (Some url)" using fill_request_ok [OF prems(3)] by blast
    have fill: "fillSelect C n ?p ?L = Inr ?B1" by (simp add: fillSelect_def url Let_def disable_def)
    have step: "fetch_loop C cls (x # rest) B = fetch_loop C cls rest ?B1"
      using True by (auto simp: x wanted_entry_def Let_def fill)
    have same: "same_bar B ?B1" by (simp add: same_bar_def disable_def set_options_def)
    have st: "fill_start ?p ds = starting_options ?p" for ds
      using starting_fetch [OF prems(3), of C B] True by (cases "fp_starting ?p") (auto simp: fill_start_def wanted_entry_def)
    have opt: "map_of (fb_options ?B1) m = (if m = n then Some (starting_options ?p) else map_of (fb_options B) m)" for m
      using map_of_set_options [of n "fill_start ?p" ?L m] by (simp add: disable_def st)
    from Cons.IH [OF prems(1,2), of ?B1] obtain B' where B': "fetch_loop C cls rest ?B1 = Inr B'" "same_bar ?B1 B'"
      "fb_pending B' = fb_pending ?B1 @ map (\<lambda>(n, e). (n, fetch_params C ?B1 n (obj_of_js e))) (wanted cls (fb_mobile ?B1) rest)"
      "set (fb_loading B') = set (fb_loading ?B1) \<union> fst ` set (wanted cls (fb_mobile ?B1) rest)"
      "set (fb_disabled B') = set (fb_disabled ?B1) \<union> fst ` set (wanted cls (fb_mobile ?B1) rest)"
      "\<forall>(n, e) \<in> set (wanted cls (fb_mobile ?B1) rest). map_of (fb_options B') n = Some (starting_options (fetch_params C ?B1 n (obj_of_js e)))"
      "\<forall>n. n \<notin> fst ` set rest \<longrightarrow> map_of (fb_options B') n = map_of (fb_options ?B1) n"
      by blast
    have mob: "fb_mobile ?B1 = fb_mobile B" using same by (simp add: same_bar_def)
    have W: "wanted cls (fb_mobile B) (x # rest) = (n, e) # wanted cls (fb_mobile B) rest" using True by (simp add: wanted_def x)
    have "same_bar B B'" using same B'(2) by (auto simp: same_bar_def)
    moreover have "fb_pending B' = fb_pending B @ map (\<lambda>(n, e). (n, fetch_params C B n (obj_of_js e))) (wanted cls (fb_mobile B) (x # rest))"
      unfolding B'(3) mob W fetch_params_same [OF same] by simp
    moreover have "set (fb_loading B') = set (fb_loading B) \<union> fst ` set (wanted cls (fb_mobile B) (x # rest))"
      unfolding B'(4) mob W by (simp add: disable_def)
    moreover have "set (fb_disabled B') = set (fb_disabled B) \<union> fst ` set (wanted cls (fb_mobile B) (x # rest))"
      unfolding B'(5) mob W by (simp add: disable_def)
    moreover have "map_of (fb_options B') n = Some (starting_options ?p)" using B'(7) prems(4) opt by simp
    then have "\<forall>(n, e) \<in> set (wanted cls (fb_mobile B) (x # rest)). map_of (fb_options B') n = Some (starting_options (fetch_params C B n (obj_of_js e)))"
      using B'(6) unfolding mob W fetch_params_same [OF same] by simp
    moreover have "\<forall>m. m \<notin> fst ` set (x # rest) \<longrightarrow> map_of (fb_options B') m = map_of (fb_options B) m"
      using B'(7) opt by (simp add: x)
    ultimately show ?thesis unfolding step using B'(1) by blast
  next
    case False
    have W: "wanted cls (fb_mobile B) (x # rest) = wanted cls (fb_mobile B) rest" using False by (simp add: wanted_def x)
    show ?thesis
    proof (cases "shown_in (fb_mobile B) ?a \<and> (classified n \<or> \<not> cls) \<and> \<not> truthy (get_attr ?a ''fillable'')")
      case True
      let ?B1 = "set_options n (mark_option (get_attr (fb_filters B) (str_attr ?a ''filterField''))) B"
      have step: "fetch_loop C cls (x # rest) B = fetch_loop C cls rest ?B1" using True by (auto simp: x Let_def)
      have same: "same_bar B ?B1" by simp
      have mob: "fb_mobile ?B1 = fb_mobile B" using same by (simp add: same_bar_def)
      show ?thesis unfolding step W using Cons.IH [OF prems(1,2), of ?B1]
        unfolding mob fetch_params_same [OF same] by (auto simp: x map_of_set_options same_bar_def set_options_def)
    next
      case no: False
      have step: "fetch_loop C cls (x # rest) B = fetch_loop C cls rest B"
        using no False by (auto simp: x Let_def wanted_entry_def)
      show ?thesis unfolding step W using Cons.IH [OF prems(1,2), of B] by auto
    qed
  qed
qed


text \<open>Emptying selects touches the options only.\<close>

definition only_options :: "filter_bar \<Rightarrow> filter_bar \<Rightarrow> bool" where
  "only_options B B' \<longleftrightarrow> same_bar B B' \<and> fb_pending B' = fb_pending B \<and> fb_loading B' = fb_loading B \<and> fb_disabled B' = fb_disabled B"

lemma same_bar_refl: "same_bar B B"
  by (simp add: same_bar_def)

lemma only_options_fold: "(\<And>x B. only_options B (g x B)) \<Longrightarrow> only_options B (fold g xs B)"
proof (induction xs arbitrary: B)
  case (Cons x xs)
  have "only_options B (g x B)" "only_options (g x B) (fold g xs (g x B))" using Cons by auto
  then show ?case by (simp add: only_options_def same_bar_def)
qed (simp add: only_options_def same_bar_def)

lemma only_options_set [simp]: "only_options B (set_options n f B)"
  by (simp add: only_options_def)

lemma only_options_reset: "only_options B (resetSelectFiltersByTenant B)"
  unfolding resetSelectFiltersByTenant_def
  by (rule only_options_fold) (auto simp: only_options_def same_bar_refl)

lemma reset_depent_sel:
  "same_bar B (reset_depent B)" "fb_pending (reset_depent B) = fb_pending B" "fb_loading (reset_depent B) = fb_loading B"
  "set (fb_disabled (reset_depent B)) = (if tenant_depent B \<noteq> [] then {''tenant''} else {}) \<union> set (fb_disabled B)"
proof -
  let ?B1 = "if tenant_depent B \<noteq> [] then disable ''tenant'' B else B"
  let ?B2 = "fold (\<lambda>n. set_options n (select_value (num_str FILTER_ALL))) (tenant_depent ?B1) ?B1"
  have 12: "only_options ?B1 ?B2" by (rule only_options_fold) simp
  have 23: "only_options ?B2 (reset_depent B)" unfolding reset_depent_def Let_def by (rule only_options_reset)
  have 1: "same_bar B ?B1" "fb_pending ?B1 = fb_pending B" "fb_loading ?B1 = fb_loading B"
    "set (fb_disabled ?B1) = (if tenant_depent B \<noteq> [] then {''tenant''} else {}) \<union> set (fb_disabled B)"
    by (auto simp: disable_def same_bar_def)
  show "same_bar B (reset_depent B)" "fb_pending (reset_depent B) = fb_pending B" "fb_loading (reset_depent B) = fb_loading B"
    "set (fb_disabled (reset_depent B)) = (if tenant_depent B \<noteq> [] then {''tenant''} else {}) \<union> set (fb_disabled B)"
    using 12 23 1 unfolding only_options_def same_bar_def by metis+
qed

lemma entry_okD: "entry_ok n a \<Longrightarrow> n \<noteq> ''tenant'' \<and> fetchable n a"
  by (simp add: entry_ok_def)

lemma conf_fetchable:
  assumes "conf_ok q conf"
  shows "list_all (\<lambda>(n, e). fetchable n (obj_of_js e)) conf" "distinct (map fst conf)"
proof -
  obtain fs where c: "conf = (''tenant'', JObj tenant_filter_js) # fs" "distinct (map fst fs)" "list_all (\<lambda>(n, e). entry_ok n (obj_of_js e)) fs"
    using assms unfolding conf_ok_def by blast
  have t: "fetchable ''tenant'' tenant_filter_js" by code_simp
  have ok: "entry_ok n (obj_of_js e)" if "(n, e) \<in> set fs" for n e using c(3) that by (auto simp: list_all_iff)
  show "list_all (\<lambda>(n, e). fetchable n (obj_of_js e)) conf" unfolding c(1) using t entry_okD [OF ok] by (auto simp: list_all_iff)
  have "''tenant'' \<notin> fst ` set fs" using entry_okD [OF ok] by fastforce
  then show "distinct (map fst conf)" using c(2) unfolding c(1) by simp
qed

lemma tenant_entry:
  "wanted_entry False mobile ''tenant'' tenant_filter_js" "\<not> wanted_entry True mobile ''tenant'' tenant_filter_js"
  "\<not> dependent tenant_filter_js" "truthy (get_attr tenant_filter_js ''waitLoading'')" "shown_in False tenant_filter_js"
  "is_select tenant_filter_js"
  by (simp_all add: wanted_entry_def dependent_def shown_in_def is_select_def classified_def QVD_OBJS_CLASSIFIED_BY_TENANT_def
      tenant_filter_js_def get_attr_def)

lemma waiting_conf: "conf_ok q (fb_conf B) \<Longrightarrow> waiting_loading B \<noteq> []"
  by (auto simp: conf_ok_def waiting_loading_def marked_def tenant_entry)

lemma tenant_depent_iff:
  "tenant_depent B = map fst (filter (\<lambda>(n, e). dependent (obj_of_js e)) (fb_conf B))"
  by (simp add: tenant_depent_def marked_def dependent_def)

lemma tenant_depent_conf: "fb_conf B' = fb_conf B \<Longrightarrow> tenant_depent B' = tenant_depent B"
  by (simp add: tenant_depent_iff)

text \<open>On a change of the tenant, the selects that are asked for again are there exactly when some select is marked (on a wide screen
  at least one for each marked one, and but for the list of logs only marked ones).\<close>

lemma wanted_dependent:
  assumes "conf_ok q (fb_conf B)"
  shows "tenant_depent B \<noteq> [] \<Longrightarrow> wanted True False (fb_conf B) \<noteq> []"
    "q \<noteq> ''log'' \<Longrightarrow> wanted True mobile (fb_conf B) \<noteq> [] \<Longrightarrow> tenant_depent B \<noteq> []"
    "''tenant'' \<notin> fst ` set (wanted True mobile (fb_conf B))" "''tenant'' \<in> fst ` set (wanted False mobile (fb_conf B))"
proof -
  obtain fs where c: "fb_conf B = (''tenant'', JObj tenant_filter_js) # fs" "list_all (\<lambda>(n, e). entry_ok n (obj_of_js e)) fs"
    "q = ''log'' \<or> list_all (\<lambda>(n, e). entry_guarded n (obj_of_js e)) fs"
    using assms unfolding conf_ok_def by (auto split: if_splits)
  have ok: "entry_ok n (obj_of_js e)" if "(n, e) \<in> set fs" for n e using c(2) that by (auto simp: list_all_iff)
  have guard: "entry_guarded n (obj_of_js e)" if "(n, e) \<in> set fs" "q \<noteq> ''log''" for n e using c(3) that by (auto simp: list_all_iff)
  show "tenant_depent B \<noteq> [] \<Longrightarrow> wanted True False (fb_conf B) \<noteq> []"
  proof -
    assume "tenant_depent B \<noteq> []"
    then obtain n e where x: "(n, e) \<in> set fs" "dependent (obj_of_js e)"
      unfolding tenant_depent_iff c(1) by (auto simp: filter_empty_conv tenant_entry)
    then have "wanted_entry True False n (obj_of_js e)" using ok [OF x(1)] by (simp add: entry_ok_def)
    then show ?thesis using x(1) by (auto simp: wanted_def c(1) filter_empty_conv)
  qed
  show "q \<noteq> ''log'' \<Longrightarrow> wanted True mobile (fb_conf B) \<noteq> [] \<Longrightarrow> tenant_depent B \<noteq> []"
  proof -
    assume q: "q \<noteq> ''log''" and "wanted True mobile (fb_conf B) \<noteq> []"
    then obtain n e where x: "(n, e) \<in> set fs" "wanted_entry True mobile n (obj_of_js e)"
      unfolding wanted_def c(1) using tenant_entry(2) [of mobile] by (auto simp: filter_empty_conv)
    then have "dependent (obj_of_js e)" using guard [OF x(1) q] by (cases mobile) (simp_all add: entry_guarded_def)
    then show ?thesis using x(1) unfolding tenant_depent_iff c(1) by (auto simp: filter_empty_conv)
  qed
  show "''tenant'' \<notin> fst ` set (wanted True mobile (fb_conf B))" unfolding wanted_def c(1)
    using entry_okD [OF ok] tenant_entry(2) [of mobile] by fastforce
  show "''tenant'' \<in> fst ` set (wanted False mobile (fb_conf B))" unfolding wanted_def c(1)
    using tenant_entry(1) [of mobile] by simp
qed

lemma distinct_wanted: "distinct (map fst conf) \<Longrightarrow> distinct (map fst (wanted cls mobile conf))"
  by (simp add: wanted_def distinct_map_filter)

section \<open>The filter of the tenant waits\<close>

text \<open>Each select that waits holds its starting options, and the filter of the tenant is enabled only when none waits; on a wide screen,
  and when no request failed, it is enabled when none waits.\<close>

definition bar_ok :: "wat_c \<Rightarrow> bool \<Rightarrow> filter_bar \<Rightarrow> bool" where
  "bar_ok C sound B \<longleftrightarrow> conf_ok (fb_obj B) (fb_conf B) \<and>
     (''tenant'' \<in> set (fb_disabled B) \<or> fb_pending B = [] \<and> fb_loading B = []) \<and>
     distinct (map fst (fb_pending B)) \<and> fst ` set (fb_pending B) \<subseteq> set (fb_loading B) \<and>
     (\<forall>(n, p) \<in> set (fb_pending B). map_of (fb_options B) n = Some (starting_options p)) \<and>
     (if sound then set (fb_loading B) = fst ` set (fb_pending B) \<and>
        (if \<not> fb_mobile B \<and> fb_pending B = [] then ''tenant'' \<notin> set (fb_disabled B) else True) else True)"

lemma bar_ok_fetched:
  assumes conf: "conf_ok (fb_obj B) (fb_conf B)" and B: "fb_pending B = []" "fb_loading B = []"
    and f: "fetchFilters C cls B = Inr B'"
    and w: "\<not> cls \<or> (''tenant'' \<in> set (fb_disabled B) \<longleftrightarrow> tenant_depent B \<noteq> [])" and q: "fb_obj B \<noteq> ''log''"
  shows "bar_ok C sound B' \<and> same_bar B B'"
proof -
  let ?W = "wanted cls (fb_mobile B) (fb_conf B)"
  obtain B1 where B1: "fetch_loop C cls (fb_conf B) B = Inr B1" "same_bar B B1"
    "fb_pending B1 = fb_pending B @ map (\<lambda>(n, e). (n, fetch_params C B n (obj_of_js e))) ?W"
    "set (fb_loading B1) = set (fb_loading B) \<union> fst ` set ?W" "set (fb_disabled B1) = set (fb_disabled B) \<union> fst ` set ?W"
    "\<forall>(n, e) \<in> set ?W. map_of (fb_options B1) n = Some (starting_options (fetch_params C B n (obj_of_js e)))"
    using fetch_loop_result [OF conf_fetchable [OF conf], of C cls B] by blast
  have [simp]: "B1 = B'" using f B1(1) by (simp add: fetchFilters_def)
  have same: "fb_obj B' = fb_obj B" "fb_conf B' = fb_conf B" "fb_mobile B' = fb_mobile B" using B1(2) by (simp_all add: same_bar_def)
  have P: "fb_pending B' = map (\<lambda>(n, e). (n, fetch_params C B n (obj_of_js e))) ?W" using B1(3) B(1) by simp
  have names: "map fst (fb_pending B') = map fst ?W" unfolding P map_map by (rule map_cong) auto
  then have nset: "fst ` set (fb_pending B') = fst ` set ?W" by (metis list.set_map)
  have L: "set (fb_loading B') = fst ` set (fb_pending B')" using B1(4) B(2) by (simp add: nset)
  have D: "set (fb_disabled B') = set (fb_disabled B) \<union> fst ` set ?W" using B1(5) by simp
  note wd = wanted_dependent [OF conf]
  have t: "''tenant'' \<in> set (fb_disabled B') \<or> fb_pending B' = [] \<and> fb_loading B' = []"
  proof (cases cls)
    case True
    have "?W = []" if "tenant_depent B = []" using wd(2) [OF q, of "fb_mobile B"] that True by auto
    then show ?thesis using w True D P L by (cases "tenant_depent B = []") auto
  next
    case False
    then show ?thesis using wd(4) [of "fb_mobile B"] D by simp
  qed
  have e: "''tenant'' \<notin> set (fb_disabled B')" if "\<not> fb_mobile B'" "fb_pending B' = []"
  proof -
    have "?W = []" using that(2) P by simp
    moreover from this have "cls" using wd(4) [of "fb_mobile B"] by (cases cls) auto
    ultimately show ?thesis using w wd(1) that(1) same(3) D by auto
  qed
  have "map_of (fb_options B') n = Some (starting_options p)" if "(n, p) \<in> set (fb_pending B')" for n p
    using that B1(6) unfolding P by auto
  then show ?thesis
    using conf t e L B1(2) distinct_wanted [OF conf_fetchable(2) [OF conf], of cls "fb_mobile B"]
    unfolding bar_ok_def same names by auto
qed

lemma bar_ok_changed:
  assumes ok: "bar_ok C sound B" and t: "''tenant'' \<notin> set (fb_disabled B)" and q: "fb_obj B \<noteq> ''log''" and c: "list_changeTenant C v B = Inr B'"
  shows "bar_ok C sound B' \<and> fb_obj B' = fb_obj B \<and> fb_conf B' = fb_conf B \<and> fb_mobile B' = fb_mobile B"
proof -
  let ?R = "reset_depent B"
  have conf: "conf_ok (fb_obj B) (fb_conf B)" and idle: "fb_pending B = []" "fb_loading B = []"
    using ok t by (auto simp: bar_ok_def)
  note R = reset_depent_sel [of B]
  have s: "fb_obj ?R = fb_obj B" "fb_conf ?R = fb_conf B" "fb_mobile ?R = fb_mobile B" using R(1) by (simp_all add: same_bar_def)
  have dep: "tenant_depent ?R = tenant_depent B" by (rule tenant_depent_conf [OF s(2)])
  obtain B4 where B4: "fetchFilters C True ?R = Inr B4" "B' = filter_by_tenant v B4"
    using c by (cases "fetchFilters C True ?R") (auto simp: list_changeTenant_def)
  have "bar_ok C sound B4 \<and> same_bar ?R B4"
    by (rule bar_ok_fetched [OF _ _ _ B4(1)]) (use conf q t s dep R idle in auto)
  moreover have "bar_ok C sound (filter_by_tenant v B4) = bar_ok C sound B4" by (simp add: bar_ok_def filter_by_tenant_def)
  ultimately show ?thesis using s unfolding B4(2) by (simp add: filter_by_tenant_def same_bar_def)
qed

text \<open>An answer, and a failure.\<close>

lemma take_pending_sel [simp]:
  "fb_pending (take_pending r B) = remove1 r (fb_pending B)" "fb_loading (take_pending r B) = fb_loading B"
  "fb_disabled (take_pending r B) = fb_disabled B" "fb_options (take_pending r B) = fb_options B" "same_bar B (take_pending r B)"
  by (simp_all add: take_pending_def same_bar_def)

lemma enable_sel [simp]:
  "fb_pending (enable n B) = fb_pending B" "fb_loading (enable n B) = fb_loading B" "fb_disabled (enable n B) = removeAll n (fb_disabled B)"
  "fb_options (enable n B) = fb_options B" "fb_conf (enable n B) = fb_conf B" "fb_obj (enable n B) = fb_obj B"
  "fb_mobile (enable n B) = fb_mobile B" "fb_filters (enable n B) = fb_filters B" "fb_tenant (enable n B) = fb_tenant B"
  by (simp_all add: enable_def)

lemma bar_conf_sel [simp]:
  "fb_conf (set_options n f B) = fb_conf B" "fb_obj (set_options n f B) = fb_obj B" "fb_mobile (set_options n f B) = fb_mobile B"
  "fb_filters (set_options n f B) = fb_filters B" "fb_tenant (set_options n f B) = fb_tenant B"
  "fb_conf (take_pending r B) = fb_conf B" "fb_obj (take_pending r B) = fb_obj B" "fb_mobile (take_pending r B) = fb_mobile B"
  "fb_filters (take_pending r B) = fb_filters B" "fb_tenant (take_pending r B) = fb_tenant B"
  by (simp_all add: set_options_def take_pending_def)

lemma fill_success_sel:
  assumes "waiting_loading B \<noteq> []"
  shows "fb_pending (fill_success C r rows B) = remove1 r (fb_pending B)"
    "fb_loading (fill_success C r rows B) = removeAll (fst r) (fb_loading B)"
    "same_bar B (fill_success C r rows B)"
    "''tenant'' \<in> set (fb_disabled (fill_success C r rows B)) \<longleftrightarrow>
       ''tenant'' \<in> set (fb_disabled B) \<and> removeAll (fst r) (fb_loading B) \<noteq> [] \<and> (fst r \<noteq> ''tenant'' \<or> isSuperadmin C)"
    "n \<noteq> fst r \<Longrightarrow> map_of (fb_options (fill_success C r rows B)) n = map_of (fb_options B) n"
proof -
  have w: "waiting_loading (enable n B) = waiting_loading B" "waiting_loading (B\<lparr>fb_loading := l\<rparr>) = waiting_loading B"
    "waiting_loading (set_options n f B) = waiting_loading B" "waiting_loading (take_pending r B) = waiting_loading B" for n l f B
    by (simp_all add: waiting_loading_def marked_def)
  note simps = fill_success_def Let_def w assms
  show "fb_pending (fill_success C r rows B) = remove1 r (fb_pending B)" by (simp add: simps)
  show "fb_loading (fill_success C r rows B) = removeAll (fst r) (fb_loading B)" by (simp add: simps)
  show "same_bar B (fill_success C r rows B)" by (simp add: simps same_bar_def)
  show "''tenant'' \<in> set (fb_disabled (fill_success C r rows B)) \<longleftrightarrow>
       ''tenant'' \<in> set (fb_disabled B) \<and> removeAll (fst r) (fb_loading B) \<noteq> [] \<and> (fst r \<noteq> ''tenant'' \<or> isSuperadmin C)"
    by (auto simp add: simps)
  show "n \<noteq> fst r \<Longrightarrow> map_of (fb_options (fill_success C r rows B)) n = map_of (fb_options B) n"
    by (simp add: simps map_of_set_options)
qed

lemma remove1_names:
  assumes "distinct (map fst ps)" "r \<in> set ps"
  shows "fst ` set (remove1 r ps) = fst ` set ps - {fst r}" "distinct (map fst (remove1 r ps))"
proof -
  have i: "inj_on fst (set ps)" and d: "distinct ps" using assms(1) by (auto simp: distinct_map)
  have "set (remove1 r ps) = set ps - {r}" using d by simp
  moreover have "fst ` (set ps - {r}) = fst ` set ps - {fst r}" using inj_on_image_set_diff [OF i, of "set ps" "{r}"] assms(2) by auto
  ultimately show "fst ` set (remove1 r ps) = fst ` set ps - {fst r}" by simp
  show "distinct (map fst (remove1 r ps))" using d i by (auto simp: distinct_map intro: inj_on_subset)
qed

lemma bar_ok_filled:
  assumes ok: "bar_ok C sound B" and r: "r \<in> set (fb_pending B)" and C: "isSuperadmin C"
  shows "bar_ok C sound (fill_success C r rows B)"
proof -
  let ?B = "fill_success C r rows B"
  have w: "waiting_loading B \<noteq> []" using ok waiting_conf by (auto simp: bar_ok_def)
  note sel = fill_success_sel [OF w, where C = C and r = r and rows = rows]
  have d: "distinct (map fst (fb_pending B))" and sub: "fst ` set (fb_pending B) \<subseteq> set (fb_loading B)" using ok by (auto simp: bar_ok_def)
  note rm = remove1_names [OF d r]
  have dis: "''tenant'' \<in> set (fb_disabled B)" using ok r by (auto simp: bar_ok_def)
  have same: "fb_obj ?B = fb_obj B" "fb_conf ?B = fb_conf B" "fb_mobile ?B = fb_mobile B" using sel(3) by (simp_all add: same_bar_def)
  have sub': "fst ` set (fb_pending ?B) \<subseteq> set (fb_loading ?B)" using sub unfolding sel(1,2) rm(1) by auto
  have t: "''tenant'' \<in> set (fb_disabled ?B) \<or> fb_pending ?B = [] \<and> fb_loading ?B = []"
  proof (cases "fb_loading ?B = []")
    case True
    then show ?thesis using sub' by simp
  next
    case False
    then show ?thesis using dis C sel(2) by (simp add: sel(4))
  qed
  have opts: "map_of (fb_options ?B) n = Some (starting_options p)" if "(n, p) \<in> set (fb_pending ?B)" for n p
  proof -
    have "n \<in> fst ` set (remove1 r (fb_pending B))" using that unfolding sel(1) by force
    then have "n \<noteq> fst r" using rm(1) by simp
    moreover have "(n, p) \<in> set (fb_pending B)" using that set_remove1_subset unfolding sel(1) by fast
    ultimately show ?thesis using ok sel(5) [of n] unfolding bar_ok_def by auto
  qed
  have L: "set (fb_loading ?B) = fst ` set (fb_pending ?B)" if sound
    using ok that unfolding sel(1,2) rm(1) by (simp add: bar_ok_def)
  have e: "''tenant'' \<notin> set (fb_disabled ?B)" if sound "fb_pending ?B = []"
  proof -
    have "fb_loading ?B = []" using L [OF that(1)] that(2) by simp
    then show ?thesis using sel(2,4) by simp
  qed
  show ?thesis unfolding bar_ok_def same using ok t rm(2) sub' opts L e unfolding sel(1) by (auto simp: bar_ok_def)
qed

lemma bar_ok_failed:
  assumes ok: "bar_ok C sound B" and r: "r \<in> set (fb_pending B)"
  shows "bar_ok C False (fill_error r B)"
proof -
  have d: "distinct (map fst (fb_pending B))" using ok by (auto simp: bar_ok_def)
  have "''tenant'' \<in> set (fb_disabled B)" using ok r by (auto simp: bar_ok_def)
  moreover have "set (remove1 r (fb_pending B)) \<subseteq> set (fb_pending B)" by (rule set_remove1_subset)
  ultimately show ?thesis using ok remove1_names [OF d r] unfolding bar_ok_def fill_error_def
    by (simp add: take_pending_def) blast
qed

text \<open>The kind of element and the filters of a bar do not change.\<close>

lemma fetch_same: "fetch_loop C cls rest B = Inr B' \<Longrightarrow> same_bar B B'"
proof (induction rest arbitrary: B)
  case (Cons x rest)
  obtain n e where x: "x = (n, e)" by (cases x)
  have fill: "same_bar B1 B2" if "fillSelect C n p B1 = Inr B2" for n p B1 B2
    using that by (auto simp: fillSelect_def Let_def disable_def same_bar_def split: sum.splits option.splits)
  have load: "same_bar B B2" if "fillSelect C n p (B\<lparr>fb_loading := l\<rparr>) = Inr B2" for n p B2 l
    using fill [OF that] by (simp add: same_bar_def)
  have tr: "same_bar B B2 \<Longrightarrow> fetch_loop C cls rest B2 = Inr B' \<Longrightarrow> same_bar B B'" for B2
    using Cons.IH [of B2] by (auto simp: same_bar_def)
  have mark: "same_bar B (set_options m f B)" for m f by simp
  show ?case using Cons.prems Cons.IH [of B]
    by (auto simp: x Let_def split: if_splits sum.splits intro: tr [OF load] tr [OF mark])
qed (simp add: same_bar_def)

lemma list_changeTenant_same:
  assumes "list_changeTenant C v B = Inr B'"
  shows "fb_obj B' = fb_obj B \<and> fb_conf B' = fb_conf B \<and> fb_mobile B' = fb_mobile B"
proof -
  obtain B4 where B4: "fetch_loop C True (fb_conf (reset_depent B)) (reset_depent B) = Inr B4" "B' = filter_by_tenant v B4"
    using assms by (cases "fetchFilters C True (reset_depent B)") (auto simp: list_changeTenant_def fetchFilters_def)
  then show ?thesis using fetch_same [OF B4(1)] reset_depent_sel(1) [of B] by (simp add: same_bar_def filter_by_tenant_def)
qed

lemma bar_reach_ok:
  assumes "bar_reach C sound B" "shows_tenant C (fb_obj B)" "fb_obj B \<noteq> ''log''"
  shows "bar_ok C sound B"
  using assms
proof (induction rule: bar_reach.induct)
  case (shown q mobile filters tenant B)
  let ?D = "draw_bar C q mobile filters tenant"
  have D: "fb_obj ?D = q" "fb_conf ?D = setFilters_js C q" "fb_pending ?D = []" "fb_loading ?D = []" by (simp_all add: draw_bar_def Let_def)
  have "fb_obj B = q" using fetch_same shown(1) D(1) unfolding fetchFilters_def same_bar_def by metis
  then show ?case using bar_ok_fetched [OF _ D(3,4) shown(1), of True] conf_ok_setFilters [of C q] shown(2,3) by (simp add: D)
next
  case (filled sound B r rows)
  have "waiting_loading B \<noteq> [] \<Longrightarrow> fb_obj (fill_success C r rows B) = fb_obj B" using fill_success_sel(3) by (simp add: same_bar_def)
  moreover have "fb_obj (fill_success C r rows B) = fb_obj B" by (simp add: fill_success_def Let_def)
  ultimately show ?case using filled bar_ok_filled by (simp add: shows_tenant_def)
next
  case (failed sound B r)
  then show ?case using bar_ok_failed by (simp add: fill_error_def)
next
  case (changed sound B v B')
  have "fb_obj B' = fb_obj B" using list_changeTenant_same [OF changed(4)] by simp
  then show ?case using changed bar_ok_changed [OF _ changed(3) _ changed(4)] by simp
qed




text \<open>On a small screen the selects that depend on the tenant are in the page, and counted, but they are not asked for: a change of
  the tenant in the list of virtual machines disables the filter of the tenant, and no answer is left that would enable it.\<close>

lemma vm_not_mobile: "list_all (\<lambda>(n, e). \<not> wanted_entry True True n (obj_of_js e)) vm_formFilters"
  by code_simp

lemma mobile_tenant_stuck:
  assumes "bar_reach C sound B" "shows_tenant C ''vm''" "fb_obj B = ''vm''" "fb_conf B = setFilters_js C ''vm''" "fb_mobile B"
    and "''tenant'' \<notin> set (fb_disabled B)" "tenant_depent B \<noteq> []" "list_changeTenant C v B = Inr B'"
  shows "''tenant'' \<in> set (fb_disabled B') \<and> fb_pending B' = []"
proof -
  let ?R = "reset_depent B"
  have ok: "bar_ok C sound B" using bar_reach_ok [OF assms(1)] assms(2,3) by simp
  note R = reset_depent_sel [of B]
  have idle: "fb_pending ?R = []" using ok assms(6) R(2) by (auto simp: bar_ok_def)
  have conf: "conf_ok ''vm'' (fb_conf B)" using ok assms(3) by (simp add: bar_ok_def)
  have same: "fb_conf ?R = fb_conf B" "fb_mobile ?R = fb_mobile B" using R(1) by (simp_all add: same_bar_def)
  obtain B4 where B4: "fetch_loop C True (fb_conf ?R) ?R = Inr B4" "B' = filter_by_tenant v B4"
    using assms(8) by (cases "fetch_loop C True (fb_conf ?R) ?R") (auto simp: list_changeTenant_def fetchFilters_def)
  obtain fs where fs: "fb_conf B = (''tenant'', JObj tenant_filter_js) # fs" "set fs \<subseteq> set vm_formFilters"
    using setFilters_tenant [OF assms(2)] assms(4) by (auto simp: all_formFilters_def)
  have "wanted True True (fb_conf B) = []"
    using fs(2) vm_not_mobile tenant_entry(2) [of True] unfolding wanted_def fs(1) by (auto simp: filter_empty_conv list_all_iff)
  then show ?thesis
    using fetch_loop_result [OF conf_fetchable [OF conf], of C True ?R] B4 idle same assms(5,7) R(4) by (auto simp: filter_by_tenant_def)
qed

text \<open>In the list of logs the select of the administrators is classified by tenant but not marked: the filter of the tenant stays enabled
  while it waits, and two changes in haste fill it twice.\<close>

lemma log_dependent: "list_all (\<lambda>(n, e). \<not> dependent (obj_of_js e)) log_formFilters"
  by code_simp

lemma log_filled_twice:
  assumes "shows_tenant C ''log''" "fb_conf B = setFilters_js C ''log''" "(''administrator'', e) \<in> set (fb_conf B)"
    and "wanted_entry True (fb_mobile B) ''administrator'' (obj_of_js e)" "''tenant'' \<notin> set (fb_disabled B)"
    and "list_changeTenant C v B = Inr B1" "list_changeTenant C w B1 = Inr B2"
  shows "''tenant'' \<notin> set (fb_disabled B1) \<and> (\<exists>p1 p2 ps1 ps2. fb_pending B1 = fb_pending B @ ps1 \<and> (''administrator'', p1) \<in> set ps1 \<and>
    fb_pending B2 = fb_pending B1 @ ps2 \<and> (''administrator'', p2) \<in> set ps2)"
proof -
  have conf: "conf_ok ''log'' (fb_conf B)" using conf_ok_setFilters [OF assms(1)] assms(2) by simp
  obtain fs where fs: "fb_conf B = (''tenant'', JObj tenant_filter_js) # fs" "set fs \<subseteq> set log_formFilters"
    using setFilters_tenant [OF assms(1)] assms(2) by (auto simp: all_formFilters_def)
  have dep: "tenant_depent B = []" unfolding tenant_depent_iff fs(1)
    using fs(2) log_dependent tenant_entry(3) by (auto simp: filter_empty_conv list_all_iff)
  have step: "fb_conf X1 = fb_conf X \<and> fb_mobile X1 = fb_mobile X \<and> set (fb_disabled X1) = set (fb_disabled X) \<union> fst ` set (wanted True (fb_mobile X) (fb_conf X)) \<and>
      (\<exists>p ps. fb_pending X1 = fb_pending X @ ps \<and> (''administrator'', p) \<in> set ps)"
    if c: "fb_conf X = fb_conf B" "fb_mobile X = fb_mobile B" and ch: "list_changeTenant C v X = Inr X1" for X X1 v
  proof -
    let ?R = "reset_depent X"
    note R = reset_depent_sel [of X]
    have same: "fb_conf ?R = fb_conf X" "fb_mobile ?R = fb_mobile X" using R(1) by (simp_all add: same_bar_def)
    have dX: "tenant_depent X = []" using tenant_depent_conf [OF c(1)] dep by simp
    have cf: "conf_ok ''log'' (fb_conf ?R)" using conf same c by simp
    obtain X4 where X4: "fetch_loop C True (fb_conf ?R) ?R = Inr X4" "X1 = filter_by_tenant v X4"
      using ch by (cases "fetch_loop C True (fb_conf ?R) ?R") (auto simp: list_changeTenant_def fetchFilters_def)
    have res: "same_bar ?R X4"
      "fb_pending X4 = fb_pending ?R @ map (\<lambda>(n, e). (n, fetch_params C ?R n (obj_of_js e))) (wanted True (fb_mobile ?R) (fb_conf ?R))"
      "set (fb_disabled X4) = set (fb_disabled ?R) \<union> fst ` set (wanted True (fb_mobile ?R) (fb_conf ?R))"
      using fetch_loop_result [OF conf_fetchable [OF cf], of C True ?R] X4(1) by auto
    have a: "(''administrator'', e) \<in> set (wanted True (fb_mobile ?R) (fb_conf ?R))"
      using assms(3,4) same c by (simp add: wanted_def)
    let ?ps = "map (\<lambda>(n, e). (n, fetch_params C ?R n (obj_of_js e))) (wanted True (fb_mobile ?R) (fb_conf ?R))"
    have "(''administrator'', fetch_params C ?R ''administrator'' (obj_of_js e)) \<in> set ?ps" using a by force
    moreover have "fb_pending X1 = fb_pending X @ ?ps" using res(2) R(2) unfolding X4(2) by (simp add: filter_by_tenant_def)
    ultimately have "\<exists>p ps. fb_pending X1 = fb_pending X @ ps \<and> (''administrator'', p) \<in> set ps" by blast
    then show ?thesis using res(1,3) R(4) same dX unfolding X4(2) by (simp add: filter_by_tenant_def same_bar_def)
  qed
  have 1: "fb_conf B1 = fb_conf B" "fb_mobile B1 = fb_mobile B"
    "set (fb_disabled B1) = set (fb_disabled B) \<union> fst ` set (wanted True (fb_mobile B) (fb_conf B))"
    "\<exists>p ps. fb_pending B1 = fb_pending B @ ps \<and> (''administrator'', p) \<in> set ps"
    using step [OF refl refl assms(6)] by blast+
  have 2: "\<exists>p ps. fb_pending B2 = fb_pending B1 @ ps \<and> (''administrator'', p) \<in> set ps" using step [OF 1(1,2) assms(7)] by blast
  have "''tenant'' \<notin> set (fb_disabled B1)" using 1(3) wanted_dependent(3) [OF conf] assms(5) by simp
  then show ?thesis using 1(4) 2 by blast
qed

text \<open>The actions of the API that list something (the table of \<open>ext/QVD-API/lib/QVD/API/Action.pm\<close>), and the selects that are filled by no
  action of it.\<close>

definition api_lists :: "string list" where
  "api_lists =
     [''log_get_list'', ''config_wat_get_list'', ''user_get_list'', ''vm_get_list'', ''host_get_list'', ''osf_get_list'', ''di_get_list'',
      ''tag_get_list'', ''administrator_get_list'', ''tenant_get_list'', ''role_get_list'', ''acl_get_list'', ''tenant_view_get_list'',
      ''property_get_list'']"

definition fill_action :: "string \<Rightarrow> js obj \<Rightarrow> string" where
  "fill_action n a = (case str_of_js (get_attr a ''fillAction'') of Some x \<Rightarrow> x | None \<Rightarrow> n @ ''_get_list'')"

definition unknown_fills :: "js obj \<Rightarrow> string list" where
  "unknown_fills t =
     map fst (filter (\<lambda>(n, e). truthy (get_attr (obj_of_js e) ''fillable'') \<and> is_select (obj_of_js e) \<and>
                fill_action n (obj_of_js e) \<notin> set api_lists) t)"

text \<open>Every select of the filters is filled by an action of the API, but for three of the list of logs, which keep their
  starting options.\<close>

lemma fills_known:
  "map (map_prod id unknown_fills) all_formFilters =
     [(''vm'', []), (''user'', []), (''host'', []), (''osf'', []), (''di'', []), (''log'', [''source'', ''action'', ''object'']),
      (''tenant'', []), (''role'', []), (''administrator'', [])]"
  by code_simp

section \<open>Examples\<close>

text \<open>Answers come: every bar can be brought to rest.\<close>

lemma bar_rests:
  assumes "bar_reach C sound B" "waiting_loading B \<noteq> []"
  shows "\<exists>B'. bar_reach C sound B' \<and> same_bar B B' \<and> fb_pending B' = []"
  using assms
proof (induction "length (fb_pending B)" arbitrary: B)
  case 0
  then show ?case by (auto simp: same_bar_def)
next
  case (Suc k)
  then obtain r where r: "r \<in> set (fb_pending B)" by (cases "fb_pending B") auto
  let ?B = "fill_success C r [] B"
  have s: "same_bar B ?B" using fill_success_sel(3) [OF Suc.prems(2)] .
  have "length (fb_pending ?B) = k" using Suc(2) r unfolding fill_success_sel(1) [OF Suc.prems(2)] by (simp add: length_remove1)
  moreover have "bar_reach C sound ?B" by (rule filled [OF Suc.prems(1) r])
  moreover have "waiting_loading ?B \<noteq> []" using Suc.prems(2) s by (simp add: waiting_loading_def marked_def same_bar_def)
  ultimately obtain B' where "bar_reach C sound B'" "same_bar ?B B'" "fb_pending B' = []" using Suc(1) [of ?B] by blast
  then show ?case using s by (auto simp: same_bar_def)
qed

definition super_c :: wat_c where
  "super_c = (wat_c_init [])\<lparr>C_tenantID := SUPERTENANT_ID\<rparr>"

lemma super_shows: "shows_tenant super_c ''vm''"
  by (simp add: shows_tenant_def super_c_def isSuperadmin_def QVD_OBJS_CLASSIFIED_BY_TENANT_def)

lemma vm_bar:
  "\<exists>B. bar_reach super_c True B \<and> fb_obj B = ''vm'' \<and> \<not> fb_mobile B \<and> fb_tenant B = JNum 5 \<and> ''tenant'' \<in> fst ` set (fb_pending B) \<and>
     ''tenant'' \<in> fst ` set (fb_conf B)"
proof -
  let ?D = "draw_bar super_c ''vm'' False [] (JNum 5)"
  have D: "fb_obj ?D = ''vm''" "fb_conf ?D = setFilters_js super_c ''vm''" "fb_pending ?D = []" "\<not> fb_mobile ?D" "fb_tenant ?D = JNum 5"
    by (simp_all add: draw_bar_def Let_def)
  have conf: "conf_ok ''vm'' (fb_conf ?D)" using conf_ok_setFilters [OF super_shows] D(2) by simp
  obtain B where B: "fetch_loop super_c False (fb_conf ?D) ?D = Inr B" "same_bar ?D B"
    "fb_pending B = fb_pending ?D @ map (\<lambda>(n, e). (n, fetch_params super_c ?D n (obj_of_js e))) (wanted False (fb_mobile ?D) (fb_conf ?D))"
    using fetch_loop_result [OF conf_fetchable [OF conf], of super_c False ?D] by blast
  have "bar_reach super_c True B" by (rule shown) (use B(1) in \<open>simp add: fetchFilters_def\<close>)
  moreover have "map fst (fb_pending B) = map fst (wanted False (fb_mobile ?D) (fb_conf ?D))"
    unfolding B(3) D(3) append_Nil map_map by (rule map_cong) auto
  then have "''tenant'' \<in> fst ` set (fb_pending B)" using wanted_dependent(4) [OF conf, of "fb_mobile ?D"] by (metis list.set_map)
  moreover have "''tenant'' \<in> fst ` set (fb_conf B)" using conf B(2) by (auto simp: conf_ok_def same_bar_def)
  moreover have "fb_obj B = ''vm'' \<and> \<not> fb_mobile B \<and> fb_tenant B = JNum 5" using B(2) D by (simp add: same_bar_def)
  ultimately show ?thesis by blast
qed

lemma vm_bar_rests:
  "\<exists>B. bar_reach super_c True B \<and> fb_obj B = ''vm'' \<and> \<not> fb_mobile B \<and> fb_tenant B = JNum 5 \<and> fb_pending B = []"
proof -
  obtain B where B: "bar_reach super_c True B" "fb_obj B = ''vm''" "\<not> fb_mobile B" "fb_tenant B = JNum 5" using vm_bar by blast
  have "bar_ok super_c True B" using bar_reach_ok [OF B(1)] B(2) super_shows by simp
  then have "waiting_loading B \<noteq> []" using waiting_conf by (auto simp: bar_ok_def)
  from bar_rests [OF B(1) this] show ?thesis using B by (auto simp: same_bar_def)
qed




definition ex_fill :: fill_params where
  "ex_fill =
     \<lparr>fp_starting = Some [(''-10'', JStr ''All'')], fp_selected = JNum 4, fp_nameAsId = False, fp_auto = Some ''user'', fp_action = None,
      fp_fields = None, fp_extra = [], fp_filters = None, fp_order = None, fp_groupBy = Some ''tenant_name'', fp_group = None,
      fp_orderFirst = []\<rparr>"

definition ex_rows :: "js obj list" where
  "ex_rows =
     [[(''id'', JNum 4), (''name'', JStr ''ann''), (''tenant_name'', JStr ''b'')],
      [(''id'', JNum 6), (''name'', JStr ''bob''), (''tenant_name'', JStr ''a'')],
      [(''id'', JNum 4), (''name'', JStr ''ann''), (''tenant_name'', JStr ''b'')]]"

lemma fill_options_witness:
  "distinct (map op_val (fill_answer ex_fill ex_rows (fill_start ex_fill []))) \<and>
   op_val ` set (fill_answer ex_fill ex_rows (fill_start ex_fill [])) = {''4'', ''6'', ''-10''}"
proof -
  have ids: "row_id ex_fill ` set ex_rows = {JNum 4, JNum 6}"
    by (simp add: ex_fill_def ex_rows_def row_id_def get_attr_def insert_commute)
  have str: "js_str (JNum 4) = ''4''" "js_str (JNum 6) = ''6''" by code_simp+
  have inj: "inj_on js_str (row_id ex_fill ` set ex_rows)" unfolding ids using str by (simp add: inj_on_def del: js_str.simps)
  have st: "fp_starting ex_fill = Some [(''-10'', JStr ''All'')]" by (simp add: ex_fill_def)
  have d: "distinct (map fst [(''-10'', JStr ''All'')])" "list_all (\<lambda>(k, v). truthy v) [(''-10'', JStr ''All'')]" by simp_all
  from fill_options [OF st d inj, of "[]"] show ?thesis unfolding ids using str by (simp del: js_str.simps)
qed

end
