(* ===== verification/FilterNotes.thy ===== *)
theory FilterNotes
  imports Selects
begin

text \<open>
  The notes of the active filters of a list, and the filters that are fixed from one list to the next (\<open>updateFilterNotes\<close>,
  \<open>drawFilterNotes\<close> and \<open>initialize\<close> of \<open>bb-views/proto-list.js\<close>, \<open>clickFixFilterNote\<close> and \<open>clickDeleteFilterNote\<close> of \<open>binds/binds.js\<close>,
  \<open>solveFilterDependences\<close> and \<open>cleanFussionFilter\<close> of \<open>interface/interface.js\<close>). Fixed filters are those of \<open>Wat.I.fixedFilters\<close>, by field.

  \<open>t\<close> is the translation of i18next; \<open>first\<close> gives the attributes of the first element of the collection, if there is one.
\<close>

section \<open>Opening a list with fixed filters\<close>

definition fixed_params :: "js obj \<Rightarrow> string \<Rightarrow> js obj \<Rightarrow> js obj \<Rightarrow> js obj \<times> js obj" where
  "fixed_params fixed q params coll =
     (if fixed = [] then (params, coll)
      else
        (let coll1 = jq_extend coll fixed
         in (jq_extend params fixed,
             if \<not> classified q \<and> truthy (get_attr coll1 ''tenant_id'') then AList.delete ''tenant_id'' coll1 else coll1)))"

definition open_list :: "js obj \<Rightarrow> js obj \<Rightarrow> list_view \<Rightarrow> list_view" where
  "open_list fixed params V =
     (case fixed_params fixed (l_qvdObj V) params (c_filters V) of
        (ps, coll) \<Rightarrow> V\<lparr>l_filters := ps, l_initFilters := ps, c_filters := coll\<rparr>)"

section \<open>Controls and notes\<close>

text \<open>A control of the wide screen: its field, whether it is a select, its value, its options (value and text) and its label.\<close>

record note_ctl =
  nc_field :: string
  nc_select :: bool
  nc_val :: js
  nc_options :: "(string \<times> string) list"
  nc_label :: js

record flt_note =
  nt_label :: js
  nt_value :: js
  nt_type :: string
  nt_fixable :: js
  nt_replace :: "string option"

record note_page =
  np_qvdObj :: string
  np_conf :: "js obj"
  np_ctl :: "note_ctl obj"
  np_fixed :: "js obj"
  np_view :: list_view

text \<open>Notes of filters that came with the address; an element is named by its spinner while its select is being filled, and has no note of
  its own when the select can show it.\<close>

definition spinner :: string where
  "spinner = ''<i class=\"fa fa-spin fa-gear\"></i>''"

definition init_note :: "(string \<Rightarrow> string) \<Rightarrow> js obj \<Rightarrow> string \<Rightarrow> js \<Rightarrow> flt_note option" where
  "init_note t init k v =
     (let plain = (\<lambda>l. Some \<lparr>nt_label = JStr (t l), nt_value = Undef, nt_type = ''filter'', nt_fixable = Undef, nt_replace = None\<rparr>)
      in if k = ''di_id'' then plain ''Disk image''
         else if k = ''host_id'' then plain ''Node''
         else if k = ''osf_id'' then plain ''OS Flavour''
         else if k = ''user_id'' then plain ''User''
         else if k = ''object_id'' then
           Some \<lparr>nt_label = JStr (t (case get_attr LOG_TYPE_OBJECTS (js_str (get_attr init ''qvd_object'')) of JStr l \<Rightarrow> l | _ \<Rightarrow> ''undefined'')),
                 nt_value = v, nt_type = ''filter'', nt_fixable = Undef, nt_replace = None\<rparr>
         else None)"

definition of_field :: "string \<Rightarrow> note_page \<Rightarrow> note_ctl list" where
  "of_field k P = filter (\<lambda>c. nc_field c = k) (map snd (np_ctl P))"

definition add_init_note :: "(string \<Rightarrow> string) \<Rightarrow> note_page \<Rightarrow> string \<times> js \<Rightarrow> flt_note obj \<Rightarrow> flt_note obj" where
  "add_init_note t P kv ns =
     (case init_note t (l_initFilters (np_view P)) (fst kv) (snd kv) of
        None \<Rightarrow> ns
      | Some n \<Rightarrow>
          (if of_field (fst kv) P = [] then AList.update (fst kv) n ns
           else if list_ex (\<lambda>c. js_str (snd kv) \<in> fst ` set (nc_options c)) (of_field (fst kv) P) then AList.delete (fst kv) ns
           else AList.update (fst kv) (n\<lparr>nt_value := JStr spinner\<rparr>) ns))"

text \<open>Notes of the controls. A fixed filter follows its select; on a change to All, but not when a list is drawn, it is given up.\<close>

definition ctl_blank :: "js obj \<Rightarrow> note_ctl option \<Rightarrow> bool" where
  "ctl_blank a c =
     (case c of
        None \<Rightarrow> True
      | Some c \<Rightarrow>
          (if is_select a then loose_eq (nc_val c) (JNum FILTER_ALL) \<or> nullish (nc_val c)
           else loose_eq (nc_val c) (JStr '''') \<or> nullish (nc_val c)))"

definition ctl_note :: "js obj \<Rightarrow> note_ctl \<Rightarrow> flt_note" where
  "ctl_note a c =
     \<lparr>nt_label = nc_label c,
      nt_value = (if is_select a then (case map_of (nc_options c) (js_str (nc_val c)) of Some h \<Rightarrow> JStr h | None \<Rightarrow> Undef) else nc_val c),
      nt_type = (if is_select a then ''select'' else ''text''), nt_fixable = get_attr a ''fixable'', nt_replace = None\<rparr>"

definition fixed_follows :: "bool \<Rightarrow> js obj \<Rightarrow> note_ctl option \<Rightarrow> js obj \<Rightarrow> js obj" where
  "fixed_follows firstLoad a c fixed =
     (case c of
        None \<Rightarrow> fixed
      | Some d \<Rightarrow>
          (if \<not> is_select a then fixed
           else if ctl_blank a c then (if firstLoad then fixed else AList.delete (nc_field d) fixed)
           else if truthy (get_attr fixed (nc_field d)) then AList.update (nc_field d) (nc_val d) fixed
           else fixed))"

fun form_notes :: "bool \<Rightarrow> note_ctl obj \<Rightarrow> js obj \<Rightarrow> flt_note obj \<times> js obj \<Rightarrow> flt_note obj \<times> js obj" where
  "form_notes firstLoad ctl [] acc = acc"
| "form_notes firstLoad ctl ((n, e) # rest) (ns, fixed) =
     (let a = obj_of_js e; c = map_of ctl n
      in form_notes firstLoad ctl rest
           ((case c of Some d \<Rightarrow> if ctl_blank a c then ns else AList.update n (ctl_note a d) ns | None \<Rightarrow> ns),
            fixed_follows firstLoad a c fixed))"

definition filter_notes :: "(string \<Rightarrow> string) \<Rightarrow> bool \<Rightarrow> note_page \<Rightarrow> flt_note obj \<times> js obj" where
  "filter_notes t firstLoad P =
     form_notes firstLoad (np_ctl P) (np_conf P) (fold (add_init_note t P) (l_initFilters (np_view P)) [], np_fixed P)"

text \<open>Drawing: the note of an object in the log is one of its kind and its identifier (\<open>FUSSION_NOTES\<close>), with the name that the first row
  gives. The pin is there for the filters that can be fixed, and lit when the filter is.\<close>

definition fuse_notes :: "flt_note obj \<Rightarrow> flt_note obj" where
  "fuse_notes ns =
     (case (map_of ns ''object'', map_of ns ''object_id'') of
        (Some l, Some v) \<Rightarrow>
          AList.delete ''object'' (AList.delete ''object_id''
            (AList.update ''object__object_id''
               \<lparr>nt_label = nt_value l, nt_value = nt_value v, nt_type = nt_type v, nt_fixable = Undef, nt_replace = Some ''object_name''\<rparr> ns))
      | _ \<Rightarrow> ns)"

record drawn_note =
  dn_name :: string
  dn_type :: string
  dn_label :: js
  dn_value :: "js option"
  dn_pin :: "bool option"

definition js_pos :: "js \<Rightarrow> bool" where
  "js_pos v = (case js_num v of Some m \<Rightarrow> 0 < m | None \<Rightarrow> False)"

definition draw_note :: "note_page \<Rightarrow> js obj \<Rightarrow> (string \<Rightarrow> js) option \<Rightarrow> string \<times> flt_note \<Rightarrow> drawn_note" where
  "draw_note P fixed first x =
     (let n = fst x; nt = snd x;
          val = (case (nt_replace nt, first) of (Some k, Some m) \<Rightarrow> m k | _ \<Rightarrow> nt_value nt);
          c = map_of (np_ctl P) n
      in \<lparr>dn_name = n, dn_type = nt_type nt, dn_label = nt_label nt, dn_value = (if nullish val then None else Some val),
          dn_pin = (if \<not> nullish (nt_fixable nt) \<and>
                       (nt_fixable nt \<noteq> JStr ''only-positive'' \<or> (case c of Some d \<Rightarrow> js_pos (nc_val d) | None \<Rightarrow> False))
                    then Some (case c of Some d \<Rightarrow> truthy (get_attr fixed (nc_field d)) | None \<Rightarrow> False) else None)\<rparr>)"

definition drawFilterNotes :: "note_page \<Rightarrow> js obj \<Rightarrow> (string \<Rightarrow> js) option \<Rightarrow> flt_note obj \<Rightarrow> drawn_note list" where
  "drawFilterNotes P fixed first ns = map (draw_note P fixed first) (fuse_notes ns)"

definition updateFilterNotes ::
  "(string \<Rightarrow> string) \<Rightarrow> (string \<Rightarrow> js) option \<Rightarrow> bool \<Rightarrow> note_page \<Rightarrow> note_page \<times> drawn_note list" where
  "updateFilterNotes t first firstLoad P =
     (case filter_notes t firstLoad P of (ns, fixed) \<Rightarrow> (P\<lparr>np_fixed := fixed\<rparr>, drawFilterNotes P fixed first ns))"

text \<open>The pin, and the cross of a note. What the page does then (a change of the control triggers \<open>filter\<close>) is left to the handlers
  of the control; a note that has no control triggers nothing.\<close>

definition clickFixFilterNote :: "string \<Rightarrow> bool \<Rightarrow> note_page \<Rightarrow> note_page" where
  "clickFixFilterNote n enabled P =
     (case map_of (np_ctl P) n of
        None \<Rightarrow> P
      | Some c \<Rightarrow> P\<lparr>np_fixed := (if enabled then AList.delete (nc_field c) (np_fixed P) else AList.update (nc_field c) (nc_val c) (np_fixed P))\<rparr>)"

definition set_value :: "string \<Rightarrow> js \<Rightarrow> note_page \<Rightarrow> note_page" where
  "set_value n v P = P\<lparr>np_ctl := AList.map_entry n (\<lambda>c. c\<lparr>nc_val := v\<rparr>) (np_ctl P)\<rparr>"

definition clean :: "string \<Rightarrow> note_page \<Rightarrow> note_page" where
  "clean k P = P\<lparr>np_view := cleanFilter k (np_view P)\<rparr>"

definition cleanFussionFilter :: "string \<Rightarrow> note_page \<Rightarrow> note_page" where
  "cleanFussionFilter n P =
     (case map_of (np_ctl P) n of
        None \<Rightarrow> clean n P
      | Some c \<Rightarrow> set_value n (if nc_select c then JStr (num_str FILTER_ALL) else JStr '''') (clean (nc_field c) P))"

definition solveFilterDependences :: "string \<Rightarrow> note_page \<Rightarrow> note_page" where
  "solveFilterDependences n P =
     (if np_qvdObj P \<noteq> ''log'' then P
      else if n = ''object_id'' then cleanFussionFilter ''object'' P
      else if n = ''object'' then cleanFussionFilter ''object_id'' P
      else P)"

definition clickDeleteFilterNote :: "string \<Rightarrow> string \<Rightarrow> note_page \<Rightarrow> note_page \<times> string option" where
  "clickDeleteFilterNote n ty P =
     (if ty = ''select'' \<or> ty = ''text'' then
        (case map_of (np_ctl P) n of
           None \<Rightarrow> (P, None)
         | Some c \<Rightarrow> (set_value n (JStr (if ty = ''select'' then num_str FILTER_ALL else '''')) (clean (nc_field c) P),
                     Some (if ty = ''select'' then ''change'' else ''input'')))
      else if ty = ''filter'' then
        (if n = ''object__object_id'' then (cleanFussionFilter ''object_id'' (cleanFussionFilter ''object'' P), None) else (clean n P, None))
      else (P, None))"

section \<open>What the notes tell\<close>

lemma map_of_fold_init:
  "n \<notin> set [''di_id'', ''host_id'', ''osf_id'', ''user_id'', ''object_id''] \<Longrightarrow> map_of (fold (add_init_note t P) kvs ns) n = map_of ns n"
proof (induction kvs arbitrary: ns)
  case (Cons kv kvs)
  have "map_of (add_init_note t P kv ns) n = map_of ns n"
  proof (cases "init_note t (l_initFilters (np_view P)) (fst kv) (snd kv)")
    case None
    then show ?thesis by (simp add: add_init_note_def)
  next
    case (Some d)
    then have "fst kv \<in> set [''di_id'', ''host_id'', ''osf_id'', ''user_id'', ''object_id'']"
      by (auto simp: init_note_def Let_def split: if_splits)
    then have "fst kv \<noteq> n" using Cons.prems by auto
    then show ?thesis by (auto simp: add_init_note_def Some update_conv' map_of_delete delete_conv')
  qed
  then show ?case using Cons by simp
qed simp

lemma form_notes_other:
  "n \<notin> fst ` set conf \<Longrightarrow> map_of (fst (form_notes f ctl conf (ns, fixed))) n = map_of ns n"
proof (induction conf arbitrary: ns fixed)
  case (Cons x conf)
  obtain m e where x: "x = (m, e)" by (cases x)
  then show ?case using Cons by (auto simp: Let_def update_conv' split: option.splits)
qed simp

lemma form_notes_entry:
  assumes "distinct (map fst conf)" "(n, e) \<in> set conf"
  shows "map_of (fst (form_notes f ctl conf (ns, fixed))) n =
    (if ctl_blank (obj_of_js e) (map_of ctl n) then map_of ns n else map_option (ctl_note (obj_of_js e)) (map_of ctl n))"
  using assms
proof (induction conf arbitrary: ns fixed)
  case (Cons x conf)
  obtain m d where x: "x = (m, d)" by (cases x)
  show ?case
  proof (cases "m = n")
    case True
    have "n \<notin> fst ` set conf" using Cons.prems(1) x True by simp
    moreover from this have "d = e" using Cons.prems(2) x True by force
    ultimately show ?thesis
      by (cases "map_of ctl n") (auto simp: x True Let_def form_notes_other update_conv' ctl_blank_def)
  next
    case False
    have "(n, e) \<in> set conf" using Cons.prems(2) x False by simp
    then show ?thesis using Cons.IH Cons.prems(1) x False by (auto simp: Let_def update_conv' split: option.splits)
  qed
qed simp

text \<open>A control has a note exactly when it is not blank, with its label, its value and the mark of whether it can be fixed.\<close>

lemma notes_exact:
  assumes "distinct (map fst (np_conf P))" "(n, e) \<in> set (np_conf P)" "n \<notin> set [''di_id'', ''host_id'', ''osf_id'', ''user_id'', ''object_id'']"
  shows "map_of (fst (filter_notes t firstLoad P)) n =
    (if ctl_blank (obj_of_js e) (map_of (np_ctl P) n) then None else map_option (ctl_note (obj_of_js e)) (map_of (np_ctl P) n))"
  unfolding filter_notes_def form_notes_entry [OF assms(1,2)] map_of_fold_init [OF assms(3)] by simp

text \<open>Fixed filters are never invented, follow the selects and are given up with the choice of All.\<close>

lemma delete_set_iff: "x \<in> set (AList.delete k al) \<longleftrightarrow> x \<in> set al \<and> fst x \<noteq> k"
  by (induction al) auto

lemma fixed_keys: "fst ` set (fixed_follows f a c fixed) \<subseteq> fst ` set fixed"
proof (cases c)
  case (Some d)
  have "nc_field d \<in> fst ` set fixed" if "truthy (get_attr fixed (nc_field d))"
    using that by (cases "map_of fixed (nc_field d)") (auto simp: get_attr_def dest: map_of_SomeD intro: rev_image_eqI)
  then show ?thesis using Some by (auto simp: fixed_follows_def dom_update delete_set_iff)
qed (simp add: fixed_follows_def)

lemma fixed_never_invented: "fst ` set (snd (form_notes f ctl conf (ns, fixed))) \<subseteq> fst ` set fixed"
proof (induction conf arbitrary: ns fixed)
  case (Cons x conf)
  obtain m e where x: "x = (m, e)" by (cases x)
  show ?case unfolding x form_notes.simps Let_def by (rule subset_trans [OF Cons.IH fixed_keys])
qed simp

text \<open>A fixed tenant comes back in a list that is not classified by tenant: it is taken out of the filters of the collection when the list is
  opened, but not out of those of the view, and the first use of any filter sends it to the API.\<close>

lemma fixed_tenant_returns:
  assumes "fixed = [(''tenant_id'', v)]" "\<not> classified (l_qvdObj V)" "truthy v"
    and "\<And>n f c. (n, f) \<in> set form \<Longrightarrow> ctl n = Some c \<Longrightarrow> ct_field c \<noteq> ''tenant_id''"
  shows "map_of (c_filters (open_list fixed params V)) ''tenant_id'' = None \<and>
    map_of (c_filters (snd (filter_list rel srv ex form ctl Q (open_list fixed params V)))) ''tenant_id'' = Some v"
proof -
  have f: "map_of (jq_extend xs fixed) ''tenant_id'' = Some v" for xs by (simp add: assms(1) map_of_jq_extend)
  let ?V = "open_list fixed params V"
  have opened: "l_initFilters ?V = jq_extend params fixed" "map_of (c_filters ?V) ''tenant_id'' = None"
    using assms(1-3) f by (simp_all add: open_list_def fixed_params_def Let_def get_attr_def map_of_delete)
  have drop: "map_of (fst (collect_filters rel ctl form' (i, g))) ''tenant_id'' = map_of i ''tenant_id''"
    if "\<And>n f c. (n, f) \<in> set form' \<Longrightarrow> ctl n = Some c \<Longrightarrow> ct_field c \<noteq> ''tenant_id''" for form' i g
    using that
  proof (induction form' arbitrary: i g)
    case (Cons x form')
    obtain n c where x: "x = (n, c)" by (cases x)
    have IH: "map_of (fst (collect_filters rel ctl form' (i, g))) ''tenant_id'' = map_of i ''tenant_id''" for i g
      by (rule Cons.IH) (use Cons.prems in auto)
    show ?case
    proof (cases "ctl n")
      case (Some d)
      then have "ct_field d \<noteq> ''tenant_id''" using Cons.prems x by auto
      then show ?thesis using Some IH by (simp add: x drop_init_other)
    qed (simp add: x IH)
  qed simp
  have "map_of (snd (collect_filters rel ctl form (i, []))) ''tenant_id'' = None" for i
    using collect_blank_fs [of form ctl "''tenant_id''" rel i "[]"] assms(4) by fastforce
  moreover have "distinct (map fst (snd (collect_filters rel ctl form (i, []))))" for i by (rule distinct_collect) simp
  ultimately have "map_of (c_filters (snd (filter_list rel srv ex form ctl Q ?V))) ''tenant_id'' = Some v"
    using drop [OF assms(4)] f opened(1)
    by (simp add: filter_list_filters case_prod_beta map_of_jq_extend map_add_def)
  then show ?thesis using opened(2) by simp
qed

end
