(* ===== verification/Spec2Isabelle.thy ===== *)
theory Spec2Isabelle
  imports AclGroups Menu ViewsConf Util Requests Router Login ConfigTokens RoleEditor ListView ListFilter Editors
    WsChannels WsUpdates SaveModel Details TenantPurge Defaults AclTree UpWorkspaces UpSession Templates Messages Properties FilterNotes
begin

text \<open>
  \<^bold>\<open>A verification development of the two web applications of QVD: the administration panel (WAT)
  and the user portal.\<close>

  QVD serves virtual desktops. Its servers and clients (\<open>src/ext\<close>, \<open>src/nx\<close>, \<open>src/windows\<close>) are
  written in Perl, C and C++; administrators work with the panel under \<open>src/wat/lib\<close>, a single
  JavaScript page on jQuery, underscore and Backbone that talks to the administration API over
  HTTP. Users reach their desktops from the portal under \<open>src/up/lib\<close>, a page of the same make that talks
  to the API of users and starts the client of the desktop. These two are the programs modelled here: what an
  administrator is offered, what the pages keep about the session, the desktops and pending work, and
  what they send to the API.

  \<^bold>\<open>Parts of the program and where they are modelled\<close>

  \<^item> \<open>Prelude\<close>: JavaScript values (\<open>js\<close>), truthiness and loose equality, arrays (\<open>inArray\<close>, \<open>splice\<close>),
    objects as association lists in insertion order, and the effects of a handler (\<open>effect\<close>: calls
    of the API, cookies, changes of the page). \<open>JsText\<close>: numbers as text, \<open>parseInt\<close>,
    \<open>JSON.stringify\<close>, \<open>encodeURI\<close>.
  \<^item> \<open>Config\<close> (\<open>session/config.js\<close>): the record \<open>wat_c\<close> is the object \<open>Wat.C\<close>; \<open>checkACL\<close>,
    \<open>checkGroupACL\<close> and \<open>purgeConfigData\<close> are the access control on which every other part relies.
  \<^item> \<open>AclGroups\<close> (\<open>settings/acl-groups.js\<close>, \<open>constants/constants-acls.js\<close>): the predefined groups.
  \<^item> \<open>Menu\<close> (\<open>settings/menu.js\<close>, \<open>configureVisibility\<close> of \<open>session/config.js\<close>): the menus and what is
    removed from them.
  \<^item> \<open>ViewsConf\<close> (\<open>bb-views/proto-views.js\<close>, \<open>views/*.js\<close>, \<open>storeViewsConfiguration\<close>): the columns and
    filters an administrator customises.
  \<^item> \<open>Util\<close> (\<open>util/util.js\<close>, \<open>interface/interface-live.js\<close>, \<open>interface-messages.js\<close>): durations,
    countdowns, query parameters, the sort of ACL lists.
  \<^item> \<open>Requests\<close> (\<open>actions/actions.js\<close>, \<open>session/config.js\<close>): the queue of ajax requests and its abortion.
  \<^item> \<open>Router\<close> (\<open>bb-router/router.js\<close>) and \<open>Login\<close> (\<open>session/login.js\<close>): the record \<open>page\<close> is the state of a
    browser page; \<open>page_reach\<close> is the state machine of loading, answers of the API, the login form,
    navigation, logging out and expiration.
  \<^item> \<open>Pending\<close>: the contracts of the editors that collect changes, as the locales \<open>pending_queues\<close> and
    \<open>assignment_editor\<close>.
  \<^item> \<open>ConfigTokens\<close> (\<open>qvd-management/config-qvd.js\<close>): the view of the configuration tokens, two
    instances of \<open>pending_queues\<close>, and the chain of API calls that stores the changes.
  \<^item> \<open>RoleEditor\<close> (\<open>administrator-role-editor.js\<close>, \<open>role-editor.js\<close>, \<open>administrator-editor.js\<close>): the roles
    and templates of a role or administrator, two instances of \<open>assignment_editor\<close>.
  \<^item> \<open>ListView\<close> and \<open>ListFilter\<close> (\<open>bb-views/proto-list.js\<close>, \<open>proto-collection.js\<close>): pages, order,
    selection, actions on the selected items, filters and columns of a list.
  \<^item> \<open>Editors\<close> (\<open>proto-editor.js\<close>, \<open>platform/*-editor.js\<close>, \<open>wat-management/*-editor.js\<close>): the arguments
    of the calls that create and update elements, instances of the locale \<open>acl_fields\<close>.
  \<^item> \<open>WsChannels\<close> (\<open>websockets/websockets.js\<close>): opening and closing the channels through which the API
    announces changes, as a state machine of sockets, timers and views (\<open>ws_step\<close>). \<open>WsUpdates\<close>
    (\<open>websockets.js\<close>, \<open>websockets.vm.js\<close>, \<open>.user.js\<close>, \<open>.host.js\<close>, \<open>.osf.js\<close>, \<open>.di.js\<close>, \<open>.stats.js\<close>): what a message
    changes in the models and on the page.
  \<^item> \<open>SaveModel\<close> (\<open>bb-models/proto-model.js\<close>, \<open>bb-views/proto-main.js\<close>, \<open>actions/actions.js\<close>,
    \<open>binds/binds.js\<close>): reading, creating, updating and deleting an element, the answers of those
    calls, and the enforced deletion of elements with dependent ones.
  \<^item> \<open>Details\<close> (\<open>bb-views/proto-details.js\<close>, \<open>platform/*-details.js\<close>, \<open>wat-management/*-details.js\<close>):
    breadcrumbs, fields, properties and side lists of the details of an element, and the graph of
    its log. \<open>TenantPurge\<close> (\<open>wat-management/tenant-details.js\<close>): the dialog that deletes everything of a
    tenant, as a chain of readings and deletions.
  \<^item> \<open>DefaultsA\<close>, \<open>DefaultsB\<close> (\<open>settings/default-*.js\<close>): the tables of columns, filters, fields and actions,
    transcribed; \<open>Defaults\<close> (\<open>interface/interface.js\<close>): the configuration they build, as the values on
    which the other theories work.
  \<^item> \<open>AclTree\<close> (\<open>wat-management/role-details.js\<close>, \<open>administrator-details.js\<close>): the tree of ACLs of a role or
    administrator, with the requests its clicks send and the answers that come in any order.
  \<^item> \<open>UpDesktops\<close> (\<open>up/lib/bb-views/up/desktops.js\<close>, \<open>up/lib/crud/desktops.js\<close>): the desktops of a user, the timers of
    connection attempts and the options for the classic client. \<open>UpConnect\<close> (\<open>bb-views/up/desktop-connect.js\<close>,
    \<open>constants/constants-languages.js\<close>): the window of one desktop, its keyboard layout and its setup.
    \<open>UpWorkspaces\<close> (\<open>bb-views/up/settings.js\<close>, \<open>crud/workspace.js\<close>, \<open>interface/interface.js\<close>): workspaces, and the
    form of the settings of a workspace or desktop. \<open>UpSession\<close> (\<open>up/lib/session\<close>, \<open>bb-router\<close>, \<open>actions/actions.js\<close>): the
    page of the portal, its login form and its routes, with the requests of the session and their answers.
  \<^item> \<open>Templates\<close> (\<open>interface/interface-templates.js\<close> and \<open>actions/actions.js\<close> of both): the tables of templates and
    their parallel loading.
  \<^item> \<open>Messages\<close> (\<open>interface/interface-messages.js\<close> of both, \<open>binds/binds.js\<close>): the message box, its texts and its timer.
  \<^item> \<open>Selects\<close> (\<open>actions/actions.js\<close>, \<open>bb-views/proto-list.js\<close>): selects that the API fills, and the bar of filters of a list, whose
    filter of the tenant waits for the others. \<open>FilterNotes\<close> (\<open>bb-views/proto-list.js\<close>, \<open>binds/binds.js\<close>, \<open>interface/interface.js\<close>):
    the notes of the active filters, and the filters fixed from one list to the next.
  \<^item> \<open>Properties\<close> (\<open>wat-management/property.js\<close>, \<open>templates/list/property-list.tpl\<close>, and the part of \<open>ext/QVD-API\<close> that answers
    it): the list of properties and the calls that link them to kinds of element.

  \<^bold>\<open>How state and operations correspond to the code\<close>

  A definition has the name of the function it models, with a prefix or suffix where several files
  use one name (\<open>vm_updateElement\<close>, \<open>filter_list\<close>). Global objects are records and are passed and
  returned; \<open>C_x\<close> is \<open>Wat.C.x\<close>. A TypeError or ReferenceError of the language is an \<open>Inl\<close> result. What
  a handler does to the page is a list of effects in the order of the code; drawing is not
  interpreted further. The answer of the API, the translations of i18next, Backbone's decoding of
  an address and dates of the browser are parameters of the definitions that use them.

  \<^bold>\<open>What the theorems show\<close>

  \<^item> Access control: the purge of tables is exact and monotone, the check of groups fails exactly at
    an undefined group, menus hold exactly the allowed options, editors send only allowed fields
    (with the exceptions that are stated), and the page holds ACLs only within a session.
  \<^item> State machines with invariants by rule induction: the page (\<open>page_reach\<close>), the queue of
    requests, the pages of a list, the sessions of the role editor, the sockets, the purge of a
    tenant, the list of desktops (\<open>desk_reach\<close>, three instances of the locale \<open>portal_invariant\<close>), the window
    of a desktop (\<open>cv_reach\<close>), the tree of ACLs when clicks wait for answers (\<open>calm_reach\<close>), the session of the
    portal (\<open>up_reach\<close>), the loading of templates (\<open>ld_reach\<close>, with the locale \<open>named_templates\<close>), the message boxes (\<open>box_reach\<close>, two
    instances of the locale \<open>message_box\<close>), the view of the properties together with the API's table of links (\<open>prop_reach\<close>), the bar
    of filters (\<open>bar_reach\<close>).
  \<^item> Refinement: the two queues of token changes are one table of pending changes; the lists a role
    editor sends turn the initial roles into those it shows; the countdown is a decreasing number.
  \<^item> Termination and liveness: the chain of token calls ends and stores everything, fetching a list
    from any page lands on an existing one, accepted credentials lead to the home view, the loop of
    the log graph ends exactly when its interval is not empty, the enforced deletion tries every
    element once.
  \<^item> The tables: they are well-typed, name no undefined group of ACLs, and every action in them does
    something; the details views fail with them in one case only.
  \<^item> The portal: cells agree with their models, an attempt to connect ends after its forty seconds
    (and which desktop it ends, which timers stay), the settings go through the form unchanged, the
    keyboard layout is a known one, the setup of a desktop is asked for once, and nothing but the login
    form is shown before the API has answered.
  \<^item> Templates: the callback of a view runs exactly once, and finds the files its table names.
  \<^item> Messages, properties and the bar of filters: which message the box shows and when it goes, that the
    list of properties agrees with the table of links of the API (and the one link that stays
    behind), which selects of the bar wait for the filter of the tenant, and that the notes over a
    list say exactly what it is filtered by.
  \<^item> Behaviour that differs from the evident intention of the code is proved as it is and listed as
    a finding of the development.

  \<^bold>\<open>Bounds and fuel\<close>

  Recursion is structural or has a termination proof; the chain of token calls and the fetching
  of a list are functions whose measures are the length of the queue and the page asked for, so no
  fuel is involved. Numbers are unbounded integers: the panel counts ids, pages and seconds, far
  below the 2^53 up to which JavaScript numbers are exact. Characters are code units below 256.

  \<^bold>\<open>Not modelled\<close>

  Drawing (templates, graphs, dialogs, the style customizer, the noVNC adaptation), the third-party
  libraries under \<open>thirds\<close>, the disk image generator, the documentation viewer, and the servers and
  clients in other languages.

\<close>

section \<open>Session, access control and editors together\<close>

lemma login_form_no_acls:
  assumes "page_reach dec w" and "cur_class w = ''LoginView''"
  shows "granted (sC w) = {}"
  using page_reach_ok [OF assms(1)] assms(2) by (simp add: session_ok_def granted_def)



lemma logged_out_reached:
  "\<exists>w. page_reach (\<lambda>s. JObj []) w \<and> cur_class w = ''LoginView''"
proof -
  obtain w' es where "after_apiLogOut True (sample_page\<lparr>sC := (wat_c_init [])\<lparr>C_loggedIn := True\<rparr>\<rparr>) = Inr (w', es)"
    and "cur_class w' = ''LoginView''"
    using after_apiLogOut_shown by blast
  with page_reach.logout [OF sample_page_loaded] show ?thesis by blast
qed


end
